(* ===== verification/Prelude.thy ===== *)
theory Prelude
  imports Main "HOL-Library.AList"
begin

section \<open>Shared vocabulary of the gateway model\<close>

text \<open>
  What every component of the model uses: the result type of a Go function that returns
  \<open>(T, error)\<close>, Go maps as association lists, and the simplification collections the
  component theories extend.

  A Go map is modelled as an association list with distinct keys. The order of the list is the
  order in which one \<^verbatim>\<open>range\<close> loop visits the map; Go leaves that order open, so a lemma that
  holds for every list with the same bindings is a lemma about every iteration order.
  A nil map and an empty map are both the empty list: the code under \<^verbatim>\<open>src/\<close> only reads
  their length and their entries.
\<close>

named_theorems gomap_simps \<open>lookups and keys after the map operations\<close>
named_theorems gostring_simps \<open>facts on the string operations\<close>
named_theorems header_simps \<open>lookups in HTTP header maps\<close>

subsection \<open>Results\<close>

text \<open>\<open>Inl e\<close> is a returned error, \<open>Inr x\<close> a returned value.\<close>

type_synonym ('e, 'a) res = "'e + 'a"

definition res_bind :: "('e, 'a) res \<Rightarrow> ('a \<Rightarrow> ('e, 'b) res) \<Rightarrow> ('e, 'b) res" where
  "res_bind r f = (case r of Inl e \<Rightarrow> Inl e | Inr x \<Rightarrow> f x)"

lemma res_bind_simps [simp]:
  "res_bind (Inl e) f = Inl e"
  "res_bind (Inr x) f = f x"
  by (simp_all add: res_bind_def)

lemma res_bind_Inr_iff:
  "res_bind r f = Inr y \<longleftrightarrow> (\<exists>x. r = Inr x \<and> f x = Inr y)"
  by (cases r) auto

fun is_ok :: "('e, 'a) res \<Rightarrow> bool" where
  "is_ok (Inl e) = False"
| "is_ok (Inr x) = True"

text \<open>A loop that maps a fallible function over a list and stops at the first error.\<close>

fun res_mapM :: "('a \<Rightarrow> ('e, 'b) res) \<Rightarrow> 'a list \<Rightarrow> ('e, 'b list) res" where
  "res_mapM f [] = Inr []"
| "res_mapM f (x # xs) =
     (case f x of
        Inl e \<Rightarrow> Inl e
      | Inr y \<Rightarrow> (case res_mapM f xs of Inl e \<Rightarrow> Inl e | Inr ys \<Rightarrow> Inr (y # ys)))"

lemma res_mapM_Inr_iff:
  "res_mapM f xs = Inr ys \<longleftrightarrow> list_all2 (\<lambda>x y. f x = Inr y) xs ys"
proof (induction xs arbitrary: ys)
  case (Cons x xs)
  show ?case
  proof (cases "f x")
    case (Inr y)
    show ?thesis
    proof (cases "res_mapM f xs")
      case (Inl e)
      then have "\<nexists>zs. list_all2 (\<lambda>x y. f x = Inr y) xs zs"
        using Cons.IH by auto
      with Inr Inl show ?thesis by (auto simp: list_all2_Cons1)
    next
      case (Inr zs)
      then have "list_all2 (\<lambda>x y. f x = Inr y) xs ws \<longleftrightarrow> ws = zs" for ws
        using Cons.IH [of ws] by auto
      with \<open>f x = Inr y\<close> Inr show ?thesis by (auto simp: list_all2_Cons1)
    qed
  qed (auto simp: list_all2_Cons1)
qed auto

lemma res_mapM_length: "res_mapM f xs = Inr ys \<Longrightarrow> length ys = length xs"
  by (auto simp: res_mapM_Inr_iff dest: list_all2_lengthD)

lemma res_mapM_nth:
  "res_mapM f xs = Inr ys \<Longrightarrow> i < length xs \<Longrightarrow> f (xs ! i) = Inr (ys ! i)"
  by (auto simp: res_mapM_Inr_iff dest: list_all2_nthD)

lemma res_mapM_Inl:
  "res_mapM f xs = Inl e \<Longrightarrow> \<exists>x \<in> set xs. f x = Inl e"
  by (induction xs) (auto split: sum.splits)

subsection \<open>Go maps\<close>

type_synonym ('k, 'v) gomap = "('k \<times> 'v) list"

definition gm_wf :: "('k, 'v) gomap \<Rightarrow> bool" where
  "gm_wf m = distinct (map fst m)"

definition gm_keys :: "('k, 'v) gomap \<Rightarrow> 'k list" where
  "gm_keys m = map fst m"

text \<open>\<open>v, ok := m[k]\<close>; and \<open>m[k]\<close> alone, which is the zero value when the key is missing.\<close>

definition gm_get :: "('k, 'v) gomap \<Rightarrow> 'k \<Rightarrow> 'v option" where
  "gm_get m k = map_of m k"

definition gm_getd :: "'v \<Rightarrow> ('k, 'v) gomap \<Rightarrow> 'k \<Rightarrow> 'v" where
  "gm_getd z m k = (case gm_get m k of None \<Rightarrow> z | Some v \<Rightarrow> v)"

text \<open>\<open>m[k] = v\<close> and \<open>delete(m, k)\<close>.\<close>

definition gm_set :: "'k \<Rightarrow> 'v \<Rightarrow> ('k, 'v) gomap \<Rightarrow> ('k, 'v) gomap" where
  "gm_set k v m = AList.update k v m"

definition gm_del :: "'k \<Rightarrow> ('k, 'v) gomap \<Rightarrow> ('k, 'v) gomap" where
  "gm_del k m = filter (\<lambda>(k', _). k' \<noteq> k) m"

lemma gm_get_Nil [simp]: "gm_get [] k = None"
  by (simp add: gm_get_def)

lemma gm_get_Cons [simp]: "gm_get ((k', v) # m) k = (if k' = k then Some v else gm_get m k)"
  by (simp add: gm_get_def)

lemma gm_get_set [simp, gomap_simps]:
  "gm_get (gm_set k v m) k' = (if k = k' then Some v else gm_get m k')"
  by (simp add: gm_get_def gm_set_def update_conv')

lemma gm_get_del [simp, gomap_simps]:
  "gm_get (gm_del k m) k' = (if k = k' then None else gm_get m k')"
  by (induction m) (auto simp: gm_get_def gm_del_def)

lemma gm_wf_Nil [simp, gomap_simps]: "gm_wf []"
  by (simp add: gm_wf_def)

lemma gm_wf_Cons [simp]: "gm_wf ((k, v) # m) \<longleftrightarrow> k \<notin> set (gm_keys m) \<and> gm_wf m"
  by (simp add: gm_wf_def gm_keys_def)

lemma gm_wf_set [simp, gomap_simps]: "gm_wf m \<Longrightarrow> gm_wf (gm_set k v m)"
  by (simp add: gm_wf_def gm_set_def distinct_update)

lemma gm_wf_del [simp, gomap_simps]: "gm_wf m \<Longrightarrow> gm_wf (gm_del k m)"
  unfolding gm_wf_def gm_del_def by (induction m) auto

lemma gm_keys_set [gomap_simps]: "set (gm_keys (gm_set k v m)) = insert k (set (gm_keys m))"
  by (induction m) (auto simp: gm_keys_def gm_set_def)

lemma gm_keys_Nil [simp]: "gm_keys [] = []"
  by (simp add: gm_keys_def)

lemma gm_keys_Cons [simp]: "gm_keys ((k, v) # m) = k # gm_keys m"
  by (simp add: gm_keys_def)

lemma gm_keys_del [gomap_simps]: "set (gm_keys (gm_del k m)) = set (gm_keys m) - {k}"
  by (auto simp: gm_keys_def gm_del_def image_iff)

lemma gm_get_keys: "k \<in> set (gm_keys m) \<longleftrightarrow> (\<exists>v. gm_get m k = Some v)"
  by (induction m) (auto simp: gm_get_def gm_keys_def)

lemma gm_get_None: "gm_get m k = None \<longleftrightarrow> k \<notin> set (gm_keys m)"
  by (auto simp: gm_get_keys)

lemma gm_get_in: "gm_wf m \<Longrightarrow> gm_get m k = Some v \<longleftrightarrow> (k, v) \<in> set m"
  by (simp add: gm_get_def gm_wf_def map_of_eq_Some_iff)

lemma gm_get_mem: "gm_get m k = Some v \<Longrightarrow> (k, v) \<in> set m"
  by (simp add: gm_get_def map_of_SomeD)

text \<open>Two iteration orders of one map give the same lookups.\<close>

lemma gm_get_perm:
  assumes "gm_wf m" "gm_wf m'" "set m = set m'"
  shows "gm_get m = gm_get m'"
proof
  fix k
  show "gm_get m k = gm_get m' k"
    using assms by (metis gm_get_in not_Some_eq)
qed

lemma gm_getd_set [simp]: "gm_getd z (gm_set k v m) k' = (if k = k' then v else gm_getd z m k')"
  by (simp add: gm_getd_def)

lemma gm_set_new: "gm_get m k = None \<Longrightarrow> gm_set k v m = m @ [(k, v)]"
  by (induction m) (auto simp: gm_set_def split: if_splits)

text \<open>The bindings of a map as a set, what an unordered reader of the map sees.\<close>

lemma gm_set_of_set:
  "gm_wf m \<Longrightarrow> set (gm_set k v m) = insert (k, v) {e \<in> set m. fst e \<noteq> k}"
  by (induction m) (force simp: gm_set_def gm_keys_def)+

subsection \<open>Lists\<close>

text \<open>The first element that satisfies a predicate: a \<open>for\<close> loop that returns early.\<close>

lemma find_Some_first:
  "find P xs = Some x \<Longrightarrow> \<exists>ys zs. xs = ys @ x # zs \<and> P x \<and> (\<forall>y \<in> set ys. \<not> P y)"
  unfolding find_Some_iff
  by (metis (no_types, lifting) id_take_nth_drop in_set_conv_nth length_take min.absorb4 nth_take)

lemma find_cong_perm:
  assumes "\<And>x y. x \<in> set xs \<Longrightarrow> y \<in> set xs \<Longrightarrow> P x \<Longrightarrow> P y \<Longrightarrow> x = y" "set xs = set ys"
  shows "find P xs = find P ys"
proof (cases "find P xs")
  case None
  with assms(2) show ?thesis by (metis find_None_iff)
next
  case (Some x)
  then have x: "x \<in> set xs" "P x" by (auto simp: find_Some_iff)
  then obtain y where y: "find P ys = Some y"
    using assms(2) by (metis find_None_iff not_Some_eq)
  then have "y \<in> set xs" "P y" using assms(2) by (auto simp: find_Some_iff)
  with x assms(1) Some y show ?thesis by auto
qed

subsection \<open>64-bit signed integers\<close>

text \<open>The value an \<^verbatim>\<open>int64\<close> holds after an operation whose exact result is \<open>i\<close>.\<close>

definition wrap64 :: "int \<Rightarrow> int" where
  "wrap64 i = (i + 2 ^ 63) mod 2 ^ 64 - 2 ^ 63"

lemma wrap64_id: "- (2 ^ 63) \<le> i \<Longrightarrow> i < 2 ^ 63 \<Longrightarrow> wrap64 i = i"
  by (simp add: wrap64_def)

lemma wrap64_range: "- (2 ^ 63) \<le> wrap64 i \<and> wrap64 i < 2 ^ 63"
  by (simp add: wrap64_def)

end
