(* ===== verification/GoStrings.thy ===== *)
theory GoStrings
  imports Prelude "HOL-Library.Sublist" "HOL-Library.Char_ord" "HOL-Library.List_Lexorder"
begin

section \<open>The Go string operations the program uses\<close>

text \<open>
  A Go string is a sequence of bytes and a \<open>string\<close> of the model is a list of \<open>char\<close>, one per
  byte, so \<open>length\<close> is Go's \<^verbatim>\<open>len\<close>. The order of \<open>Char_ord\<close> and \<open>List_Lexorder\<close> is the bytewise
  order of Go's \<^verbatim>\<open><\<close>, so \<^verbatim>\<open>sort.Strings\<close> is the library's \<open>sort\<close>.
  \<^verbatim>\<open>strings.HasPrefix\<close>, \<^verbatim>\<open>HasSuffix\<close> and \<^verbatim>\<open>Contains\<close> are the library's \<open>prefix\<close>, \<open>suffix\<close> and
  \<open>sublist\<close>. \<^verbatim>\<open>strings.ToLower\<close> is modelled on ASCII letters; bytes of other characters are left as
  they are.
\<close>

abbreviation HasPrefix :: "string \<Rightarrow> string \<Rightarrow> bool" where
  "HasPrefix s p \<equiv> prefix p s"

abbreviation HasSuffix :: "string \<Rightarrow> string \<Rightarrow> bool" where
  "HasSuffix s p \<equiv> suffix p s"

abbreviation Contains :: "string \<Rightarrow> string \<Rightarrow> bool" where
  "Contains s p \<equiv> sublist p s"

definition TrimPrefix :: "string \<Rightarrow> string \<Rightarrow> string" where
  "TrimPrefix s p = (if HasPrefix s p then drop (length p) s else s)"

definition TrimSuffix :: "string \<Rightarrow> string \<Rightarrow> string" where
  "TrimSuffix s p = (if HasSuffix s p then take (length s - length p) s else s)"

text \<open>\<^verbatim>\<open>strings.TrimRight(s, "c")\<close> and \<^verbatim>\<open>strings.TrimLeft(s, "c")\<close> for a one-byte cutset.\<close>

definition TrimRight :: "char \<Rightarrow> string \<Rightarrow> string" where
  "TrimRight c s = rev (dropWhile (\<lambda>d. d = c) (rev s))"

definition TrimLeft :: "char \<Rightarrow> string \<Rightarrow> string" where
  "TrimLeft c s = dropWhile (\<lambda>d. d = c) s"

lemma TrimPrefix_append [simp, gostring_simps]: "TrimPrefix (p @ s) p = s"
  by (simp add: TrimPrefix_def)

lemma TrimPrefix_split: "HasPrefix s p \<Longrightarrow> p @ TrimPrefix s p = s"
  by (auto simp: TrimPrefix_def prefix_def)

lemma TrimSuffix_append [simp, gostring_simps]: "TrimSuffix (s @ p) p = s"
  by (auto simp: TrimSuffix_def suffix_def)

lemma TrimSuffix_split: "HasSuffix s p \<Longrightarrow> TrimSuffix s p @ p = s"
  by (auto simp: TrimSuffix_def suffix_def)

lemma TrimRight_no_suffix: "\<not> HasSuffix (TrimRight c s) [c]"
proof
  assume "HasSuffix (TrimRight c s) [c]"
  then have "prefix [c] (dropWhile (\<lambda>d. d = c) (rev s))"
    by (simp add: TrimRight_def suffix_to_prefix)
  then obtain zs where "dropWhile (\<lambda>d. d = c) (rev s) = c # zs"
    by (auto simp: prefix_def)
  then show False
    using hd_dropWhile [of "\<lambda>d. d = c" "rev s"] by (metis list.discI list.sel(1))
qed

lemma TrimRight_id: "\<not> HasSuffix s [c] \<Longrightarrow> TrimRight c s = s"
  by (cases s rule: rev_cases) (auto simp: TrimRight_def)

lemma TrimRight_idem [simp]: "TrimRight c (TrimRight c s) = TrimRight c s"
  by (simp add: TrimRight_id TrimRight_no_suffix)

lemma TrimRight_snoc [simp]: "TrimRight c (s @ [c]) = TrimRight c s"
  by (simp add: TrimRight_def)

subsection \<open>TrimSpace\<close>

text \<open>
  \<^verbatim>\<open>strings.TrimSpace\<close> removes the characters for which \<^verbatim>\<open>unicode.IsSpace\<close> holds. \<open>go_spaces\<close> lists
  their UTF-8 encodings: the six ASCII ones, U+0085, U+00A0, U+1680, U+2000 to U+200A, U+2028,
  U+2029, U+202F, U+205F and U+3000. A string starts (ends) with such a character exactly when one
  of these encodings is a prefix (suffix) of its bytes.
\<close>

definition bytes :: "nat list \<Rightarrow> string" where
  "bytes ns = map char_of ns"

definition go_spaces :: "string list" where
  "go_spaces =
     map (\<lambda>n. bytes [n]) [9, 10, 11, 12, 13, 32] @
     [bytes [194, 133], bytes [194, 160], bytes [225, 154, 128]] @
     map (\<lambda>n. bytes [226, 128, n]) ([128, 129, 130, 131, 132, 133, 134, 135, 136, 137, 138] @ [168, 169, 175]) @
     [bytes [226, 129, 159], bytes [227, 128, 128]]"

function strip_front :: "string list \<Rightarrow> string \<Rightarrow> string" where
  "strip_front ps s =
     (case find (\<lambda>p. p \<noteq> [] \<and> prefix p s) ps of
        None \<Rightarrow> s
      | Some p \<Rightarrow> strip_front ps (drop (length p) s))"
  by pat_completeness auto
termination
  by (relation "measure (\<lambda>(ps, s). length s)")
    (auto simp: find_Some_iff dest: prefix_length_le intro!: diff_less split: list.splits)

declare strip_front.simps [simp del]

definition TrimSpace :: "string \<Rightarrow> string" where
  "TrimSpace s = rev (strip_front (map rev go_spaces) (rev (strip_front go_spaces s)))"

lemma strip_front_suffix: "suffix (strip_front ps s) s"
proof (induction ps s rule: strip_front.induct)
  case (1 ps s)
  show ?case
  proof (cases "find (\<lambda>p. p \<noteq> [] \<and> prefix p s) ps")
    case None
    then show ?thesis by (simp add: strip_front.simps [of ps s])
  next
    case (Some p)
    with 1 have "suffix (strip_front ps (drop (length p) s)) (drop (length p) s)" by simp
    then have "suffix (strip_front ps (drop (length p) s)) s"
      by (rule suffix_order.trans) (rule suffix_drop)
    with Some show ?thesis by (simp add: strip_front.simps [of ps s])
  qed
qed

lemma strip_front_clean: "p \<in> set ps \<Longrightarrow> p \<noteq> [] \<Longrightarrow> \<not> prefix p (strip_front ps s)"
proof (induction ps s rule: strip_front.induct)
  case (1 ps s)
  show ?case
  proof (cases "find (\<lambda>p. p \<noteq> [] \<and> prefix p s) ps")
    case None
    then have "strip_front ps s = s" by (simp add: strip_front.simps [of ps s])
    with None "1.prems" show ?thesis by (auto simp: find_None_iff)
  next
    case (Some q)
    with 1 show ?thesis by (simp add: strip_front.simps [of ps s])
  qed
qed

lemma strip_front_id: "(\<And>p. p \<in> set ps \<Longrightarrow> p \<noteq> [] \<Longrightarrow> \<not> prefix p s) \<Longrightarrow> strip_front ps s = s"
proof -
  assume "\<And>p. p \<in> set ps \<Longrightarrow> p \<noteq> [] \<Longrightarrow> \<not> prefix p s"
  then have "find (\<lambda>p. p \<noteq> [] \<and> prefix p s) ps = None"
    by (auto simp: find_None_iff)
  then show ?thesis by (simp add: strip_front.simps [of ps s])
qed

lemma strip_front_Nil [simp]: "strip_front ps [] = []"
  by (rule strip_front_id) simp

text \<open>\<open>trimmed s\<close>: the string neither starts nor ends with white space.\<close>

definition trimmed :: "string \<Rightarrow> bool" where
  "trimmed s \<longleftrightarrow> (\<forall>p \<in> set go_spaces. \<not> prefix p s \<and> \<not> suffix p s)"

lemma go_spaces_nonempty: "p \<in> set go_spaces \<Longrightarrow> p \<noteq> []"
  by (auto simp: go_spaces_def bytes_def)

lemma trimmed_TrimSpace [simp]: "trimmed (TrimSpace s)"
proof -
  let ?f = "strip_front go_spaces s"
  let ?t = "TrimSpace s"
  have pre: "prefix ?t ?f"
    using strip_front_suffix [of "map rev go_spaces" "rev ?f"]
    by (simp add: TrimSpace_def suffix_to_prefix)
  have "\<not> prefix p ?t" if "p \<in> set go_spaces" for p
    using strip_front_clean [of p go_spaces s] that pre go_spaces_nonempty [of p]
    by (auto intro: prefix_order.trans)
  moreover have "\<not> suffix p ?t" if "p \<in> set go_spaces" for p
    using strip_front_clean [of "rev p" "map rev go_spaces" "rev ?f"] that go_spaces_nonempty [of p]
    by (simp add: TrimSpace_def suffix_to_prefix)
  ultimately show ?thesis by (simp add: trimmed_def)
qed

lemma TrimSpace_trimmed: "trimmed s \<Longrightarrow> TrimSpace s = s"
  unfolding TrimSpace_def
  by (subst strip_front_id, auto simp: trimmed_def)
    (subst strip_front_id, auto simp: suffix_to_prefix)

lemma TrimSpace_idem [simp, gostring_simps]: "TrimSpace (TrimSpace s) = TrimSpace s"
  by (simp add: TrimSpace_trimmed)

lemma trimmed_Nil [simp]: "trimmed []"
  by (auto simp: trimmed_def dest: go_spaces_nonempty)

lemma TrimSpace_Nil [simp]: "TrimSpace [] = []"
  by (simp add: TrimSpace_trimmed)

lemma TrimSpace_sublist: "sublist (TrimSpace s) s"
proof -
  have "prefix (TrimSpace s) (strip_front go_spaces s)"
    using strip_front_suffix [of "map rev go_spaces" "rev (strip_front go_spaces s)"]
    by (simp add: TrimSpace_def suffix_to_prefix)
  then have "sublist (TrimSpace s) (strip_front go_spaces s)" by (rule prefix_imp_sublist)
  moreover have "sublist (strip_front go_spaces s) s"
    by (rule suffix_imp_sublist [OF strip_front_suffix])
  ultimately show ?thesis by (rule sublist_order.order_trans)
qed

text \<open>
  A string of printable ASCII characters is trimmed: every encoding of \<open>go_spaces\<close> holds a byte
  that is not printable.
\<close>

definition graphic :: "char \<Rightarrow> bool" where
  "graphic c \<longleftrightarrow> 33 \<le> (of_char c :: nat) \<and> (of_char c :: nat) \<le> 126"

lemma trimmed_graphic: "list_all graphic s \<Longrightarrow> trimmed s"
proof -
  assume s: "list_all graphic s"
  have "\<exists>c \<in> set p. \<not> graphic c" if "p \<in> set go_spaces" for p
    using that by (auto simp: go_spaces_def bytes_def graphic_def)
  then show ?thesis
    using s unfolding trimmed_def list_all_iff
    by (metis in_mono set_mono_prefix set_mono_suffix)
qed

subsection \<open>Case, splitting and replacing\<close>

lemma go_spaces_ends: "p \<in> set go_spaces \<Longrightarrow> p \<noteq> [] \<and> \<not> graphic (hd p) \<and> \<not> graphic (last p)"
  unfolding go_spaces_def bytes_def graphic_def by auto

lemma trimmed_ends:
  assumes "s \<noteq> []" "graphic (hd s)" "graphic (last s)"
  shows "trimmed s"
  unfolding trimmed_def
proof (intro ballI conjI notI)
  fix p assume p: "p \<in> set go_spaces"
  { assume "prefix p s"
    then have "hd p = hd s" using go_spaces_ends [OF p] by (auto simp: prefix_def)
    with go_spaces_ends [OF p] assms(2) show False by auto }
  { assume "suffix p s"
    then have "last p = last s" using go_spaces_ends [OF p] by (auto simp: suffix_def)
    with go_spaces_ends [OF p] assms(3) show False by auto }
qed

lemma TrimSpace_ends: "s \<noteq> [] \<Longrightarrow> graphic (hd s) \<Longrightarrow> graphic (last s) \<Longrightarrow> TrimSpace s = s"
  by (simp add: TrimSpace_trimmed trimmed_ends)

lemma TrimSpace_graphic: "list_all graphic s \<Longrightarrow> TrimSpace s = s"
  by (simp add: TrimSpace_trimmed trimmed_graphic)

definition char_lower :: "char \<Rightarrow> char" where
  "char_lower c = (let n = of_char c :: nat in if 65 \<le> n \<and> n \<le> 90 then char_of (n + 32) else c)"

definition char_upper :: "char \<Rightarrow> char" where
  "char_upper c = (let n = of_char c :: nat in if 97 \<le> n \<and> n \<le> 122 then char_of (n - 32) else c)"

definition ToLower :: "string \<Rightarrow> string" where
  "ToLower s = map char_lower s"

lemma char_lower_idem [simp]: "char_lower (char_lower c) = char_lower c"
  by (simp add: char_lower_def Let_def)

lemma ToLower_idem [simp, gostring_simps]: "ToLower (ToLower s) = ToLower s"
  by (simp add: ToLower_def)

lemma ToLower_Nil_iff [simp]: "ToLower s = [] \<longleftrightarrow> s = []"
  by (simp add: ToLower_def)

text \<open>\<^verbatim>\<open>strings.Split(s, "c")\<close> for a one-byte separator: one part more than separators.\<close>

fun Split :: "char \<Rightarrow> string \<Rightarrow> string list" where
  "Split c [] = [[]]"
| "Split c (d # s) =
     (if d = c then [] # Split c s
      else (case Split c s of [] \<Rightarrow> [[d]] | p # ps \<Rightarrow> (d # p) # ps))"

lemma Split_nonempty [simp]: "Split c s \<noteq> []"
  by (induction s) (auto split: list.splits)

lemma Split_notin: "c \<notin> set s \<Longrightarrow> Split c s = [s]"
  by (induction s) auto

lemma Split_append: "c \<notin> set s \<Longrightarrow> Split c (s @ c # t) = s # Split c t"
  by (induction s) auto

lemma length_Split: "length (Split c s) = Suc (count_list s c)"
  by (induction s) (auto split: list.splits)

lemma Split_parts: "p \<in> set (Split c s) \<Longrightarrow> c \<notin> set p"
  by (induction s arbitrary: p) (fastforce split: list.splits if_splits)+

fun Join :: "string list \<Rightarrow> string \<Rightarrow> string" where
  "Join [] sep = []"
| "Join [s] sep = s"
| "Join (s # t # ss) sep = s @ sep @ Join (t # ss) sep"

lemma Join_Split [simp]: "Join (Split c s) [c] = s"
proof (induction s)
  case (Cons d s)
  then show ?case by (cases "Split c s" rule: list.exhaust; cases "tl (Split c s)") auto
qed simp

text \<open>\<^verbatim>\<open>strings.Index(s, "c")\<close> for one byte: the position of its first occurrence.\<close>

fun Index :: "char \<Rightarrow> string \<Rightarrow> nat option" where
  "Index c [] = None"
| "Index c (d # s) = (if d = c then Some 0 else map_option Suc (Index c s))"

lemma Index_Some:
  "Index c s = Some i \<Longrightarrow> i < length s \<and> s ! i = c \<and> c \<notin> set (take i s)"
  by (induction s arbitrary: i) (auto split: if_splits)

lemma Index_append: "c \<notin> set s \<Longrightarrow> Index c (s @ c # t) = Some (length s)"
  by (induction s) auto

lemma Index_None: "Index c s = None \<longleftrightarrow> c \<notin> set s"
  by (induction s) auto

text \<open>\<^verbatim>\<open>strings.Cut(s, "c")\<close>: what is before and after the first separator, if there is one.\<close>

definition Cut :: "char \<Rightarrow> string \<Rightarrow> (string \<times> string) option" where
  "Cut c s = map_option (\<lambda>i. (take i s, drop (Suc i) s)) (Index c s)"

lemma Cut_append: "c \<notin> set s \<Longrightarrow> Cut c (s @ c # t) = Some (s, t)"
  by (simp add: Cut_def Index_append)

text \<open>\<^verbatim>\<open>strings.ReplaceAll\<close>, for a search string that is not empty.\<close>

function ReplaceAll :: "string \<Rightarrow> string \<Rightarrow> string \<Rightarrow> string" where
  "ReplaceAll [] old new = []"
| "ReplaceAll (c # s) old new =
     (if old \<noteq> [] \<and> prefix old (c # s) then new @ ReplaceAll (drop (length old) (c # s)) old new
      else c # ReplaceAll s old new)"
  by pat_completeness auto
termination
  by (relation "measure (\<lambda>(s, old, new). length s)") auto

lemma ReplaceAll_absent: "\<not> Contains s old \<Longrightarrow> ReplaceAll s old new = s"
proof (induction s old new rule: ReplaceAll.induct)
  case (2 c s old new)
  from "2.prems" have "\<not> prefix old (c # s)" "\<not> Contains s old"
    by (auto dest: prefix_imp_sublist simp: sublist_Cons_right)
  with 2 show ?case by simp
qed simp

subsection \<open>Decimal integers\<close>

text \<open>
  \<^verbatim>\<open>%d\<close> and \<^verbatim>\<open>strconv.ParseInt(s, 10, 64)\<close>. The parse takes an optional sign and at least one
  digit, and is an error outside the range of \<^verbatim>\<open>int64\<close>.
\<close>

definition digit_char :: "nat \<Rightarrow> char" where
  "digit_char d = char_of (48 + d)"

definition is_digit :: "char \<Rightarrow> bool" where
  "is_digit c \<longleftrightarrow> 48 \<le> (of_char c :: nat) \<and> (of_char c :: nat) \<le> 57"

definition digit_val :: "char \<Rightarrow> nat" where
  "digit_val c = of_char c - 48"

fun show_nat :: "nat \<Rightarrow> string" where
  "show_nat n = (if n < 10 then [digit_char n] else show_nat (n div 10) @ [digit_char (n mod 10)])"

declare show_nat.simps [simp del]

definition dec_val :: "string \<Rightarrow> nat" where
  "dec_val ds = foldl (\<lambda>a c. 10 * a + digit_val c) 0 ds"

definition show_int :: "int \<Rightarrow> string" where
  "show_int i = (if i < 0 then CHR ''-'' # show_nat (nat (- i)) else show_nat (nat i))"

definition ParseInt :: "string \<Rightarrow> int option" where
  "ParseInt s =
     (let (neg, ds) =
        (case s of
           [] \<Rightarrow> (False, [])
         | c # r \<Rightarrow> if c = CHR ''+'' then (False, r) else if c = CHR ''-'' then (True, r) else (False, s))
      in if ds = [] \<or> \<not> list_all is_digit ds then None
         else if neg then (if dec_val ds \<le> 2 ^ 63 then Some (- int (dec_val ds)) else None)
         else (if dec_val ds < 2 ^ 63 then Some (int (dec_val ds)) else None))"

lemma digit_char_props [simp]:
  "d < 10 \<Longrightarrow> is_digit (digit_char d)"
  "d < 10 \<Longrightarrow> digit_val (digit_char d) = d"
  by (simp_all add: is_digit_def digit_char_def digit_val_def)

lemma show_nat_digits [simp]: "list_all is_digit (show_nat n)"
proof (induction n rule: show_nat.induct)
  case (1 n)
  then show ?case by (subst show_nat.simps) simp
qed

lemma show_nat_nonempty [simp]: "show_nat n \<noteq> []"
  by (subst show_nat.simps) simp

lemma dec_val_snoc: "dec_val (ds @ [c]) = 10 * dec_val ds + digit_val c"
  by (simp add: dec_val_def)

lemma dec_val_show_nat [simp]: "dec_val (show_nat n) = n"
proof (induction n rule: show_nat.induct)
  case (1 n)
  show ?case
  proof (cases "n < 10")
    case True
    then show ?thesis by (subst show_nat.simps) (simp add: dec_val_def)
  next
    case False
    with 1 have "dec_val (show_nat (n div 10) @ [digit_char (n mod 10)]) = n"
      by (simp add: dec_val_snoc)
    with False show ?thesis by (subst show_nat.simps) simp
  qed
qed

lemma is_digit_graphic: "is_digit c \<Longrightarrow> graphic c"
  by (simp add: is_digit_def graphic_def)

lemma show_nat_hd:
  obtains d r where "show_nat n = d # r" "is_digit d"
  using show_nat_digits [of n] show_nat_nonempty [of n]
  by (cases "show_nat n") auto

lemma ParseInt_digits:
  assumes "list_all is_digit s" "s \<noteq> []" "dec_val s < 2 ^ 63"
  shows "ParseInt s = Some (int (dec_val s))"
proof -
  obtain d r where s: "s = d # r" "is_digit d" using assms by (cases s) auto
  then have "d \<noteq> CHR ''+''" "d \<noteq> CHR ''-''" by (auto simp: is_digit_def)
  with assms s show ?thesis by (simp add: ParseInt_def)
qed

lemma ParseInt_show_nat: "n < 2 ^ 63 \<Longrightarrow> ParseInt (show_nat n) = Some (int n)"
  by (simp add: ParseInt_digits)

lemma ParseInt_show_int:
  assumes "- (2 ^ 63) \<le> i" "i < 2 ^ 63"
  shows "ParseInt (show_int i) = Some i"
proof (cases "i < 0")
  case True
  then have "nat (- i) \<le> 2 ^ 63" using assms by (simp add: nat_le_iff)
  with True show ?thesis by (simp add: show_int_def ParseInt_def)
next
  case False
  then have "nat i < 2 ^ 63" using assms by (simp add: nat_less_iff)
  with False show ?thesis by (simp add: show_int_def ParseInt_show_nat)
qed

lemma ParseInt_range: "ParseInt s = Some i \<Longrightarrow> - (2 ^ 63) \<le> i \<and> i < 2 ^ 63"
  by (auto simp: ParseInt_def Let_def split: list.splits if_splits)

end
