(* ===== verification/GoHttp.thy ===== *)
theory GoHttp
  imports GoStrings
begin

section \<open>HTTP headers, requests and responses\<close>

text \<open>
  \<^verbatim>\<open>http.Header\<close> is a Go map from canonical header names to lists of values.
  \<^verbatim>\<open>Get\<close>, \<^verbatim>\<open>Set\<close>, \<^verbatim>\<open>Add\<close> and \<^verbatim>\<open>Del\<close> canonicalise the name they are given
  (\<^verbatim>\<open>textproto.CanonicalMIMEHeaderKey\<close>): the first letter and each letter after a hyphen in upper
  case, the others in lower case; a name that holds a byte no header name may hold is left as it is.
\<close>

type_synonym header = "(string, string list) gomap"

definition token_char :: "char \<Rightarrow> bool" where
  "token_char c \<longleftrightarrow>
     (let n = of_char c :: nat in
      48 \<le> n \<and> n \<le> 57 \<or> 65 \<le> n \<and> n \<le> 90 \<or> 97 \<le> n \<and> n \<le> 122 \<or>
      n \<in> set [33, 35, 36, 37, 38, 39, 42, 43, 45, 46, 94, 95, 96, 124, 126])"

fun canon_from :: "bool \<Rightarrow> string \<Rightarrow> string" where
  "canon_from upper [] = []"
| "canon_from upper (c # s) =
     (let c' = (if upper then char_upper c else char_lower c)
      in c' # canon_from (c' = CHR ''-'') s)"

definition CanonicalKey :: "string \<Rightarrow> string" where
  "CanonicalKey s = (if s \<noteq> [] \<and> list_all token_char s then canon_from True s else s)"

lemma of_char_upper:
  "(of_char (char_upper c) :: nat) =
     (if 97 \<le> (of_char c :: nat) \<and> (of_char c :: nat) \<le> 122 then of_char c - 32 else of_char c)"
  by (auto simp: char_upper_def Let_def)

lemma of_char_lower:
  "(of_char (char_lower c) :: nat) =
     (if 65 \<le> (of_char c :: nat) \<and> (of_char c :: nat) \<le> 90 then of_char c + 32 else of_char c)"
  by (auto simp: char_lower_def Let_def)

lemma char_upper_token [simp]: "token_char (char_upper c) = token_char c"
  by (simp add: token_char_def of_char_upper Let_def; linarith)

lemma char_lower_token [simp]: "token_char (char_lower c) = token_char c"
  by (simp add: token_char_def of_char_lower Let_def; linarith)

lemma canon_from_token [simp]: "list_all token_char (canon_from u s) = list_all token_char s"
  by (induction u s rule: canon_from.induct) (auto simp: Let_def)

lemma char_upper_idem [simp]: "char_upper (char_upper c) = char_upper c"
proof -
  have "(of_char (char_upper (char_upper c)) :: nat) = of_char (char_upper c)"
    by (auto simp: of_char_upper)
  then show ?thesis by (simp only: of_char_eq_iff)
qed

lemma canon_from_idem [simp]: "canon_from u (canon_from u s) = canon_from u s"
  by (induction u s rule: canon_from.induct) (auto simp: Let_def)

lemma canon_from_Nil_iff [simp]: "canon_from u s = [] \<longleftrightarrow> s = []"
  by (cases s) (auto simp: Let_def)

lemma CanonicalKey_idem [simp, header_simps]: "CanonicalKey (CanonicalKey s) = CanonicalKey s"
  by (simp add: CanonicalKey_def)

definition h_values :: "header \<Rightarrow> string \<Rightarrow> string list" where
  "h_values h k = gm_getd [] h (CanonicalKey k)"

definition h_Get :: "header \<Rightarrow> string \<Rightarrow> string" where
  "h_Get h k = (case h_values h k of [] \<Rightarrow> [] | v # _ \<Rightarrow> v)"

definition h_Set :: "string \<Rightarrow> string \<Rightarrow> header \<Rightarrow> header" where
  "h_Set k v h = gm_set (CanonicalKey k) [v] h"

definition h_Add :: "string \<Rightarrow> string \<Rightarrow> header \<Rightarrow> header" where
  "h_Add k v h = gm_set (CanonicalKey k) (h_values h k @ [v]) h"

definition h_Del :: "string \<Rightarrow> header \<Rightarrow> header" where
  "h_Del k h = gm_del (CanonicalKey k) h"

text \<open>What a server hands to a handler: distinct canonical names.\<close>

definition h_canonical :: "header \<Rightarrow> bool" where
  "h_canonical h \<longleftrightarrow> gm_wf h \<and> (\<forall>k \<in> set (gm_keys h). CanonicalKey k = k)"

lemma h_values_Set [simp, header_simps]:
  "h_values (h_Set k v h) k' = (if CanonicalKey k = CanonicalKey k' then [v] else h_values h k')"
  by (simp add: h_values_def h_Set_def)

lemma h_values_Add [simp, header_simps]:
  "h_values (h_Add k v h) k' =
     (if CanonicalKey k = CanonicalKey k' then h_values h k' @ [v] else h_values h k')"
  by (auto simp: h_values_def h_Add_def)

lemma h_values_Del [simp, header_simps]:
  "h_values (h_Del k h) k' = (if CanonicalKey k = CanonicalKey k' then [] else h_values h k')"
  by (simp add: h_values_def h_Del_def gm_getd_def)

lemma h_values_Nil [simp]: "h_values [] k = []"
  by (simp add: h_values_def gm_getd_def)

lemma h_values_canon: "CanonicalKey k = CanonicalKey k' \<Longrightarrow> h_values h k = h_values h k'"
  by (simp add: h_values_def)

lemma h_Get_Set [simp, header_simps]:
  "h_Get (h_Set k v h) k' = (if CanonicalKey k = CanonicalKey k' then v else h_Get h k')"
  by (simp add: h_Get_def)

lemma h_Get_Del [simp, header_simps]:
  "h_Get (h_Del k h) k' = (if CanonicalKey k = CanonicalKey k' then [] else h_Get h k')"
  by (simp add: h_Get_def)

lemma h_canonical_Nil [simp]: "h_canonical []"
  by (simp add: h_canonical_def)

lemma h_canonical_Set [simp, header_simps]: "h_canonical h \<Longrightarrow> h_canonical (h_Set k v h)"
  by (auto simp: h_canonical_def h_Set_def gm_keys_set)

lemma h_canonical_Add [simp, header_simps]: "h_canonical h \<Longrightarrow> h_canonical (h_Add k v h)"
  by (auto simp: h_canonical_def h_Add_def gm_keys_set)

lemma h_canonical_Del [simp, header_simps]: "h_canonical h \<Longrightarrow> h_canonical (h_Del k h)"
  by (auto simp: h_canonical_def h_Del_def gm_keys_del)

text \<open>\<open>for k, vals := range src { for _, v := range vals { dst.Add(k, v) } }\<close>\<close>

definition h_add_all :: "header \<Rightarrow> header \<Rightarrow> header" where
  "h_add_all dst src = fold (\<lambda>(k, vs) h. fold (\<lambda>v h. h_Add k v h) vs h) src dst"

lemma fold_h_Add_values:
  "h_values (fold (\<lambda>v h. h_Add k v h) vs h) k' =
     h_values h k' @ (if CanonicalKey k = CanonicalKey k' then vs else [])"
  by (induction vs arbitrary: h) auto

lemma fold_h_Add_canonical: "h_canonical h \<Longrightarrow> h_canonical (fold (\<lambda>v h. h_Add k v h) vs h)"
  by (induction vs arbitrary: h) auto

lemma h_add_all_canonical: "h_canonical dst \<Longrightarrow> h_canonical (h_add_all dst src)"
  unfolding h_add_all_def
  by (induction src arbitrary: dst) (auto simp: fold_h_Add_canonical)

lemma h_add_all_values:
  assumes "h_canonical src"
  shows "h_values (h_add_all dst src) k = h_values dst k @ h_values src k"
  using assms
proof (induction src arbitrary: dst)
  case Nil
  then show ?case by (simp add: h_add_all_def)
next
  case (Cons e src)
  obtain k' vs where e: "e = (k', vs)" by (cases e)
  let ?dst = "fold (\<lambda>v h. h_Add k' v h) vs dst"
  from Cons.prems e have c: "h_canonical src" "CanonicalKey k' = k'" "k' \<notin> set (gm_keys src)"
    by (auto simp: h_canonical_def)
  have "h_values (h_add_all dst (e # src)) k = h_values (h_add_all ?dst src) k"
    by (simp add: h_add_all_def e)
  also have "\<dots> = h_values ?dst k @ h_values src k" using Cons.IH c by blast
  also have "\<dots> = h_values dst k @ h_values (e # src) k"
    using c gm_get_None [of src k'] fold_h_Add_values [of k' vs dst k]
    by (auto simp: h_values_def [of "(k', vs) # src"] h_values_def [of src] e gm_getd_def)
  finally show ?case .
qed

subsection \<open>Requests and responses\<close>

text \<open>
  The body of an outbound request that is \<^verbatim>\<open>nil\<close> is \<open>None\<close>. \<open>rq_path\<close> is \<^verbatim>\<open>URL.Path\<close>,
  \<open>rq_escaped\<close> is \<^verbatim>\<open>URL.EscapedPath()\<close>, \<open>rq_query\<close> the parsed query of the URL.
\<close>

record request =
  rq_method :: string
  rq_path :: string
  rq_escaped :: string
  rq_query :: "(string, string list) gomap"
  rq_header :: header
  rq_body :: string

text \<open>
  A response body is \<open>None\<close> when the field is nil; otherwise it is the bytes the reader delivers and whether it
  ends with \<^verbatim>\<open>io.EOF\<close> (\<open>True\<close>) or with another error.
\<close>

record response =
  rs_status :: int
  rs_header :: header
  rs_body :: "(string \<times> bool) option"

record out_request =
  or_method :: string
  or_url :: string
  or_header :: header
  or_body :: "string option"

text \<open>\<^verbatim>\<open>internal/limits/limits.go\<close>: 32 MiB.\<close>

definition MaxRequestBody :: nat where "MaxRequestBody = 32 * 2 ^ 20"

abbreviation MethodGet :: string where "MethodGet \<equiv> ''GET''"
abbreviation MethodPost :: string where "MethodPost \<equiv> ''POST''"
abbreviation MethodDelete :: string where "MethodDelete \<equiv> ''DELETE''"

abbreviation StatusOK :: int where "StatusOK \<equiv> 200"
abbreviation StatusNoContent :: int where "StatusNoContent \<equiv> 204"
abbreviation StatusBadRequest :: int where "StatusBadRequest \<equiv> 400"
abbreviation StatusUnauthorized :: int where "StatusUnauthorized \<equiv> 401"
abbreviation StatusPaymentRequired :: int where "StatusPaymentRequired \<equiv> 402"
abbreviation StatusForbidden :: int where "StatusForbidden \<equiv> 403"
abbreviation StatusNotFound :: int where "StatusNotFound \<equiv> 404"
abbreviation StatusMethodNotAllowed :: int where "StatusMethodNotAllowed \<equiv> 405"
abbreviation StatusTooManyRequests :: int where "StatusTooManyRequests \<equiv> 429"
abbreviation StatusInternalServerError :: int where "StatusInternalServerError \<equiv> 500"
abbreviation StatusBadGateway :: int where "StatusBadGateway \<equiv> 502"
abbreviation StatusServiceUnavailable :: int where "StatusServiceUnavailable \<equiv> 503"
abbreviation StatusGatewayTimeout :: int where "StatusGatewayTimeout \<equiv> 504"

end
