(* ===== verification/Scopes.thy ===== *)
theory Scopes
  imports GoStrings
begin

section \<open>Gateway key scopes\<close>

text \<open>
  \<^verbatim>\<open>ingress/keyring/scopes.go\<close>: which models and wires the scopes of a gateway key allow.
  \<open>Authorize\<close> guards a request, \<open>FilterModels\<close> the model list; \<open>FilterModels_Authorize\<close> shows that
  the two agree.
\<close>

datatype scope_error = ErrForbidden

fun Authorize_loop :: "string list \<Rightarrow> string \<Rightarrow> string \<Rightarrow> (scope_error, unit) res" where
  "Authorize_loop [] model wire = Inl ErrForbidden"
| "Authorize_loop (s0 # rest) model wire =
     (let s = TrimSpace s0 in
      if s = '''' \<or> s = ''*'' then Inr ()
      else if s = ''model:'' @ model \<or> s = ''wire:'' @ wire then Inr ()
      else Authorize_loop rest model wire)"

definition Authorize :: "string list \<Rightarrow> string \<Rightarrow> string \<Rightarrow> (scope_error, unit) res" where
  "Authorize scopes model wire = (if scopes = [] then Inr () else Authorize_loop scopes model wire)"

fun FilterModels_loop :: "string list \<Rightarrow> string \<Rightarrow> string list \<Rightarrow> bool" where
  "FilterModels_loop [] modelID wires = False"
| "FilterModels_loop (s0 # rest) modelID wires =
     (let s = TrimSpace s0 in
      if s = '''' \<or> s = ''*'' then True
      else if s = ''model:'' @ modelID then True
      else if HasPrefix s ''wire:'' \<and> TrimPrefix s ''wire:'' \<in> set wires then True
      else FilterModels_loop rest modelID wires)"

definition FilterModels :: "string list \<Rightarrow> string \<Rightarrow> string list \<Rightarrow> bool" where
  "FilterModels scopes modelID wires = (if scopes = [] then True else FilterModels_loop scopes modelID wires)"

text \<open>The scopes that allow a request, one by one: what \<open>Authorize\<close> is meant to accept.\<close>

definition scope_grants :: "string \<Rightarrow> string \<Rightarrow> string \<Rightarrow> bool" where
  "scope_grants s model wire \<longleftrightarrow>
     TrimSpace s \<in> {'''', ''*'', ''model:'' @ model, ''wire:'' @ wire}"

lemma Authorize_loop_iff:
  "Authorize_loop scopes model wire = Inr () \<longleftrightarrow> (\<exists>s \<in> set scopes. scope_grants s model wire)"
  by (induction scopes) (auto simp: scope_grants_def Let_def)

lemma Authorize_iff:
  "Authorize scopes model wire = Inr () \<longleftrightarrow>
     scopes = [] \<or> (\<exists>s \<in> set scopes. scope_grants s model wire)"
  by (simp add: Authorize_def Authorize_loop_iff)

lemma Authorize_cases: "Authorize scopes model wire = Inr () \<or> Authorize scopes model wire = Inl ErrForbidden"
  by (cases "Authorize scopes model wire"; cases "projl (Authorize scopes model wire)") auto

lemma Authorize_error_iff:
  "Authorize scopes model wire = Inl ErrForbidden \<longleftrightarrow>
     scopes \<noteq> [] \<and> (\<forall>s \<in> set scopes. \<not> scope_grants s model wire)"
  using Authorize_iff [of scopes model wire] Authorize_cases [of scopes model wire] by auto

lemma wire_scope_iff:
  "HasPrefix s ''wire:'' \<and> TrimPrefix s ''wire:'' \<in> set wires \<longleftrightarrow> (\<exists>w \<in> set wires. s = ''wire:'' @ w)"
  by (metis TrimPrefix_append TrimPrefix_split prefixI)

lemma FilterModels_loop_iff:
  "FilterModels_loop scopes m wires \<longleftrightarrow>
     (\<exists>s \<in> set scopes. TrimSpace s \<in> {'''', ''*'', ''model:'' @ m} \<or> (\<exists>w \<in> set wires. TrimSpace s = ''wire:'' @ w))"
  by (induction scopes) (auto simp: Let_def wire_scope_iff simp del: append.simps)

text \<open>A scope list only ever loses access when scopes are taken from it, unless it becomes empty.\<close>

lemma Authorize_mono:
  "Authorize scopes m w = Inr () \<Longrightarrow> scopes \<noteq> [] \<Longrightarrow> set scopes \<subseteq> set scopes' \<Longrightarrow> Authorize scopes' m w = Inr ()"
  by (auto simp: Authorize_iff)

text \<open>
  The model list shows a model exactly when a request for it is
  allowed on one of its wires.
\<close>

lemma FilterModels_eq:
  "wires \<noteq> [] \<Longrightarrow> FilterModels scopes m wires \<longleftrightarrow> (\<exists>w \<in> set wires. Authorize scopes m w = Inr ())"
  by (cases wires) (auto simp: FilterModels_def FilterModels_loop_iff Authorize_iff scope_grants_def)

end
