(* ===== verification/Catalog.thy ===== *)
theory Catalog
  imports GoHttp Scopes "HOL-Library.Word" "HOL-Library.Signed_Division" "HOL-Library.Multiset"
begin

section \<open>The catalog: models, provider surfaces and pools\<close>

text \<open>
  \<^verbatim>\<open>catalog/catalog.go\<close>, \<^verbatim>\<open>catalog/modality.go\<close> and \<^verbatim>\<open>catalog/models_list.go\<close>: the document an
  operator writes in \<^verbatim>\<open>providers.yaml\<close>, and the resolution of a client's model and wire to the
  ordered list of upstream targets. \<open>Load_catalog\<close> reads the file and validates the document; decoding yaml itself is third-party
  code and a parameter of it.
  A \<^verbatim>\<open>range\<close> over a map visits the association list in its order; \<open>resolve_order_independent\<close> shows
  that the result does not depend on it.
  The round-robin index is Go's 64-bit \<^verbatim>\<open>int\<close>: it wraps, and a negative index is the panic
  \<open>IndexPanic\<close>.
\<close>

subsection \<open>Data\<close>

definition WireOpenAIChat :: string where "WireOpenAIChat = ''openai-chat-completions''"
definition WireAnthropicMsg :: string where "WireAnthropicMsg = ''anthropic-messages''"
definition WireOpenAIEmbed :: string where "WireOpenAIEmbed = ''openai-embeddings''"
definition WireOpenAIResponses :: string where "WireOpenAIResponses = ''openai-responses''"
definition WireOpenAIImagesGen :: string where "WireOpenAIImagesGen = ''openai-images-generations''"
definition WireOpenAIAudioSpeech :: string where "WireOpenAIAudioSpeech = ''openai-audio-speech''"
definition WireOpenAIAudioTranscriptions :: string where
  "WireOpenAIAudioTranscriptions = ''openai-audio-transcriptions''"
definition WireOpenAIVideos :: string where "WireOpenAIVideos = ''openai-videos''"

lemmas wire_defs = WireOpenAIChat_def WireAnthropicMsg_def WireOpenAIEmbed_def
  WireOpenAIResponses_def WireOpenAIImagesGen_def WireOpenAIAudioSpeech_def
  WireOpenAIAudioTranscriptions_def WireOpenAIVideos_def

definition StrategyFailover :: string where "StrategyFailover = ''failover''"
definition StrategyRoundRobin :: string where "StrategyRoundRobin = ''round_robin''"

lemmas strategy_defs = StrategyFailover_def StrategyRoundRobin_def

record Surface =
  su_Protocol :: string
  su_Adapter :: string
  su_BaseURL :: string

record Provider =
  pr_CredentialProfile :: string
  pr_Inject :: "(string, string) gomap"
  pr_InjectPreset :: string
  pr_Surfaces :: "(string, Surface) gomap"
  pr_Protocol :: string
  pr_BaseURL :: string

record PoolEntry =
  pe_ProviderRef :: string
  pe_Model :: string
  pe_Surface :: string

record Modality =
  mo_Wire :: string
  mo_Strategy :: string
  mo_Providers :: "PoolEntry list"

record Model =
  mod_Modalities :: "(string, Modality) gomap"

record Document =
  doc_Providers :: "(string, Provider) gomap"
  doc_Models :: "(string, Model) gomap"

record Catalog =
  cat_doc :: Document
  cat_rr :: "(string, 64 word) gomap"

record Target =
  tg_Model :: string
  tg_ProviderRef :: string
  tg_Protocol :: string
  tg_Adapter :: string
  tg_BaseURL :: string
  tg_CredentialProfile :: string
  tg_UpstreamModel :: string
  tg_Inject :: "(string, string) gomap"
  tg_InjectPreset :: string

record RoutePlan =
  rp_Strategy :: string
  rp_Targets :: "Target list"

datatype catalog_error =
    UnknownModel string
  | NoModality string string
  | ModalityUnavailable string
  | MultipleModalities "string list"
  | EmptyPool
  | StrategyRemoved string
  | UnknownStrategy string
  | UnknownProviderRef string
  | SurfaceNotFound string
  | NoSurface string
  | IndexPanic

subsection \<open>Loading\<close>

fun normalize_loop :: "(string \<times> Provider) list \<Rightarrow> Document \<Rightarrow> Document" where
  "normalize_loop [] doc = doc"
| "normalize_loop ((name, p) # rest) doc =
     normalize_loop rest
       (if pr_Surfaces p = [] \<and> pr_Protocol p \<noteq> ''''
        then doc\<lparr>doc_Providers :=
               gm_set name
                 (p\<lparr>pr_Surfaces :=
                      [(''default'', \<lparr>su_Protocol = pr_Protocol p, su_Adapter = '''', su_BaseURL = pr_BaseURL p\<rparr>)]\<rparr>)
                 (doc_Providers doc)\<rparr>
        else doc)"

definition normalize_doc :: "Document \<Rightarrow> Document" where
  "normalize_doc doc = normalize_loop (doc_Providers doc) doc"

definition NewFromDocument :: "Document \<Rightarrow> Catalog" where
  "NewFromDocument doc = \<lparr>cat_doc = normalize_doc doc, cat_rr = []\<rparr>"

definition WireForPath :: "string \<Rightarrow> string option" where
  "WireForPath path =
     (let p = TrimSpace path in
      if p = ''/v1/chat/completions'' then Some WireOpenAIChat
      else if p = ''/v1/messages'' then Some WireAnthropicMsg
      else if p = ''/v1/embeddings'' then Some WireOpenAIEmbed
      else if p = ''/v1/responses'' then Some WireOpenAIResponses
      else if p = ''/v1/images/generations'' \<or> p = ''/v1/images/edits'' then Some WireOpenAIImagesGen
      else if p = ''/v1/audio/speech'' then Some WireOpenAIAudioSpeech
      else if p = ''/v1/audio/transcriptions'' then Some WireOpenAIAudioTranscriptions
      else if p = ''/v1/videos/generations'' then Some WireOpenAIVideos
      else if HasPrefix path ''/v1/videos/'' \<and> path \<noteq> ''/v1/videos/generations''
        then Some WireOpenAIVideos
      else None)"

subsection \<open>Choosing a modality\<close>

definition hasModality :: "string list \<Rightarrow> string \<Rightarrow> bool" where
  "hasModality candidates name = (\<exists>c \<in> set candidates. c = name)"

fun onlySearchSiblings :: "string list \<Rightarrow> bool" where
  "onlySearchSiblings [] = True"
| "onlySearchSiblings (name # rest) =
     (if name = ''chat'' then onlySearchSiblings rest
      else if name \<noteq> ''search_web'' \<and> name \<noteq> ''search_x'' then False
      else onlySearchSiblings rest)"

definition pickModality :: "string list \<Rightarrow> string \<Rightarrow> (catalog_error, string) res" where
  "pickModality candidates hint0 =
     (let hint = TrimSpace hint0 in
      if hint \<noteq> '''' then
        (case find (\<lambda>name. name = hint) candidates of
           Some name \<Rightarrow> Inr name
         | None \<Rightarrow> Inl (ModalityUnavailable hint))
      else case candidates of
        [name] \<Rightarrow> Inr name
      | _ \<Rightarrow>
          (if hasModality candidates ''chat'' \<and> onlySearchSiblings candidates then Inr ''chat''
           else Inl (MultipleModalities candidates)))"

subsection \<open>Surfaces and targets\<close>

definition protocolMatchesWire :: "string \<Rightarrow> string \<Rightarrow> bool" where
  "protocolMatchesWire protocol wire =
     (if wire = WireOpenAIChat then protocol = ''openai-chat-completions'' \<or> protocol = ''openai-compat-chat''
      else if wire = WireAnthropicMsg then protocol = ''anthropic-messages''
      else if wire = WireOpenAIEmbed then protocol = ''openai-embeddings''
      else if wire = WireOpenAIResponses then protocol = ''openai-responses''
      else if wire = WireOpenAIImagesGen then protocol = ''openai-images''
      else if wire = WireOpenAIAudioSpeech then protocol = ''openai-tts''
      else if wire = WireOpenAIAudioTranscriptions then protocol = ''openai-transcriptions''
      else if wire = WireOpenAIVideos then protocol = ''openai-videos''
      else False)"

abbreviation zero_Surface :: Surface where
  "zero_Surface \<equiv> \<lparr>su_Protocol = '''', su_Adapter = '''', su_BaseURL = ''''\<rparr>"

fun surface_loop :: "Provider \<Rightarrow> string \<Rightarrow> string list \<Rightarrow> (catalog_error, Surface) res" where
  "surface_loop prov wire [] = Inl (NoSurface wire)"
| "surface_loop prov wire (sid # ids) =
     (let s = gm_getd zero_Surface (pr_Surfaces prov) sid in
      if su_Adapter s \<noteq> '''' then surface_loop prov wire ids
      else if protocolMatchesWire (su_Protocol s) wire then Inr s
      else surface_loop prov wire ids)"

definition surfaceFor :: "Provider \<Rightarrow> PoolEntry \<Rightarrow> string \<Rightarrow> (catalog_error, Surface) res" where
  "surfaceFor prov entry wire =
     (if pe_Surface entry \<noteq> '''' then
        (case gm_get (pr_Surfaces prov) (pe_Surface entry) of
           None \<Rightarrow> Inl (SurfaceNotFound (pe_Surface entry))
         | Some s \<Rightarrow> Inr s)
      else surface_loop prov wire (sort (gm_keys (pr_Surfaces prov))))"

definition targetFromEntry :: "Catalog \<Rightarrow> string \<Rightarrow> PoolEntry \<Rightarrow> string \<Rightarrow> (catalog_error, Target) res" where
  "targetFromEntry c model entry wire =
     (case gm_get (doc_Providers (cat_doc c)) (pe_ProviderRef entry) of
        None \<Rightarrow> Inl (UnknownProviderRef (pe_ProviderRef entry))
      | Some prov \<Rightarrow>
          (case surfaceFor prov entry wire of
             Inl e \<Rightarrow> Inl e
           | Inr surf \<Rightarrow>
               Inr \<lparr>tg_Model = model, tg_ProviderRef = pe_ProviderRef entry,
                    tg_Protocol = su_Protocol surf, tg_Adapter = su_Adapter surf, tg_BaseURL = su_BaseURL surf,
                    tg_CredentialProfile = pr_CredentialProfile prov,
                    tg_UpstreamModel =
                      (if TrimSpace (pe_Model entry) = '''' then TrimSpace model else TrimSpace (pe_Model entry)),
                    tg_Inject = pr_Inject prov, tg_InjectPreset = pr_InjectPreset prov\<rparr>))"

subsection \<open>Pool strategies\<close>

text \<open>
  The critical section under \<^verbatim>\<open>c.mu\<close> is one step: the index is read, reduced modulo the pool size
  with Go's truncating remainder, and incremented at 64 bits before the entry is read.
\<close>

definition pickEntries ::
  "Catalog \<Rightarrow> string \<Rightarrow> string \<Rightarrow> PoolEntry list \<Rightarrow> (catalog_error, PoolEntry list) res \<times> Catalog" where
  "pickEntries c poolKey strat pool =
     (if pool = [] then (Inl EmptyPool, c)
      else if strat = StrategyFailover then (Inr pool, c)
      else if strat = StrategyRoundRobin then
        (let idx = gm_getd 0 (cat_rr c) poolKey;
             i = sint idx smod int (length pool);
             c' = c\<lparr>cat_rr := gm_set poolKey (idx + 1) (cat_rr c)\<rparr>
         in if 0 \<le> i then (Inr [pool ! nat i], c') else (Inl IndexPanic, c'))
      else (Inl (UnknownStrategy strat), c))"

subsection \<open>Resolution\<close>

definition poolKey :: "string \<Rightarrow> string \<Rightarrow> string" where
  "poolKey modName wire = modName @ ''|'' @ wire"

definition wire_modalities :: "Model \<Rightarrow> string \<Rightarrow> string list" where
  "wire_modalities m wire = sort (map fst (filter (\<lambda>(name, md). mo_Wire md = wire) (mod_Modalities m)))"

abbreviation zero_Modality :: Modality where
  "zero_Modality \<equiv> \<lparr>mo_Wire = '''', mo_Strategy = '''', mo_Providers = []\<rparr>"

definition ResolveWithModality ::
  "Catalog \<Rightarrow> string \<Rightarrow> string \<Rightarrow> string \<Rightarrow> (catalog_error, RoutePlan) res \<times> Catalog" where
  "ResolveWithModality c model wire modality =
     (case gm_get (doc_Models (cat_doc c)) model of
        None \<Rightarrow> (Inl (UnknownModel model), c)
      | Some m \<Rightarrow>
          (let modNames = wire_modalities m wire in
           if modNames = [] then (Inl (NoModality model wire), c)
           else case pickModality modNames modality of
             Inl e \<Rightarrow> (Inl e, c)
           | Inr modName \<Rightarrow>
               (let md = gm_getd zero_Modality (mod_Modalities m) modName in
                if mo_Providers md = [] then (Inl EmptyPool, c)
                else
                  (let strat = (if mo_Strategy md = '''' then StrategyFailover else mo_Strategy md) in
                   if strat = ''sticky'' then (Inl (StrategyRemoved strat), c)
                   else case pickEntries c (poolKey modName wire) strat (mo_Providers md) of
                     (Inl e, c') \<Rightarrow> (Inl e, c')
                   | (Inr entries, c') \<Rightarrow>
                       (case res_mapM (\<lambda>entry. targetFromEntry c model entry wire) entries of
                          Inl e \<Rightarrow> (Inl e, c')
                        | Inr targets \<Rightarrow> (Inr \<lparr>rp_Strategy = strat, rp_Targets = targets\<rparr>, c'))))))"

definition Resolve :: "Catalog \<Rightarrow> string \<Rightarrow> string \<Rightarrow> (catalog_error, RoutePlan) res \<times> Catalog" where
  "Resolve c model wire = ResolveWithModality c model wire ''''"

subsection \<open>Routes the catalog refers to\<close>

text \<open>\<open>seenP\<close> and \<open>seenA\<close> are sets kept as maps; the result lists their keys in some order.\<close>

definition surface_routes :: "Surface \<Rightarrow> (string, bool) gomap \<times> (string, bool) gomap \<Rightarrow> (string, bool) gomap \<times> (string, bool) gomap" where
  "surface_routes s = (\<lambda>(seenP, seenA).
     (if su_Protocol s \<noteq> '''' then gm_set (su_Protocol s) True seenP else seenP,
      if su_Adapter s \<noteq> '''' then gm_set (su_Adapter s) True seenA else seenA))"

definition provider_routes :: "Provider \<Rightarrow> (string, bool) gomap \<times> (string, bool) gomap \<Rightarrow> (string, bool) gomap \<times> (string, bool) gomap" where
  "provider_routes p seen =
     (case fold (\<lambda>(_, s). surface_routes s) (pr_Surfaces p) seen of
        (seenP, seenA) \<Rightarrow> (if pr_Protocol p \<noteq> '''' then gm_set (pr_Protocol p) True seenP else seenP, seenA))"

definition RegisteredRoutes :: "Catalog \<Rightarrow> string list \<times> string list" where
  "RegisteredRoutes c =
     (case fold (\<lambda>(_, p). provider_routes p) (doc_Providers (cat_doc c)) ([], []) of
        (seenP, seenA) \<Rightarrow> (gm_keys seenP, gm_keys seenA))"

definition Doctor :: "Catalog \<Rightarrow> (string, bool) gomap \<Rightarrow> (string, bool) gomap \<Rightarrow> string list" where
  "Doctor cat registeredProtocols registeredAdapters =
     (case RegisteredRoutes cat of
        (protos, adpts) \<Rightarrow>
          map (\<lambda>p. ''protocol:'' @ p) (filter (\<lambda>p. \<not> gm_getd False registeredProtocols p) protos) @
          map (\<lambda>a. ''adapter:'' @ a) (filter (\<lambda>a. \<not> gm_getd False registeredAdapters a) adpts))"

subsection \<open>Ingress hints and the model list\<close>

definition HeaderCatalogModality :: string where
  "HeaderCatalogModality = ''X-Catalog-Modality''"

definition ModalityHintFromRequest :: "request option \<Rightarrow> string \<Rightarrow> string" where
  "ModalityHintFromRequest r wireID =
     (if wireID = WireOpenAIEmbed then ''embed''
      else if wireID = WireOpenAIImagesGen \<or> wireID = WireOpenAIAudioSpeech \<or>
              wireID = WireOpenAIAudioTranscriptions \<or> wireID = WireOpenAIVideos then ''''
      else case r of
        None \<Rightarrow> ''''
      | Some rq \<Rightarrow> TrimSpace (h_Get (rq_header rq) HeaderCatalogModality))"

definition StripIngressControlHeaders :: "header \<Rightarrow> header" where
  "StripIngressControlHeaders h = h_Del HeaderCatalogModality h"

record ModelListItem =
  li_ID :: string
  li_Object :: string
  li_Created :: int
  li_OwnedBy :: string

definition modelWires :: "Model \<Rightarrow> string list" where
  "modelWires m = gm_keys (fold (\<lambda>(_, md) seen. gm_set (mo_Wire md) True seen) (mod_Modalities m) [])"

abbreviation zero_Model :: Model where
  "zero_Model \<equiv> \<lparr>mod_Modalities = []\<rparr>"

text \<open>\<open>None\<close> is a nil slice of scopes: no filter.\<close>

definition listModels :: "Catalog \<Rightarrow> string list option \<Rightarrow> ModelListItem list" where
  "listModels c scopes =
     map (\<lambda>mid. \<lparr>li_ID = mid, li_Object = ''model'', li_Created = 0, li_OwnedBy = ''daigate''\<rparr>)
       (filter
          (\<lambda>mid. case scopes of
                  None \<Rightarrow> True
                | Some sc \<Rightarrow> FilterModels sc mid (modelWires (gm_getd zero_Model (doc_Models (cat_doc c)) mid)))
          (sort (gm_keys (doc_Models (cat_doc c)))))"

definition ListModels :: "Catalog \<Rightarrow> ModelListItem list" where
  "ListModels c = listModels c None"

definition ListModelsFor :: "Catalog \<Rightarrow> string list option \<Rightarrow> ModelListItem list" where
  "ListModelsFor c scopes = listModels c scopes"


section \<open>What the catalog guarantees\<close>

subsection \<open>Iteration order\<close>

text \<open>Two documents that differ only in the order in which their maps are visited.\<close>

definition provider_same :: "Provider \<Rightarrow> Provider \<Rightarrow> bool" where
  "provider_same p q \<longleftrightarrow> p\<lparr>pr_Surfaces := []\<rparr> = q\<lparr>pr_Surfaces := []\<rparr> \<and>
     gm_wf (pr_Surfaces p) \<and> gm_wf (pr_Surfaces q) \<and> set (pr_Surfaces p) = set (pr_Surfaces q)"

definition model_same :: "Model \<Rightarrow> Model \<Rightarrow> bool" where
  "model_same m n \<longleftrightarrow> gm_wf (mod_Modalities m) \<and> gm_wf (mod_Modalities n) \<and>
     set (mod_Modalities m) = set (mod_Modalities n)"

definition doc_same :: "Document \<Rightarrow> Document \<Rightarrow> bool" where
  "doc_same d e \<longleftrightarrow>
     (\<forall>k. rel_option provider_same (gm_get (doc_Providers d) k) (gm_get (doc_Providers e) k)) \<and>
     (\<forall>k. rel_option model_same (gm_get (doc_Models d) k) (gm_get (doc_Models e) k))"

lemma sort_keys_perm:
  assumes "gm_wf m" "gm_wf n" "set m = set n"
  shows "sort (map fst (filter P m)) = sort (map fst (filter P n))"
proof -
  have "distinct m" "distinct n"
    using assms by (auto simp: gm_wf_def distinct_map)
  then have "mset m = mset n"
    using assms(3) by (simp add: set_eq_iff_mset_eq_distinct)
  then have "mset (map fst (filter P m)) = mset (map fst (filter P n))"
    by (metis mset_filter mset_map)
  then show ?thesis
    by (metis properties_for_sort sorted_sort mset_sort)
qed

lemma surface_loop_cong:
  "gm_get (pr_Surfaces p) = gm_get (pr_Surfaces q) \<Longrightarrow> surface_loop p wire ids = surface_loop q wire ids"
  by (induction ids) (auto simp: gm_getd_def Let_def)

lemma surfaceFor_same:
  assumes "provider_same p q"
  shows "surfaceFor p entry wire = surfaceFor q entry wire"
proof -
  have g: "gm_get (pr_Surfaces p) = gm_get (pr_Surfaces q)"
    using assms gm_get_perm by (auto simp: provider_same_def)
  have "sort (gm_keys (pr_Surfaces p)) = sort (gm_keys (pr_Surfaces q))"
    using assms sort_keys_perm [of "pr_Surfaces p" "pr_Surfaces q" "\<lambda>_. True"]
    by (simp add: provider_same_def gm_keys_def)
  with g surface_loop_cong [OF g] show ?thesis
    by (simp add: surfaceFor_def)
qed

lemma provider_same_fields:
  assumes "provider_same p q"
  shows "pr_CredentialProfile p = pr_CredentialProfile q" "pr_Inject p = pr_Inject q"
    "pr_InjectPreset p = pr_InjectPreset q"
  using assms by (cases p; cases q; simp add: provider_same_def)+

lemma targetFromEntry_same:
  assumes "doc_same (cat_doc c) (cat_doc c')"
  shows "targetFromEntry c model entry wire = targetFromEntry c' model entry wire"
proof -
  have "rel_option provider_same (gm_get (doc_Providers (cat_doc c)) (pe_ProviderRef entry))
      (gm_get (doc_Providers (cat_doc c')) (pe_ProviderRef entry))"
    using assms by (simp add: doc_same_def)
  then show ?thesis
    by (cases rule: option.rel_cases)
      (auto simp: targetFromEntry_def surfaceFor_same dest: provider_same_fields split: sum.splits)
qed

lemma pickEntries_rr_cong:
  assumes "cat_rr c = cat_rr c'"
  shows "fst (pickEntries c key strat pool) = fst (pickEntries c' key strat pool)"
    "cat_rr (snd (pickEntries c key strat pool)) = cat_rr (snd (pickEntries c' key strat pool))"
  using assms by (simp_all add: pickEntries_def Let_def)

lemma pickEntries_doc: "cat_doc (snd (pickEntries c key strat pool)) = cat_doc c"
  by (simp add: pickEntries_def Let_def)

lemma res_mapM_cong: "(\<And>x. x \<in> set xs \<Longrightarrow> f x = g x) \<Longrightarrow> res_mapM f xs = res_mapM g xs"
  by (induction xs) (auto split: sum.splits)

lemma ResolveWithModality_doc: "cat_doc (snd (ResolveWithModality c model wire hint)) = cat_doc c"
  using pickEntries_doc [of c]
  by (auto simp: ResolveWithModality_def Let_def split: option.splits sum.splits prod.splits)
    (metis snd_conv)+

lemma ResolveWithModality_same:
  assumes d: "doc_same (cat_doc c) (cat_doc c')" and rr: "cat_rr c = cat_rr c'"
  shows "fst (ResolveWithModality c model wire hint) = fst (ResolveWithModality c' model wire hint)"
    "cat_rr (snd (ResolveWithModality c model wire hint)) = cat_rr (snd (ResolveWithModality c' model wire hint))"
proof -
  have t: "res_mapM (\<lambda>e. targetFromEntry c model e wire) es = res_mapM (\<lambda>e. targetFromEntry c' model e wire) es" for es
    by (rule res_mapM_cong) (rule targetFromEntry_same [OF d])
  have rel: "rel_option model_same (gm_get (doc_Models (cat_doc c)) model) (gm_get (doc_Models (cat_doc c')) model)"
    using d by (simp add: doc_same_def)
  have "fst (ResolveWithModality c model wire hint) = fst (ResolveWithModality c' model wire hint) \<and>
    cat_rr (snd (ResolveWithModality c model wire hint)) = cat_rr (snd (ResolveWithModality c' model wire hint))"
    using rel
  proof (cases rule: option.rel_cases)
    case None
    with rr show ?thesis by (simp add: ResolveWithModality_def)
  next
    case (Some m n)
    then have mn: "wire_modalities m wire = wire_modalities n wire"
      "gm_getd zero_Modality (mod_Modalities m) = gm_getd zero_Modality (mod_Modalities n)"
      using sort_keys_perm [of "mod_Modalities m" "mod_Modalities n"]
        gm_get_perm [of "mod_Modalities m" "mod_Modalities n"]
      by (simp_all add: model_same_def wire_modalities_def gm_getd_def fun_eq_iff)
    show ?thesis
      using rr pickEntries_rr_cong [OF rr] unfolding ResolveWithModality_def Some(1,2)
      by (auto simp: mn t Let_def case_prod_beta split: sum.split)
  qed
  then show "fst (ResolveWithModality c model wire hint) = fst (ResolveWithModality c' model wire hint)"
    "cat_rr (snd (ResolveWithModality c model wire hint)) = cat_rr (snd (ResolveWithModality c' model wire hint))"
    by simp_all
qed

subsection \<open>What a plan holds\<close>

lemma wire_modalities_set:
  "set (wire_modalities m wire) = {name. \<exists>md. (name, md) \<in> set (mod_Modalities m) \<and> mo_Wire md = wire}"
  by (force simp: wire_modalities_def)

lemma find_Some_mem: "find P xs = Some x \<Longrightarrow> x \<in> set xs \<and> P x"
  by (auto simp: find_Some_iff)

lemma pickModality_Inr_mem:
  "pickModality names hint = Inr n \<Longrightarrow> n \<in> set names"
  by (auto simp: pickModality_def Let_def hasModality_def dest: find_Some_mem
      split: if_splits option.splits list.splits)

lemma pickModality_hint:
  "TrimSpace hint \<noteq> '''' \<Longrightarrow> pickModality names hint =
     (if TrimSpace hint \<in> set names then Inr (TrimSpace hint) else Inl (ModalityUnavailable (TrimSpace hint)))"
  by (auto simp: pickModality_def Let_def find_None_iff dest: find_Some_mem split: option.splits)

lemma onlySearchSiblings_iff:
  "onlySearchSiblings names \<longleftrightarrow> set names \<subseteq> {''chat'', ''search_web'', ''search_x''}"
  by (induction names) auto

lemma length_1_mem: "length names = Suc 0 \<Longrightarrow> (\<exists>x. names = [x])"
  by (cases names) auto

lemma pickModality_auto:
  assumes "TrimSpace hint = ''''" "distinct names"
  shows "pickModality names hint = Inr n \<longleftrightarrow>
     names = [n] \<or> (n = ''chat'' \<and> n \<in> set names \<and> set names \<subseteq> {''chat'', ''search_web'', ''search_x''})"
proof -
  have "pickModality names hint =
    (if length names = 1 then Inr (hd names)
     else if ''chat'' \<in> set names \<and> onlySearchSiblings names then Inr ''chat'' else Inl (MultipleModalities names))"
    using assms(1) by (simp add: pickModality_def Let_def hasModality_def split: list.split)
  moreover have "length names = 1 \<Longrightarrow> names = [hd names]"
    by (cases names) auto
  ultimately show ?thesis
    by (cases "length names = 1") (auto simp: onlySearchSiblings_iff dest!: length_1_mem)
qed

lemma resolve_Inr_cases:
  assumes "ResolveWithModality c model wire hint = (Inr plan, c')"
  obtains m n md entries where
    "gm_get (doc_Models (cat_doc c)) model = Some m"
    "pickModality (wire_modalities m wire) hint = Inr n"
    "md = gm_getd zero_Modality (mod_Modalities m) n"
    "mo_Providers md \<noteq> []" "rp_Strategy plan = (if mo_Strategy md = '''' then StrategyFailover else mo_Strategy md)"
    "pickEntries c (poolKey n wire) (rp_Strategy plan) (mo_Providers md) = (Inr entries, c')"
    "res_mapM (\<lambda>entry. targetFromEntry c model entry wire) entries = Inr (rp_Targets plan)"
  using assms unfolding ResolveWithModality_def Let_def
  by (auto split: option.splits if_splits sum.splits prod.splits)

text \<open>The surface of a pool entry: the one it names, or the first by id that speaks the wire itself.\<close>

definition surface_of :: "Provider \<Rightarrow> PoolEntry \<Rightarrow> string \<Rightarrow> Surface \<Rightarrow> bool" where
  "surface_of prov entry wire s \<longleftrightarrow>
     (if pe_Surface entry \<noteq> '''' then gm_get (pr_Surfaces prov) (pe_Surface entry) = Some s
      else \<exists>sid. gm_get (pr_Surfaces prov) sid = Some s \<and>
             su_Adapter s = '''' \<and> protocolMatchesWire (su_Protocol s) wire \<and>
             (\<forall>sid' s'. gm_get (pr_Surfaces prov) sid' = Some s' \<longrightarrow> su_Adapter s' = '''' \<longrightarrow>
                protocolMatchesWire (su_Protocol s') wire \<longrightarrow> sid \<le> sid'))"

lemma surface_loop_Inr:
  assumes "surface_loop prov wire ids = Inr s" "sorted ids"
  shows "\<exists>sid \<in> set ids. s = gm_getd zero_Surface (pr_Surfaces prov) sid \<and> su_Adapter s = '''' \<and>
     protocolMatchesWire (su_Protocol s) wire \<and>
     (\<forall>sid' \<in> set ids. su_Adapter (gm_getd zero_Surface (pr_Surfaces prov) sid') = '''' \<longrightarrow>
        protocolMatchesWire (su_Protocol (gm_getd zero_Surface (pr_Surfaces prov) sid')) wire \<longrightarrow> sid \<le> sid')"
  using assms by (induction ids) (fastforce simp: Let_def split: if_splits)+

lemma surfaceFor_Inr:
  assumes "surfaceFor prov entry wire = Inr s"
  shows "surface_of prov entry wire s"
proof (cases "pe_Surface entry = ''''")
  case False
  with assms show ?thesis
    by (simp add: surfaceFor_def surface_of_def split: option.splits)
next
  case True
  let ?ids = "sort (gm_keys (pr_Surfaces prov))"
  let ?g = "gm_getd zero_Surface (pr_Surfaces prov)"
  have get: "sid \<in> set ?ids \<longleftrightarrow> gm_get (pr_Surfaces prov) sid = Some (?g sid)" for sid
    by (auto simp: gm_get_keys gm_getd_def)
  have gd: "gm_get (pr_Surfaces prov) sid = Some s' \<Longrightarrow> sid \<in> set ?ids \<and> ?g sid = s'" for sid s'
    by (auto simp: gm_get_keys gm_getd_def)
  from True assms have "surface_loop prov wire ?ids = Inr s"
    by (simp add: surfaceFor_def)
  from surface_loop_Inr [OF this sorted_sort] obtain sid where sid: "sid \<in> set ?ids" "s = ?g sid"
    "su_Adapter s = ''''" "protocolMatchesWire (su_Protocol s) wire"
    "\<And>sid'. sid' \<in> set ?ids \<Longrightarrow> su_Adapter (?g sid') = '''' \<Longrightarrow>
       protocolMatchesWire (su_Protocol (?g sid')) wire \<Longrightarrow> sid \<le> sid'"
    by blast
  have "sid \<le> sid'" if "gm_get (pr_Surfaces prov) sid' = Some s'" "su_Adapter s' = ''''"
    "protocolMatchesWire (su_Protocol s') wire" for sid' s'
    using sid(5) [of sid'] gd [OF that(1)] that(2,3) by simp
  moreover have "gm_get (pr_Surfaces prov) sid = Some s"
    using sid(1,2) get by simp
  ultimately show ?thesis
    using True sid(3,4) unfolding surface_of_def by auto
qed

subsection \<open>Round robin\<close>

text \<open>A sequence of resolutions against one catalog: model, wire and hint of each request.\<close>

type_synonym resolve_req = "string \<times> string \<times> string"

fun resolve_seq :: "Catalog \<Rightarrow> resolve_req list \<Rightarrow> (catalog_error, RoutePlan) res list \<times> Catalog" where
  "resolve_seq c [] = ([], c)"
| "resolve_seq c ((model, wire, hint) # reqs) =
     (case ResolveWithModality c model wire hint of
        (r, c') \<Rightarrow> (case resolve_seq c' reqs of (rs, c'') \<Rightarrow> (r # rs, c'')))"

text \<open>The counter and the pool a request reads, when it goes to a round-robin pool.\<close>

definition rr_pool :: "Catalog \<Rightarrow> resolve_req \<Rightarrow> (string \<times> PoolEntry list) option" where
  "rr_pool c = (\<lambda>(model, wire, hint).
     (case gm_get (doc_Models (cat_doc c)) model of
        None \<Rightarrow> None
      | Some m \<Rightarrow>
          (case pickModality (wire_modalities m wire) hint of
             Inl _ \<Rightarrow> None
           | Inr n \<Rightarrow>
               (let md = gm_getd zero_Modality (mod_Modalities m) n in
                if mo_Strategy md = StrategyRoundRobin \<and> mo_Providers md \<noteq> []
                then Some (poolKey n wire, mo_Providers md) else None))))"

text \<open>The answer to a request that the pool hands to one entry.\<close>

definition plan_for :: "Catalog \<Rightarrow> resolve_req \<Rightarrow> PoolEntry \<Rightarrow> (catalog_error, RoutePlan) res" where
  "plan_for c = (\<lambda>(model, wire, hint) entry.
     (case targetFromEntry c model entry wire of
        Inl e \<Rightarrow> Inl e
      | Inr t \<Rightarrow> Inr \<lparr>rp_Strategy = StrategyRoundRobin, rp_Targets = [t]\<rparr>))"

lemma sint_small:
  fixes w :: "64 word"
  assumes "unat w < 2 ^ 63"
  shows "sint w = int (unat w)"
proof -
  have "uint w < 2 ^ 63"
    using assms by (simp only: unat_eq_nat_uint nat_less_iff uint_nonnegative) simp
  then have "signed_take_bit 63 (uint w) = uint w"
    by (intro signed_take_bit_int_eq_self) (auto intro: order_trans [OF _ uint_nonnegative])
  then show ?thesis
    by (simp add: sint_uint del: signed_take_bit_int_eq_self_iff)
qed

lemma pickEntries_rr:
  assumes "pool \<noteq> []" "unat (gm_getd 0 (cat_rr c) key) < 2 ^ 63"
  shows "pickEntries c key StrategyRoundRobin pool =
    (Inr [pool ! (unat (gm_getd 0 (cat_rr c) key) mod length pool)],
     c\<lparr>cat_rr := gm_set key (gm_getd 0 (cat_rr c) key + 1) (cat_rr c)\<rparr>)"
proof -
  let ?i = "gm_getd 0 (cat_rr c) key"
  have "sint ?i = int (unat ?i)"
    using assms(2) by (rule sint_small)
  moreover have "int a smod int b = int (a mod b)" for a b
    by (cases "a = 0") (simp_all add: smod_int_alt_def zmod_int)
  ultimately have i: "sint ?i smod int (length pool) = int (unat ?i mod length pool)"
    by (simp only:)
  show ?thesis
    using assms(1) by (simp add: pickEntries_def strategy_defs Let_def i)
qed

lemma resolve_rr:
  assumes "rr_pool c (model, wire, hint) = Some (key, pool)" "unat (gm_getd 0 (cat_rr c) key) < 2 ^ 63"
  shows "ResolveWithModality c model wire hint =
    (plan_for c (model, wire, hint) (pool ! (unat (gm_getd 0 (cat_rr c) key) mod length pool)),
     c\<lparr>cat_rr := gm_set key (gm_getd 0 (cat_rr c) key + 1) (cat_rr c)\<rparr>)"
proof -
  obtain m n md where m: "gm_get (doc_Models (cat_doc c)) model = Some m"
    "pickModality (wire_modalities m wire) hint = Inr n"
    "gm_getd zero_Modality (mod_Modalities m) n = md"
    "mo_Strategy md = StrategyRoundRobin" "mo_Providers md = pool" "pool \<noteq> []" "key = poolKey n wire"
    using assms(1) by (auto simp: rr_pool_def Let_def split: option.splits sum.splits if_splits)
  have "wire_modalities m wire \<noteq> []"
    using pickModality_Inr_mem [OF m(2)] by auto
  moreover have "StrategyRoundRobin \<noteq> ''''" "StrategyRoundRobin \<noteq> ''sticky''"
    by (simp_all add: strategy_defs)
  ultimately show ?thesis
    using pickEntries_rr [OF m(6) assms(2)] m
    by (simp add: ResolveWithModality_def plan_for_def Let_def targetFromEntry_def split: sum.split)
qed

lemma rr_pool_rr [simp]: "rr_pool (c\<lparr>cat_rr := rr\<rparr>) r = rr_pool c r"
  by (simp add: rr_pool_def)

lemma plan_for_rr [simp]: "plan_for (c\<lparr>cat_rr := rr\<rparr>) r e = plan_for c r e"
  by (simp add: plan_for_def targetFromEntry_def split: prod.split)

lemma resolve_seq_rotates:
  assumes "\<forall>r \<in> set reqs. rr_pool c r = Some (key, pool r)"
    "unat (gm_getd 0 (cat_rr c) key) + length reqs \<le> 2 ^ 63"
  shows "fst (resolve_seq c reqs) =
    map (\<lambda>i. plan_for c (reqs ! i)
           (pool (reqs ! i) ! ((unat (gm_getd 0 (cat_rr c) key) + i) mod length (pool (reqs ! i)))))
      [0..<length reqs]"
  using assms
proof (induction reqs arbitrary: c)
  case (Cons r reqs)
  obtain model wire hint where r: "r = (model, wire, hint)" by (cases r)
  let ?k = "gm_getd 0 (cat_rr c) key"
  let ?c = "c\<lparr>cat_rr := gm_set key (?k + 1) (cat_rr c)\<rparr>"
  have k: "unat (?k + 1) = unat ?k + 1"
    using Cons.prems(2) unat_add_lem [of ?k 1] by simp
  have step: "ResolveWithModality c model wire hint = (plan_for c r (pool r ! (unat ?k mod length (pool r))), ?c)"
    using Cons.prems resolve_rr [of c model wire hint key "pool r"] by (simp add: r)
  have "fst (resolve_seq ?c reqs) = map (\<lambda>i. plan_for c (reqs ! i)
      (pool (reqs ! i) ! ((unat ?k + Suc i) mod length (pool (reqs ! i))))) [0..<length reqs]"
    using Cons.IH [of ?c] Cons.prems k by simp
  moreover have "fst (resolve_seq c (r # reqs)) = plan_for c r (pool r ! (unat ?k mod length (pool r))) # fst (resolve_seq ?c reqs)"
    by (simp only: r resolve_seq.simps step [unfolded r] prod.case) (simp add: case_prod_beta)
  ultimately show ?case
    by (simp del: upt_Suc add: upt_conv_Cons map_Suc_upt [symmetric] o_def)
qed simp

lemma mset_rotation: "mset (map (\<lambda>i. xs ! ((k + i) mod length xs)) [0..<length xs]) = mset xs"
proof -
  have "map (\<lambda>i. xs ! ((k + i) mod length xs)) [0..<length xs] = rotate k xs"
    by (rule nth_equalityI) (simp_all add: nth_rotate)
  moreover have "mset (rotate k xs) = mset xs"
    by (metis rotate_drop_take add.commute append_take_drop_id mset_append)
  ultimately show ?thesis by simp
qed

lemma mset_rotations:
  "mset (map (\<lambda>i. xs ! ((k + i) mod length xs)) [0..<q * length xs]) = repeat_mset q (mset xs)"
proof (induction q arbitrary: k)
  case (Suc q)
  let ?f = "\<lambda>k i. xs ! ((k + i) mod length xs)"
  have "map (?f k) [0..<Suc q * length xs] =
    map (?f k) [0..<length xs] @ map (?f (k + length xs)) [0..<q * length xs]"
    by (rule nth_equalityI) (auto simp: nth_append algebra_simps)
  then show ?case
    using Suc.IH [of "k + length xs"] mset_rotation [of xs k] by (simp del: upt_Suc)
qed simp

lemma image_repeat_mset: "image_mset f (repeat_mset q M) = repeat_mset q (image_mset f M)"
  by (induction q) auto

lemma length_concat_pairs [simp]: "length (concat (replicate n [x, y])) = 2 * n"
  by (induction n) auto

lemma nth_concat_replicate_pair:
  "i < 2 * n \<Longrightarrow> concat (replicate n [x, y]) ! i = (if even i then x else y)"
proof (induction n arbitrary: i)
  case (Suc n)
  then show ?case
    by (cases i; cases "i - 1") auto
qed simp

text \<open>
  Resolution does not depend on the order in which Go iterates the maps of the document: two
  documents with the same providers, surfaces, models and modalities give the same plan (or the same
  error) for every model, wire and hint, and advance the round-robin counters alike.
\<close>

lemma resolve_order_independent:
  assumes "doc_same (cat_doc c) (cat_doc c')" "cat_rr c = cat_rr c'"
  shows "fst (ResolveWithModality c model wire hint) = fst (ResolveWithModality c' model wire hint) \<and>
    cat_rr (snd (ResolveWithModality c model wire hint)) = cat_rr (snd (ResolveWithModality c' model wire hint))"
  using ResolveWithModality_same [OF assms] by simp

text \<open>The target of a pool entry, with the fields of its own provider and its own surface.\<close>

definition target_of :: "Catalog \<Rightarrow> string \<Rightarrow> string \<Rightarrow> PoolEntry \<Rightarrow> Target \<Rightarrow> bool" where
  "target_of c model wire entry t \<longleftrightarrow>
     (\<exists>prov s. gm_get (doc_Providers (cat_doc c)) (pe_ProviderRef entry) = Some prov \<and>
        surface_of prov entry wire s \<and>
        tg_Model t = model \<and> tg_ProviderRef t = pe_ProviderRef entry \<and>
        tg_Protocol t = su_Protocol s \<and> tg_Adapter t = su_Adapter s \<and> tg_BaseURL t = su_BaseURL s \<and>
        tg_CredentialProfile t = pr_CredentialProfile prov \<and>
        tg_UpstreamModel t = (if TrimSpace (pe_Model entry) = '''' then TrimSpace model else TrimSpace (pe_Model entry)) \<and>
        tg_Inject t = pr_Inject prov \<and> tg_InjectPreset t = pr_InjectPreset prov)"

lemma targetFromEntry_Inr:
  "targetFromEntry c model entry wire = Inr t \<Longrightarrow> target_of c model wire entry t"
  unfolding targetFromEntry_def target_of_def
  by (auto split: option.splits sum.splits dest: surfaceFor_Inr)

lemma nat_smod_less:
  assumes "pool \<noteq> []" "0 \<le> i smod int (length pool)"
  shows "pool ! nat (i smod int (length pool)) \<in> set pool"
proof -
  define r where "r = \<bar>i\<bar> mod int (length pool)"
  have "0 \<le> r" "r < int (length pool)"
    using assms(1) by (simp_all add: r_def)
  moreover have "i smod int (length pool) = sgn i * r"
    by (simp add: smod_int_alt_def r_def)
  ultimately have "i smod int (length pool) < int (length pool)"
    by (cases i "0::int" rule: linorder_cases) auto
  with assms show ?thesis by simp
qed

lemma pickEntries_Inr:
  "pickEntries c key strat pool = (Inr entries, c') \<Longrightarrow>
     (strat = StrategyFailover \<and> entries = pool) \<or>
     (strat = StrategyRoundRobin \<and> (\<exists>e \<in> set pool. entries = [e]))"
  using nat_smod_less [of pool "sint (gm_getd 0 (cat_rr c) key)"]
  by (auto simp: pickEntries_def Let_def split: if_splits)

text \<open>
  (C1) What a successful resolution promises: the plan comes from a modality of the model that binds
  the requested wire (the hinted one when a hint is given), it is not empty, a failover plan has one
  target per pool entry in the order of the document and a round-robin plan has one target of the
  pool, and each target carries the base URL, the protocol and the adapter of the entry's own surface
  and the credential profile of the entry's own provider.
\<close>

theorem resolve_sound:
  assumes "ResolveWithModality c model wire hint = (Inr plan, c')"
  shows "\<exists>m n md. gm_get (doc_Models (cat_doc c)) model = Some m \<and>
     gm_getd zero_Modality (mod_Modalities m) n = md \<and> n \<in> set (wire_modalities m wire) \<and>
     (TrimSpace hint \<noteq> '''' \<longrightarrow> n = TrimSpace hint) \<and>
     rp_Targets plan \<noteq> [] \<and>
     (rp_Strategy plan = StrategyFailover \<and>
        list_all2 (target_of c model wire) (mo_Providers md) (rp_Targets plan) \<or>
      rp_Strategy plan = StrategyRoundRobin \<and>
        (\<exists>e \<in> set (mo_Providers md). \<exists>t. rp_Targets plan = [t] \<and> target_of c model wire e t))"
proof -
  from assms obtain m n md entries where *:
    "gm_get (doc_Models (cat_doc c)) model = Some m"
    "pickModality (wire_modalities m wire) hint = Inr n"
    "md = gm_getd zero_Modality (mod_Modalities m) n" "mo_Providers md \<noteq> []"
    "pickEntries c (poolKey n wire) (rp_Strategy plan) (mo_Providers md) = (Inr entries, c')"
    "res_mapM (\<lambda>entry. targetFromEntry c model entry wire) entries = Inr (rp_Targets plan)"
    by (rule resolve_Inr_cases)
  have n: "n \<in> set (wire_modalities m wire)" "TrimSpace hint \<noteq> '''' \<longrightarrow> n = TrimSpace hint"
    using *(2) pickModality_Inr_mem [OF *(2)] pickModality_hint [of hint] by (auto split: if_splits)
  have all: "list_all2 (target_of c model wire) entries (rp_Targets plan)"
    using *(6) unfolding res_mapM_Inr_iff by (rule list_all2_mono) (rule targetFromEntry_Inr)
  have "rp_Strategy plan = StrategyFailover \<and> entries = mo_Providers md \<or>
      rp_Strategy plan = StrategyRoundRobin \<and> (\<exists>e \<in> set (mo_Providers md). entries = [e])"
    using pickEntries_Inr [OF *(5)] .
  with all *(4) have "rp_Targets plan \<noteq> []"
    "rp_Strategy plan = StrategyFailover \<and> list_all2 (target_of c model wire) (mo_Providers md) (rp_Targets plan) \<or>
     rp_Strategy plan = StrategyRoundRobin \<and>
        (\<exists>e \<in> set (mo_Providers md). \<exists>t. rp_Targets plan = [t] \<and> target_of c model wire e t)"
    by (auto simp: list_all2_Cons1)
  with *(1,3) n show ?thesis by auto
qed

text \<open>
  (C000) Round robin is fair: as long as the counter stays below 2^63, asking \<open>q * n\<close> times for a model
  whose pool has \<open>n\<close> members sends exactly \<open>q\<close> of the requests to each member, wherever the counter
  starts.
\<close>

theorem round_robin_fair:
  assumes "rr_pool c r = Some (key, pool)"
    "unat (gm_getd 0 (cat_rr c) key) + q * length pool \<le> 2 ^ 63"
  shows "mset (fst (resolve_seq c (replicate (q * length pool) r))) =
    repeat_mset q (mset (map (plan_for c r) pool))"
proof -
  let ?k = "unat (gm_getd 0 (cat_rr c) key)"
  have "fst (resolve_seq c (replicate (q * length pool) r)) =
    map (plan_for c r) (map (\<lambda>i. pool ! ((?k + i) mod length pool)) [0..<q * length pool])"
    using resolve_seq_rotates [of "replicate (q * length pool) r" c key "\<lambda>_. pool"] assms by simp
  then show ?thesis
    using mset_rotations [of pool ?k q] by (simp only: mset_map image_repeat_mset)
qed

text \<open>
  (C6) The round-robin counter is kept per modality name and wire, not per model: two models with a
  two-member pool each under the same modality name share it, and a client that alternates between
  the models reaches only the first member of the one and only the second member of the other.
\<close>

theorem shared_counter_starves:
  assumes "rr_pool c a = Some (key, [a0, a1])" "rr_pool c b = Some (key, [b0, b1])" "a \<noteq> b"
    "even (unat (gm_getd 0 (cat_rr c) key))" "unat (gm_getd 0 (cat_rr c) key) + 2 * n \<le> 2 ^ 63"
  shows "fst (resolve_seq c (concat (replicate n [a, b]))) =
    concat (replicate n [plan_for c a a0, plan_for c b b1])"
proof -
  let ?reqs = "concat (replicate n [a, b])"
  let ?pool = "\<lambda>r. if r = a then [a0, a1] else [b0, b1]"
  let ?k = "unat (gm_getd 0 (cat_rr c) key)"
  note len = length_concat_pairs
  have "\<forall>r \<in> set ?reqs. rr_pool c r = Some (key, ?pool r)"
    using assms(1,2) by (auto split: if_splits)
  then have "fst (resolve_seq c ?reqs) = map (\<lambda>i. plan_for c (?reqs ! i)
      (?pool (?reqs ! i) ! ((?k + i) mod length (?pool (?reqs ! i))))) [0..<2 * n]"
    using resolve_seq_rotates [of ?reqs c key ?pool] assms(5) unfolding len by blast
  also have "\<dots> = concat (replicate n [plan_for c a a0, plan_for c b b1])"
    using assms(3,4) by (intro nth_equalityI)
      (auto simp: nth_concat_replicate_pair mod2_eq_if simp flip: numeral_2_eq_2
        simp del: concat_replicate_trivial length_concat)
  finally show ?thesis .
qed

subsection \<open>Routes, the model list and normalization\<close>

text \<open>The routes of a document, read off its surfaces.\<close>

definition doc_protocols :: "Document \<Rightarrow> string set" where
  "doc_protocols d = {p. p \<noteq> '''' \<and> (\<exists>name prov. (name, prov) \<in> set (doc_Providers d) \<and>
     (p = pr_Protocol prov \<or> (\<exists>sid s. (sid, s) \<in> set (pr_Surfaces prov) \<and> p = su_Protocol s)))}"

definition doc_adapters :: "Document \<Rightarrow> string set" where
  "doc_adapters d = {a. a \<noteq> '''' \<and> (\<exists>name prov. (name, prov) \<in> set (doc_Providers d) \<and>
     (\<exists>sid s. (sid, s) \<in> set (pr_Surfaces prov) \<and> a = su_Adapter s))}"

lemma surface_routes_keys:
  "set (gm_keys (fst (fold (\<lambda>(_, s). surface_routes s) ss seen))) =
     set (gm_keys (fst seen)) \<union> {p. p \<noteq> '''' \<and> (\<exists>sid s. (sid, s) \<in> set ss \<and> p = su_Protocol s)}"
  "set (gm_keys (snd (fold (\<lambda>(_, s). surface_routes s) ss seen))) =
     set (gm_keys (snd seen)) \<union> {a. a \<noteq> '''' \<and> (\<exists>sid s. (sid, s) \<in> set ss \<and> a = su_Adapter s)}"
  by (induction ss arbitrary: seen)
    (fastforce simp: surface_routes_def gm_keys_set split: prod.splits if_splits)+

lemma provider_routes_eq:
  "provider_routes p seen =
     ((if pr_Protocol p \<noteq> '''' then gm_set (pr_Protocol p) True else (\<lambda>m. m))
        (fst (fold (\<lambda>(_, s). surface_routes s) (pr_Surfaces p) seen)),
      snd (fold (\<lambda>(_, s). surface_routes s) (pr_Surfaces p) seen))"
  by (simp add: provider_routes_def case_prod_beta)

lemma provider_routes_keys:
  "set (gm_keys (fst (fold (\<lambda>(_, p). provider_routes p) ps seen))) =
     set (gm_keys (fst seen)) \<union> doc_protocols \<lparr>doc_Providers = ps, doc_Models = []\<rparr> \<and>
   set (gm_keys (snd (fold (\<lambda>(_, p). provider_routes p) ps seen))) =
     set (gm_keys (snd seen)) \<union> doc_adapters \<lparr>doc_Providers = ps, doc_Models = []\<rparr>"
proof (induction ps arbitrary: seen)
  case Nil
  show ?case
    by (simp add: doc_protocols_def doc_adapters_def)
next
  case (Cons np ps)
  obtain name p where np: "np = (name, p)" by (cases np)
  have "doc_protocols \<lparr>doc_Providers = np # ps, doc_Models = []\<rparr> =
    {q. q \<noteq> '''' \<and> (q = pr_Protocol p \<or> (\<exists>sid s. (sid, s) \<in> set (pr_Surfaces p) \<and> q = su_Protocol s))} \<union>
    doc_protocols \<lparr>doc_Providers = ps, doc_Models = []\<rparr>"
    "doc_adapters \<lparr>doc_Providers = np # ps, doc_Models = []\<rparr> =
    {q. q \<noteq> '''' \<and> (\<exists>sid s. (sid, s) \<in> set (pr_Surfaces p) \<and> q = su_Adapter s)} \<union>
    doc_adapters \<lparr>doc_Providers = ps, doc_Models = []\<rparr>"
    by (simp_all add: doc_protocols_def doc_adapters_def np) blast+
  then show ?case
    using Cons.IH [of "provider_routes p seen"]
    by (auto simp: np provider_routes_eq surface_routes_keys gm_keys_set)
qed

lemma RegisteredRoutes_set:
  "RegisteredRoutes c = (ps, as) \<Longrightarrow> set ps = doc_protocols (cat_doc c) \<and> set as = doc_adapters (cat_doc c)"
  using provider_routes_keys [of "doc_Providers (cat_doc c)" "([], [])"]
  by (auto simp: RegisteredRoutes_def doc_protocols_def doc_adapters_def case_prod_beta)

text \<open>
  The doctor reports a clean catalog exactly when every protocol and every adapter that some
  provider or surface of the document names has a registered handler.
\<close>

lemma doctor_clean_iff:
  "Doctor c protos adapters = [] \<longleftrightarrow>
     doc_protocols (cat_doc c) \<subseteq> {p. gm_get protos p = Some True} \<and>
     doc_adapters (cat_doc c) \<subseteq> {a. gm_get adapters a = Some True}"
  using RegisteredRoutes_set [of c]
  by (auto simp: Doctor_def gm_getd_def filter_empty_conv split: prod.splits option.splits)

lemma modelWires_set:
  "set (modelWires m) = mo_Wire ` snd ` set (mod_Modalities m)"
proof -
  have "set (gm_keys (fold (\<lambda>(_, md) seen. gm_set (mo_Wire md) True seen) ms seen)) =
    set (gm_keys seen) \<union> mo_Wire ` snd ` set ms"
    for ms :: "(string \<times> Modality) list" and seen :: "(string, bool) gomap"
    by (induction ms arbitrary: seen) (auto simp: gm_keys_set)
  then show ?thesis by (simp add: modelWires_def)
qed

text \<open>
  (C7) The model list of a key is sorted, has no duplicates, and holds exactly the model ids for which
  the key's scopes would let a request through on one of the wires of the model: listing and
  authorizing agree.
\<close>

theorem list_models_exact:
  assumes "gm_wf (doc_Models (cat_doc c))"
    "\<forall>(id, m) \<in> set (doc_Models (cat_doc c)). mod_Modalities m \<noteq> []"
  shows "sorted (map li_ID (ListModelsFor c (Some scopes))) \<and>
     distinct (map li_ID (ListModelsFor c (Some scopes))) \<and>
     set (map li_ID (ListModelsFor c (Some scopes))) =
       {id. \<exists>m n md. gm_get (doc_Models (cat_doc c)) id = Some m \<and> (n, md) \<in> set (mod_Modalities m) \<and>
          Authorize scopes id (mo_Wire md) = Inr ()}"
proof -
  let ?ms = "doc_Models (cat_doc c)"
  let ?show = "\<lambda>id. FilterModels scopes id (modelWires (gm_getd zero_Model ?ms id))"
  have ids: "map li_ID (ListModelsFor c (Some scopes)) = filter ?show (sort (gm_keys ?ms))"
    by (simp add: ListModelsFor_def listModels_def o_def)
  have "distinct (gm_keys ?ms)"
    using assms(1) by (simp add: gm_wf_def gm_keys_def)
  moreover have "?show id \<longleftrightarrow> (\<exists>n md. (n, md) \<in> set (mod_Modalities m) \<and> Authorize scopes id (mo_Wire md) = Inr ())"
    if "gm_get ?ms id = Some m" for id m
  proof -
    have "mod_Modalities m \<noteq> []"
      using assms that gm_get_in by fastforce
    then have "modelWires m \<noteq> []"
      using modelWires_set [of m] by auto
    from FilterModels_eq [OF this] that show ?thesis
      by (force simp: gm_getd_def modelWires_set)
  qed
  ultimately show ?thesis
    unfolding ids by (auto simp: sorted_filter [of "\<lambda>x. x", simplified] gm_get_keys)
qed

text \<open>The provider a flat entry stands for.\<close>

definition shim :: "Provider \<Rightarrow> Provider" where
  "shim p = (if pr_Surfaces p = [] \<and> pr_Protocol p \<noteq> '''' then
     p\<lparr>pr_Surfaces := [(''default'', \<lparr>su_Protocol = pr_Protocol p, su_Adapter = '''', su_BaseURL = pr_BaseURL p\<rparr>)]\<rparr>
     else p)"

lemma normalize_loop_get:
  assumes "gm_wf ps" "\<forall>(k, p) \<in> set ps. gm_get (doc_Providers d) k = Some p"
  shows "gm_get (doc_Providers (normalize_loop ps d)) k =
    (if k \<in> set (gm_keys ps) then map_option shim (gm_get (doc_Providers d) k) else gm_get (doc_Providers d) k) \<and>
    doc_Models (normalize_loop ps d) = doc_Models d"
  using assms
proof (induction ps arbitrary: d)
  case (Cons kp ps)
  obtain name p where kp: "kp = (name, p)" by (cases kp)
  let ?d = "if pr_Surfaces p = [] \<and> pr_Protocol p \<noteq> '''' then d\<lparr>doc_Providers := gm_set name (shim p) (doc_Providers d)\<rparr> else d"
  have step: "normalize_loop (kp # ps) d = normalize_loop ps ?d"
    by (simp add: kp shim_def)
  have nm: "name \<notin> set (gm_keys ps)" "gm_get (doc_Providers d) name = Some p"
    using Cons.prems by (simp_all add: kp)
  have "\<forall>(k, q) \<in> set ps. gm_get (doc_Providers ?d) k = Some q"
    using Cons.prems nm(1) by (force simp: kp gm_keys_def)
  from Cons.IH [OF _ this] Cons.prems(1) show ?case
    using nm unfolding step by (auto simp: kp shim_def [of p])
qed simp

lemma normalize_loop_wf:
  "gm_wf (doc_Providers d) \<Longrightarrow> gm_wf (doc_Providers (normalize_loop ps d))"
  by (induction ps arbitrary: d) auto

lemma normalize_doc_wf: "gm_wf (doc_Providers d) \<Longrightarrow> gm_wf (doc_Providers (normalize_doc d))"
  by (simp add: normalize_doc_def normalize_loop_wf)

lemma normalize_get:
  assumes "gm_wf (doc_Providers d)"
  shows "gm_get (doc_Providers (normalize_doc d)) k = map_option shim (gm_get (doc_Providers d) k)"
    "doc_Models (normalize_doc d) = doc_Models d"
proof -
  have "\<forall>(k, p) \<in> set (doc_Providers d). gm_get (doc_Providers d) k = Some p"
    using assms gm_get_in by fastforce
  from normalize_loop_get [OF assms this, of k]
  show "gm_get (doc_Providers (normalize_doc d)) k = map_option shim (gm_get (doc_Providers d) k)"
    "doc_Models (normalize_doc d) = doc_Models d"
    by (auto simp: normalize_doc_def simp flip: gm_get_None)
qed

lemma shim_shim: "shim (shim p) = shim p"
  by (simp add: shim_def)

text \<open>
  Loading rewrites exactly the flat providers: one that has a protocol and no surfaces gets a
  single surface named \<open>default\<close> with that protocol and base URL, every other provider, the set of
  provider names and the models stay as they are; loading the result again changes nothing.
\<close>

lemma normalize_exact:
  assumes "gm_wf (doc_Providers d)"
  shows "gm_get (doc_Providers (normalize_doc d)) k = map_option shim (gm_get (doc_Providers d) k) \<and>
    doc_Models (normalize_doc d) = doc_Models d \<and>
    gm_get (doc_Providers (normalize_doc (normalize_doc d))) k = gm_get (doc_Providers (normalize_doc d)) k"
  using assms normalize_get [OF normalize_doc_wf [OF assms]]
  by (simp add: normalize_get option.map_comp o_def shim_shim)

subsection \<open>A concrete catalog\<close>

definition demo_provider :: "string \<Rightarrow> string \<Rightarrow> Provider" where
  "demo_provider proto url = \<lparr>pr_CredentialProfile = ''acct'', pr_Inject = [(''Authorization'', ''Bearer ${key}'')],
     pr_InjectPreset = '''', pr_Surfaces = [], pr_Protocol = proto, pr_BaseURL = url\<rparr>"

definition demo_doc :: Document where
  "demo_doc = \<lparr>doc_Providers = [(''one'', demo_provider ''openai-chat-completions'' ''https://one/v1''),
                               (''two'', demo_provider ''openai-chat-completions'' ''https://two/v1'')],
     doc_Models =
       [(''m'', \<lparr>mod_Modalities = [(''chat'', \<lparr>mo_Wire = WireOpenAIChat, mo_Strategy = StrategyRoundRobin,
            mo_Providers = [\<lparr>pe_ProviderRef = ''one'', pe_Model = '''', pe_Surface = ''''\<rparr>,
                            \<lparr>pe_ProviderRef = ''two'', pe_Model = ''m-2'', pe_Surface = ''''\<rparr>]\<rparr>)]\<rparr>),
        (''n'', \<lparr>mod_Modalities = [(''chat'', \<lparr>mo_Wire = WireOpenAIChat, mo_Strategy = StrategyRoundRobin,
            mo_Providers = [\<lparr>pe_ProviderRef = ''two'', pe_Model = '''', pe_Surface = ''''\<rparr>,
                            \<lparr>pe_ProviderRef = ''one'', pe_Model = '''', pe_Surface = ''''\<rparr>]\<rparr>)]\<rparr>),
        (''f'', \<lparr>mod_Modalities = [(''chat'', \<lparr>mo_Wire = WireOpenAIChat, mo_Strategy = '''',
            mo_Providers = [\<lparr>pe_ProviderRef = ''two'', pe_Model = '''', pe_Surface = ''''\<rparr>,
                            \<lparr>pe_ProviderRef = ''one'', pe_Model = '''', pe_Surface = ''''\<rparr>]\<rparr>)]\<rparr>)]\<rparr>"

abbreviation demo_catalog :: Catalog where
  "demo_catalog \<equiv> NewFromDocument demo_doc"

lemma demo_rr_pool:
  "rr_pool demo_catalog (''m'', WireOpenAIChat, '''') =
     Some (''chat|openai-chat-completions'', [\<lparr>pe_ProviderRef = ''one'', pe_Model = '''', pe_Surface = ''''\<rparr>,
                            \<lparr>pe_ProviderRef = ''two'', pe_Model = ''m-2'', pe_Surface = ''''\<rparr>])"
  "rr_pool demo_catalog (''n'', WireOpenAIChat, '''') =
     Some (''chat|openai-chat-completions'', [\<lparr>pe_ProviderRef = ''two'', pe_Model = '''', pe_Surface = ''''\<rparr>,
                            \<lparr>pe_ProviderRef = ''one'', pe_Model = '''', pe_Surface = ''''\<rparr>])"
  by (simp_all add: rr_pool_def NewFromDocument_def normalize_doc_def demo_doc_def demo_provider_def
      gm_set_def wire_modalities_def pickModality_def gm_getd_def poolKey_def wire_defs strategy_defs)

lemma demo_rr_start: "cat_rr demo_catalog = []"
  by (simp add: NewFromDocument_def)

text \<open>The same document, visited backwards.\<close>

abbreviation rev_doc :: "Document \<Rightarrow> Document" where
  "rev_doc d \<equiv> \<lparr>doc_Providers = rev (doc_Providers d), doc_Models = rev (doc_Models d)\<rparr>"

lemma gm_get_rev: "gm_wf m \<Longrightarrow> gm_get (rev m) = gm_get m"
  by (rule gm_get_perm) (auto simp: gm_wf_def simp flip: rev_map)

lemma doc_same_rev:
  assumes "gm_wf (doc_Providers d)" "gm_wf (doc_Models d)"
    "\<forall>(k, p) \<in> set (doc_Providers d). gm_wf (pr_Surfaces p)"
    "\<forall>(k, m) \<in> set (doc_Models d). gm_wf (mod_Modalities m)"
  shows "doc_same d (rev_doc d)"
  unfolding doc_same_def
proof (intro conjI allI)
  fix k
  show "rel_option provider_same (gm_get (doc_Providers d) k) (gm_get (doc_Providers (rev_doc d)) k)"
    using assms(1,3) gm_get_mem [of "doc_Providers d" k]
    by (cases "gm_get (doc_Providers d) k") (auto simp: gm_get_rev provider_same_def)
  show "rel_option model_same (gm_get (doc_Models d) k) (gm_get (doc_Models (rev_doc d)) k)"
    using assms(2,4) gm_get_mem [of "doc_Models d" k]
    by (cases "gm_get (doc_Models d) k") (auto simp: gm_get_rev model_same_def)
qed

lemmas demo_simps = NewFromDocument_def normalize_doc_def demo_doc_def demo_provider_def gm_set_def
  wire_modalities_def pickModality_def gm_getd_def poolKey_def wire_defs strategy_defs

lemma demo_wf:
  "gm_wf (doc_Providers (cat_doc demo_catalog))" "gm_wf (doc_Models (cat_doc demo_catalog))"
  "\<forall>(k, p) \<in> set (doc_Providers (cat_doc demo_catalog)). gm_wf (pr_Surfaces p)"
  "\<forall>(k, m) \<in> set (doc_Models (cat_doc demo_catalog)). gm_wf (mod_Modalities m) \<and> mod_Modalities m \<noteq> []"
  by (simp_all add: demo_simps)

lemma demo_same: "doc_same (cat_doc demo_catalog) (rev_doc (cat_doc demo_catalog))"
  using demo_wf by (intro doc_same_rev) auto

lemma resolve_order_independent_instance:
  "fst (ResolveWithModality demo_catalog ''m'' WireOpenAIChat '''') =
   fst (ResolveWithModality (demo_catalog\<lparr>cat_doc := rev_doc (cat_doc demo_catalog)\<rparr>) ''m'' WireOpenAIChat '''')"
  using resolve_order_independent [of demo_catalog
      "demo_catalog\<lparr>cat_doc := rev_doc (cat_doc demo_catalog)\<rparr>" "''m''" WireOpenAIChat "''''"] demo_same
  by simp

definition demo_plan :: RoutePlan where
  "demo_plan = \<lparr>rp_Strategy = ''failover'', rp_Targets = [
     \<lparr>tg_Model = ''f'', tg_ProviderRef = ''two'', tg_Protocol = ''openai-chat-completions'', tg_Adapter = '''',
      tg_BaseURL = ''https://two/v1'', tg_CredentialProfile = ''acct'', tg_UpstreamModel = ''f'',
      tg_Inject = [(''Authorization'', ''Bearer ${key}'')], tg_InjectPreset = ''''\<rparr>,
     \<lparr>tg_Model = ''f'', tg_ProviderRef = ''one'', tg_Protocol = ''openai-chat-completions'', tg_Adapter = '''',
      tg_BaseURL = ''https://one/v1'', tg_CredentialProfile = ''acct'', tg_UpstreamModel = ''f'',
      tg_Inject = [(''Authorization'', ''Bearer ${key}'')], tg_InjectPreset = ''''\<rparr>]\<rparr>"

lemma demo_resolve: "ResolveWithModality demo_catalog ''f'' WireOpenAIChat '''' = (Inr demo_plan, demo_catalog)"
  by (simp add: ResolveWithModality_def targetFromEntry_def surfaceFor_def pickEntries_def gm_keys_def
      protocolMatchesWire_def demo_plan_def demo_simps TrimSpace_graphic graphic_def)

theorem resolve_sound_witness:
  "length (rp_Targets demo_plan) = 2 \<and>
   (\<exists>m n md. gm_get (doc_Models (cat_doc demo_catalog)) ''f'' = Some m \<and>
     gm_getd zero_Modality (mod_Modalities m) n = md \<and> n \<in> set (wire_modalities m WireOpenAIChat) \<and>
     list_all2 (target_of demo_catalog ''f'' WireOpenAIChat) (mo_Providers md) (rp_Targets demo_plan))"
  using resolve_sound [OF demo_resolve] by (auto simp: demo_plan_def strategy_defs)

theorem round_robin_fair_witness:
  "mset (fst (resolve_seq demo_catalog (replicate (5 * 2) (''m'', WireOpenAIChat, '''')))) =
   repeat_mset 5 (mset (map (plan_for demo_catalog (''m'', WireOpenAIChat, ''''))
     [\<lparr>pe_ProviderRef = ''one'', pe_Model = '''', pe_Surface = ''''\<rparr>,
      \<lparr>pe_ProviderRef = ''two'', pe_Model = ''m-2'', pe_Surface = ''''\<rparr>]))"
  using round_robin_fair [OF demo_rr_pool(1), of 5] by (simp add: demo_rr_start gm_getd_def)

theorem shared_counter_starves_witness:
  "fst (resolve_seq demo_catalog (concat (replicate 7 [(''m'', WireOpenAIChat, ''''), (''n'', WireOpenAIChat, '''')]))) =
   concat (replicate 7
     [plan_for demo_catalog (''m'', WireOpenAIChat, '''') \<lparr>pe_ProviderRef = ''one'', pe_Model = '''', pe_Surface = ''''\<rparr>,
      plan_for demo_catalog (''n'', WireOpenAIChat, '''') \<lparr>pe_ProviderRef = ''one'', pe_Model = '''', pe_Surface = ''''\<rparr>])"
  by (rule shared_counter_starves [OF demo_rr_pool]) (simp_all add: demo_rr_start gm_getd_def)

theorem list_models_exact_witness:
  "set (map li_ID (ListModelsFor demo_catalog (Some [''model:m'']))) =
     {id. \<exists>m n md. gm_get (doc_Models (cat_doc demo_catalog)) id = Some m \<and> (n, md) \<in> set (mod_Modalities m) \<and>
          Authorize [''model:m''] id (mo_Wire md) = Inr ()}"
proof -
  have "\<forall>(id, m) \<in> set (doc_Models (cat_doc demo_catalog)). mod_Modalities m \<noteq> []"
    using demo_wf(4) by auto
  from list_models_exact [OF demo_wf(2) this, of "[''model:m'']"] show ?thesis
    by blast
qed

lemma normalize_exact_instance:
  "gm_get (doc_Providers (normalize_doc demo_doc)) ''one'' =
   Some (demo_provider ''openai-chat-completions'' ''https://one/v1''\<lparr>pr_Surfaces :=
     [(''default'', \<lparr>su_Protocol = ''openai-chat-completions'', su_Adapter = '''', su_BaseURL = ''https://one/v1''\<rparr>)]\<rparr>)"
  using normalize_exact [of demo_doc "''one''"] by (simp add: demo_doc_def shim_def demo_provider_def)

subsection \<open>Loading\<close>

text \<open>\<open>read\<close> is the file system and \<open>unmarshal\<close> the yaml decoder, which is third-party code.\<close>

datatype load_error = LoadRead | LoadYaml

definition Load_catalog ::
  "(string \<Rightarrow> string option) \<Rightarrow> (string \<Rightarrow> Document option) \<Rightarrow> string \<Rightarrow> (load_error, Catalog) res" where
  "Load_catalog read unmarshal path =
     (case read path of
        None \<Rightarrow> Inl LoadRead
      | Some raw \<Rightarrow> (case unmarshal raw of None \<Rightarrow> Inl LoadYaml | Some doc \<Rightarrow> Inr (NewFromDocument doc)))"

end
