(* ===== verification/GoBase64.thy ===== *)
theory GoBase64
  imports GoStrings
begin

section \<open>Base64\<close>

text \<open>
  \<^verbatim>\<open>base64.StdEncoding\<close> (padded) with its decoder, and the encoder of \<^verbatim>\<open>base64.RawURLEncoding\<close> (not
  padded), on bytes. The decoder skips line breaks, wants the padding and accepts any value for the
  bits the padding leaves over, as Go's does.
\<close>

definition b64_char :: "char \<Rightarrow> char \<Rightarrow> nat \<Rightarrow> char" where
  "b64_char c62 c63 v =
     (if v < 26 then char_of (65 + v)
      else if v < 52 then char_of (71 + v)
      else if v < 62 then char_of (v - 4)
      else if v = 62 then c62 else c63)"

abbreviation std_char :: "nat \<Rightarrow> char" where "std_char \<equiv> b64_char (CHR ''+'') (CHR ''/'')"
abbreviation url_char :: "nat \<Rightarrow> char" where "url_char \<equiv> b64_char (CHR ''-'') (CHR ''_'')"

definition std_val :: "char \<Rightarrow> nat option" where
  "std_val c =
     (let n = of_char c in
      if 65 \<le> n \<and> n \<le> 90 then Some (n - 65)
      else if 97 \<le> n \<and> n \<le> 122 then Some (n - 71)
      else if 48 \<le> n \<and> n \<le> 57 then Some (n + 4)
      else if c = CHR ''+'' then Some 62
      else if c = CHR ''/'' then Some 63
      else None)"

fun b64_enc :: "(nat \<Rightarrow> char) \<Rightarrow> bool \<Rightarrow> string \<Rightarrow> string" where
  "b64_enc al pad [] = []"
| "b64_enc al pad [a] =
     [al (of_char a div 4), al (of_char a mod 4 * 16)] @ (if pad then ''=='' else [])"
| "b64_enc al pad [a, b] =
     [al (of_char a div 4), al (of_char a mod 4 * 16 + of_char b div 16), al (of_char b mod 16 * 4)] @
     (if pad then ''='' else [])"
| "b64_enc al pad (a # b # c # r) =
     [al (of_char a div 4), al (of_char a mod 4 * 16 + of_char b div 16),
      al (of_char b mod 16 * 4 + of_char c div 64), al (of_char c mod 64)] @ b64_enc al pad r"

definition StdEncode :: "string \<Rightarrow> string" where
  "StdEncode s = b64_enc std_char True s"

definition RawURLEncode :: "string \<Rightarrow> string" where
  "RawURLEncode s = b64_enc url_char False s"

fun dec_quads :: "string \<Rightarrow> string option" where
  "dec_quads [] = Some []"
| "dec_quads (c0 # c1 # c2 # c3 # r) =
     (case (std_val c0, std_val c1) of
        (Some v0, Some v1) \<Rightarrow>
          (if c2 = CHR ''='' \<and> c3 = CHR ''='' then
             (if r = [] then Some [char_of (v0 * 4 + v1 div 16)] else None)
           else (case std_val c2 of
             None \<Rightarrow> None
           | Some v2 \<Rightarrow>
               (if c3 = CHR ''='' then
                  (if r = [] then Some [char_of (v0 * 4 + v1 div 16), char_of (v1 mod 16 * 16 + v2 div 4)]
                   else None)
                else (case (std_val c3, dec_quads r) of
                  (Some v3, Some t) \<Rightarrow>
                    Some ([char_of (v0 * 4 + v1 div 16), char_of (v1 mod 16 * 16 + v2 div 4),
                           char_of (v2 mod 4 * 64 + v3)] @ t)
                | _ \<Rightarrow> None))))
      | _ \<Rightarrow> None)"
| "dec_quads _ = None"

definition StdDecode :: "string \<Rightarrow> string option" where
  "StdDecode s = dec_quads (filter (\<lambda>c. c \<noteq> CHR 0x0A \<and> c \<noteq> CHR 0x0D) s)"

lemma of_char_less: "(of_char (c :: char) :: nat) < 256"
  using of_char_mod_256 [of c, where ?'a = nat] by (metis mod_less_divisor zero_less_numeral)

lemma b64_cases:
  assumes "v < 64"
  shows "v < 26 \<or> 26 \<le> v \<and> v < 52 \<or> 52 \<le> v \<and> v < 62 \<or> v = 62 \<or> v = (63 :: nat)"
  using assms by linarith

lemma std_val_char [simp]:
  assumes "v < 64"
  shows "std_val (std_char v) = Some v"
proof -
  have "52 \<le> v \<and> v < 62 \<Longrightarrow> \<exists>w. v = w + 4 \<and> 48 \<le> w \<and> w \<le> 57"
    by (rule exI [of _ "v - 4"]) auto
  then show ?thesis
    using b64_cases [OF assms]
    by (elim disjE) (auto simp: b64_char_def std_val_def Let_def)
qed

lemma std_val_special: "std_val (CHR 0x0A) = None" "std_val (CHR 0x0D) = None" "std_val (CHR ''='') = None"
  "std_val (CHR ''$'') = None"
  by (simp_all add: std_val_def)

lemma std_char_plain:
  assumes "v < 64"
  shows "std_char v \<noteq> CHR 0x0A" "std_char v \<noteq> CHR 0x0D" "std_char v \<noteq> CHR ''=''" "std_char v \<noteq> CHR ''$''"
  using std_val_char [OF assms] std_val_special by auto

lemma sextets:
  fixes a b c :: nat
  assumes "a < 256" "b < 256" "c < 256"
  shows "a div 4 < 64" "a mod 4 * 16 < 64" "a mod 4 * 16 + b div 16 < 64" "b mod 16 * 4 < 64"
    "b mod 16 * 4 + c div 64 < 64" "c mod 64 < 64"
    "a div 4 * 4 + (a mod 4 * 16 + b div 16) div 16 = a" "a div 4 * 4 + a mod 4 * 16 div 16 = a"
    "(a mod 4 * 16 + b div 16) mod 16 * 16 + (b mod 16 * 4 + c div 64) div 4 = b"
    "(a mod 4 * 16 + b div 16) mod 16 * 16 + b mod 16 * 4 div 4 = b"
    "(b mod 16 * 4 + c div 64) mod 4 * 64 + c mod 64 = c"
proof -
  have d: "a mod 4 < 4" "b div 16 < 16" "b mod 16 < 16" "c div 64 < 4" "c mod 64 < 64" "a div 4 < 64"
    using assms by linarith+
  then have e: "(a mod 4 * 16 + b div 16) div 16 = a mod 4" "(a mod 4 * 16 + b div 16) mod 16 = b div 16"
    "(b mod 16 * 4 + c div 64) div 4 = b mod 16" "(b mod 16 * 4 + c div 64) mod 4 = c div 64"
    by simp_all
  show "a div 4 < 64" "a mod 4 * 16 < 64" "a mod 4 * 16 + b div 16 < 64" "b mod 16 * 4 < 64"
    "b mod 16 * 4 + c div 64 < 64" "c mod 64 < 64"
    using d by linarith+
  show "a div 4 * 4 + (a mod 4 * 16 + b div 16) div 16 = a" "a div 4 * 4 + a mod 4 * 16 div 16 = a"
    "(a mod 4 * 16 + b div 16) mod 16 * 16 + (b mod 16 * 4 + c div 64) div 4 = b"
    "(a mod 4 * 16 + b div 16) mod 16 * 16 + b mod 16 * 4 div 4 = b"
    "(b mod 16 * 4 + c div 64) mod 4 * 64 + c mod 64 = c"
    unfolding e by simp_all
qed

lemmas byte_sextets = sextets [OF of_char_less of_char_less of_char_less]

lemma byte_parts:
  "of_char (c :: char) div 16 div 16 = (0::nat)" "of_char c div 16 mod 16 = (of_char c div 16 :: nat)"
  "of_char c div 64 div 4 = (0::nat)" "of_char c div 64 mod 4 = (of_char c div 64 :: nat)"
proof -
  have "(of_char c div 16 :: nat) < 16" "(of_char c div 64 :: nat) < 4"
    using of_char_less [of c] by linarith+
  then show "of_char (c :: char) div 16 div 16 = (0::nat)" "of_char c div 16 mod 16 = (of_char c div 16 :: nat)"
    "of_char c div 64 div 4 = (0::nat)" "of_char c div 64 mod 4 = (of_char c div 64 :: nat)"
    by simp_all
qed

lemma dec_quads_enc: "dec_quads (b64_enc std_char True s) = Some s"
  by (induction "std_char" True s rule: b64_enc.induct)
    (simp_all add: byte_sextets byte_parts std_char_plain Let_def)

lemma b64_enc_std_chars: "c \<in> set (b64_enc std_char True s) \<Longrightarrow> c = CHR ''='' \<or> (\<exists>v < 64. c = std_char v)"
  by (induction "std_char" True s rule: b64_enc.induct) (auto intro: byte_sextets)

text \<open>Decoding the encoding of any bytes gives the bytes back.\<close>

lemma StdDecode_Encode [simp]: "StdDecode (StdEncode s) = Some s"
proof -
  have "c \<noteq> CHR 0x0A \<and> c \<noteq> CHR 0x0D" if "c \<in> set (StdEncode s)" for c
    using b64_enc_std_chars [of c s] std_char_plain that by (auto simp: StdEncode_def)
  then have "filter (\<lambda>c. c \<noteq> CHR 0x0A \<and> c \<noteq> CHR 0x0D) (StdEncode s) = StdEncode s"
    by (simp add: filter_id_conv)
  then show ?thesis by (simp add: StdDecode_def) (simp add: StdEncode_def dec_quads_enc)
qed

lemma StdEncode_no_dollar: "CHR ''$'' \<notin> set (StdEncode s)"
  using b64_enc_std_chars [of "CHR ''$''" s] std_char_plain(4) [symmetric] by (auto simp: StdEncode_def)

lemma RawURLEncode_nonempty: "s \<noteq> [] \<Longrightarrow> RawURLEncode s \<noteq> []"
  unfolding RawURLEncode_def by (induction url_char False s rule: b64_enc.induct) auto

end
