(* ===== verification/GoTime.thy ===== *)
theory GoTime
  imports GoStrings
begin

section \<open>Instants and durations\<close>

text \<open>
  An instant is the number of nanoseconds since 1970, a \<^verbatim>\<open>time.Duration\<close> a number of nanoseconds.
  \<^verbatim>\<open>UnixMilli\<close> rounds down. The zero \<^verbatim>\<open>time.Time\<close> is \<open>None\<close> where the code tests \<^verbatim>\<open>IsZero\<close>.
  \<open>time_ParseDuration\<close> follows \<^verbatim>\<open>time.ParseDuration\<close>: a sign, then groups of digits with an
  optional fraction and a unit, each limit at 2^63. The fraction of a group is taken exactly and
  rounded down, where Go computes it in \<^verbatim>\<open>float64\<close>; the two can differ by a nanosecond.
\<close>

type_synonym instant = int
type_synonym duration = int

definition Millisecond :: duration where "Millisecond = 1000000"
definition Second :: duration where "Second = 1000000000"
definition Minute :: duration where "Minute = 60 * Second"
definition Hour :: duration where "Hour = 60 * Minute"

lemmas duration_defs = Millisecond_def Second_def Minute_def Hour_def

definition UnixMilli :: "instant \<Rightarrow> int" where
  "UnixMilli t = t div 1000000"

definition from_UnixMilli :: "int \<Rightarrow> instant" where
  "from_UnixMilli ms = ms * 1000000"

lemma UnixMilli_from [simp]: "UnixMilli (from_UnixMilli ms) = ms"
  by (simp add: UnixMilli_def from_UnixMilli_def)

lemma from_UnixMilli_le: "from_UnixMilli (UnixMilli t) \<le> t"
  by (simp add: UnixMilli_def from_UnixMilli_def)

lemma UnixMilli_mono: "s \<le> t \<Longrightarrow> UnixMilli s \<le> UnixMilli t"
  by (simp add: UnixMilli_def zdiv_mono1)

definition unit_map :: "(string \<times> nat) list" where
  "unit_map =
     [(''ns'', 1), (''us'', 1000), (bytes [194, 181, 115], 1000), (bytes [206, 188, 115], 1000),
      (''ms'', 1000000), (''s'', 1000000000), (''m'', 60000000000), (''h'', 3600000000000)]"

definition num_or_dot :: "char \<Rightarrow> bool" where
  "num_or_dot c \<longleftrightarrow> c = CHR ''.'' \<or> is_digit c"

text \<open>One group: its value in nanoseconds and the rest of the text.\<close>

definition dur_group :: "string \<Rightarrow> (nat \<times> string) option" where
  "dur_group s =
     (let int_part = takeWhile is_digit s;
          s1 = dropWhile is_digit s;
          frac = (case s1 of c # t \<Rightarrow> if c = CHR ''.'' then takeWhile is_digit t else [] | [] \<Rightarrow> []);
          s2 = (case s1 of c # t \<Rightarrow> if c = CHR ''.'' then dropWhile is_digit t else s1 | [] \<Rightarrow> []);
          u = takeWhile (\<lambda>c. \<not> num_or_dot c) s2;
          v = dec_val int_part
      in if s = [] \<or> \<not> num_or_dot (hd s) \<or> v > 2 ^ 63 \<or> (int_part = [] \<and> frac = []) \<or> u = [] then None
         else (case map_of unit_map u of
           None \<Rightarrow> None
         | Some unit \<Rightarrow>
             (let w = v * unit + dec_val frac * unit div 10 ^ length frac
              in if v * unit > 2 ^ 63 \<or> w > 2 ^ 63 then None
                 else Some (w, dropWhile (\<lambda>c. \<not> num_or_dot c) s2))))"

lemma dur_group_shorter: "dur_group s = Some (w, t) \<Longrightarrow> length t < length s"
proof -
  assume a: "dur_group s = Some (w, t)"
  let ?s1 = "dropWhile is_digit s"
  let ?s2 = "case ?s1 of c # t \<Rightarrow> if c = CHR ''.'' then dropWhile is_digit t else ?s1 | [] \<Rightarrow> []"
  have t: "t = dropWhile (\<lambda>c. \<not> num_or_dot c) ?s2" and u: "takeWhile (\<lambda>c. \<not> num_or_dot c) ?s2 \<noteq> []"
    using a unfolding dur_group_def Let_def by (auto split: if_splits option.splits)
  have "length ?s2 \<le> length s"
    using length_dropWhile_le [of is_digit s]
    by (auto split: list.split intro: order_trans [OF length_dropWhile_le] dest: order_trans [OF le_SucI])
  moreover have "length t < length ?s2"
    using u unfolding t by (cases ?s2) (auto simp: length_dropWhile_le less_Suc_eq_le split: if_splits)
  ultimately show ?thesis by simp
qed

function dur_groups :: "string \<Rightarrow> nat \<Rightarrow> nat option" where
  "dur_groups s d =
     (if s = [] then Some d
      else (case dur_group s of
        None \<Rightarrow> None
      | Some (w, t) \<Rightarrow> if d + w > 2 ^ 63 then None else dur_groups t (d + w)))"
  by pat_completeness auto
termination
  by (relation "measure (\<lambda>(s, d). length s)") (auto dest: dur_group_shorter)

declare dur_groups.simps [simp del]

definition time_ParseDuration :: "string \<Rightarrow> duration option" where
  "time_ParseDuration s =
     (let neg = (s \<noteq> [] \<and> hd s = CHR ''-'');
          s1 = (if s \<noteq> [] \<and> hd s \<in> set ''+-'' then tl s else s)
      in if s1 = ''0'' then Some 0
         else if s1 = [] then None
         else (case dur_groups s1 0 of
           None \<Rightarrow> None
         | Some d \<Rightarrow> if neg then Some (- int d) else if d > 2 ^ 63 - 1 then None else Some (int d)))"

lemma dur_groups_bound: "dur_groups s d = Some n \<Longrightarrow> d \<le> 2 ^ 63 \<Longrightarrow> n \<le> 2 ^ 63"
  by (induction s d rule: dur_groups.induct)
    (subst (asm) (2) dur_groups.simps, auto split: if_splits option.splits)

text \<open>A parsed duration is an \<^verbatim>\<open>int64\<close>.\<close>

lemma time_ParseDuration_range: "time_ParseDuration s = Some d \<Longrightarrow> - (2 ^ 63) \<le> d \<and> d < 2 ^ 63"
  by (auto simp: time_ParseDuration_def Let_def split: if_splits option.splits dest!: dur_groups_bound)

end
