(* ===== verification/GoUtf8.thy ===== *)
theory GoUtf8
  imports GoStrings
begin

section \<open>UTF-8\<close>

text \<open>
  A Go string is any bytes. \<^verbatim>\<open>encoding/json\<close> reads and writes well-formed UTF-8 only: a byte that starts no
  character (\<^verbatim>\<open>utf8.DecodeRune\<close>) is replaced by U+FFFD. \<open>rune_len\<close> is the length of the first character, 0 where
  there is none; \<open>to_utf8\<close> is the replacement.
\<close>

definition cont_byte :: "char \<Rightarrow> bool" where
  "cont_byte c \<longleftrightarrow> 128 \<le> (of_char c :: nat) \<and> (of_char c :: nat) \<le> 191"

text \<open>The second byte excludes overlong forms, surrogates and what is above U+10FFFF.\<close>

definition second_byte :: "nat \<Rightarrow> char \<Rightarrow> bool" where
  "second_byte n c \<longleftrightarrow>
     (let m = of_char c :: nat in
      (if n = 224 then 160 else if n = 240 then 144 else 128) \<le> m \<and> m \<le> (if n = 237 then 159 else if n = 244 then 143 else 191))"

definition rune_size :: "nat \<Rightarrow> nat" where
  "rune_size n =
     (if n < 128 then 1
      else if 194 \<le> n \<and> n \<le> 223 then 2
      else if 224 \<le> n \<and> n \<le> 239 then 3
      else if 240 \<le> n \<and> n \<le> 244 then 4
      else 0)"

definition rune_tail :: "nat \<Rightarrow> nat \<Rightarrow> string \<Rightarrow> bool" where
  "rune_tail n k t \<longleftrightarrow>
     k - 1 \<le> length t \<and> list_all cont_byte (take (k - 1) t) \<and> (1 < k \<longrightarrow> second_byte n (hd t))"

definition rune_len :: "string \<Rightarrow> nat" where
  "rune_len s =
     (case s of
        [] \<Rightarrow> 0
      | a # t \<Rightarrow> (if rune_tail (of_char a) (rune_size (of_char a)) t then rune_size (of_char a) else 0))"

definition replacement :: string where
  "replacement = bytes [239, 191, 189]"

function to_utf8 :: "string \<Rightarrow> string" where
  "to_utf8 [] = []"
| "to_utf8 (a # s) =
     (if rune_len (a # s) = 0 then replacement @ to_utf8 s
      else take (rune_len (a # s)) (a # s) @ to_utf8 (drop (rune_len (a # s) - 1) s))"
  by pat_completeness auto
termination by (relation "measure length") auto

function utf8_ok :: "string \<Rightarrow> bool" where
  "utf8_ok [] = True"
| "utf8_ok (a # s) = (rune_len (a # s) \<noteq> 0 \<and> utf8_ok (drop (rune_len (a # s) - 1) s))"
  by pat_completeness auto
termination by (relation "measure length") auto

lemma rune_len_Nil [simp]: "rune_len [] = 0"
  by (simp add: rune_len_def)

lemma rune_len_ascii [simp]: "(of_char a :: nat) < 128 \<Longrightarrow> rune_len (a # s) = 1"
  by (simp add: rune_len_def rune_size_def rune_tail_def)

lemma rune_len_le: "rune_len s \<le> length s"
  by (auto simp: rune_len_def rune_tail_def split: list.split)

lemma rune_tail_append: "rune_tail n k s \<Longrightarrow> rune_tail n k (s @ t)"
  by (cases "s = []") (simp_all add: rune_tail_def le_diff_conv)

lemma rune_tail_take: "rune_tail n k s \<Longrightarrow> rune_tail n k (take (k - 1) s)"
  by (cases s) (auto simp: rune_tail_def)

lemma rune_len_append: "rune_len s \<noteq> 0 \<Longrightarrow> rune_len (s @ t) = rune_len s"
  by (auto simp: rune_len_def rune_tail_append split: list.splits if_splits)

lemma rune_len_take: "rune_len s \<noteq> 0 \<Longrightarrow> rune_len (take (rune_len s) s) = rune_len s"
  by (cases s; cases "rune_len s") (auto simp: rune_len_def dest: rune_tail_take split: if_splits)

lemma utf8_ok_rune: "rune_len s \<noteq> 0 \<Longrightarrow> utf8_ok (take (rune_len s) s)"
  using rune_len_take [of s] rune_len_le [of s] by (cases s; cases "rune_len s") auto

lemma utf8_ok_append [simp]: "utf8_ok s \<Longrightarrow> utf8_ok (s @ t) = utf8_ok t"
proof (induction s rule: utf8_ok.induct)
  case (2 a s)
  then have "rune_len (a # s @ t) = rune_len (a # s)" "rune_len (a # s) - 1 \<le> length s"
    using rune_len_append [of "a # s" t] rune_len_le [of "a # s"] by auto
  with 2 show ?case by simp
qed simp

lemmas rune_eval = rune_len_def rune_tail_def rune_size_def second_byte_def cont_byte_def

lemma utf8_ok_replacement [simp]: "utf8_ok replacement"
  by (simp add: replacement_def bytes_def rune_eval)

lemma utf8_ok_to_utf8 [simp]: "utf8_ok (to_utf8 s)"
proof (induction s rule: to_utf8.induct)
  case (2 a s)
  then show ?case using utf8_ok_rune [of "a # s"] by auto
qed simp

lemma to_utf8_ok: "utf8_ok s \<Longrightarrow> to_utf8 s = s"
proof (induction s rule: utf8_ok.induct)
  case (2 a s)
  then have "to_utf8 (a # s) = take (rune_len (a # s)) (a # s) @ drop (rune_len (a # s) - 1) s" by simp
  also have "\<dots> = a # s" using 2 by (cases "rune_len (a # s)") auto
  finally show ?case .
qed simp

lemma to_utf8_iff: "to_utf8 s = s \<longleftrightarrow> utf8_ok s"
  by (metis to_utf8_ok utf8_ok_to_utf8)

lemma to_utf8_idem [simp]: "to_utf8 (to_utf8 s) = to_utf8 s"
  by (simp add: to_utf8_ok)

text \<open>What is cut off at a byte that continues no character leaves well-formed text; so does trimming white space.\<close>

lemma utf8_ok_init:
  assumes "utf8_ok (s @ t)" "t \<noteq> []" "\<not> cont_byte (hd t)"
  shows "utf8_ok s"
  using assms(1)
proof (induction s rule: utf8_ok.induct)
  case (2 a s)
  let ?k = "rune_len (a # s @ t)"
  have k: "?k \<noteq> 0" "utf8_ok (drop (?k - 1) (s @ t))" using "2.prems" by auto
  then have tail: "rune_tail (of_char a) ?k (s @ t)" by (auto simp: rune_len_def split: if_splits)
  have le: "?k - 1 \<le> length s"
  proof (rule ccontr)
    assume "\<not> ?k - 1 \<le> length s"
    then have "hd t \<in> set (take (?k - 1) (s @ t))" using assms(2) by (cases t) (auto simp: in_set_conv_nth take_Cons')
    with tail assms(3) show False by (auto simp: rune_tail_def list_all_iff)
  qed
  have "rune_len (a # s) = ?k"
  proof -
    have "rune_tail n m s" if "rune_tail n m (s @ t)" "m - 1 \<le> length s" for n m
    proof -
      have "take (m - 1) (s @ t) = take (m - 1) s" using that(2) by simp
      moreover have "1 < m \<Longrightarrow> hd (s @ t) = hd s" using that(2) by (cases s) simp_all
      ultimately show ?thesis using that unfolding rune_tail_def by metis
    qed
    then have "rune_tail (of_char a) ?k s" using tail le by blast
    then show ?thesis using k(1) by (auto simp: rune_len_def split: if_splits)
  qed
  with k le "2.IH" show ?case by simp
qed simp

lemma go_spaces_utf8: "p \<in> set go_spaces \<Longrightarrow> utf8_ok p \<and> p \<noteq> [] \<and> \<not> cont_byte (hd p)"
  by (auto simp: go_spaces_def bytes_def rune_eval of_char_of)

lemma strip_front_induct:
  assumes "P s" "\<And>p t. p \<in> set ps \<Longrightarrow> p \<noteq> [] \<Longrightarrow> P (p @ t) \<Longrightarrow> P t"
  shows "P (strip_front ps s)"
  using assms
proof (induction ps s rule: strip_front.induct)
  case (1 ps s)
  show ?case
  proof (cases "find (\<lambda>p. p \<noteq> [] \<and> prefix p s) ps")
    case None
    with "1.prems"(1) show ?thesis by (simp add: strip_front.simps [of ps s])
  next
    case (Some p)
    then have p: "p \<in> set ps" "p \<noteq> []" "prefix p s" by (auto simp: find_Some_iff)
    from p(3) obtain t where t: "s = p @ t" by (auto simp: prefix_def)
    have "P t" by (rule "1.prems"(2) [OF p(1,2)]) (use "1.prems"(1) t in simp)
    then have "P (drop (length p) s)" by (simp add: t)
    then have "P (strip_front ps (drop (length p) s))" by (rule "1.IH" [OF Some _ "1.prems"(2)])
    then show ?thesis using Some by (simp only: strip_front.simps [of ps s] option.case)
  qed
qed

lemma utf8_ok_TrimSpace: "utf8_ok s \<Longrightarrow> utf8_ok (TrimSpace s)"
proof -
  assume "utf8_ok s"
  moreover have "utf8_ok t" if "p \<in> set go_spaces" "utf8_ok (p @ t)" for p t
    using that(2) go_spaces_utf8 [OF that(1)] by simp
  ultimately have a: "utf8_ok (strip_front go_spaces s)"
    by (rule strip_front_induct [where P = utf8_ok])
  show ?thesis
    unfolding TrimSpace_def
  proof (rule strip_front_induct [where P = "\<lambda>r. utf8_ok (rev r)"])
    show "utf8_ok (rev (rev (strip_front go_spaces s)))" using a by simp
    show "utf8_ok (rev t)" if "p \<in> set (map rev go_spaces)" "utf8_ok (rev (p @ t))" for p t
    proof -
      from that(1) obtain x where x: "x \<in> set go_spaces" "p = rev x" by auto
      with that(2) have "utf8_ok (rev t @ x)" by simp
      then show ?thesis by (rule utf8_ok_init) (use go_spaces_utf8 [OF x(1)] in simp_all)
    qed
  qed
qed

definition ascii :: "string \<Rightarrow> bool" where
  "ascii s \<longleftrightarrow> list_all (\<lambda>c. (of_char c :: nat) < 128) s"

lemma utf8_ok_ascii: "ascii s \<Longrightarrow> utf8_ok s"
  by (induction s) (simp_all add: ascii_def)

lemma ascii_simps [simp]: "ascii []" "ascii (c # s) \<longleftrightarrow> (of_char c :: nat) < 128 \<and> ascii s" "ascii (s @ t) \<longleftrightarrow> ascii s \<and> ascii t"
  by (simp_all add: ascii_def)

text \<open>The encoding of a code point.\<close>

definition utf8 :: "nat \<Rightarrow> string" where
  "utf8 n =
     (if n < 128 then bytes [n]
      else if n < 2048 then bytes [192 + n div 64, 128 + n mod 64]
      else if n < 65536 then bytes [224 + n div 4096, 128 + n div 64 mod 64, 128 + n mod 64]
      else bytes [240 + n div 262144, 128 + n div 4096 mod 64, 128 + n div 64 mod 64, 128 + n mod 64])"

lemma utf8_ok_bytes:
  "2 \<le> x \<Longrightarrow> x < 32 \<Longrightarrow> y < 64 \<Longrightarrow> utf8_ok (bytes [192 + x, 128 + y])"
  "x < 16 \<Longrightarrow> y < 64 \<Longrightarrow> z < 64 \<Longrightarrow> (x = 0 \<Longrightarrow> 32 \<le> y) \<Longrightarrow> (x = 13 \<Longrightarrow> y < 32) \<Longrightarrow>
     utf8_ok (bytes [224 + x, 128 + y, 128 + z])"
  "x < 5 \<Longrightarrow> y < 64 \<Longrightarrow> z < 64 \<Longrightarrow> w < 64 \<Longrightarrow> (x = 0 \<Longrightarrow> 16 \<le> y) \<Longrightarrow> (x = 4 \<Longrightarrow> y < 16) \<Longrightarrow>
     utf8_ok (bytes [240 + x, 128 + y, 128 + z, 128 + w])"
  by (auto simp: bytes_def of_char_of rune_eval)

lemma utf8_ok_utf8:
  assumes "n < 55296 \<or> 57344 \<le> n" "n < 1114112"
  shows "utf8_ok (utf8 n)"
proof -
  consider "n < 128" | "128 \<le> n" "n < 2048" | "2048 \<le> n" "n < 65536" | "65536 \<le> n" by linarith
  then show ?thesis
  proof cases
    case 1
    then show ?thesis by (simp add: utf8_def bytes_def of_char_of)
  next
    case 2
    then have "2 \<le> n div 64" "n div 64 < 32" by auto
    with 2 utf8_ok_bytes(1) show ?thesis by (simp add: utf8_def)
  next
    case 3
    have "n div 4096 < 16" "n div 4096 = 0 \<Longrightarrow> 32 \<le> n div 64 mod 64" using 3 by auto
    moreover have "n div 64 mod 64 < 32" if "n div 4096 = 13"
    proof -
      from that have "n < 57344" by linarith
      with assms(1) have "n div 64 < 864" by simp
      moreover have "n div 64 mod 64 = n div 64 - 64 * 13"
        using minus_mult_div_eq_mod [of "n div 64" 64] that by (simp add: div_mult2_eq [symmetric])
      ultimately show ?thesis by simp
    qed
    ultimately have "utf8_ok (bytes [224 + n div 4096, 128 + n div 64 mod 64, 128 + n mod 64])"
      by (intro utf8_ok_bytes(2)) auto
    with 3 show ?thesis by (simp add: utf8_def)
  next
    case 4
    have "n div 262144 < 5" "n div 262144 = 0 \<Longrightarrow> 16 \<le> n div 4096 mod 64" using 4 assms(2) by auto
    moreover have "n div 4096 mod 64 < 16" if "n div 262144 = 4"
    proof -
      have "n div 4096 < 272" using assms(2) by simp
      moreover have "n div 4096 mod 64 = n div 4096 - 64 * 4"
        using minus_mult_div_eq_mod [of "n div 4096" 64] that by (simp add: div_mult2_eq [symmetric])
      ultimately show ?thesis by simp
    qed
    ultimately have "utf8_ok (bytes [240 + n div 262144, 128 + n div 4096 mod 64, 128 + n div 64 mod 64, 128 + n mod 64])"
      by (intro utf8_ok_bytes(3)) auto
    with 4 show ?thesis by (simp add: utf8_def)
  qed
qed

end
