(* ===== verification/GoJson.thy ===== *)
theory GoJson
  imports GoUtf8
begin

section \<open>JSON as the program reads and writes it\<close>

text \<open>
  The part of \<^verbatim>\<open>encoding/json\<close> the program uses, on bytes: a parser for JSON texts, the compact
  encoder, and the decoding of an object into the fields of a Go struct.
  A number keeps its literal (\<^verbatim>\<open>json.RawMessage\<close> does) and becomes an integer when a field asks for
  one. Object members keep their order and their duplicates.
  The parser recurses with fuel; \<open>json_parse\<close> gives it twice the length of the text, and
  \<open>pval_enough\<close> shows that more fuel never changes a result.
  Strings are well-formed UTF-8 on both sides: bytes that are not become U+FFFD. Not modelled: the nesting limit of 10000.
\<close>

datatype json =
    JNull
  | JBool bool
  | JNum string
  | JStr string
  | JArr "json list"
  | JObj "(string \<times> json) list"

subsection \<open>Encoding\<close>

definition hex_digit :: "nat \<Rightarrow> char" where
  "hex_digit d = (if d < 10 then char_of (48 + d) else char_of (87 + d))"

definition short_escapes :: "(char \<times> char) list" where
  "short_escapes =
     [(CHR 0x22, CHR 0x22), (CHR 0x5C, CHR 0x5C), (CHR 0x08, CHR ''b''), (CHR 0x0C, CHR ''f''),
      (CHR 0x0A, CHR ''n''), (CHR 0x0D, CHR ''r''), (CHR 0x09, CHR ''t'')]"

definition esc_char :: "char \<Rightarrow> string" where
  "esc_char c =
     (case map_of short_escapes c of
        Some e \<Rightarrow> [CHR 0x5C, e]
      | None \<Rightarrow>
          (let n = of_char c :: nat in
           if n < 32 \<or> c \<in> set ''<>&''
           then [CHR 0x5C, CHR ''u'', CHR ''0'', CHR ''0'', hex_digit (n div 16), hex_digit (n mod 16)]
           else [c]))"

definition quote :: string where "quote = [CHR 0x22]"

text \<open>ASCII by character, then whole characters; the separators U+2028 and U+2029 are escaped.\<close>

function enc_body :: "string \<Rightarrow> string" where
  "enc_body [] = []"
| "enc_body (a # s) =
     (if (of_char a :: nat) < 128 then esc_char a @ enc_body s
      else if rune_len (a # s) = 0 then CHR 0x5C # ''ufffd'' @ enc_body s
      else if take 3 (a # s) = bytes [226, 128, 168] then CHR 0x5C # ''u2028'' @ enc_body (drop 2 s)
      else if take 3 (a # s) = bytes [226, 128, 169] then CHR 0x5C # ''u2029'' @ enc_body (drop 2 s)
      else take (rune_len (a # s)) (a # s) @ enc_body (drop (rune_len (a # s) - 1) s))"
  by pat_completeness auto
termination by (relation "measure length") auto

definition enc_str :: "string \<Rightarrow> string" where
  "enc_str s = quote @ enc_body s @ quote"

fun emit :: "json \<Rightarrow> string"
  and emit_elems :: "json list \<Rightarrow> string"
  and emit_members :: "(string \<times> json) list \<Rightarrow> string" where
  "emit JNull = ''null''"
| "emit (JBool b) = (if b then ''true'' else ''false'')"
| "emit (JNum l) = l"
| "emit (JStr s) = enc_str s"
| "emit (JArr vs) = ''['' @ emit_elems vs @ '']''"
| "emit (JObj ms) = ''{'' @ emit_members ms @ ''}''"
| "emit_elems [] = []"
| "emit_elems [v] = emit v"
| "emit_elems (v # w # vs) = emit v @ '','' @ emit_elems (w # vs)"
| "emit_members [] = []"
| "emit_members [(k, v)] = enc_str k @ '':'' @ emit v"
| "emit_members ((k, v) # m # ms) = enc_str k @ '':'' @ emit v @ '','' @ emit_members (m # ms)"

subsection \<open>Parsing\<close>

definition is_ws :: "char \<Rightarrow> bool" where
  "is_ws c \<longleftrightarrow> (of_char c :: nat) \<in> set [32, 9, 10, 13]"

definition skip_ws :: "string \<Rightarrow> string" where
  "skip_ws s = dropWhile is_ws s"

definition hex_val :: "char \<Rightarrow> nat option" where
  "hex_val c =
     (let n = of_char c :: nat in
      if 48 \<le> n \<and> n \<le> 57 then Some (n - 48)
      else if 97 \<le> n \<and> n \<le> 102 then Some (n - 87)
      else if 65 \<le> n \<and> n \<le> 70 then Some (n - 55)
      else None)"

definition hex4 :: "char \<Rightarrow> char \<Rightarrow> char \<Rightarrow> char \<Rightarrow> nat option" where
  "hex4 a b c d =
     (case (hex_val a, hex_val b, hex_val c, hex_val d) of
        (Some w, Some x, Some y, Some z) \<Rightarrow> Some (4096 * w + 256 * x + 16 * y + z)
      | _ \<Rightarrow> None)"


definition simple_escape :: "char \<Rightarrow> char option" where
  "simple_escape c =
     map_of ((CHR ''/'', CHR ''/'') # map (\<lambda>(d, e). (e, d)) short_escapes) c"

definition low_surrogate :: "string \<Rightarrow> nat option" where
  "low_surrogate t =
     (case t of
        b # u # l1 # l2 # l3 # l4 # t' \<Rightarrow>
          (if b = CHR 0x5C \<and> u = CHR ''u'' then
             (case hex4 l1 l2 l3 l4 of
                Some m \<Rightarrow> if 56320 \<le> m \<and> m < 57344 then Some m else None
              | None \<Rightarrow> None)
           else None)
      | _ \<Rightarrow> None)"

text \<open>The rest of a string literal, after the opening quote.\<close>

definition str_cons :: "string \<Rightarrow> (string \<times> string) option \<Rightarrow> (string \<times> string) option" where
  "str_cons p r = map_option (\<lambda>(s, t). (p @ s, t)) r"

text \<open>One escape sequence, after its backslash; a lone surrogate is U+FFFD.\<close>

definition pesc :: "string \<Rightarrow> (string \<times> string) option" where
  "pesc s =
     (case s of
        [] \<Rightarrow> None
      | e # s' \<Rightarrow>
          (if e \<noteq> CHR ''u'' then map_option (\<lambda>d. ([d], s')) (simple_escape e)
           else case s' of
             h1 # h2 # h3 # h4 # t \<Rightarrow>
               (case hex4 h1 h2 h3 h4 of
                  None \<Rightarrow> None
                | Some n \<Rightarrow>
                    (if 55296 \<le> n \<and> n < 57344 then
                       (case low_surrogate t of
                          Some m \<Rightarrow>
                            (if n < 56320
                             then Some (utf8 (65536 + (n - 55296) * 1024 + (m - 56320)), drop 6 t)
                             else Some (utf8 65533, t))
                        | None \<Rightarrow> Some (utf8 65533, t))
                     else Some (utf8 n, t)))
           | _ \<Rightarrow> None))"

lemma pesc_length: "pesc s = Some (p, t) \<Longrightarrow> length t < length s"
  by (auto simp: pesc_def split: list.splits if_splits option.splits)

function pstr :: "string \<Rightarrow> (string \<times> string) option" where
  "pstr [] = None"
| "pstr (c # s) =
     (if c = CHR 0x22 then Some ([], s)
      else if c = CHR 0x5C then
        (case pesc s of None \<Rightarrow> None | Some (p, t) \<Rightarrow> str_cons p (pstr t))
      else if (of_char c :: nat) < 32 then None
      else if rune_len (c # s) = 0 then str_cons replacement (pstr s)
      else str_cons (take (rune_len (c # s)) (c # s)) (pstr (drop (rune_len (c # s) - 1) s)))"
  by pat_completeness auto
termination
  by (relation "measure length") (auto dest: pesc_length)

text \<open>A number literal: sign, integer part without superfluous zeros, fraction, exponent.\<close>

definition num_int :: "string \<Rightarrow> (string \<times> string) option" where
  "num_int s =
     (case s of
        [] \<Rightarrow> None
      | c # t \<Rightarrow> if c = CHR ''0'' then Some ([c], t)
                 else if is_digit c then Some (c # takeWhile is_digit t, dropWhile is_digit t)
                 else None)"

definition num_frac :: "string \<Rightarrow> (string \<times> string) option" where
  "num_frac s =
     (case s of
        [] \<Rightarrow> Some ([], [])
      | c # t \<Rightarrow> if c = CHR ''.''
                 then (if takeWhile is_digit t = [] then None
                       else Some (c # takeWhile is_digit t, dropWhile is_digit t))
                 else Some ([], s))"

definition num_exp :: "string \<Rightarrow> (string \<times> string) option" where
  "num_exp s =
     (case s of
        [] \<Rightarrow> Some ([], [])
      | c # t \<Rightarrow> if c = CHR ''e'' \<or> c = CHR ''E''
                 then (let (sg, u) = (case t of
                                        [] \<Rightarrow> ([], [])
                                      | d # t' \<Rightarrow> if d = CHR ''+'' \<or> d = CHR ''-'' then ([d], t') else ([], t))
                       in if takeWhile is_digit u = [] then None
                          else Some (c # sg @ takeWhile is_digit u, dropWhile is_digit u))
                 else Some ([], s))"

definition num_sign :: "string \<Rightarrow> string \<times> string" where
  "num_sign s = (case s of [] \<Rightarrow> ([], []) | c # t \<Rightarrow> if c = CHR ''-'' then ([c], t) else ([], s))"

definition pnum :: "string \<Rightarrow> (string \<times> string) option" where
  "pnum s =
     (let (sg, s1) = num_sign s in
      case num_int s1 of
        None \<Rightarrow> None
      | Some (i, s2) \<Rightarrow>
          (case num_frac s2 of
             None \<Rightarrow> None
           | Some (f, s3) \<Rightarrow>
               (case num_exp s3 of
                  None \<Rightarrow> None
                | Some (e, s4) \<Rightarrow> Some (sg @ i @ f @ e, s4))))"

text \<open>A value that is neither an object nor an array.\<close>

definition pscalar :: "string \<Rightarrow> (json \<times> string) option" where
  "pscalar s =
     (if prefix quote s then map_option (\<lambda>(a, t). (JStr a, t)) (pstr (drop 1 s))
      else if prefix ''true'' s then Some (JBool True, drop 4 s)
      else if prefix ''false'' s then Some (JBool False, drop 5 s)
      else if prefix ''null'' s then Some (JNull, drop 4 s)
      else map_option (\<lambda>(l, t). (JNum l, t)) (pnum s))"

fun pval :: "nat \<Rightarrow> string \<Rightarrow> (json \<times> string) option"
  and pelems :: "nat \<Rightarrow> string \<Rightarrow> (json list \<times> string) option"
  and pmembers :: "nat \<Rightarrow> string \<Rightarrow> ((string \<times> json) list \<times> string) option" where
  "pval 0 s = None"
| "pval (Suc n) s =
     (case skip_ws s of
        [] \<Rightarrow> None
      | c # r \<Rightarrow>
          (if c = CHR ''{'' then
             (if prefix ''}'' (skip_ws r) then Some (JObj [], drop 1 (skip_ws r))
              else map_option (\<lambda>(ms, t). (JObj ms, t)) (pmembers n r))
           else if c = CHR ''['' then
             (if prefix '']'' (skip_ws r) then Some (JArr [], drop 1 (skip_ws r))
              else map_option (\<lambda>(vs, t). (JArr vs, t)) (pelems n r))
           else pscalar (c # r)))"
| "pelems 0 s = None"
| "pelems (Suc n) s =
     (case pval n s of
        None \<Rightarrow> None
      | Some (v, r) \<Rightarrow>
          (case skip_ws r of
             [] \<Rightarrow> None
           | c # t \<Rightarrow>
               (if c = CHR '','' then map_option (\<lambda>(vs, t'). (v # vs, t')) (pelems n t)
                else if c = CHR '']'' then Some ([v], t) else None)))"
| "pmembers 0 s = None"
| "pmembers (Suc n) s =
     (case skip_ws s of
        [] \<Rightarrow> None
      | q # r \<Rightarrow>
          (if q \<noteq> CHR 0x22 then None
           else case pstr r of
             None \<Rightarrow> None
           | Some (k, r1) \<Rightarrow>
               (if \<not> prefix '':'' (skip_ws r1) then None
                else case pval n (drop 1 (skip_ws r1)) of
                  None \<Rightarrow> None
                | Some (v, r2) \<Rightarrow>
                    (case skip_ws r2 of
                       [] \<Rightarrow> None
                     | c # t \<Rightarrow>
                         (if c = CHR '','' then map_option (\<lambda>(ms, t'). ((k, v) # ms, t')) (pmembers n t)
                          else if c = CHR ''}'' then Some ([(k, v)], t) else None)))))"

definition json_fuel :: "string \<Rightarrow> nat" where
  "json_fuel s = 2 * length s + 2"

definition json_parse :: "string \<Rightarrow> json option" where
  "json_parse s =
     (case pval (json_fuel s) s of
        None \<Rightarrow> None
      | Some (v, r) \<Rightarrow> if skip_ws r = [] then Some v else None)"

subsection \<open>Enough fuel\<close>

lemma skip_ws_length: "length (skip_ws s) \<le> length s"
  by (simp add: skip_ws_def length_dropWhile_le)

lemma skip_ws_Cons_length: "skip_ws s = c # r \<Longrightarrow> length r < length s"
  using skip_ws_length [of s] by simp

lemma str_cons_Some: "str_cons p r = Some (s, t) \<longleftrightarrow> (\<exists>s'. r = Some (s', t) \<and> s = p @ s')"
  by (cases r) (auto simp: str_cons_def)

lemma pstr_length: "pstr s = Some (a, r) \<Longrightarrow> length r < length s"
proof (induction s arbitrary: a r rule: pstr.induct)
  case (2 c s)
  consider "c = CHR 0x22" | p t where "c = CHR 0x5C" "pesc s = Some (p, t)"
    | "c \<noteq> CHR 0x22" "c \<noteq> CHR 0x5C" "\<not> (of_char c :: nat) < 32" "rune_len (c # s) = 0"
    | "c \<noteq> CHR 0x22" "c \<noteq> CHR 0x5C" "\<not> (of_char c :: nat) < 32" "rune_len (c # s) \<noteq> 0"
    using "2.prems" by (auto split: if_splits option.splits)
  then show ?case
  proof cases
    case 1
    with "2.prems" show ?thesis by simp
  next
    case (2 p t)
    with "2.prems" obtain a' where "pstr t = Some (a', r)" by (auto simp: str_cons_Some)
    with 2 have "length r < length t" using "2.IH"(1) by auto
    with pesc_length [OF 2(2)] show ?thesis by simp
  next
    case 3
    with "2.prems" obtain a' where "pstr s = Some (a', r)" by (auto simp: str_cons_Some)
    with 3 have "length r < length s" using "2.IH"(2) by auto
    then show ?thesis by simp
  next
    case 4
    with "2.prems" obtain a' where "pstr (drop (rune_len (c # s) - 1) s) = Some (a', r)" by (auto simp: str_cons_Some)
    with 4 have "length r < length (drop (rune_len (c # s) - 1) s)" using "2.IH"(3) by blast
    then show ?thesis by simp
  qed
qed simp

lemma num_int_length: "num_int s = Some (a, r) \<Longrightarrow> length r < length s"
  by (auto simp: num_int_def le_imp_less_Suc length_dropWhile_le split: list.splits if_splits)

lemma num_frac_length: "num_frac s = Some (a, r) \<Longrightarrow> length r \<le> length s"
  by (auto simp: num_frac_def le_SucI length_dropWhile_le split: list.splits if_splits)

lemma num_exp_length: "num_exp s = Some (a, r) \<Longrightarrow> length r \<le> length s"
  by (auto simp: num_exp_def le_SucI length_dropWhile_le split: list.splits if_splits)

lemma num_sign_length: "num_sign s = (a, r) \<Longrightarrow> length r \<le> length s"
  by (auto simp: num_sign_def split: list.splits if_splits)

lemma pnum_length: "pnum s = Some (a, r) \<Longrightarrow> length r < length s"
  by (auto simp: pnum_def split: prod.splits option.splits
      dest!: num_int_length num_frac_length num_exp_length num_sign_length)

lemma pscalar_length: "pscalar s = Some (v, r) \<Longrightarrow> length r < length s"
  by (cases s) (auto simp: pscalar_def dest: pstr_length pnum_length split: if_splits)

lemma pval_length: "pval n s = Some (v, r) \<Longrightarrow> length r < length s"
  and pelems_length: "pelems n s = Some (vs, r) \<Longrightarrow> length r < length s"
  and pmembers_length: "pmembers n s = Some (ms, r) \<Longrightarrow> length r < length s"
proof (induction n arbitrary: s v r vs ms)
  case 0
  { case 1 then show ?case by simp }
  { case 2 then show ?case by simp }
  { case 3 then show ?case by simp }
next
  case (Suc n)
  { case 1
    then obtain c r1 where a: "skip_ws s = c # r1" by (auto split: list.splits)
    then consider "r = drop 1 (skip_ws r1)" | vs where "pelems n r1 = Some (vs, r)"
      | ms where "pmembers n r1 = Some (ms, r)" | "pscalar (c # r1) = Some (v, r)"
      using 1 by (auto split: if_splits simp del: One_nat_def)
    then have "length r \<le> length r1"
    proof cases
      case 1
      with skip_ws_length [of r1] show ?thesis by simp
    qed (auto dest: Suc.IH(2,3) pscalar_length intro: less_imp_le)
    then show ?case using skip_ws_Cons_length [OF a] by simp }
  { case 2
    then obtain v r1 where a: "pval n s = Some (v, r1)" by (auto split: option.splits)
    with 2 obtain c t where b: "skip_ws r1 = c # t" by (auto split: list.splits)
    have "r = t \<or> (\<exists>vs'. pelems n t = Some (vs', r))"
      using 2 a b by (auto split: if_splits)
    then have "length r \<le> length t" using Suc.IH(2) by (auto intro: less_imp_le)
    then show ?case using Suc.IH(1) [OF a] skip_ws_Cons_length [OF b] by simp }
  { case 3
    then obtain r1 where a: "skip_ws s = CHR 0x22 # r1"
      by (auto split: list.splits if_splits)
    with 3 obtain k r2 where b: "pstr r1 = Some (k, r2)" "prefix '':'' (skip_ws r2)"
      by (auto split: option.splits if_splits)
    with 3 a obtain v r3 where c: "pval n (drop 1 (skip_ws r2)) = Some (v, r3)"
      by (auto split: option.splits)
    with 3 a b obtain d t where d: "skip_ws r3 = d # t"
      by (auto split: list.splits)
    have "length t < length s"
      using skip_ws_Cons_length [OF a] pstr_length [OF b(1)] Suc.IH(1) [OF c]
        skip_ws_length [of r2] skip_ws_Cons_length [OF d] by simp
    moreover have "r = t \<or> (\<exists>ms'. pmembers n t = Some (ms', r))"
      using 3 a b c d by (auto split: if_splits)
    ultimately show ?case using Suc.IH(3) [of t _ r] by auto }
qed

text \<open>One unit of fuel more changes nothing once there is enough for the text.\<close>

lemma pval_Suc: "2 * length s + 1 \<le> n \<Longrightarrow> pval (Suc n) s = pval n s"
  and pelems_Suc: "2 * length s + 2 \<le> n \<Longrightarrow> pelems (Suc n) s = pelems n s"
  and pmembers_Suc: "2 * length s + 2 \<le> n \<Longrightarrow> pmembers (Suc n) s = pmembers n s"
proof (induction n arbitrary: s)
  case 0
  { case 1 then show ?case by simp }
  { case 2 then show ?case by simp }
  { case 3 then show ?case by simp }
next
  case (Suc n)
  { case 1
    show ?case
    proof (cases "skip_ws s")
      case (Cons c r)
      then have "2 * length r + 2 \<le> n" using 1 skip_ws_Cons_length [OF Cons] by simp
      then have "pelems (Suc n) r = pelems n r" "pmembers (Suc n) r = pmembers n r"
        by (rule Suc.IH(2), rule Suc.IH(3))
      then show ?thesis
        by (simp only: pval.simps(2) [of "Suc n" s] pval.simps(2) [of n s])
          (simp only: Cons list.case)
    qed simp }
  { case 2
    have v: "pval (Suc n) s = pval n s" using 2 Suc.IH(1) [of s] by simp
    show ?case
    proof (cases "pval n s")
      case (Some x)
      then obtain w r where x: "pval n s = Some (w, r)" by (cases x) auto
      have "pelems (Suc n) t = pelems n t" if "skip_ws r = c # t" for c t
        using 2 pval_length [OF x] skip_ws_Cons_length [OF that] by (intro Suc.IH(2)) simp
      then show ?thesis
        by (simp only: pelems.simps(2) [of "Suc n" s] pelems.simps(2) [of n s] v x option.case prod.case)
          (cases "skip_ws r"; simp only: list.case)
    qed (simp only: pelems.simps(2) [of "Suc n" s] pelems.simps(2) [of n s] v option.case) }
  { case 3
    show ?case
    proof (cases "skip_ws s")
      case (Cons q r)
      note q = this
      show ?thesis
      proof (cases "pstr r")
        case None
        then show ?thesis
          by (simp only: pmembers.simps(2) [of "Suc n" s] pmembers.simps(2) [of n s] q list.case option.case)
      next
        case (Some x)
        then obtain k r1 where x: "pstr r = Some (k, r1)" by (cases x) auto
        define u where "u = drop 1 (skip_ws r1)"
        have u: "length u + 2 \<le> length s"
          using skip_ws_Cons_length [OF q] pstr_length [OF x] skip_ws_length [of r1]
          by (simp add: u_def)
        have v: "pval (Suc n) u = pval n u" using 3 u by (intro Suc.IH(1)) simp
        have m: "pmembers (Suc n) t = pmembers n t"
          if "pval n u = Some (w, r2)" "skip_ws r2 = c # t" for w r2 c t
          using 3 u pval_length [OF that(1)] skip_ws_Cons_length [OF that(2)]
          by (intro Suc.IH(3)) simp
        note eqs = pmembers.simps(2) [of "Suc n" s] pmembers.simps(2) [of n s] q x
        show ?thesis
        proof (cases "pval n u")
          case None
          then show ?thesis
            by (simp only: eqs list.case option.case prod.case u_def [symmetric] v)
        next
          case (Some y)
          then obtain w r2 where y: "pval n u = Some (w, r2)" by (cases y) auto
          show ?thesis
            using m [OF y]
            by (simp only: eqs list.case option.case prod.case u_def [symmetric] v y)
              (cases "skip_ws r2"; simp only: list.case)
        qed
      qed
    qed simp }
qed

declare pval.simps(2) [simp del] pelems.simps(2) [simp del] pmembers.simps(2) [simp del]

lemma pval_more: "2 * length s + 1 \<le> n \<Longrightarrow> pval (n + k) s = pval n s"
  by (induction k) (simp_all add: pval_Suc)

text \<open>The fuel of \<open>json_parse\<close> is enough: any more gives the same parse.\<close>

lemma pval_enough: "json_fuel s \<le> n \<Longrightarrow> pval n s = pval (json_fuel s) s"
  using pval_more [of s "json_fuel s"] by (auto simp: json_fuel_def le_iff_add simp del: add_2_eq_Suc')

lemma pelems_more: "2 * length s + 2 \<le> n \<Longrightarrow> pelems (n + k) s = pelems n s"
  by (induction k) (simp_all add: pelems_Suc)

subsection \<open>What is encoded is read back\<close>

lemma hex_val_digit [simp]: "d < 16 \<Longrightarrow> hex_val (hex_digit d) = Some d"
  by (auto simp: hex_val_def hex_digit_def Let_def)

lemma utf8_small [simp]: "utf8 (of_char c) = [c]" if "(of_char c :: nat) < 128"
  using that by (simp add: utf8_def bytes_def)

lemma hex4_byte [simp]:
  assumes "n < 256"
  shows "hex4 (CHR ''0'') (CHR ''0'') (hex_digit (n div 16)) (hex_digit (n mod 16)) = Some n"
proof -
  have z: "hex_val (CHR ''0'') = Some 0" by (simp add: hex_val_def)
  from assms have "n div 16 < 16" by simp
  then show ?thesis by (simp only: hex4_def z) simp
qed

lemma simple_escape_inv: "map_of short_escapes c = Some e \<Longrightarrow> simple_escape e = Some c \<and> e \<noteq> CHR ''u''"
  by (auto simp: short_escapes_def simple_escape_def split: if_splits)

lemma short_escapes_None:
  "map_of short_escapes c = None \<Longrightarrow> c \<noteq> CHR 0x22 \<and> c \<noteq> CHR 0x5C"
  by (auto simp: short_escapes_def split: if_splits)

lemma pstr_esc:
  assumes "(of_char c :: nat) < 128"
  shows "pstr (esc_char c @ t) = str_cons [c] (pstr t)"
proof (cases "map_of short_escapes c")
  case (Some e)
  then show ?thesis
    using simple_escape_inv [OF Some] by (simp add: esc_char_def pesc_def)
next
  case None
  let ?n = "of_char c :: nat"
  note c = short_escapes_None [OF None]
  show ?thesis
  proof (cases "?n < 32 \<or> c \<in> set ''<>&''")
    case True
    then have "?n < 128" by auto
    then have "pesc (CHR ''u'' # CHR ''0'' # CHR ''0'' # hex_digit (?n div 16) # hex_digit (?n mod 16) # t)
        = Some ([c], t)"
      by (simp add: pesc_def)
    with None True show ?thesis by (simp add: esc_char_def Let_def)
  next
    case False
    with None c assms show ?thesis by (simp add: esc_char_def Let_def)
  qed
qed

lemma pstr_rune:
  assumes "128 \<le> (of_char a :: nat)" "rune_len (a # s) \<noteq> 0"
  shows "pstr (take (rune_len (a # s)) (a # s) @ u) = str_cons (take (rune_len (a # s)) (a # s)) (pstr u)"
proof -
  define k where "k = rune_len (a # s) - 1"
  have k: "rune_len (a # s) = Suc k" "k \<le> length s" using assms(2) rune_len_le [of "a # s"] by (simp_all add: k_def)
  have "rune_len (a # take k s @ u) = Suc k"
    using rune_len_take [OF assms(2)] rune_len_append [of "a # take k s" u] by (simp add: k)
  moreover have "a \<noteq> CHR 0x22" "a \<noteq> CHR 0x5C" using assms(1) by auto
  ultimately show ?thesis using assms(1) k by simp
qed

lemma pesc_literals:
  "pesc (''ufffd'' @ t) = Some (replacement, t)"
  "pesc (''u2028'' @ t) = Some (bytes [226, 128, 168], t)" "pesc (''u2029'' @ t) = Some (bytes [226, 128, 169], t)"
  by (simp_all add: pesc_def hex4_def hex_val_def utf8_def replacement_def)

lemma rune_len_separator: "take 3 s = bytes [226, 128, x] \<Longrightarrow> x = 168 \<or> x = 169 \<Longrightarrow> rune_len s = 3"
proof -
  assume a: "take 3 s = bytes [226, 128, x]" "x = 168 \<or> x = 169"
  then have "rune_len (take 3 s) = 3" by (auto simp: bytes_def rune_eval)
  with rune_len_append [of "take 3 s" "drop 3 s"] show ?thesis by simp
qed

text \<open>What is written is read back as well-formed UTF-8.\<close>

lemma pstr_enc_body: "pstr (enc_body s @ quote @ t) = Some (to_utf8 s, t)"
proof (induction s rule: enc_body.induct)
  case (2 a s)
  let ?k = "rune_len (a # s)"
  consider "(of_char a :: nat) < 128" | "128 \<le> (of_char a :: nat)" "?k = 0"
    | x where "128 \<le> (of_char a :: nat)" "?k \<noteq> 0" "take 3 (a # s) = bytes [226, 128, x]" "x = 168 \<or> x = 169"
    | "128 \<le> (of_char a :: nat)" "?k \<noteq> 0" "take 3 (a # s) \<noteq> bytes [226, 128, 168]" "take 3 (a # s) \<noteq> bytes [226, 128, 169]"
    by fastforce
  then show ?case
  proof cases
    case 1
    with 2 show ?thesis by (simp add: pstr_esc str_cons_def)
  next
    case 2
    with "2.IH" show ?thesis by (simp add: pesc_literals [simplified] str_cons_def)
  next
    case (3 x)
    then have k: "?k = 3" using rune_len_separator by blast
    have "enc_body (a # s) = CHR 0x5C # (if x = 168 then ''u2028'' else ''u2029'') @ enc_body (drop 2 s)"
      using 3 by (auto simp: bytes_def simp del: take_Suc_Cons)
    moreover have "pstr (enc_body (drop 2 s) @ quote @ t) = Some (to_utf8 (drop 2 s), t)"
      using "2.IH"(3,4) 3 by (auto simp: bytes_def simp del: take_Suc_Cons)
    moreover have "to_utf8 (a # s) = bytes [226, 128, x] @ to_utf8 (drop 2 s)"
      using 3 k by (simp del: take_Suc_Cons)
    ultimately show ?thesis
      using 3(4) by (auto simp: pesc_literals [simplified] str_cons_def)
  next
    case 4
    with "2.IH" pstr_rune [of a s] show ?thesis by (simp add: str_cons_def del: take_Suc_Cons take_Cons')
  qed
qed (simp add: quote_def)

text \<open>
  A number literal is well formed when \<open>pnum\<close> reads all of it. What follows a value in a JSON text
  never continues a number.
\<close>

definition num_ok :: "string \<Rightarrow> bool" where
  "num_ok l \<longleftrightarrow> pnum l = Some (l, [])"

definition delim :: "string \<Rightarrow> bool" where
  "delim r \<longleftrightarrow> (case r of [] \<Rightarrow> True | c # _ \<Rightarrow> c \<in> set '',]}'')"

lemma delim_not_digit: "delim r \<Longrightarrow> r = [] \<or> \<not> is_digit (hd r) \<and> hd r \<noteq> CHR ''.'' \<and> hd r \<noteq> CHR ''e'' \<and> hd r \<noteq> CHR ''E''"
  by (cases r) (auto simp: delim_def is_digit_def)

lemma digits_delim:
  assumes "delim r"
  shows "takeWhile is_digit (s @ r) = takeWhile is_digit s"
    "dropWhile is_digit (s @ r) = dropWhile is_digit s @ r"
  using delim_not_digit [OF assms] by (induction s) (cases r; auto)+

lemma num_int_append: "delim r \<Longrightarrow> num_int s = Some (a, b) \<Longrightarrow> num_int (s @ r) = Some (a, b @ r)"
  by (auto simp: num_int_def digits_delim split: list.splits if_splits)

lemma num_frac_append: "delim r \<Longrightarrow> num_frac s = Some (a, b) \<Longrightarrow> num_frac (s @ r) = Some (a, b @ r)"
  using delim_not_digit [of r]
  by (cases s) (auto simp: num_frac_def digits_delim split: list.splits if_splits)

lemma num_exp_append: "delim r \<Longrightarrow> num_exp s = Some (a, b) \<Longrightarrow> num_exp (s @ r) = Some (a, b @ r)"
proof (cases s)
  case Nil
  assume "delim r" "num_exp s = Some (a, b)"
  with Nil delim_not_digit [of r] show ?thesis by (cases r) (auto simp: num_exp_def)
next
  case (Cons c t)
  assume "delim r" "num_exp s = Some (a, b)"
  with Cons show ?thesis
    by (cases t) (auto simp: num_exp_def digits_delim digits_delim [where s = "[]", simplified] split: if_splits)
qed

lemma num_sign_append: "s \<noteq> [] \<Longrightarrow> num_sign s = (a, b) \<Longrightarrow> num_sign (s @ r) = (a, b @ r)"
  by (auto simp: num_sign_def split: list.splits if_splits)

lemma pnum_append:
  assumes "delim r" "pnum s = Some (a, b)"
  shows "pnum (s @ r) = Some (a, b @ r)"
proof -
  obtain sg s1 where s1: "num_sign s = (sg, s1)" by (cases "num_sign s")
  with assms obtain i s2 where s2: "num_int s1 = Some (i, s2)"
    by (auto simp: pnum_def split: option.splits)
  with assms s1 obtain f s3 where s3: "num_frac s2 = Some (f, s3)"
    by (auto simp: pnum_def split: option.splits)
  with assms s1 s2 obtain e where s4: "num_exp s3 = Some (e, b)" "a = sg @ i @ f @ e"
    by (auto simp: pnum_def split: option.splits)
  have "s \<noteq> []" using s1 s2 by (auto simp: num_sign_def num_int_def)
  then show ?thesis
    using num_sign_append [OF _ s1] num_int_append [OF assms(1) s2]
      num_frac_append [OF assms(1) s3] num_exp_append [OF assms(1) s4(1)] s4(2)
    by (simp add: pnum_def)
qed

lemma pnum_hd: "pnum s = Some (a, b) \<Longrightarrow> \<exists>c t. s = c # t \<and> (c = CHR ''-'' \<or> is_digit c)"
  by (auto simp: pnum_def num_sign_def num_int_def is_digit_def
      split: list.splits if_splits option.splits)

fun json_ok :: "json \<Rightarrow> bool"
  and elems_ok :: "json list \<Rightarrow> bool"
  and members_ok :: "(string \<times> json) list \<Rightarrow> bool" where
  "json_ok JNull = True"
| "json_ok (JBool b) = True"
| "json_ok (JNum l) = num_ok l"
| "json_ok (JStr s) = True"
| "json_ok (JArr vs) = elems_ok vs"
| "json_ok (JObj ms) = members_ok ms"
| "elems_ok [] = True"
| "elems_ok (v # vs) = (json_ok v \<and> elems_ok vs)"
| "members_ok [] = True"
| "members_ok ((k, v) # ms) = (json_ok v \<and> members_ok ms)"

text \<open>A value whose strings are UTF-8.\<close>

fun json_utf8 :: "json \<Rightarrow> json"
  and elems_utf8 :: "json list \<Rightarrow> json list"
  and members_utf8 :: "(string \<times> json) list \<Rightarrow> (string \<times> json) list" where
  "json_utf8 JNull = JNull"
| "json_utf8 (JBool b) = JBool b"
| "json_utf8 (JNum l) = JNum l"
| "json_utf8 (JStr s) = JStr (to_utf8 s)"
| "json_utf8 (JArr vs) = JArr (elems_utf8 vs)"
| "json_utf8 (JObj ms) = JObj (members_utf8 ms)"
| "elems_utf8 [] = []"
| "elems_utf8 (v # vs) = json_utf8 v # elems_utf8 vs"
| "members_utf8 [] = []"
| "members_utf8 ((k, v) # ms) = (to_utf8 k, json_utf8 v) # members_utf8 ms"

lemma elems_utf8_map: "elems_utf8 vs = map json_utf8 vs"
  by (induction vs) simp_all

lemma members_utf8_map: "members_utf8 ms = map (\<lambda>(k, v). (to_utf8 k, json_utf8 v)) ms"
  by (induction ms) auto

lemma members_utf8_append [simp]: "members_utf8 (xs @ ys) = members_utf8 xs @ members_utf8 ys"
  by (simp add: members_utf8_map)

lemma is_digit_not_special:
  "is_digit c \<Longrightarrow> c \<noteq> CHR ''{'' \<and> c \<noteq> CHR ''['' \<and> c \<noteq> CHR 0x22 \<and> c \<noteq> CHR ''t'' \<and> c \<noteq> CHR ''f'' \<and>
    c \<noteq> CHR ''n'' \<and> c \<noteq> CHR '']'' \<and> \<not> is_ws c"
  by (auto simp: is_digit_def is_ws_def)

lemma skip_ws_simps [simp]:
  "skip_ws [] = []"
  "\<not> is_ws c \<Longrightarrow> skip_ws (c # s) = c # s"
  by (simp_all add: skip_ws_def)

lemma is_ws_literals [simp]:
  "\<not> is_ws CHR 0x22" "\<not> is_ws CHR ''{''" "\<not> is_ws CHR ''[''" "\<not> is_ws CHR ''}''" "\<not> is_ws CHR '']''"
  "\<not> is_ws CHR '',''" "\<not> is_ws CHR '':''" "\<not> is_ws CHR ''t''" "\<not> is_ws CHR ''f''" "\<not> is_ws CHR ''n''"
  "\<not> is_ws CHR ''-''"
  by (simp_all add: is_ws_def)

lemma pscalar_num:
  assumes "num_ok l" "delim r"
  obtains c t where "l @ r = c # t" "\<not> is_ws c" "c \<noteq> CHR ''{''" "c \<noteq> CHR ''[''" "c \<noteq> CHR '']''"
    "pscalar (c # t) = Some (JNum l, r)"
proof -
  from assms(1) obtain c t where l: "l = c # t" "c = CHR ''-'' \<or> is_digit c"
    using pnum_hd [of l l "[]"] by (auto simp: num_ok_def)
  have "pnum (l @ r) = Some (l, r)"
    using pnum_append [OF assms(2)] assms(1) by (auto simp: num_ok_def)
  with l have "pscalar (c # t @ r) = Some (JNum l, r)"
    by (auto simp: pscalar_def quote_def dest: is_digit_not_special)
  with l show ?thesis
    by (intro that [of c "t @ r"]) (auto dest: is_digit_not_special)
qed

text \<open>The first character of an encoded value: not white space and not a closing bracket.\<close>

lemma emit_hd: "json_ok v \<Longrightarrow> \<exists>c t. emit v = c # t \<and> \<not> is_ws c \<and> c \<noteq> CHR '']''"
proof (cases v)
  case (JNum l)
  assume "json_ok v"
  with JNum have "num_ok l" by simp
  then obtain c t where "l @ [] = c # t" "\<not> is_ws c" "c \<noteq> CHR '']''"
    by (rule pscalar_num [of l "[]"]) (auto simp: delim_def)
  with JNum show ?thesis by simp
qed (auto simp: enc_str_def quote_def)

lemma pmembers_Cons:
  "pmembers (Suc n) (enc_str k @ '':'' @ u) =
     (case pval n u of
        None \<Rightarrow> None
      | Some (v, r2) \<Rightarrow>
          (case skip_ws r2 of
             [] \<Rightarrow> None
           | c # t \<Rightarrow>
               (if c = CHR '','' then map_option (\<lambda>(ms, t'). ((to_utf8 k, v) # ms, t')) (pmembers n t)
                else if c = CHR ''}'' then Some ([(to_utf8 k, v)], t) else None)))"
proof -
  have "skip_ws (enc_str k @ '':'' @ u) = CHR 0x22 # (enc_body k @ quote @ '':'' @ u)"
    by (simp add: enc_str_def quote_def)
  then show ?thesis
    by (simp add: pmembers.simps(2) pstr_enc_body)
qed

lemma pval_emit:
  "json_ok v \<Longrightarrow> delim r \<Longrightarrow> 2 * length (emit v) \<le> n \<Longrightarrow> pval n (emit v @ r) = Some (json_utf8 v, r)"
  and pelems_emit:
  "elems_ok vs \<Longrightarrow> vs \<noteq> [] \<Longrightarrow> 2 * length (emit_elems vs) + 1 \<le> n \<Longrightarrow>
     pelems n (emit_elems vs @ '']'' @ r) = Some (elems_utf8 vs, r)"
  and pmembers_emit:
  "members_ok ms \<Longrightarrow> ms \<noteq> [] \<Longrightarrow> 2 * length (emit_members ms) + 1 \<le> n \<Longrightarrow>
     pmembers n (emit_members ms @ ''}'' @ r) = Some (members_utf8 ms, r)"
proof (induction v and vs and ms arbitrary: n r and n r and n r
    rule: emit_emit_elems_emit_members.induct)
  case 1
  then show ?case by (cases n) (auto simp: pval.simps(2) pscalar_def quote_def)
next
  case (2 b)
  then show ?case by (cases n; cases b) (auto simp: pval.simps(2) pscalar_def quote_def)
next
  case (3 l)
  obtain c t where l: "l @ r = c # t" "\<not> is_ws c" "c \<noteq> CHR ''{''" "c \<noteq> CHR ''[''"
    "pscalar (c # t) = Some (JNum l, r)"
    using pscalar_num [of l r] 3 by (metis json_ok.simps(3))
  have "l \<noteq> []" using 3 by (auto simp: num_ok_def dest: pnum_hd)
  with 3 obtain m where "n = Suc m" by (cases n) auto
  with l show ?case by (simp add: pval.simps(2))
next
  case (4 s)
  then obtain m where n: "n = Suc m" by (cases n) (auto simp: enc_str_def quote_def)
  have "enc_str s @ r = CHR 0x22 # (enc_body s @ quote @ r)"
    by (simp add: enc_str_def quote_def)
  then show ?case using n pstr_enc_body [of s r] 4 by (simp add: pval.simps(2) pscalar_def quote_def)
next
  case (5 vs)
  then obtain m where n: "n = Suc m" by (cases n) auto
  show ?case
  proof (cases vs)
    case (Cons v ws)
    then have "json_ok v" using "5.prems" by simp
    then obtain c t where "emit v = c # t" "\<not> is_ws c" "c \<noteq> CHR '']''" using emit_hd by blast
    then have "\<not> prefix '']'' (skip_ws (emit_elems vs @ '']'' @ r))"
      using Cons by (cases ws) auto
    moreover have "pelems m (emit_elems vs @ '']'' @ r) = Some (elems_utf8 vs, r)"
      using "5.IH" "5.prems" n Cons by auto
    ultimately show ?thesis using n by (simp add: pval.simps(2))
  qed (simp add: n pval.simps(2))
next
  case (6 ms)
  then obtain m where n: "n = Suc m" by (cases n) auto
  show ?case
  proof (cases ms)
    case (Cons e es)
    obtain k v where "e = (k, v)" by (cases e)
    then have "\<not> prefix ''}'' (skip_ws (emit_members ms @ ''}'' @ r))"
      using Cons by (cases es) (auto simp: enc_str_def quote_def)
    moreover have "pmembers m (emit_members ms @ ''}'' @ r) = Some (members_utf8 ms, r)"
      using "6.IH" "6.prems" n Cons by auto
    ultimately show ?thesis using n by (simp add: pval.simps(2))
  qed (simp add: n pval.simps(2))
next
  case 7
  then show ?case by simp
next
  case (8 v)
  then obtain m where n: "n = Suc m" by (cases n) auto
  have "pval m (emit v @ '']'' @ r) = Some (json_utf8 v, '']'' @ r)"
    using "8.IH" [of "'']'' @ r" m] "8.prems" n by (simp add: delim_def)
  then show ?case using n by (simp add: pelems.simps(2))
next
  case (9 v w vs)
  then obtain m where n: "n = Suc m" by (cases n) auto
  have "pval m (emit v @ '','' @ emit_elems (w # vs) @ '']'' @ r)
      = Some (json_utf8 v, '','' @ emit_elems (w # vs) @ '']'' @ r)"
    using "9.IH"(1) [of _ m] "9.prems" n by (simp add: delim_def)
  moreover have "pelems m (emit_elems (w # vs) @ '']'' @ r) = Some (elems_utf8 (w # vs), r)"
    using "9.IH"(2) "9.prems" n by simp
  ultimately show ?case using n by (simp add: pelems.simps(2))
next
  case 10
  then show ?case by simp
next
  case (11 k v)
  then obtain m where n: "n = Suc m" by (cases n) auto
  have "pval m (emit v @ ''}'' @ r) = Some (json_utf8 v, ''}'' @ r)"
    using "11.IH" [of "''}'' @ r" m] "11.prems" n by (simp add: delim_def)
  then show ?case using n "11.prems" pmembers_Cons [of m k "emit v @ ''}'' @ r"] by simp
next
  case (12 k v e ms)
  then obtain m where n: "n = Suc m" by (cases n) auto
  have "pval m (emit v @ '','' @ emit_members (e # ms) @ ''}'' @ r)
      = Some (json_utf8 v, '','' @ emit_members (e # ms) @ ''}'' @ r)"
    using "12.IH"(1) [of _ m] "12.prems" n by (simp add: delim_def)
  moreover have "pmembers m (emit_members (e # ms) @ ''}'' @ r) = Some (members_utf8 (e # ms), r)"
    using "12.IH"(2) "12.prems" n by simp
  ultimately show ?case
    using n "12.prems" pmembers_Cons [of m k "emit v @ '','' @ emit_members (e # ms) @ ''}'' @ r"] by simp
qed

text \<open>The round trip: what the encoder writes, the parser reads back, as UTF-8.\<close>

lemma json_parse_emit: "json_ok v \<Longrightarrow> json_parse (emit v) = Some (json_utf8 v)"
  using pval_emit [of v "[]" "json_fuel (emit v)"]
  by (simp add: json_parse_def json_fuel_def delim_def)

subsection \<open>Decoding into the fields of a struct\<close>

text \<open>
  \<^verbatim>\<open>json.Unmarshal\<close> first checks the whole text. An object member is matched to a struct field by name
  up to case (\<open>json_fold\<close>: ASCII letters in upper case, and the long s and the Kelvin sign as S and K);
  the members are taken in order, so a later duplicate wins; \<^verbatim>\<open>null\<close> leaves a field as it is; a
  member of the wrong type leaves its field as it is, the other members are still decoded, and the
  call returns an error at the end.
\<close>

fun json_fold :: "string \<Rightarrow> string" where
  "json_fold [] = []"
| "json_fold (a # s) =
     (if prefix (bytes [197, 191]) (a # s) then CHR ''S'' # json_fold (drop 1 s)
      else if prefix (bytes [226, 132, 170]) (a # s) then CHR ''K'' # json_fold (drop 2 s)
      else char_upper a # json_fold s)"

definition field_match :: "string \<Rightarrow> string \<Rightarrow> bool" where
  "field_match name k = (json_fold k = json_fold name)"

text \<open>The members a field is assigned from, in order.\<close>

definition field_vals :: "string \<Rightarrow> (string \<times> json) list \<Rightarrow> json list" where
  "field_vals name ms = map snd (filter (\<lambda>(k, v). field_match name k) ms)"

definition set_str :: "json \<Rightarrow> string \<Rightarrow> string" where
  "set_str j cur = (case j of JStr s \<Rightarrow> s | _ \<Rightarrow> cur)"

definition str_typed :: "json \<Rightarrow> bool" where
  "str_typed j = (case j of JStr _ \<Rightarrow> True | JNull \<Rightarrow> True | _ \<Rightarrow> False)"

definition set_bool :: "json \<Rightarrow> bool \<Rightarrow> bool" where
  "set_bool j cur = (case j of JBool b \<Rightarrow> b | _ \<Rightarrow> cur)"

definition bool_typed :: "json \<Rightarrow> bool" where
  "bool_typed j = (case j of JBool _ \<Rightarrow> True | JNull \<Rightarrow> True | _ \<Rightarrow> False)"

definition set_int :: "json \<Rightarrow> int \<Rightarrow> int" where
  "set_int j cur = (case j of JNum l \<Rightarrow> (case ParseInt l of Some i \<Rightarrow> i | None \<Rightarrow> cur) | _ \<Rightarrow> cur)"

definition int_typed :: "json \<Rightarrow> bool" where
  "int_typed j = (case j of JNum l \<Rightarrow> ParseInt l \<noteq> None | JNull \<Rightarrow> True | _ \<Rightarrow> False)"

text \<open>An array is decoded into the elements of the slice that is there, of which a \<open>null\<close> leaves the old one.\<close>

definition set_strs :: "json \<Rightarrow> string list \<Rightarrow> string list" where
  "set_strs j cur =
     (case j of
        JArr vs \<Rightarrow> map (\<lambda>(v, old). set_str v old) (zip vs (cur @ replicate (length vs) []))
      | JNull \<Rightarrow> []
      | _ \<Rightarrow> cur)"

lemma set_strs_nil [simp]: "set_strs (JArr vs) [] = map (\<lambda>v. set_str v []) vs"
  by (simp add: set_strs_def zip_replicate2 comp_def)

definition strs_typed :: "json \<Rightarrow> bool" where
  "strs_typed j = (case j of JArr vs \<Rightarrow> list_all str_typed vs | JNull \<Rightarrow> True | _ \<Rightarrow> False)"

definition set_strmap :: "json \<Rightarrow> (string, string) gomap \<Rightarrow> (string, string) gomap" where
  "set_strmap j cur =
     (case j of
        JObj ms \<Rightarrow> fold (\<lambda>(k, v) m. if str_typed v then gm_set k (set_str v []) m else m) ms cur
      | JNull \<Rightarrow> []
      | _ \<Rightarrow> cur)"

definition strmap_typed :: "json \<Rightarrow> bool" where
  "strmap_typed j = (case j of JObj ms \<Rightarrow> list_all (\<lambda>(k, v). str_typed v) ms | JNull \<Rightarrow> True | _ \<Rightarrow> False)"

definition field_str :: "string \<Rightarrow> (string \<times> json) list \<Rightarrow> string" where
  "field_str name ms = fold set_str (field_vals name ms) []"

definition field_bool :: "string \<Rightarrow> (string \<times> json) list \<Rightarrow> bool" where
  "field_bool name ms = fold set_bool (field_vals name ms) False"

definition field_int :: "string \<Rightarrow> (string \<times> json) list \<Rightarrow> int" where
  "field_int name ms = fold set_int (field_vals name ms) 0"

definition field_strs :: "string \<Rightarrow> (string \<times> json) list \<Rightarrow> string list" where
  "field_strs name ms = fold set_strs (field_vals name ms) []"

definition field_strmap :: "string \<Rightarrow> (string \<times> json) list \<Rightarrow> (string, string) gomap" where
  "field_strmap name ms = fold set_strmap (field_vals name ms) []"

text \<open>
  \<open>struct_members\<close>: the members a text offers to a struct, \<open>None\<close> when it is no JSON text or no
  object (\<^verbatim>\<open>null\<close> offers none).
\<close>

definition struct_members :: "string \<Rightarrow> (string \<times> json) list option" where
  "struct_members raw =
     (case json_parse raw of
        Some (JObj ms) \<Rightarrow> Some ms
      | Some JNull \<Rightarrow> Some []
      | _ \<Rightarrow> None)"

lemma struct_members_emit: "members_ok ms \<Longrightarrow> struct_members (emit (JObj ms)) = Some (members_utf8 ms)"
  by (simp add: struct_members_def json_parse_emit del: emit.simps)

lemma num_ok_show_nat: "num_ok (show_nat n)"
proof -
  have lead: "hd (show_nat n) = CHR ''0'' \<Longrightarrow> show_nat n = ''0''"
  proof (induction n rule: show_nat.induct)
    case (1 n)
    show ?case
    proof (cases "n < 10")
      case True
      with 1 show ?thesis by (subst show_nat.simps) (simp add: show_nat.simps [of n])
    next
      case False
      then have "show_nat (n div 10) = ''0''" if "hd (show_nat n) = CHR ''0''"
        using 1 that by (simp add: show_nat.simps [of n])
      moreover have "show_nat (n div 10) \<noteq> ''0''"
      proof
        assume "show_nat (n div 10) = ''0''"
        then have "dec_val (show_nat (n div 10)) = 0" by (simp add: dec_val_def digit_val_def)
        with False show False by simp
      qed
      ultimately show ?thesis using 1 by auto
    qed
  qed
  obtain d r where s: "show_nat n = d # r" "is_digit d" by (rule show_nat_hd)
  have "list_all is_digit r" using show_nat_digits [of n] s by simp
  then have t: "takeWhile is_digit r = r" "dropWhile is_digit r = []"
    by (auto simp: list_all_iff takeWhile_eq_all_conv dropWhile_eq_Nil_conv)
  have "d \<noteq> CHR ''-''" using s(2) by (auto simp: is_digit_def)
  moreover have "d = CHR ''0'' \<Longrightarrow> r = []" using lead s by simp
  ultimately show ?thesis
    using s(2) by (simp add: s(1) t num_ok_def pnum_def num_sign_def num_int_def num_frac_def num_exp_def)
qed

lemma num_ok_show_int: "num_ok (show_int i)"
proof (cases "i < 0")
  case True
  have "show_nat m \<noteq> [] \<and> pnum (CHR ''-'' # show_nat m) = Some (CHR ''-'' # show_nat m, [])" for m
  proof -
    obtain d r where s: "show_nat m = d # r" "is_digit d" by (rule show_nat_hd)
    then have "num_sign (show_nat m) = ([], show_nat m)"
      by (auto simp: num_sign_def is_digit_def)
    with num_ok_show_nat [of m] s show ?thesis
      by (auto simp: num_ok_def pnum_def num_sign_def [of "CHR ''-'' # t" for t] split: option.splits)
  qed
  with True show ?thesis by (simp add: num_ok_def show_int_def)
next
  case False
  then show ?thesis by (simp add: show_int_def num_ok_show_nat)
qed

subsection \<open>Parsed values can be encoded again\<close>

lemma takeWhile_digits_stop:
  "list_all is_digit ds \<Longrightarrow> x = [] \<or> \<not> is_digit (hd x) \<Longrightarrow>
     takeWhile is_digit (ds @ x) = ds \<and> dropWhile is_digit (ds @ x) = x"
  by (induction ds) (cases x; auto)+

lemma takeWhile_digits [simp]: "list_all is_digit (takeWhile is_digit t)"
  by (auto simp: list_all_iff dest: set_takeWhileD)

lemma num_exp_again:
  "num_exp s = Some (e, r) \<Longrightarrow> num_exp e = Some (e, []) \<and> (e = [] \<or> hd e \<in> {CHR ''e'', CHR ''E''})"
proof (cases s)
  case (Cons c t)
  assume "num_exp s = Some (e, r)"
  with Cons show ?thesis
    using takeWhile_digits_stop [of "takeWhile is_digit u" "[]" for u] takeWhile_digits
    by (auto simp: num_exp_def Let_def split: if_splits list.splits prod.splits)
qed (auto simp: num_exp_def)

lemma num_frac_again:
  assumes "num_frac s = Some (f, r)" "e = [] \<or> hd e \<in> {CHR ''e'', CHR ''E''}"
  shows "num_frac (f @ e) = Some (f, e) \<and> (f @ e = [] \<or> hd (f @ e) \<in> {CHR ''.'', CHR ''e'', CHR ''E''})"
proof -
  have e: "e = [] \<or> \<not> is_digit (hd e)" using assms(2) by (auto simp: is_digit_def)
  show ?thesis
    using assms e takeWhile_digits_stop [OF takeWhile_digits e]
    by (cases s; cases e) (auto simp: num_frac_def split: if_splits)
qed

lemma num_int_again:
  assumes "num_int s = Some (i, r)" "x = [] \<or> hd x \<in> {CHR ''.'', CHR ''e'', CHR ''E''}"
  shows "num_int (i @ x) = Some (i, x) \<and> i \<noteq> [] \<and> is_digit (hd i)"
proof -
  have x: "x = [] \<or> \<not> is_digit (hd x)" using assms(2) by (auto simp: is_digit_def)
  show ?thesis
    using assms(1) takeWhile_digits_stop [OF takeWhile_digits x]
    by (auto simp: num_int_def is_digit_def split: list.splits if_splits)
qed

lemma pnum_num_ok: "pnum s = Some (l, r) \<Longrightarrow> num_ok l"
proof -
  assume a: "pnum s = Some (l, r)"
  obtain sg s1 where s1: "num_sign s = (sg, s1)" by (cases "num_sign s")
  with a obtain i s2 f s3 e where p: "num_int s1 = Some (i, s2)" "num_frac s2 = Some (f, s3)"
    "num_exp s3 = Some (e, r)" "l = sg @ i @ f @ e"
    by (auto simp: pnum_def split: option.splits)
  note e = num_exp_again [OF p(3)]
  note f = num_frac_again [OF p(2) e [THEN conjunct2]]
  note i = num_int_again [OF p(1) f [THEN conjunct2]]
  have "num_sign (sg @ i @ f @ e) = (sg, i @ f @ e)"
    using s1 i by (cases i) (auto simp: num_sign_def is_digit_def split: list.splits if_splits)
  with e f i show ?thesis by (simp add: num_ok_def pnum_def p(4))
qed

lemma hex_val_less: "hex_val c = Some n \<Longrightarrow> n < 16"
  by (auto simp: hex_val_def Let_def split: if_splits)

lemma hex4_less: "hex4 a b c d = Some n \<Longrightarrow> n < 65536"
  by (fastforce simp: hex4_def dest: hex_val_less split: option.splits)

lemma simple_escape_ascii: "simple_escape c = Some d \<Longrightarrow> (of_char d :: nat) < 128"
  by (auto simp: simple_escape_def short_escapes_def split: if_splits)

lemma low_surrogate_range: "low_surrogate t = Some m \<Longrightarrow> 56320 \<le> m \<and> m < 57344"
  by (auto simp: low_surrogate_def split: list.splits if_splits option.splits)

lemma pesc_ok: "pesc s = Some (p, t) \<Longrightarrow> utf8_ok p"
  by (auto simp: pesc_def utf8_ok_utf8 dest: simple_escape_ascii hex4_less low_surrogate_range
      split: list.splits if_splits option.splits)

lemma pstr_ok: "pstr s = Some (a, r) \<Longrightarrow> utf8_ok a"
proof (induction s arbitrary: a r rule: pstr.induct)
  case (2 c s)
  then show ?case
    using pesc_ok utf8_ok_rune [of "c # s"]
    by (auto simp: str_cons_Some simp del: take_Cons' take_Suc_Cons split: if_splits option.splits)
qed simp

lemma pscalar_ok: "pscalar s = Some (v, r) \<Longrightarrow> json_ok v"
  by (auto simp: pscalar_def dest: pnum_num_ok split: if_splits)

lemma pscalar_utf8: "pscalar s = Some (v, r) \<Longrightarrow> json_utf8 v = v"
  by (auto simp: pscalar_def to_utf8_iff dest: pstr_ok split: if_splits)

lemma pelems_cases:
  assumes "pelems (Suc n) s = Some (vs, r)"
  obtains v r1 where "pval n s = Some (v, r1)" "vs = [v]"
  | v r1 t vs' where "pval n s = Some (v, r1)" "pelems n t = Some (vs', r)" "vs = v # vs'"
  using assms that by (auto simp: pelems.simps(2) split: option.splits list.splits if_splits)

lemma pmembers_cases:
  assumes "pmembers (Suc n) s = Some (ms, r)"
  obtains q k r0 u v r1 where "pstr q = Some (k, r0)" "pval n u = Some (v, r1)" "ms = [(k, v)]"
  | q k r0 u v r1 t ms' where "pstr q = Some (k, r0)" "pval n u = Some (v, r1)" "pmembers n t = Some (ms', r)"
      "ms = (k, v) # ms'"
  using assms that by (auto simp: pmembers.simps(2) split: option.splits list.splits if_splits)

lemma pval_ok: "pval n s = Some (v, r) \<Longrightarrow> json_ok v \<and> json_utf8 v = v"
  and pelems_ok: "pelems n s = Some (vs, r) \<Longrightarrow> elems_ok vs \<and> elems_utf8 vs = vs"
  and pmembers_ok: "pmembers n s = Some (ms, r) \<Longrightarrow> members_ok ms \<and> members_utf8 ms = ms"
proof (induction n arbitrary: s v r vs ms)
  case 0
  { case 1 then show ?case by simp }
  { case 2 then show ?case by simp }
  { case 3 then show ?case by simp }
next
  case (Suc n)
  { case 1
    then show ?case
      by (auto simp: pval.simps(2) dest: Suc.IH(2,3) pscalar_ok pscalar_utf8 split: list.splits if_splits) }
  { case 2
    then show ?case by (cases rule: pelems_cases) (use Suc.IH(1,2) in auto) }
  { case 3
    then show ?case by (cases rule: pmembers_cases) (use Suc.IH(1,3) pstr_ok in \<open>auto simp: to_utf8_iff\<close>) }
qed

lemma json_parse_ok: "json_parse s = Some v \<Longrightarrow> json_ok v"
  by (auto simp: json_parse_def dest: pval_ok split: option.splits if_splits)

lemma json_parse_utf8: "json_parse s = Some v \<Longrightarrow> json_utf8 v = v"
  by (auto simp: json_parse_def dest: pval_ok split: option.splits if_splits)

end
