(* ===== verification/Keyring.thy ===== *)
theory Keyring
  imports GoBase64 GoTime GoJson GoHttp Scopes
begin

section \<open>Gateway keys\<close>

text \<open>
  \<^verbatim>\<open>ingress/argonhash/argonhash.go\<close> and \<^verbatim>\<open>ingress/keyring/keyring.go\<close>: sealing of secrets, the form
  \<^verbatim>\<open>sk-dg-<id>.<tail>\<close> of a gateway key, and the two implementations of \<^verbatim>\<open>KeyStore\<close>, in memory and
  on the table \<^verbatim>\<open>gateway_keys\<close> of the broker database.
  The interface \<^verbatim>\<open>KeyStore\<close> is the locale \<open>key_store\<close>; both stores interpret it.
  \<^verbatim>\<open>argon2.IDKey\<close> is third-party code: it is the parameter \<open>H\<close>, a function of secret and salt (its
  cost parameters are constants of the caller). Random bytes, the two readings of the clock a
  creation makes and the failures of the database are inputs of an operation.
\<close>

subsection \<open>Sealing\<close>

type_synonym idkey = "string \<Rightarrow> string \<Rightarrow> string"

definition argon_Seal :: "idkey \<Rightarrow> string option \<Rightarrow> string \<Rightarrow> string option" where
  "argon_Seal H rnd secret =
     (case rnd of
        None \<Rightarrow> None
      | Some salt \<Rightarrow> Some (''v1$'' @ StdEncode salt @ ''$'' @ StdEncode (H secret salt)))"

definition argon_Verify :: "idkey \<Rightarrow> string \<Rightarrow> string \<Rightarrow> bool" where
  "argon_Verify H secret sealed =
     (case Split (CHR ''$'') sealed of
        [v, salt64, want64] \<Rightarrow>
          (if v \<noteq> ''v1'' then False
           else case StdDecode salt64 of
             None \<Rightarrow> False
           | Some salt \<Rightarrow>
               (case StdDecode want64 of
                  None \<Rightarrow> False
                | Some want \<Rightarrow> H secret salt = want))
      | _ \<Rightarrow> False)"

text \<open>A sealed value accepts exactly the secrets that hash like the sealed one under its salt.\<close>

lemma argon_Verify_Seal:
  assumes "argon_Seal H (Some salt) secret = Some sealed"
  shows "argon_Verify H s sealed \<longleftrightarrow> H s salt = H secret salt"
proof -
  have "sealed = ''v1'' @ CHR ''$'' # StdEncode salt @ CHR ''$'' # StdEncode (H secret salt)"
    using assms by (simp add: argon_Seal_def)
  then have "Split (CHR ''$'') sealed = [''v1'', StdEncode salt, StdEncode (H secret salt)]"
    by (simp only: Split_append Split_notin StdEncode_no_dollar) (simp add: Split_append Split_notin StdEncode_no_dollar)
  then show ?thesis by (simp add: argon_Verify_def)
qed

lemma argon_Verify_empty [simp]: "\<not> argon_Verify H s []"
  by (simp add: argon_Verify_def)

lemma argon_Seal_nonempty: "argon_Seal H rnd secret = Some sealed \<Longrightarrow> sealed \<noteq> []"
  by (auto simp: argon_Seal_def split: option.splits)

subsection \<open>The form of a key\<close>

definition KindStatic :: string where "KindStatic = ''static''"
definition KindIssued :: string where "KindIssued = ''issued''"
definition key_prefix :: string where "key_prefix = ''sk-dg-''"

datatype key_error =
    ErrInvalidGatewayKey
  | ErrMissingBearer
  | ErrEmptyBearer
  | ErrRandom
  | ErrTTLRequired
  | ErrDatabase
  | ErrKeyNotFound int

record Principal =
  prin_ID :: string
  prin_KeyID :: int
  prin_Scopes :: "string list"

record KeyMeta =
  km_ID :: int
  km_Name :: string
  km_Kind :: string
  km_ExpiresAt :: "int option"
  km_Revoked :: bool
  km_Scopes :: "string list"
  km_CreatedAt :: int

definition randomTail :: "string option \<Rightarrow> string option" where
  "randomTail rnd = map_option RawURLEncode rnd"

definition formatSecret :: "string option \<Rightarrow> int \<Rightarrow> string option" where
  "formatSecret rnd kid =
     (case randomTail rnd of
        None \<Rightarrow> None
      | Some tail \<Rightarrow> Some (key_prefix @ show_int kid @ ''.'' @ tail))"

definition parseKeyID :: "string \<Rightarrow> int option" where
  "parseKeyID secret =
     (if \<not> HasPrefix secret key_prefix then None
      else
        (let rest = TrimPrefix secret key_prefix in
         case Index (CHR ''.'') rest of
           None \<Rightarrow> None
         | Some dot \<Rightarrow>
             (if dot = 0 then None
              else case ParseInt (take dot rest) of
                None \<Rightarrow> None
              | Some kid \<Rightarrow> (if kid \<le> 0 \<or> length rest \<le> dot + 1 then None else Some kid))))"

text \<open>A minted secret carries its own key id.\<close>

lemma show_nat_no_dot: "CHR ''.'' \<notin> set (show_nat n)"
  using show_nat_digits [of n] by (auto simp: list_all_iff is_digit_def)

lemma parseKeyID_formatSecret:
  assumes "formatSecret (Some rnd) kid = Some secret" "0 < kid" "kid < 2 ^ 63" "rnd \<noteq> []"
  shows "parseKeyID secret = Some kid"
proof -
  have kid: "show_int kid = show_nat (nat kid)" "int (nat kid) = kid" "nat kid < 2 ^ 63"
    using assms(2,3) by (auto simp: show_int_def)
  let ?rest = "show_nat (nat kid) @ CHR ''.'' # RawURLEncode rnd"
  have "secret = key_prefix @ ?rest"
    using assms(1) by (simp add: formatSecret_def randomTail_def kid)
  moreover have "Index (CHR ''.'') ?rest = Some (length (show_nat (nat kid)))"
    by (rule Index_append [OF show_nat_no_dot])
  moreover have "length (RawURLEncode rnd) \<noteq> 0"
    using RawURLEncode_nonempty [OF assms(4)] by simp
  ultimately show ?thesis
    using kid assms(2) ParseInt_show_nat [of "nat kid"] by (simp add: parseKeyID_def Let_def)
qed

lemma parseKeyID_range: "parseKeyID s = Some kid \<Longrightarrow> 0 < kid \<and> kid < 2 ^ 63"
  by (auto simp: parseKeyID_def Let_def split: if_splits option.splits dest: ParseInt_range)

text \<open>The bearer token of a request.\<close>

definition bearerToken :: "header \<Rightarrow> (key_error, string) res" where
  "bearerToken hdr =
     (let h = h_Get hdr ''Authorization'' in
      if \<not> HasPrefix h ''Bearer '' then Inl ErrMissingBearer
      else
        (let t = TrimSpace (TrimPrefix h ''Bearer '') in
         if t = '''' then Inl ErrEmptyBearer else Inr t))"

definition Authenticate :: "(string \<Rightarrow> (key_error, Principal) res) \<Rightarrow> header \<Rightarrow> (key_error, Principal) res" where
  "Authenticate verify hdr = res_bind (bearerToken hdr) verify"

subsection \<open>Scopes in a column\<close>

text \<open>A \<^verbatim>\<open>NULL\<close> column is \<open>None\<close>.\<close>

definition encodeScopes :: "string list \<Rightarrow> string option" where
  "encodeScopes scopes = (if scopes = [] then None else Some (emit (JArr (map JStr scopes))))"

definition decodeScopes :: "string option \<Rightarrow> string list" where
  "decodeScopes raw =
     (case raw of
        None \<Rightarrow> []
      | Some s \<Rightarrow>
          (if s = '''' then []
           else case json_parse s of None \<Rightarrow> [] | Some j \<Rightarrow> set_strs j []))"

text \<open>What comes back is what was written, as UTF-8.\<close>

lemma elems_ok_strings: "elems_ok (map JStr scopes)"
  by (induction scopes) auto

lemma decodeScopes_encodeScopes [simp]: "decodeScopes (encodeScopes scopes) = map to_utf8 scopes"
proof (cases "scopes = []")
  case False
  have "json_parse (emit (JArr (map JStr scopes))) = Some (JArr (map (\<lambda>s. JStr (to_utf8 s)) scopes))"
    using json_parse_emit [of "JArr (map JStr scopes)"] by (simp add: elems_ok_strings elems_utf8_map o_def)
  with False show ?thesis
    by (simp add: encodeScopes_def decodeScopes_def set_str_def o_def)
qed (simp add: encodeScopes_def decodeScopes_def)

subsection \<open>The key store on the broker database\<close>

text \<open>
  \<open>ce_now1\<close> and \<open>ce_now2\<close> are the two readings of the clock, \<open>ce_tail\<close> and \<open>ce_salt\<close> the random bytes of
  the tail and of the salt (\<open>None\<close>: the source of random bytes failed), \<open>ce_insert_ok\<close> and
  \<open>ce_update_ok\<close> tell whether the database executes the two statements.
\<close>

record create_env =
  ce_now1 :: instant
  ce_now2 :: instant
  ce_tail :: "string option"
  ce_salt :: "string option"
  ce_insert_ok :: bool
  ce_update_ok :: bool

record key_row =
  kr_id :: int
  kr_name :: string
  kr_kind :: string
  kr_hash :: string
  kr_expires_at :: "int option"
  kr_scopes :: "string option"
  kr_revoked :: int
  kr_created_at :: int

text \<open>\<open>ks_seq\<close>: the largest id the table has had (\<^verbatim>\<open>AUTOINCREMENT\<close>), so that ids are never reused.\<close>

record SQLStore =
  ks_rows :: "key_row list"
  ks_seq :: int

definition NewSQLStore :: SQLStore where
  "NewSQLStore = \<lparr>ks_rows = [], ks_seq = 0\<rparr>"

definition key_expiry :: "create_env \<Rightarrow> string \<Rightarrow> duration \<Rightarrow> (key_error, int option) res" where
  "key_expiry e kind ttl =
     (if ttl > 0 then Inr (Some (UnixMilli (ce_now2 e + ttl)))
      else if kind \<noteq> KindStatic then Inl ErrTTLRequired
      else Inr None)"

definition SQL_insert :: "create_env \<Rightarrow> string \<Rightarrow> string \<Rightarrow> int option \<Rightarrow> string option \<Rightarrow> SQLStore \<Rightarrow> SQLStore option" where
  "SQL_insert e name kind expires scopes s =
     (if \<not> ce_insert_ok e \<or> kind \<notin> {''static'', ''issued''} \<or> ks_seq s \<ge> 2 ^ 63 - 1 then None
      else Some \<lparr>ks_rows = ks_rows s @
                  [\<lparr>kr_id = ks_seq s + 1, kr_name = name, kr_kind = kind, kr_hash = '''', kr_expires_at = expires,
                    kr_scopes = scopes, kr_revoked = 0, kr_created_at = UnixMilli (ce_now1 e)\<rparr>],
                ks_seq = ks_seq s + 1\<rparr>)"

definition SQL_update :: "int \<Rightarrow> (key_row \<Rightarrow> key_row) \<Rightarrow> SQLStore \<Rightarrow> SQLStore" where
  "SQL_update kid f s = s\<lparr>ks_rows := map (\<lambda>r. if kr_id r = kid then f r else r) (ks_rows s)\<rparr>"

definition SQL_Create ::
  "idkey \<Rightarrow> create_env \<Rightarrow> string \<Rightarrow> string \<Rightarrow> duration \<Rightarrow> string list \<Rightarrow> SQLStore \<Rightarrow>
     (key_error, string \<times> int) res \<times> SQLStore" where
  "SQL_Create H e name kind ttl scopes s =
     (case key_expiry e kind ttl of
        Inl err \<Rightarrow> (Inl err, s)
      | Inr expires \<Rightarrow>
          (case SQL_insert e name kind expires (encodeScopes scopes) s of
             None \<Rightarrow> (Inl ErrDatabase, s)
           | Some s1 \<Rightarrow>
               (let kid = ks_seq s1 in
                case formatSecret (ce_tail e) kid of
                  None \<Rightarrow> (Inl ErrRandom, s1)
                | Some secret \<Rightarrow>
                    (case argon_Seal H (ce_salt e) secret of
                       None \<Rightarrow> (Inl ErrRandom, s1)
                     | Some sealed \<Rightarrow>
                         (if ce_update_ok e
                          then (Inr (secret, kid), SQL_update kid (\<lambda>r. r\<lparr>kr_hash := sealed\<rparr>) s1)
                          else (Inl ErrDatabase, s1))))))"

definition SQL_row :: "SQLStore \<Rightarrow> int \<Rightarrow> key_row option" where
  "SQL_row s kid = find (\<lambda>r. kr_id r = kid) (ks_rows s)"

definition SQL_verifyByID :: "idkey \<Rightarrow> bool \<Rightarrow> instant \<Rightarrow> int \<Rightarrow> string \<Rightarrow> SQLStore \<Rightarrow> (key_error, Principal) res" where
  "SQL_verifyByID H db_ok now kid secret s =
     (if \<not> db_ok then Inl ErrDatabase
      else case SQL_row s kid of
        None \<Rightarrow> Inl ErrInvalidGatewayKey
      | Some r \<Rightarrow>
          (if kr_revoked r \<noteq> 0 then Inl ErrInvalidGatewayKey
           else if (case kr_expires_at r of Some x \<Rightarrow> UnixMilli now > x | None \<Rightarrow> False)
             then Inl ErrInvalidGatewayKey
           else if \<not> argon_Verify H secret (kr_hash r) then Inl ErrInvalidGatewayKey
           else Inr \<lparr>prin_ID = kr_name r, prin_KeyID = kid, prin_Scopes = decodeScopes (kr_scopes r)\<rparr>))"

definition SQL_Verify :: "idkey \<Rightarrow> bool \<Rightarrow> instant \<Rightarrow> string \<Rightarrow> SQLStore \<Rightarrow> (key_error, Principal) res" where
  "SQL_Verify H db_ok now secret s =
     (case parseKeyID secret of
        None \<Rightarrow> Inl ErrInvalidGatewayKey
      | Some kid \<Rightarrow> SQL_verifyByID H db_ok now kid secret s)"

definition SQL_List :: "bool \<Rightarrow> SQLStore \<Rightarrow> (key_error, KeyMeta list) res" where
  "SQL_List db_ok s =
     (if \<not> db_ok then Inl ErrDatabase
      else Inr (map (\<lambda>r. \<lparr>km_ID = kr_id r, km_Name = kr_name r, km_Kind = kr_kind r, km_ExpiresAt = kr_expires_at r,
               km_Revoked = (kr_revoked r \<noteq> 0), km_Scopes = decodeScopes (kr_scopes r),
               km_CreatedAt = kr_created_at r\<rparr>)
       (sort_key kr_id (ks_rows s))))"

definition SQL_Revoke :: "bool \<Rightarrow> int \<Rightarrow> SQLStore \<Rightarrow> (key_error, unit) res \<times> SQLStore" where
  "SQL_Revoke db_ok kid s =
     (if \<not> db_ok then (Inl ErrDatabase, s)
      else if filter (\<lambda>r. kr_id r = kid) (ks_rows s) = [] then (Inl (ErrKeyNotFound kid), s)
      else (Inr (), SQL_update kid (\<lambda>r. r\<lparr>kr_revoked := 1\<rparr>) s))"

subsection \<open>The key store in memory\<close>

record memoryRecord =
  mr_meta :: KeyMeta
  mr_sealed :: string
  mr_scopes :: "string list"

record MemoryStore =
  ms_records :: "memoryRecord list"
  ms_next :: int

definition NewMemoryStore :: MemoryStore where
  "NewMemoryStore = \<lparr>ms_records = [], ms_next = 0\<rparr>"

definition Mem_Create ::
  "idkey \<Rightarrow> create_env \<Rightarrow> string \<Rightarrow> string \<Rightarrow> duration \<Rightarrow> string list \<Rightarrow> MemoryStore \<Rightarrow>
     (key_error, string \<times> int) res \<times> MemoryStore" where
  "Mem_Create H e name kind ttl scopes m0 =
     (let m = m0\<lparr>ms_next := wrap64 (ms_next m0 + 1)\<rparr>;
          kid = ms_next m
      in case formatSecret (ce_tail e) kid of
           None \<Rightarrow> (Inl ErrRandom, m)
         | Some secret \<Rightarrow>
             (case argon_Seal H (ce_salt e) secret of
                None \<Rightarrow> (Inl ErrRandom, m)
              | Some sealed \<Rightarrow>
                  (case key_expiry e kind ttl of
                     Inl err \<Rightarrow> (Inl err, m)
                   | Inr expires \<Rightarrow>
                       (Inr (secret, kid),
                        m\<lparr>ms_records := ms_records m @
                            [\<lparr>mr_meta = \<lparr>km_ID = kid, km_Name = name, km_Kind = kind, km_ExpiresAt = expires,
                                         km_Revoked = False, km_Scopes = scopes,
                                         km_CreatedAt = UnixMilli (ce_now1 e)\<rparr>,
                              mr_sealed = sealed, mr_scopes = scopes\<rparr>]\<rparr>))))"

fun Mem_verify_loop :: "idkey \<Rightarrow> instant \<Rightarrow> int \<Rightarrow> string \<Rightarrow> memoryRecord list \<Rightarrow> (key_error, Principal) res" where
  "Mem_verify_loop H now kid secret [] = Inl ErrInvalidGatewayKey"
| "Mem_verify_loop H now kid secret (r # rs) =
     (if km_ID (mr_meta r) \<noteq> kid \<or> km_Revoked (mr_meta r) then Mem_verify_loop H now kid secret rs
      else if (case km_ExpiresAt (mr_meta r) of Some x \<Rightarrow> UnixMilli now > x | None \<Rightarrow> False)
        then Inl ErrInvalidGatewayKey
      else if argon_Verify H secret (mr_sealed r)
        then Inr \<lparr>prin_ID = km_Name (mr_meta r), prin_KeyID = km_ID (mr_meta r), prin_Scopes = mr_scopes r\<rparr>
      else Inl ErrInvalidGatewayKey)"

definition Mem_Verify :: "idkey \<Rightarrow> instant \<Rightarrow> string \<Rightarrow> MemoryStore \<Rightarrow> (key_error, Principal) res" where
  "Mem_Verify H now secret m =
     (case parseKeyID secret of
        None \<Rightarrow> Inl ErrInvalidGatewayKey
      | Some kid \<Rightarrow> Mem_verify_loop H now kid secret (ms_records m))"

definition Mem_List :: "MemoryStore \<Rightarrow> (key_error, KeyMeta list) res" where
  "Mem_List m = Inr (map mr_meta (ms_records m))"

fun Mem_revoke_loop :: "int \<Rightarrow> memoryRecord list \<Rightarrow> memoryRecord list option" where
  "Mem_revoke_loop kid [] = None"
| "Mem_revoke_loop kid (r # rs) =
     (if km_ID (mr_meta r) = kid then Some (r\<lparr>mr_meta := (mr_meta r)\<lparr>km_Revoked := True\<rparr>\<rparr> # rs)
      else map_option (\<lambda>rs'. r # rs') (Mem_revoke_loop kid rs))"

definition Mem_Revoke :: "int \<Rightarrow> MemoryStore \<Rightarrow> (key_error, unit) res \<times> MemoryStore" where
  "Mem_Revoke kid m =
     (case Mem_revoke_loop kid (ms_records m) of
        None \<Rightarrow> (Inl (ErrKeyNotFound kid), m)
      | Some rs \<Rightarrow> (Inr (), m\<lparr>ms_records := rs\<rparr>))"

subsection \<open>The contract of a key store\<close>

text \<open>
  \<open>live s kid\<close> is what a store holds for a key that may authenticate, \<open>issued s\<close> the ids it has used.
\<close>

record live_key =
  lk_name :: string
  lk_scopes :: "string list"
  lk_expires :: "int option"
  lk_sealed :: string

definition key_expired :: "instant \<Rightarrow> int option \<Rightarrow> bool" where
  "key_expired now expires = (case expires of Some x \<Rightarrow> UnixMilli now > x | None \<Rightarrow> False)"

text \<open>A history of mints and revocations, with what each returned.\<close>

datatype key_op =
    KCreate create_env string string duration "string list"
  | KRevoke int

datatype key_out = OCreated string int | ORevoked int | OFailed

definition key_exec ::
  "(create_env \<Rightarrow> string \<Rightarrow> string \<Rightarrow> duration \<Rightarrow> string list \<Rightarrow> 's \<Rightarrow> (key_error, string \<times> int) res \<times> 's) \<Rightarrow>
   (int \<Rightarrow> 's \<Rightarrow> (key_error, unit) res \<times> 's) \<Rightarrow> key_op \<Rightarrow> 's \<Rightarrow> key_out \<times> 's" where
  "key_exec create revoke oper s =
     (case oper of
        KCreate e name kind ttl scopes \<Rightarrow>
          (case create e name kind ttl scopes s of
             (Inr (secret, kid), s') \<Rightarrow> (OCreated secret kid, s')
           | (Inl _, s') \<Rightarrow> (OFailed, s'))
      | KRevoke kid \<Rightarrow>
          (case revoke kid s of
             (Inr _, s') \<Rightarrow> (ORevoked kid, s')
           | (Inl _, s') \<Rightarrow> (OFailed, s')))"

fun key_run ::
  "(create_env \<Rightarrow> string \<Rightarrow> string \<Rightarrow> duration \<Rightarrow> string list \<Rightarrow> 's \<Rightarrow> (key_error, string \<times> int) res \<times> 's) \<Rightarrow>
   (int \<Rightarrow> 's \<Rightarrow> (key_error, unit) res \<times> 's) \<Rightarrow> key_op list \<Rightarrow> 's \<Rightarrow> (key_op \<times> key_out) list \<times> 's" where
  "key_run create revoke [] s = ([], s)"
| "key_run create revoke (oper # ops) s =
     (case key_exec create revoke oper s of
        (out, s') \<Rightarrow> (case key_run create revoke ops s' of (log, s'') \<Rightarrow> ((oper, out) # log, s'')))"

text \<open>What the history says a key is: the mint that returned its id, unless a later revocation.\<close>

record grant =
  gr_secret :: string
  gr_salt :: string
  gr_name :: string
  gr_scopes :: "string list"
  gr_expires :: "int option"

fun log_step :: "key_op \<times> key_out \<Rightarrow> (int \<Rightarrow> grant option) \<Rightarrow> int \<Rightarrow> grant option" where
  "log_step (KCreate e name kind ttl scopes, OCreated secret kid) g =
     g(kid \<mapsto> \<lparr>gr_secret = secret, gr_salt = the (ce_salt e), gr_name = name, gr_scopes = scopes,
              gr_expires = (if ttl > 0 then Some (UnixMilli (ce_now2 e + ttl)) else None)\<rparr>)"
| "log_step (KRevoke _, ORevoked kid) g = g(kid := None)"
| "log_step _ g = g"

definition log_grants :: "(key_op \<times> key_out) list \<Rightarrow> int \<Rightarrow> grant option" where
  "log_grants log = fold log_step log Map.empty"

definition grant_accepts :: "idkey \<Rightarrow> instant \<Rightarrow> string \<Rightarrow> grant \<Rightarrow> bool" where
  "grant_accepts H now secret g \<longleftrightarrow>
     \<not> key_expired now (gr_expires g) \<and> H secret (gr_salt g) = H (gr_secret g) (gr_salt g)"

text \<open>\<open>live_of_grant\<close>: how a store represents a grant; \<open>kept\<close> is what it keeps of the scopes.\<close>

definition live_of_grant :: "idkey \<Rightarrow> (string list \<Rightarrow> string list) \<Rightarrow> grant \<Rightarrow> live_key" where
  "live_of_grant H kept g =
     \<lparr>lk_name = gr_name g, lk_scopes = kept (gr_scopes g), lk_expires = gr_expires g,
      lk_sealed = the (argon_Seal H (Some (gr_salt g)) (gr_secret g))\<rparr>"

lemma key_exec_snd:
  "snd (key_exec create revoke oper s) =
     (case oper of
        KCreate e name kind ttl scopes \<Rightarrow> snd (create e name kind ttl scopes s)
      | KRevoke kid \<Rightarrow> snd (revoke kid s))"
  by (simp add: key_exec_def split: key_op.split prod.split sum.split)

lemma key_exec_fst:
  "fst (key_exec create revoke oper s) =
     (case oper of
        KCreate e name kind ttl scopes \<Rightarrow>
          (case fst (create e name kind ttl scopes s) of Inr (secret, kid) \<Rightarrow> OCreated secret kid | Inl _ \<Rightarrow> OFailed)
      | KRevoke kid \<Rightarrow> (case fst (revoke kid s) of Inr _ \<Rightarrow> ORevoked kid | Inl _ \<Rightarrow> OFailed))"
  by (simp add: key_exec_def split: key_op.split prod.split sum.split)

locale key_store =
  fixes H :: idkey
    and create :: "create_env \<Rightarrow> string \<Rightarrow> string \<Rightarrow> duration \<Rightarrow> string list \<Rightarrow> 's \<Rightarrow> (key_error, string \<times> int) res \<times> 's"
    and verify :: "instant \<Rightarrow> string \<Rightarrow> 's \<Rightarrow> (key_error, Principal) res"
    and revoke :: "int \<Rightarrow> 's \<Rightarrow> (key_error, unit) res \<times> 's"
    and list_keys :: "'s \<Rightarrow> (key_error, KeyMeta list) res"
    and kept :: "string list \<Rightarrow> string list"
    and live :: "'s \<Rightarrow> int \<Rightarrow> live_key option"
    and issued :: "'s \<Rightarrow> int set"
    and inv :: "'s \<Rightarrow> bool"
    and room :: "'s \<Rightarrow> bool"
  assumes create_inv: "inv s \<Longrightarrow> room s \<Longrightarrow> inv (snd (create e name kind ttl scopes s))"
    and create_ok: "inv s \<Longrightarrow> room s \<Longrightarrow> create e name kind ttl scopes s = (Inr (secret, kid), s') \<Longrightarrow>
      kid \<notin> issued s \<and> issued s' = insert kid (issued s) \<and> 0 < kid \<and> kid < 2 ^ 63 \<and>
      formatSecret (ce_tail e) kid = Some secret \<and>
      (\<exists>salt. ce_salt e = Some salt \<and>
         live s' = (live s)(kid \<mapsto> live_of_grant H kept
           \<lparr>gr_secret = secret, gr_salt = salt, gr_name = name, gr_scopes = scopes,
            gr_expires = (if ttl > 0 then Some (UnixMilli (ce_now2 e + ttl)) else None)\<rparr>))"
    and create_fail: "inv s \<Longrightarrow> room s \<Longrightarrow> create e name kind ttl scopes s = (Inl err, s') \<Longrightarrow>
      live s' = live s \<and> issued s \<subseteq> issued s'"
    and verify_live: "inv s \<Longrightarrow> verify now secret s =
      (case parseKeyID secret of
         None \<Rightarrow> Inl ErrInvalidGatewayKey
       | Some kid \<Rightarrow>
           (case live s kid of
              None \<Rightarrow> Inl ErrInvalidGatewayKey
            | Some k \<Rightarrow>
                (if key_expired now (lk_expires k) \<or> \<not> argon_Verify H secret (lk_sealed k)
                 then Inl ErrInvalidGatewayKey
                 else Inr \<lparr>prin_ID = lk_name k, prin_KeyID = kid, prin_Scopes = lk_scopes k\<rparr>)))"
    and revoke_ok: "inv s \<Longrightarrow> revoke kid s = (Inr u, s') \<Longrightarrow>
      inv s' \<and> kid \<in> issued s \<and> live s' = (live s)(kid := None) \<and> issued s' = issued s"
    and revoke_fail: "inv s \<Longrightarrow> revoke kid s = (Inl err, s') \<Longrightarrow> s' = s \<and> live s kid = None"
    and live_issued: "inv s \<Longrightarrow> live s kid = Some k \<Longrightarrow> kid \<in> issued s"
    and list_live: "inv s \<Longrightarrow> live s kid = Some k \<Longrightarrow>
      \<exists>ms. list_keys s = Inr ms \<and> (\<exists>m \<in> set ms. km_ID m = kid \<and> \<not> km_Revoked m \<and> km_Name m = lk_name k \<and>
        km_Scopes m = lk_scopes k \<and> km_ExpiresAt m = lk_expires k)"
begin

abbreviation exec where "exec \<equiv> key_exec create revoke"
abbreviation run where "run \<equiv> key_run create revoke"

text \<open>\<open>rooms\<close>: there is an id left for each mint of the history.\<close>

fun rooms :: "key_op list \<Rightarrow> 's \<Rightarrow> bool" where
  "rooms [] s = True"
| "rooms (oper # ops) s \<longleftrightarrow> room s \<and> rooms ops (snd (exec oper s))"

lemma revoke_inv: "inv s \<Longrightarrow> inv (snd (revoke kid s))"
  using revoke_ok [of s kid] revoke_fail [of s kid]
  by (cases "revoke kid s"; cases "fst (revoke kid s)") auto

lemma exec_inv: "inv s \<Longrightarrow> room s \<Longrightarrow> inv (snd (exec oper s))"
  by (cases oper) (simp_all add: key_exec_snd create_inv revoke_inv)

lemma exec_live:
  assumes "inv s" "room s" "live s = map_option (live_of_grant H kept) \<circ> g" "exec oper s = (out, s')"
  shows "live s' = map_option (live_of_grant H kept) \<circ> log_step (oper, out) g"
proof (cases oper)
  case (KCreate e name kind ttl scopes)
  show ?thesis
  proof (cases "create e name kind ttl scopes s")
    case (Pair r t)
    with assms KCreate show ?thesis
      using create_ok [OF assms(1,2), of e name kind ttl scopes] create_fail [OF assms(1,2), of e name kind ttl scopes]
      by (cases r) (fastforce simp: key_exec_def)+
  qed
next
  case (KRevoke kid)
  show ?thesis
  proof (cases "revoke kid s")
    case (Pair r t)
    with assms KRevoke show ?thesis
      using revoke_ok [OF assms(1), of kid] revoke_fail [OF assms(1), of kid]
      by (cases r) (fastforce simp: key_exec_def)+
  qed
qed

lemma run_live:
  assumes "inv s" "rooms ops s" "live s = map_option (live_of_grant H kept) \<circ> g" "run ops s = (log, s')"
  shows "inv s' \<and> live s' = map_option (live_of_grant H kept) \<circ> fold log_step log g"
  using assms
proof (induction ops arbitrary: s g log)
  case (Cons oper ops)
  obtain out s1 log1 where *: "exec oper s = (out, s1)" "run ops s1 = (log1, s')" "log = (oper, out) # log1"
    using Cons.prems(4) by (auto split: prod.splits)
  have "inv s1" "rooms ops s1"
    using Cons.prems exec_inv [of s oper] * by auto
  moreover have "live s1 = map_option (live_of_grant H kept) \<circ> log_step (oper, out) g"
    using exec_live [OF _ _ Cons.prems(3) *(1)] Cons.prems by simp
  ultimately show ?case using Cons.IH [of s1 _ log1] *(2,3) by simp
qed simp

text \<open>A store that starts empty authenticates exactly the grants of its history.\<close>

lemma run_verify:
  assumes "inv s" "rooms ops s" "live s = Map.empty" "run ops s = (log, s')"
  shows "verify now secret s' = Inr p \<longleftrightarrow>
    (\<exists>kid g. parseKeyID secret = Some kid \<and> log_grants log kid = Some g \<and> grant_accepts H now secret g \<and>
       p = \<lparr>prin_ID = gr_name g, prin_KeyID = kid, prin_Scopes = kept (gr_scopes g)\<rparr>)"
proof -
  have "live s = map_option (live_of_grant H kept) \<circ> Map.empty"
    using assms(3) by auto
  from run_live [OF assms(1,2) this assms(4)]
  have "inv s'" "live s' = map_option (live_of_grant H kept) \<circ> log_grants log"
    by (simp_all add: log_grants_def)
  moreover have "argon_Verify H t (lk_sealed (live_of_grant H kept g)) \<longleftrightarrow> H t (gr_salt g) = H (gr_secret g) (gr_salt g)" for t g
    by (rule argon_Verify_Seal) (simp add: live_of_grant_def argon_Seal_def)
  moreover have "lk_name (live_of_grant H kept g) = gr_name g" "lk_scopes (live_of_grant H kept g) = kept (gr_scopes g)"
    "lk_expires (live_of_grant H kept g) = gr_expires g" for g
    by (simp_all add: live_of_grant_def)
  ultimately show ?thesis
    by (auto simp: verify_live grant_accepts_def split: option.splits if_splits)
qed

text \<open>A grant stays until its key is revoked: ids are not given twice.\<close>

lemma exec_keeps:
  assumes "inv s" "room s" "live s kid = Some k" "oper \<noteq> KRevoke kid"
  shows "live (snd (exec oper s)) kid = Some k"
proof (cases oper)
  case (KCreate e name kind ttl scopes)
  have "kid \<in> issued s" by (rule live_issued [OF assms(1,3)])
  with KCreate assms(3) show ?thesis
    using create_ok [OF assms(1,2), of e name kind ttl scopes] create_fail [OF assms(1,2), of e name kind ttl scopes]
    by (cases "create e name kind ttl scopes s"; cases "fst (create e name kind ttl scopes s)") (fastforce simp: key_exec_snd)+
next
  case (KRevoke kid')
  with assms(3,4) show ?thesis
    using revoke_ok [OF assms(1), of kid'] revoke_fail [OF assms(1), of kid']
    by (cases "revoke kid' s"; cases "fst (revoke kid' s)") (auto simp: key_exec_snd)
qed

lemma run_keeps:
  assumes "inv s" "rooms ops s" "live s kid = Some k" "KRevoke kid \<notin> set ops"
  shows "inv (snd (run ops s)) \<and> live (snd (run ops s)) kid = Some k"
  using assms
proof (induction ops arbitrary: s)
  case (Cons oper ops)
  then show ?case
    using exec_inv [of s oper] exec_keeps [of s kid k oper] by (auto simp: case_prod_beta)
qed simp

lemma minted_key_verifies:
  assumes "inv s" "room s" "create e name kind ttl scopes s = (Inr (secret, kid), s')"
    "ce_tail e = Some tail" "tail \<noteq> []"
    "ttl > 0 \<Longrightarrow> UnixMilli now \<le> UnixMilli (ce_now2 e + ttl)"
    "rooms ops s'" "KRevoke kid \<notin> set ops"
  shows "verify now secret (snd (run ops s')) = Inr \<lparr>prin_ID = name, prin_KeyID = kid, prin_Scopes = kept scopes\<rparr>"
proof -
  from create_ok [OF assms(1-3)] obtain salt where c: "0 < kid" "kid < 2 ^ 63"
    "formatSecret (Some tail) kid = Some secret"
    "live s' = (live s)(kid \<mapsto> live_of_grant H kept
           \<lparr>gr_secret = secret, gr_salt = salt, gr_name = name, gr_scopes = scopes,
            gr_expires = (if ttl > 0 then Some (UnixMilli (ce_now2 e + ttl)) else None)\<rparr>)"
    using assms(4) by auto
  have "inv s'" using create_inv [OF assms(1,2), of e name kind ttl scopes] assms(3) by simp
  moreover have "parseKeyID secret = Some kid"
    by (rule parseKeyID_formatSecret [OF c(3,1,2) assms(5)])
  ultimately show ?thesis
    using c(4) run_keeps [OF _ assms(7) _ assms(8)] assms(6) argon_Verify_Seal [of H salt secret]
    by (auto simp: verify_live live_of_grant_def key_expired_def argon_Seal_def)
qed

lemma run_issued:
  assumes "inv s" "rooms ops s" "kid \<in> issued s" "live s kid = None" "run ops s = (log, s')"
  shows "inv s' \<and> live s' kid = None"
  using assms
proof (induction ops arbitrary: s log)
  case (Cons oper ops)
  obtain out s1 log1 where *: "exec oper s = (out, s1)" "run ops s1 = (log1, s')"
    using Cons.prems(5) by (auto split: prod.splits)
  have "inv s1" "rooms ops s1"
    using Cons.prems exec_inv [of s oper] * by auto
  moreover have "kid \<in> issued s1 \<and> live s1 kid = None"
  proof (cases oper)
    case (KCreate e name kind ttl scopes)
    show ?thesis
    proof (cases "create e name kind ttl scopes s")
      case (Pair r t)
      with Cons.prems KCreate * show ?thesis
        using create_ok [of s e name kind ttl scopes] create_fail [of s e name kind ttl scopes]
        by (cases r) (fastforce simp: key_exec_def)+
    qed
  next
    case (KRevoke kid')
    show ?thesis
    proof (cases "revoke kid' s")
      case (Pair r t)
      with Cons.prems KRevoke * show ?thesis
        using revoke_ok [of s kid'] revoke_fail [of s kid']
        by (cases r) (fastforce simp: key_exec_def)+
    qed
  qed
  ultimately show ?case using Cons.IH [of s1 log1] *(2) by simp
qed simp

text \<open>A revoked key stays revoked, whatever is minted and revoked afterwards.\<close>

lemma revoked_stays_revoked:
  assumes "inv s" "revoke kid s = (Inr u, s1)" "rooms ops s1" "run ops s1 = (log, s')"
    "parseKeyID secret = Some kid"
  shows "verify now secret s' = Inl ErrInvalidGatewayKey"
proof -
  from revoke_ok [OF assms(1,2)] have "inv s1" "kid \<in> issued s1" "live s1 kid = None" by auto
  from run_issued [OF this(1) assms(3) this(2,3) assms(4)]
  show ?thesis using assms(5) by (simp add: verify_live)
qed

end

subsection \<open>Both stores keep the contract\<close>

lemma find_append: "find P (xs @ ys) = (case find P xs of None \<Rightarrow> find P ys | Some x \<Rightarrow> Some x)"
  by (induction xs) auto

definition SQL_live :: "SQLStore \<Rightarrow> int \<Rightarrow> live_key option" where
  "SQL_live s kid =
     (case SQL_row s kid of
        None \<Rightarrow> None
      | Some r \<Rightarrow>
          (if kr_revoked r \<noteq> 0 \<or> kr_hash r = '''' then None
           else Some \<lparr>lk_name = kr_name r, lk_scopes = decodeScopes (kr_scopes r),
                      lk_expires = kr_expires_at r, lk_sealed = kr_hash r\<rparr>))"

definition SQL_issued :: "SQLStore \<Rightarrow> int set" where
  "SQL_issued s = kr_id ` set (ks_rows s)"

definition SQL_inv :: "SQLStore \<Rightarrow> bool" where
  "SQL_inv s \<longleftrightarrow> distinct (map kr_id (ks_rows s)) \<and> (\<forall>r \<in> set (ks_rows s). 0 < kr_id r \<and> kr_id r \<le> ks_seq s) \<and>
     0 \<le> ks_seq s \<and> ks_seq s < 2 ^ 63"

lemma SQL_row_None: "SQL_row s kid = None \<longleftrightarrow> kid \<notin> SQL_issued s"
  by (auto simp: SQL_row_def SQL_issued_def find_None_iff)

lemma SQL_row_Some: "SQL_row s kid = Some r \<Longrightarrow> r \<in> set (ks_rows s) \<and> kr_id r = kid"
  by (auto simp: SQL_row_def find_Some_iff)

lemma SQL_row_update:
  assumes "\<And>r. kr_id (f r) = kr_id r"
  shows "SQL_row (SQL_update k f s) kid = (if kid = k then map_option f (SQL_row s kid) else SQL_row s kid)"
proof -
  have "find (\<lambda>r. kr_id r = kid) (map (\<lambda>r. if kr_id r = k then f r else r) rs) =
    (if kid = k then map_option f (find (\<lambda>r. kr_id r = kid) rs) else find (\<lambda>r. kr_id r = kid) rs)" for rs
    using assms by (induction rs) auto
  then show ?thesis by (simp add: SQL_row_def SQL_update_def)
qed

lemma SQL_update_ids:
  assumes "\<And>r. kr_id (f r) = kr_id r"
  shows "map kr_id (ks_rows (SQL_update k f s)) = map kr_id (ks_rows s)" "ks_seq (SQL_update k f s) = ks_seq s"
  using assms by (simp_all add: SQL_update_def)

lemma SQL_inv_ids: "SQL_inv s \<longleftrightarrow> distinct (map kr_id (ks_rows s)) \<and> (\<forall>k \<in> set (map kr_id (ks_rows s)). 0 < k \<and> k \<le> ks_seq s) \<and>
     0 \<le> ks_seq s \<and> ks_seq s < 2 ^ 63"
  by (auto simp: SQL_inv_def)

lemma SQL_inv_update: "(\<And>r. kr_id (f r) = kr_id r) \<Longrightarrow> SQL_inv (SQL_update k f s) = SQL_inv s"
  by (simp add: SQL_inv_ids SQL_update_ids del: set_map)

lemma SQL_issued_update: "(\<And>r. kr_id (f r) = kr_id r) \<Longrightarrow> SQL_issued (SQL_update k f s) = SQL_issued s"
  using SQL_update_ids(1) [of f k s] by (simp add: SQL_issued_def) (metis set_map)

lemma SQL_insert_Some:
  assumes "SQL_insert e name kind ex sc s = Some s1" "SQL_inv s"
  shows "ks_seq s1 = ks_seq s + 1" "SQL_inv s1" "ks_seq s1 \<notin> SQL_issued s"
    "SQL_issued s1 = insert (ks_seq s1) (SQL_issued s)" "0 < ks_seq s1" "ks_seq s1 < 2 ^ 63"
    "SQL_row s1 = (SQL_row s)(ks_seq s1 \<mapsto>
       \<lparr>kr_id = ks_seq s1, kr_name = name, kr_kind = kind, kr_hash = '''', kr_expires_at = ex,
        kr_scopes = sc, kr_revoked = 0, kr_created_at = UnixMilli (ce_now1 e)\<rparr>)"
proof -
  let ?r = "\<lparr>kr_id = ks_seq s + 1, kr_name = name, kr_kind = kind, kr_hash = '''', kr_expires_at = ex,
        kr_scopes = sc, kr_revoked = 0, kr_created_at = UnixMilli (ce_now1 e)\<rparr>"
  have s1: "s1 = \<lparr>ks_rows = ks_rows s @ [?r], ks_seq = ks_seq s + 1\<rparr>" and b: "ks_seq s < 2 ^ 63 - 1"
    using assms(1) by (auto simp: SQL_insert_def split: if_splits)
  show seq: "ks_seq s1 = ks_seq s + 1" "0 < ks_seq s1" "ks_seq s1 < 2 ^ 63"
    using assms(2) b by (auto simp: s1 SQL_inv_def)
  show fresh: "ks_seq s1 \<notin> SQL_issued s"
    using assms(2) by (auto simp: s1 SQL_inv_def SQL_issued_def)
  show "SQL_inv s1"
    using assms(2) b by (fastforce simp: s1 SQL_inv_def)
  show "SQL_issued s1 = insert (ks_seq s1) (SQL_issued s)"
    by (auto simp: s1 SQL_issued_def)
  show "SQL_row s1 = (SQL_row s)(ks_seq s1 \<mapsto>
       \<lparr>kr_id = ks_seq s1, kr_name = name, kr_kind = kind, kr_hash = '''', kr_expires_at = ex,
        kr_scopes = sc, kr_revoked = 0, kr_created_at = UnixMilli (ce_now1 e)\<rparr>)"
    using fresh [folded SQL_row_None] by (auto simp: s1 SQL_row_def find_append fun_eq_iff split: option.split)
qed

lemma SQL_live_insert:
  assumes "SQL_insert e name kind ex sc s = Some s1" "SQL_inv s"
  shows "SQL_live s1 = SQL_live s"
  using SQL_insert_Some(3,7) [OF assms]
  by (auto simp: SQL_live_def fun_eq_iff simp flip: SQL_row_None)

lemma SQL_Create_cases:
  assumes "SQL_Create H e name kind ttl scopes s = (r, s')"
  obtains (same) err where "r = Inl err" "s' = s"
  | (half) err ex where "r = Inl err" "SQL_insert e name kind ex (encodeScopes scopes) s = Some s'"
  | (minted) ex s1 secret salt sealed where "key_expiry e kind ttl = Inr ex"
      "SQL_insert e name kind ex (encodeScopes scopes) s = Some s1" "formatSecret (ce_tail e) (ks_seq s1) = Some secret"
      "ce_salt e = Some salt" "argon_Seal H (Some salt) secret = Some sealed" "r = Inr (secret, ks_seq s1)"
      "s' = SQL_update (ks_seq s1) (\<lambda>r. r\<lparr>kr_hash := sealed\<rparr>) s1"
proof -
  have "argon_Seal H None secret = None" for secret by (simp add: argon_Seal_def)
  then show ?thesis
    using assms that
    by (cases "ce_salt e") (auto simp: SQL_Create_def Let_def split: sum.splits option.splits if_splits)
qed

lemma SQL_create_inv:
  assumes "SQL_inv s"
  shows "SQL_inv (snd (SQL_Create H e name kind ttl scopes s))"
proof (cases "SQL_Create H e name kind ttl scopes s")
  case (Pair r s')
  then show ?thesis
    by (cases rule: SQL_Create_cases)
      (auto simp: Pair assms SQL_inv_update dest: SQL_insert_Some(2) [OF _ assms])
qed

lemma SQL_create_fail:
  assumes "SQL_inv s" "SQL_Create H e name kind ttl scopes s = (Inl err, s')"
  shows "SQL_live s' = SQL_live s \<and> SQL_issued s \<subseteq> SQL_issued s'"
  using assms(2)
  by (cases rule: SQL_Create_cases) (auto simp: SQL_live_insert assms(1) SQL_insert_Some(4) [OF _ assms(1)])

lemma SQL_create_ok:
  assumes inv: "SQL_inv s" and c: "SQL_Create H e name kind ttl scopes s = (Inr (secret, kid), s')"
  shows "kid \<notin> SQL_issued s \<and> SQL_issued s' = insert kid (SQL_issued s) \<and> 0 < kid \<and> kid < 2 ^ 63 \<and>
    formatSecret (ce_tail e) kid = Some secret \<and>
    (\<exists>salt. ce_salt e = Some salt \<and> SQL_live s' = (SQL_live s)(kid \<mapsto> live_of_grant H (map to_utf8)
       \<lparr>gr_secret = secret, gr_salt = salt, gr_name = name, gr_scopes = scopes,
        gr_expires = (if ttl > 0 then Some (UnixMilli (ce_now2 e + ttl)) else None)\<rparr>))"
  using c
proof (cases rule: SQL_Create_cases)
  case (minted ex s1 secret' salt sealed)
  note i = SQL_insert_Some [OF minted(2) inv]
  have ex: "ex = (if ttl > 0 then Some (UnixMilli (ce_now2 e + ttl)) else None)"
    using minted(1) by (auto simp: key_expiry_def split: if_splits)
  have "sealed \<noteq> ''''" by (rule argon_Seal_nonempty [OF minted(5)])
  then have "SQL_live s' = (SQL_live s)(kid \<mapsto> live_of_grant H (map to_utf8)
       \<lparr>gr_secret = secret, gr_salt = salt, gr_name = name, gr_scopes = scopes, gr_expires = ex\<rparr>)"
    using minted(5,6,7) by (auto simp: SQL_live_def SQL_row_update i(7) live_of_grant_def fun_eq_iff)
  then show ?thesis
    using i minted ex by (auto simp: SQL_issued_update)
qed auto

lemma SQL_verify_live:
  "SQL_Verify H True now secret s =
    (case parseKeyID secret of
       None \<Rightarrow> Inl ErrInvalidGatewayKey
     | Some kid \<Rightarrow>
         (case SQL_live s kid of
            None \<Rightarrow> Inl ErrInvalidGatewayKey
          | Some k \<Rightarrow>
              (if key_expired now (lk_expires k) \<or> \<not> argon_Verify H secret (lk_sealed k)
               then Inl ErrInvalidGatewayKey
               else Inr \<lparr>prin_ID = lk_name k, prin_KeyID = kid, prin_Scopes = lk_scopes k\<rparr>)))"
  by (auto simp: SQL_Verify_def SQL_verifyByID_def SQL_live_def key_expired_def split: option.split)

lemma SQL_revoke_ok:
  assumes "SQL_inv s" "SQL_Revoke db_ok kid s = (Inr u, s')"
  shows "SQL_inv s' \<and> kid \<in> SQL_issued s \<and> SQL_live s' = (SQL_live s)(kid := None) \<and> SQL_issued s' = SQL_issued s"
proof -
  have s': "s' = SQL_update kid (\<lambda>r. r\<lparr>kr_revoked := 1\<rparr>) s" and "kid \<in> SQL_issued s"
    using assms(2) by (auto simp: SQL_Revoke_def SQL_issued_def filter_empty_conv split: if_splits)
  then show ?thesis
    using assms(1)
    by (auto simp: SQL_inv_update SQL_issued_update SQL_live_def SQL_row_update fun_eq_iff split: option.split)
qed

lemma SQL_revoke_fail: "SQL_Revoke True kid s = (Inl err, s') \<Longrightarrow> s' = s \<and> SQL_live s kid = None"
  by (auto simp: SQL_Revoke_def SQL_live_def SQL_row_def filter_empty_conv split: if_splits option.splits)
    (auto simp: find_Some_iff)

lemma SQL_live_issued: "SQL_live s kid = Some k \<Longrightarrow> kid \<in> SQL_issued s"
  using SQL_row_None [of s kid] by (auto simp: SQL_live_def split: option.splits)

lemma SQL_list_live:
  assumes "SQL_live s kid = Some k"
  shows "\<exists>ms. SQL_List True s = Inr ms \<and> (\<exists>m \<in> set ms. km_ID m = kid \<and> \<not> km_Revoked m \<and> km_Name m = lk_name k \<and>
    km_Scopes m = lk_scopes k \<and> km_ExpiresAt m = lk_expires k)"
proof -
  obtain r where r: "SQL_row s kid = Some r" "kr_revoked r = 0"
    "k = \<lparr>lk_name = kr_name r, lk_scopes = decodeScopes (kr_scopes r), lk_expires = kr_expires_at r, lk_sealed = kr_hash r\<rparr>"
    using assms by (auto simp: SQL_live_def split: option.splits if_splits)
  with SQL_row_Some [OF r(1)] show ?thesis
    by (auto simp: SQL_List_def intro!: bexI [of _ r])
qed

interpretation sql: key_store H "SQL_Create H" "SQL_Verify H True" "SQL_Revoke True" "SQL_List True" "map to_utf8"
  SQL_live SQL_issued SQL_inv "\<lambda>_. True" for H
  by unfold_locales
    (erule SQL_create_inv | erule (1) SQL_create_ok | erule (1) SQL_create_fail | rule SQL_verify_live |
     erule (1) SQL_revoke_ok | erule SQL_revoke_fail | erule SQL_live_issued | erule SQL_list_live)+

definition Mem_row :: "memoryRecord list \<Rightarrow> int \<Rightarrow> memoryRecord option" where
  "Mem_row rs kid = find (\<lambda>r. km_ID (mr_meta r) = kid \<and> \<not> km_Revoked (mr_meta r)) rs"

definition Mem_live :: "MemoryStore \<Rightarrow> int \<Rightarrow> live_key option" where
  "Mem_live m kid = map_option
     (\<lambda>r. \<lparr>lk_name = km_Name (mr_meta r), lk_scopes = mr_scopes r, lk_expires = km_ExpiresAt (mr_meta r),
           lk_sealed = mr_sealed r\<rparr>)
     (Mem_row (ms_records m) kid)"

definition Mem_issued :: "MemoryStore \<Rightarrow> int set" where
  "Mem_issued m = {0<..ms_next m}"

definition Mem_inv :: "MemoryStore \<Rightarrow> bool" where
  "Mem_inv m \<longleftrightarrow> distinct (map (km_ID \<circ> mr_meta) (ms_records m)) \<and>
     (\<forall>r \<in> set (ms_records m). 0 < km_ID (mr_meta r) \<and> km_ID (mr_meta r) \<le> ms_next m \<and>
        mr_scopes r = km_Scopes (mr_meta r)) \<and>
     0 \<le> ms_next m \<and> ms_next m < 2 ^ 63"

definition Mem_room :: "MemoryStore \<Rightarrow> bool" where
  "Mem_room m \<longleftrightarrow> ms_next m < 2 ^ 63 - 1"

lemma Mem_next: "Mem_inv m \<Longrightarrow> Mem_room m \<Longrightarrow> wrap64 (ms_next m + 1) = ms_next m + 1"
  by (rule wrap64_id) (auto simp: Mem_inv_def Mem_room_def)

lemma Mem_Create_cases:
  assumes "Mem_Create H e name kind ttl scopes m = (r, m')"
  obtains (failed) err where "r = Inl err" "m' = m\<lparr>ms_next := wrap64 (ms_next m + 1)\<rparr>"
  | (minted) kid secret salt sealed ex where "kid = wrap64 (ms_next m + 1)" "key_expiry e kind ttl = Inr ex"
      "formatSecret (ce_tail e) kid = Some secret" "ce_salt e = Some salt"
      "argon_Seal H (Some salt) secret = Some sealed" "r = Inr (secret, kid)"
      "m' = \<lparr>ms_records = ms_records m @
               [\<lparr>mr_meta = \<lparr>km_ID = kid, km_Name = name, km_Kind = kind, km_ExpiresAt = ex, km_Revoked = False,
                            km_Scopes = scopes, km_CreatedAt = UnixMilli (ce_now1 e)\<rparr>,
                 mr_sealed = sealed, mr_scopes = scopes\<rparr>],
             ms_next = kid\<rparr>"
proof -
  have "argon_Seal H None secret = None" for secret by (simp add: argon_Seal_def)
  then show ?thesis
    using assms that
    by (cases "ce_salt e") (auto simp: Mem_Create_def Let_def split: sum.splits option.splits)
qed

lemma Mem_row_fresh: "Mem_inv m \<Longrightarrow> ms_next m < kid \<Longrightarrow> Mem_row (ms_records m) kid = None"
  by (auto simp: Mem_row_def find_None_iff Mem_inv_def)

lemma Mem_create_inv:
  assumes "Mem_inv m" "Mem_room m"
  shows "Mem_inv (snd (Mem_Create H e name kind ttl scopes m))"
proof (cases "Mem_Create H e name kind ttl scopes m")
  case (Pair r m')
  then show ?thesis
    using Mem_next [OF assms] assms
    by (cases rule: Mem_Create_cases) (auto simp: Pair Mem_inv_def Mem_room_def)
qed

lemma Mem_create_fail:
  assumes "Mem_inv m" "Mem_room m" "Mem_Create H e name kind ttl scopes m = (Inl err, m')"
  shows "Mem_live m' = Mem_live m \<and> Mem_issued m \<subseteq> Mem_issued m'"
  using assms(3)
  by (cases rule: Mem_Create_cases) (auto simp: Mem_next assms(1,2) Mem_live_def Mem_issued_def)

lemma Mem_create_ok:
  assumes inv: "Mem_inv m" "Mem_room m" and c: "Mem_Create H e name kind ttl scopes m = (Inr (secret, kid), m')"
  shows "kid \<notin> Mem_issued m \<and> Mem_issued m' = insert kid (Mem_issued m) \<and> 0 < kid \<and> kid < 2 ^ 63 \<and>
    formatSecret (ce_tail e) kid = Some secret \<and>
    (\<exists>salt. ce_salt e = Some salt \<and> Mem_live m' = (Mem_live m)(kid \<mapsto> live_of_grant H id
       \<lparr>gr_secret = secret, gr_salt = salt, gr_name = name, gr_scopes = scopes,
        gr_expires = (if ttl > 0 then Some (UnixMilli (ce_now2 e + ttl)) else None)\<rparr>))"
  using c
proof (cases rule: Mem_Create_cases)
  case (minted kid' secret' salt sealed ex)
  have kid: "kid' = kid" "secret' = secret" "kid = ms_next m + 1"
    using minted(1,6) inv by (simp_all add: Mem_next)
  have ex: "ex = (if ttl > 0 then Some (UnixMilli (ce_now2 e + ttl)) else None)"
    using minted(2) by (auto simp: key_expiry_def split: if_splits)
  have "Mem_row (ms_records m) kid = None"
    using Mem_row_fresh [OF inv(1)] kid by simp
  then have "Mem_live m' = (Mem_live m)(kid \<mapsto> live_of_grant H id
       \<lparr>gr_secret = secret, gr_salt = salt, gr_name = name, gr_scopes = scopes, gr_expires = ex\<rparr>)"
    using minted(5) unfolding minted(7) kid
    by (auto simp: Mem_live_def Mem_row_def live_of_grant_def fun_eq_iff find_append split: option.split)
  moreover have "Mem_issued m' = insert kid (Mem_issued m)" "kid \<notin> Mem_issued m" "0 < kid" "kid < 2 ^ 63"
    using inv minted(7) kid by (auto simp: Mem_issued_def Mem_inv_def Mem_room_def)
  ultimately show ?thesis
    using minted(3,4) ex kid by auto
qed auto

lemma Mem_verify_loop_row:
  "Mem_verify_loop H now kid secret rs =
     (case Mem_row rs kid of
        None \<Rightarrow> Inl ErrInvalidGatewayKey
      | Some r \<Rightarrow>
          (if key_expired now (km_ExpiresAt (mr_meta r)) \<or> \<not> argon_Verify H secret (mr_sealed r)
           then Inl ErrInvalidGatewayKey
           else Inr \<lparr>prin_ID = km_Name (mr_meta r), prin_KeyID = kid, prin_Scopes = mr_scopes r\<rparr>))"
  by (induction rs) (auto simp: Mem_row_def key_expired_def)

lemma Mem_verify_live:
  "Mem_Verify H now secret m =
    (case parseKeyID secret of
       None \<Rightarrow> Inl ErrInvalidGatewayKey
     | Some kid \<Rightarrow>
         (case Mem_live m kid of
            None \<Rightarrow> Inl ErrInvalidGatewayKey
          | Some k \<Rightarrow>
              (if key_expired now (lk_expires k) \<or> \<not> argon_Verify H secret (lk_sealed k)
               then Inl ErrInvalidGatewayKey
               else Inr \<lparr>prin_ID = lk_name k, prin_KeyID = kid, prin_Scopes = lk_scopes k\<rparr>)))"
  by (auto simp: Mem_Verify_def Mem_live_def Mem_verify_loop_row split: option.split)

lemma Mem_row_Cons:
  "Mem_row (r # rs) kid = (if km_ID (mr_meta r) = kid \<and> \<not> km_Revoked (mr_meta r) then Some r else Mem_row rs kid)"
  by (simp add: Mem_row_def)

lemma Mem_revoke_loop_Some:
  assumes "Mem_revoke_loop kid rs = Some rs'" "distinct (map (km_ID \<circ> mr_meta) rs)"
  shows "kid \<in> set (map (km_ID \<circ> mr_meta) rs) \<and> map (km_ID \<circ> mr_meta) rs' = map (km_ID \<circ> mr_meta) rs \<and>
    Mem_row rs' = (Mem_row rs)(kid := None) \<and>
    (\<forall>r' \<in> set rs'. \<exists>r \<in> set rs. mr_scopes r' = mr_scopes r \<and> km_Scopes (mr_meta r') = km_Scopes (mr_meta r))"
  using assms
proof (induction rs arbitrary: rs')
  case (Cons r rs)
  show ?case
  proof (cases "km_ID (mr_meta r) = kid")
    case True
    then have "\<forall>x \<in> set rs. km_ID (mr_meta x) \<noteq> kid"
      using Cons.prems(2) by (auto simp: image_iff)
    then have "Mem_row rs kid = None"
      by (auto simp: Mem_row_def find_None_iff)
    with True Cons.prems(1) show ?thesis
      by (auto simp: Mem_row_def fun_eq_iff)
  next
    case False
    then obtain rs1 where rs1: "Mem_revoke_loop kid rs = Some rs1" "rs' = r # rs1"
      using Cons.prems(1) by auto
    have IH: "kid \<in> set (map (km_ID \<circ> mr_meta) rs)" "map (km_ID \<circ> mr_meta) rs1 = map (km_ID \<circ> mr_meta) rs"
      "Mem_row rs1 = (Mem_row rs)(kid := None)"
      "\<forall>r' \<in> set rs1. \<exists>r \<in> set rs. mr_scopes r' = mr_scopes r \<and> km_Scopes (mr_meta r') = km_Scopes (mr_meta r)"
      using Cons.IH [OF rs1(1)] Cons.prems(2) [unfolded list.map distinct.simps] by blast+
    have "Mem_row rs' = (Mem_row (r # rs))(kid := None)"
      using IH(3) False by (auto simp: rs1(2) Mem_row_Cons fun_eq_iff)
    with IH(1,2,4) show ?thesis unfolding rs1(2) list.map by auto
  qed
qed simp

lemma Mem_revoke_loop_None: "Mem_revoke_loop kid rs = None \<Longrightarrow> Mem_row rs kid = None"
  by (induction rs) (auto simp: Mem_row_def split: if_splits)

lemma Mem_inv_ids: "Mem_inv m \<longleftrightarrow> distinct (map (km_ID \<circ> mr_meta) (ms_records m)) \<and>
    (\<forall>k \<in> set (map (km_ID \<circ> mr_meta) (ms_records m)). 0 < k \<and> k \<le> ms_next m) \<and>
    (\<forall>r \<in> set (ms_records m). mr_scopes r = km_Scopes (mr_meta r)) \<and> 0 \<le> ms_next m \<and> ms_next m < 2 ^ 63"
  by (auto simp: Mem_inv_def)

lemma Mem_revoke_ok:
  assumes "Mem_inv m" "Mem_Revoke kid m = (Inr u, m')"
  shows "Mem_inv m' \<and> kid \<in> Mem_issued m \<and> Mem_live m' = (Mem_live m)(kid := None) \<and> Mem_issued m' = Mem_issued m"
proof -
  obtain rs' where rs': "Mem_revoke_loop kid (ms_records m) = Some rs'" "m' = m\<lparr>ms_records := rs'\<rparr>"
    using assms(2) by (auto simp: Mem_Revoke_def split: option.splits)
  from Mem_revoke_loop_Some [OF rs'(1)] assms(1)
  have *: "kid \<in> set (map (km_ID \<circ> mr_meta) (ms_records m))" "map (km_ID \<circ> mr_meta) rs' = map (km_ID \<circ> mr_meta) (ms_records m)"
    "Mem_row rs' = (Mem_row (ms_records m))(kid := None)"
    "\<forall>r' \<in> set rs'. \<exists>r \<in> set (ms_records m). mr_scopes r' = mr_scopes r \<and> km_Scopes (mr_meta r') = km_Scopes (mr_meta r)"
    by (auto simp: Mem_inv_def)
  have "Mem_inv m'"
    using assms(1) * unfolding Mem_inv_ids rs'(2) by (simp del: set_map) metis
  moreover have "kid \<in> Mem_issued m"
    using *(1) assms(1) unfolding Mem_inv_ids Mem_issued_def by (simp del: set_map)
  ultimately show ?thesis
    using *(3) by (auto simp: rs'(2) Mem_live_def Mem_issued_def fun_eq_iff)
qed

lemma Mem_revoke_fail: "Mem_Revoke kid m = (Inl err, m') \<Longrightarrow> m' = m \<and> Mem_live m kid = None"
  by (auto simp: Mem_Revoke_def Mem_live_def Mem_revoke_loop_None split: option.splits)

lemma Mem_live_issued: "Mem_inv m \<Longrightarrow> Mem_live m kid = Some k \<Longrightarrow> kid \<in> Mem_issued m"
  by (auto simp: Mem_live_def Mem_row_def find_Some_iff Mem_issued_def Mem_inv_def)

lemma Mem_list_live:
  assumes "Mem_inv m" "Mem_live m kid = Some k"
  shows "\<exists>ms. Mem_List m = Inr ms \<and> (\<exists>x \<in> set ms. km_ID x = kid \<and> \<not> km_Revoked x \<and> km_Name x = lk_name k \<and>
    km_Scopes x = lk_scopes k \<and> km_ExpiresAt x = lk_expires k)"
  using assms by (fastforce simp: Mem_live_def Mem_row_def find_Some_iff Mem_List_def Mem_inv_def)

interpretation mem: key_store H "Mem_Create H" "Mem_Verify H" Mem_Revoke Mem_List id
  Mem_live Mem_issued Mem_inv Mem_room for H
  by unfold_locales
    (erule (1) Mem_create_inv | erule (2) Mem_create_ok | erule (2) Mem_create_fail | rule Mem_verify_live |
     erule (1) Mem_revoke_ok | erule Mem_revoke_fail | erule (1) Mem_live_issued | erule (1) Mem_list_live)+

subsection \<open>What the broker's key store guarantees\<close>

abbreviation sql_run :: "idkey \<Rightarrow> key_op list \<Rightarrow> SQLStore \<Rightarrow> (key_op \<times> key_out) list \<times> SQLStore" where
  "sql_run H \<equiv> key_run (SQL_Create H) (SQL_Revoke True)"

lemma SQL_inv_new: "SQL_inv NewSQLStore"
  by (simp add: SQL_inv_def NewSQLStore_def)

lemma SQL_live_new: "SQL_live NewSQLStore = Map.empty"
  by (simp add: SQL_live_def SQL_row_def NewSQLStore_def fun_eq_iff)

lemma sql_rooms [simp]: "sql.rooms H ops s"
  by (induction ops arbitrary: s) auto

lemma sql_run_inv: "SQL_inv s \<Longrightarrow> SQL_inv (snd (sql_run H ops s))"
proof (induction ops arbitrary: s)
  case (Cons oper ops)
  then show ?case using sql.exec_inv [of s H oper] by (simp add: case_prod_beta)
qed simp

text \<open>
  (C2) The key table authenticates exactly what its history granted: after any sequence of mints and
  revocations, including mints that fail half-way, a bearer secret is accepted exactly when its id is
  that of a mint that returned and was not revoked since, the key has not expired, and the secret hashes
  like the minted one under the mint's salt; the principal carries the name and the scopes of
  the mint (as UTF-8: the column of scopes is JSON).
\<close>

theorem sql_keys_exact:
  "SQL_Verify H True now secret (snd (sql_run H ops NewSQLStore)) = Inr p \<longleftrightarrow>
    (\<exists>kid g. parseKeyID secret = Some kid \<and> log_grants (fst (sql_run H ops NewSQLStore)) kid = Some g \<and>
       grant_accepts H now secret g \<and>
       p = \<lparr>prin_ID = gr_name g, prin_KeyID = kid, prin_Scopes = map to_utf8 (gr_scopes g)\<rparr>)"
  by (rule sql.run_verify [OF SQL_inv_new sql_rooms SQL_live_new]) (simp add: prod_eq_iff)

text \<open>
  (C3) Revocation is final: once the revocation of a key has returned, no secret with its id is
  accepted again, whatever keys are minted and revoked afterwards and however the hash function
  behaves; ids are not reused.
\<close>

theorem revoked_never_verifies:
  assumes "SQL_Revoke True kid (snd (sql_run H ops1 NewSQLStore)) = (Inr (), s)"
    "parseKeyID secret = Some kid"
  shows "\<not> is_ok (SQL_Verify H db_ok now secret (snd (sql_run H ops2 s)))"
proof -
  have "SQL_Verify H True now secret (snd (sql_run H ops2 s)) = Inl ErrInvalidGatewayKey"
    by (rule sql.revoked_stays_revoked [OF sql_run_inv [OF SQL_inv_new] assms(1) sql_rooms _ assms(2)])
      (simp add: prod_eq_iff)
  then show ?thesis
    using assms(2) by (cases db_ok) (auto simp: SQL_Verify_def SQL_verifyByID_def)
qed

text \<open>
  (C000) A key that was minted can be used at once and until it expires: the secret that \<open>Create\<close> returned
  is accepted, with the name and the scopes it was minted with (bytes that are not UTF-8 replaced), after the column of scopes and
  the sealed hash were written to and read from the table, and whatever keys are minted and revoked in the meantime,
  as long as it is not revoked itself.
\<close>

theorem minted_key_accepted:
  assumes "SQL_Create H e name kind ttl scopes (snd (sql_run H ops NewSQLStore)) = (Inr (secret, kid), s)"
    "ce_tail e = Some tail" "length tail = 24"
    "ttl > 0 \<longrightarrow> UnixMilli now \<le> UnixMilli (ce_now2 e + ttl)" "KRevoke kid \<notin> set ops'"
  shows "SQL_Verify H True now secret (snd (sql_run H ops' s)) =
    Inr \<lparr>prin_ID = name, prin_KeyID = kid, prin_Scopes = map to_utf8 scopes\<rparr>"
  by (rule sql.minted_key_verifies [OF sql_run_inv [OF SQL_inv_new] _ assms(1,2) _ _ sql_rooms assms(5)]) (use assms(3,4) in auto)

definition utf8_principal :: "Principal \<Rightarrow> Principal" where
  "utf8_principal p = p\<lparr>prin_Scopes := map to_utf8 (prin_Scopes p)\<rparr>"

text \<open>
  (C8) The store for tests stands for the real one: two runs of the same operations that returned the
  same secrets leave a memory store and a key table that give the same answer to every bearer
  secret at every time, up to one thing: the table keeps scopes as JSON, that is as UTF-8, the memory
  store as the bytes they are.
\<close>

theorem memory_store_refines:
  assumes "mem.rooms H ops NewMemoryStore"
    "fst (key_run (Mem_Create H) Mem_Revoke ops NewMemoryStore) = fst (sql_run H ops NewSQLStore)"
  shows "SQL_Verify H True now secret (snd (sql_run H ops NewSQLStore)) =
    map_sum id utf8_principal (Mem_Verify H now secret (snd (key_run (Mem_Create H) Mem_Revoke ops NewMemoryStore)))"
proof -
  define m where "m = Mem_Verify H now secret (snd (key_run (Mem_Create H) Mem_Revoke ops NewMemoryStore))"
  define s where "s = SQL_Verify H True now secret (snd (sql_run H ops NewSQLStore))"
  have inv: "Mem_inv NewMemoryStore" "Mem_live NewMemoryStore = Map.empty"
    by (simp_all add: Mem_inv_def NewMemoryStore_def Mem_live_def Mem_row_def fun_eq_iff)
  have eq: "s = Inr p \<longleftrightarrow> (\<exists>q. m = Inr q \<and> p = utf8_principal q)" for p
    unfolding m_def s_def mem.run_verify [OF inv(1) assms(1) inv(2) prod.collapse [symmetric]]
      sql.run_verify [OF SQL_inv_new sql_rooms SQL_live_new prod.collapse [symmetric]] assms(2)
    by (auto simp: utf8_principal_def)
  have m: "m = Inl ErrInvalidGatewayKey \<or> (\<exists>q. m = Inr q)"
    by (auto simp: m_def Mem_verify_live split: option.split)
  have "s = Inl ErrInvalidGatewayKey \<or> (\<exists>p. s = Inr p)"
    by (auto simp: s_def SQL_verify_live split: option.split)
  with m eq have "s = map_sum id utf8_principal m" by auto
  then show ?thesis by (simp add: m_def s_def)
qed

text \<open>A concrete hash and a concrete mint.\<close>

definition demo_H :: idkey where
  "demo_H secret salt = salt @ secret"

definition demo_env :: create_env where
  "demo_env = \<lparr>ce_now1 = 0, ce_now2 = 0, ce_tail = Some ''abcdefghijklmnopqrstuvwx'', ce_salt = Some ''0123456789abcdef'',
     ce_insert_ok = True, ce_update_ok = True\<rparr>"

definition demo_secret :: string where
  "demo_secret = ''sk-dg-1.YWJjZGVmZ2hpamtsbW5vcHFyc3R1dnd4''"

lemma demo_tail: "RawURLEncode ''abcdefghijklmnopqrstuvwx'' = ''YWJjZGVmZ2hpamtsbW5vcHFyc3R1dnd4''"
  by (simp add: RawURLEncode_def b64_char_def char_of_def bit_Suc_0_iff)

lemma demo_format: "formatSecret (Some ''abcdefghijklmnopqrstuvwx'') 1 = Some demo_secret"
  by (simp add: formatSecret_def randomTail_def demo_tail demo_secret_def key_prefix_def show_int_def
      show_nat.simps digit_char_def char_of_def bit_Suc_0_iff)

lemma demo_create:
  "SQL_Create demo_H demo_env ''ci'' ''static'' 0 [''model:m''] NewSQLStore =
    (Inr (demo_secret, 1), snd (SQL_Create demo_H demo_env ''ci'' ''static'' 0 [''model:m''] NewSQLStore))"
  by (simp add: SQL_Create_def key_expiry_def KindStatic_def SQL_insert_def demo_env_def NewSQLStore_def
      demo_format argon_Seal_def)

lemma demo_parse: "parseKeyID demo_secret = Some 1"
  by (rule parseKeyID_formatSecret [OF demo_format]) auto

theorem minted_key_accepted_witness:
  "SQL_Verify demo_H True 12345 demo_secret
     (snd (sql_run demo_H [KCreate demo_env ''x'' ''static'' 0 [], KRevoke 2]
       (snd (SQL_Create demo_H demo_env ''ci'' ''static'' 0 [''model:m''] NewSQLStore)))) =
   Inr \<lparr>prin_ID = ''ci'', prin_KeyID = 1, prin_Scopes = map to_utf8 [''model:m'']\<rparr>"
  by (rule minted_key_accepted [where ops = "[]" and H = demo_H and ttl = 0, OF _ _ _, of demo_env _ "''static''"
        _ _ _ _ "''abcdefghijklmnopqrstuvwx''"])
    (use demo_create in \<open>simp_all add: demo_env_def\<close>)

theorem revoked_never_verifies_witness:
  "\<not> is_ok (SQL_Verify demo_H True 12345 demo_secret
     (snd (sql_run demo_H [KCreate demo_env ''x'' ''static'' 0 []]
       (snd (SQL_Revoke True 1 (snd (sql_run demo_H [KCreate demo_env ''ci'' ''static'' 0 [''model:m'']] NewSQLStore)))))))"
  by (rule revoked_never_verifies [OF _ demo_parse, where ?ops1.0 = "[KCreate demo_env ''ci'' ''static'' 0 [''model:m'']]"])
    (simp add: key_exec_def demo_create prod_eq_iff case_prod_beta SQL_Revoke_def SQL_Create_def
      key_expiry_def KindStatic_def SQL_insert_def demo_env_def NewSQLStore_def demo_format argon_Seal_def SQL_update_def
      split: option.split sum.split)

lemma demo_mem_create:
  "fst (Mem_Create demo_H demo_env ''ci'' ''static'' 0 [''model:m''] NewMemoryStore) = Inr (demo_secret, 1)"
  by (simp add: Mem_Create_def key_expiry_def KindStatic_def demo_env_def NewMemoryStore_def wrap64_def
      demo_format argon_Seal_def)

theorem memory_store_refines_witness:
  "SQL_Verify demo_H True 12345 demo_secret
     (snd (sql_run demo_H [KCreate demo_env ''ci'' ''static'' 0 [''model:m'']] NewSQLStore)) =
   map_sum id utf8_principal (Mem_Verify demo_H 12345 demo_secret
     (snd (key_run (Mem_Create demo_H) Mem_Revoke [KCreate demo_env ''ci'' ''static'' 0 [''model:m'']] NewMemoryStore)))"
  by (rule memory_store_refines)
    (simp_all add: Mem_room_def case_prod_beta key_exec_fst demo_mem_create demo_create [THEN arg_cong [where f = fst]],
      simp add: NewMemoryStore_def)

end
