(* ===== verification/Config.thy ===== *)
theory Config
  imports GoStrings
begin

section \<open>The configuration file\<close>

text \<open>
  \<^verbatim>\<open>internal/config/config.go\<close>: the structure of \<^verbatim>\<open>daigate.yaml\<close>, its defaults, and the lookup of the
  broker key and of the admin tokens in the environment.
  The yaml decoder is third-party code: it is the parameter \<open>unmarshal\<close>. Files and environment are
  functions; an unset variable is the empty string, as \<^verbatim>\<open>os.Getenv\<close> has it. The nested anonymous
  structs of \<^verbatim>\<open>File\<close> are flattened into field names; an undecoded \<^verbatim>\<open>yaml.Node\<close> is kept as text.
\<close>

record OAuthProfile =
  op_AuthorizeURL :: string
  op_TokenURL :: string
  op_DeviceAuthorizeURL :: string
  op_DeviceTokenURL :: string
  op_ClientID :: string
  op_Scopes :: "string list"
  op_PKCE :: bool

definition BrokerKeyEnv :: string where "BrokerKeyEnv = ''DAIGATE_BROKER_KEY''"
definition legacyBrokerKeyEnv :: string where "legacyBrokerKeyEnv = ''DAIGATE_VAULT_KEY''"

record MintPolicyConfig =
  mpc_MaxTTL :: string
  mpc_Scopes :: "string list"

record IssuerEntry =
  ie_Driver :: string
  ie_Config :: string

record Profile =
  prof_Kind :: string
  prof_OAuth :: OAuthProfile

record File =
  f_Serve_DataListen :: string
  f_Serve_Catalog :: string
  f_Admin_Listen :: string
  f_Admin_Enable :: "bool option"
  f_Admin_Tokens_AdminEnv :: string
  f_Admin_Tokens_ProvisionEnv :: string
  f_Admin_Keys :: MintPolicyConfig
  f_Admin_Provision :: MintPolicyConfig
  f_Credential_Backend :: string
  f_Credential_Broker :: string
  f_Credential_Encryption_KeyEnv :: string
  f_Credential_Encryption_KeyFile :: string
  f_Credential_BackendConfig :: string
  f_Ingress_ClientAuth :: string
  f_Ingress_Issuers :: "IssuerEntry list"
  f_Adapters_Enable :: "string list"
  f_CredentialProfiles :: "(string, Profile) gomap"

datatype config_error =
    ErrReadFile string
  | ErrYaml
  | ErrBrokerKeyRequired string
  | ErrAdminTokenRequired string
  | ErrProvisionTokenRequired string

definition or_default :: "string \<Rightarrow> string \<Rightarrow> string" where
  "or_default d s = (if s = '''' then d else s)"

definition config_defaults :: "File \<Rightarrow> File" where
  "config_defaults f =
     f\<lparr>f_Serve_DataListen := or_default '':9420'' (f_Serve_DataListen f),
       f_Serve_Catalog := or_default ''providers.yaml'' (f_Serve_Catalog f),
       f_Admin_Listen := or_default ''127.0.0.1:9421'' (f_Admin_Listen f),
       f_Admin_Tokens_AdminEnv := or_default ''DAIGATE_ADMIN_TOKEN'' (f_Admin_Tokens_AdminEnv f),
       f_Admin_Tokens_ProvisionEnv := or_default ''DAIGATE_PROVISION_TOKEN'' (f_Admin_Tokens_ProvisionEnv f),
       f_Credential_Backend := or_default ''sqlite'' (f_Credential_Backend f),
       f_Credential_Broker := or_default ''broker.db'' (f_Credential_Broker f),
       f_Credential_Encryption_KeyEnv := or_default BrokerKeyEnv (f_Credential_Encryption_KeyEnv f),
       f_Ingress_ClientAuth := or_default ''keyring'' (f_Ingress_ClientAuth f),
       f_Adapters_Enable := (if f_Adapters_Enable f = [] then [''passthrough''] else f_Adapters_Enable f)\<rparr>"

definition Load_config ::
  "(string \<Rightarrow> string option) \<Rightarrow> (string \<Rightarrow> File option) \<Rightarrow> string \<Rightarrow> (config_error, File) res" where
  "Load_config read unmarshal path =
     (case read path of
        None \<Rightarrow> Inl (ErrReadFile path)
      | Some raw \<Rightarrow>
          (case unmarshal raw of
             None \<Rightarrow> Inl ErrYaml
           | Some f \<Rightarrow> Inr (config_defaults f)))"

definition BrokerKey :: "(string \<Rightarrow> string option) \<Rightarrow> (string \<Rightarrow> string) \<Rightarrow> File \<Rightarrow> (config_error, string) res" where
  "BrokerKey read env f =
     (if f_Credential_Encryption_KeyFile f \<noteq> '''' then
        (case read (f_Credential_Encryption_KeyFile f) of
           None \<Rightarrow> Inl (ErrReadFile (f_Credential_Encryption_KeyFile f))
         | Some raw \<Rightarrow> Inr (TrimSpace raw))
      else
        (let envName = f_Credential_Encryption_KeyEnv f;
             v0 = TrimSpace (env envName);
             v = (if v0 = '''' \<and> envName = BrokerKeyEnv then TrimSpace (env legacyBrokerKeyEnv) else v0)
         in if v = '''' then Inl (ErrBrokerKeyRequired envName) else Inr v))"

definition AdminPlaneEnabled :: "File \<Rightarrow> bool" where
  "AdminPlaneEnabled f = (case f_Admin_Enable f of Some b \<Rightarrow> b | None \<Rightarrow> True)"

definition AdminToken :: "(string \<Rightarrow> string) \<Rightarrow> File \<Rightarrow> (config_error, string) res" where
  "AdminToken env f =
     (let v = TrimSpace (env (f_Admin_Tokens_AdminEnv f)) in
      if v = '''' then Inl (ErrAdminTokenRequired (f_Admin_Tokens_AdminEnv f)) else Inr v)"

definition ProvisionToken :: "(string \<Rightarrow> string) \<Rightarrow> File \<Rightarrow> (config_error, string) res" where
  "ProvisionToken env f =
     (let v = TrimSpace (env (f_Admin_Tokens_ProvisionEnv f)) in
      if v = '''' then Inl (ErrProvisionTokenRequired (f_Admin_Tokens_ProvisionEnv f)) else Inr v)"

lemma or_default_simps [simp]: "or_default d '''' = d" "s \<noteq> '''' \<Longrightarrow> or_default d s = s"
  by (simp_all add: or_default_def)

lemma or_default_idem [simp]: "or_default d (or_default d s) = or_default d s"
  by (simp add: or_default_def)

text \<open>Loading a file that was loaded before changes nothing.\<close>

lemma config_defaults_idem: "config_defaults (config_defaults f) = config_defaults f"
  by (simp add: config_defaults_def)

text \<open>Every token source a loaded file names is a real variable name.\<close>

lemma config_defaults_named:
  "f_Admin_Tokens_AdminEnv (config_defaults f) \<noteq> ''''" "f_Admin_Tokens_ProvisionEnv (config_defaults f) \<noteq> ''''"
  "f_Credential_Encryption_KeyEnv (config_defaults f) \<noteq> ''''" "f_Adapters_Enable (config_defaults f) \<noteq> []"
  by (auto simp: config_defaults_def or_default_def BrokerKeyEnv_def)

lemma BrokerKey_trimmed: "BrokerKey read env f = Inr k \<Longrightarrow> TrimSpace k = k"
  by (auto simp: BrokerKey_def Let_def split: if_splits option.splits)

text \<open>
  Where the broker key comes from: the key file when one is set (even an empty one), else the named
  variable, else the deprecated variable, which is read only when the named variable is the default
  one and blank. A key from the environment is never blank, and a missing key is an error that names
  the variable to set.
\<close>

lemma broker_key_sources:
  "BrokerKey read env f =
    (if f_Credential_Encryption_KeyFile f \<noteq> '''' then
       case_option (Inl (ErrReadFile (f_Credential_Encryption_KeyFile f))) (\<lambda>raw. Inr (TrimSpace raw))
         (read (f_Credential_Encryption_KeyFile f))
     else
       case find (\<lambda>v. v \<noteq> '''')
              ([TrimSpace (env (f_Credential_Encryption_KeyEnv f))] @
               (if f_Credential_Encryption_KeyEnv f = BrokerKeyEnv then [TrimSpace (env legacyBrokerKeyEnv)] else [])) of
         Some v \<Rightarrow> Inr v
       | None \<Rightarrow> Inl (ErrBrokerKeyRequired (f_Credential_Encryption_KeyEnv f)))"
  by (cases "f_Credential_Encryption_KeyEnv f = BrokerKeyEnv") (auto simp: BrokerKey_def Let_def)

end
