(* ===== verification/AdminAuth.thy ===== *)
theory AdminAuth
  imports Keyring Config
begin

section \<open>Authentication of the admin plane\<close>

text \<open>
  \<^verbatim>\<open>ingress/adminauth/adminauth.go\<close>: the bearer tokens of the control plane with their roles, and the
  middleware that guards its routes. The table \<^verbatim>\<open>admin_tokens\<close> of the broker database is a list of
  rows in the order of their ids; the role a request runs under (\<^verbatim>\<open>WithRole\<close>, \<^verbatim>\<open>RoleFrom\<close>) is an
  argument of the guarded handler, \<open>None\<close> when no role was attached.
\<close>

type_synonym Role = string

definition RoleAdmin :: Role where "RoleAdmin = ''admin''"
definition RoleProvision :: Role where "RoleProvision = ''provision''"

definition provisionDeny :: "(string, bool) gomap" where
  "provisionDeny = [(''/v1/credentials'', True), (''/v1/snapshot'', True)]"

record tokenEntry =
  te_role :: Role
  te_sealed :: string

type_synonym Middleware = "tokenEntry list"

datatype admin_error =
    ErrTokenRandom
  | ErrNoAdminToken
  | ErrNoTokenSource string string
  | ErrTokenTable

record admin_row =
  ar_name :: string
  ar_role :: string
  ar_hash :: string
  ar_created_at :: int

text \<open>Sealing consumes one salt per token; a salt \<open>None\<close> is a failed source of random bytes.\<close>

definition seal_entry :: "idkey \<Rightarrow> string option \<Rightarrow> Role \<Rightarrow> string \<Rightarrow> (admin_error, tokenEntry list) res" where
  "seal_entry H salt role tok =
     (if tok = '''' then Inr []
      else case argon_Seal H salt tok of
        None \<Rightarrow> Inl ErrTokenRandom
      | Some sealed \<Rightarrow> Inr [\<lparr>te_role = role, te_sealed = sealed\<rparr>])"

definition NewFromPlain ::
  "idkey \<Rightarrow> string option \<Rightarrow> string option \<Rightarrow> string \<Rightarrow> string \<Rightarrow> (admin_error, Middleware) res" where
  "NewFromPlain H salt1 salt2 admin provision =
     res_bind (seal_entry H salt1 RoleAdmin admin) (\<lambda>es1.
     res_bind (seal_entry H salt2 RoleProvision provision) (\<lambda>es2.
       if es1 @ es2 = [] then Inl ErrNoAdminToken else Inr (es1 @ es2)))"

definition loadDBTokens :: "bool \<Rightarrow> admin_row list \<Rightarrow> (admin_error, tokenEntry list) res" where
  "loadDBTokens db_ok rows =
     (if db_ok then Inr (map (\<lambda>r. \<lparr>te_role = ar_role r, te_sealed = ar_hash r\<rparr>) rows) else Inl ErrTokenTable)"

text \<open>\<open>db\<close> is \<open>None\<close> for a nil handle; the result \<open>Inr None\<close> is the disabled admin plane.\<close>

definition Load_admin ::
  "idkey \<Rightarrow> string option \<Rightarrow> string option \<Rightarrow> (string \<Rightarrow> string) \<Rightarrow> (bool \<times> admin_row list) option \<Rightarrow> File \<Rightarrow>
     (admin_error, Middleware option) res" where
  "Load_admin H salt1 salt2 env db f =
     (if \<not> AdminPlaneEnabled f then Inr None
      else
        res_bind (seal_entry H salt1 RoleAdmin (TrimSpace (env (f_Admin_Tokens_AdminEnv f)))) (\<lambda>es1.
        res_bind (seal_entry H salt2 RoleProvision (TrimSpace (env (f_Admin_Tokens_ProvisionEnv f)))) (\<lambda>es2.
        res_bind (case db of None \<Rightarrow> Inr [] | Some (db_ok, rows) \<Rightarrow> loadDBTokens db_ok rows) (\<lambda>es3.
          if es1 @ es2 @ es3 = []
          then Inl (ErrNoTokenSource (f_Admin_Tokens_AdminEnv f) (f_Admin_Tokens_ProvisionEnv f))
          else Inr (Some (es1 @ es2 @ es3))))))"

fun roleFor :: "idkey \<Rightarrow> tokenEntry list \<Rightarrow> string \<Rightarrow> Role option" where
  "roleFor H [] tok = None"
| "roleFor H (e # es) tok = (if argon_Verify H tok (te_sealed e) then Some (te_role e) else roleFor H es tok)"

definition admin_bearer :: "header \<Rightarrow> string option" where
  "admin_bearer hdr =
     (let h = h_Get hdr ''Authorization'' in
      if HasPrefix h ''Bearer '' then Some (TrimSpace (TrimPrefix h ''Bearer '')) else None)"

datatype 'a guarded = Unauthorized | Forbidden | Pass 'a

definition Require :: "idkey \<Rightarrow> Middleware \<Rightarrow> request \<Rightarrow> Role guarded" where
  "Require H m r =
     (case admin_bearer (rq_header r) of
        None \<Rightarrow> Unauthorized
      | Some tok \<Rightarrow>
          (case roleFor H m tok of
             None \<Rightarrow> Unauthorized
           | Some role \<Rightarrow>
               (if role = RoleProvision \<and> (\<exists>p \<in> set (gm_keys provisionDeny). HasPrefix (rq_path r) p)
                then Forbidden else Pass role)))"

definition Insert_token ::
  "idkey \<Rightarrow> instant \<Rightarrow> string option \<Rightarrow> bool \<Rightarrow> string \<Rightarrow> Role \<Rightarrow> string \<Rightarrow> admin_row list \<Rightarrow>
     (admin_error, unit) res \<times> admin_row list" where
  "Insert_token H now salt db_ok name role plain rows =
     (case argon_Seal H salt plain of
        None \<Rightarrow> (Inl ErrTokenRandom, rows)
      | Some sealed \<Rightarrow>
          (if \<not> db_ok \<or> role \<notin> {''admin'', ''provision''} then (Inl ErrTokenTable, rows)
           else (Inr (), rows @ [\<lparr>ar_name = name, ar_role = role, ar_hash = sealed, ar_created_at = UnixMilli now\<rparr>])))"

lemma roleFor_Some: "roleFor H es tok = Some r \<Longrightarrow> \<exists>e \<in> set es. te_role e = r \<and> argon_Verify H tok (te_sealed e)"
  by (induction es) (auto split: if_splits)

lemma roleFor_None: "roleFor H es tok = None \<longleftrightarrow> (\<forall>e \<in> set es. \<not> argon_Verify H tok (te_sealed e))"
  by (induction es) auto

lemma roleFor_find: "roleFor H es tok = map_option te_role (find (\<lambda>e. argon_Verify H tok (te_sealed e)) es)"
  by (induction es) auto

text \<open>The role of the last entry of a table, which accepts the token, unless an earlier entry accepts it too.\<close>

definition role_of_bearer :: "idkey \<Rightarrow> Middleware \<Rightarrow> string \<Rightarrow> Role \<Rightarrow> Role" where
  "role_of_bearer H m tok role =
     (case find (\<lambda>e. argon_Verify H tok (te_sealed e)) (butlast m) of None \<Rightarrow> role | Some e \<Rightarrow> te_role e)"

lemma roleFor_append: "roleFor H (xs @ ys) tok = (case roleFor H xs tok of None \<Rightarrow> roleFor H ys tok | Some r \<Rightarrow> Some r)"
  by (induction xs) auto

lemma seal_entry_roleFor:
  "seal_entry H (Some salt) role tok = Inr es \<Longrightarrow>
     roleFor H es t = (if tok \<noteq> '''' \<and> H t salt = H tok salt then Some role else None)"
  by (auto simp: seal_entry_def argon_Seal_def argon_Verify_Seal split: if_splits option.splits)

text \<open>The middleware never passes a request without a role, and never a provision token to a denied path.\<close>

lemma Require_Pass:
  "Require H m r = Pass role \<Longrightarrow>
     \<exists>tok. admin_bearer (rq_header r) = Some tok \<and> roleFor H m tok = Some role \<and>
       (role = RoleProvision \<longrightarrow> \<not> HasPrefix (rq_path r) ''/v1/credentials'' \<and> \<not> HasPrefix (rq_path r) ''/v1/snapshot'')"
  by (auto simp: Require_def provisionDeny_def split: option.splits if_splits)

text \<open>
  A token written to \<^verbatim>\<open>admin_tokens\<close> works after the next start: the middleware that \<open>Load\<close> builds
  from the table passes a request that bears the token to the handler under one role: the role of the
  first earlier entry that accepts the same token and, when there is none, the role the token was
  inserted with. It is refused exactly when that role is \<^verbatim>\<open>provision\<close> and the path starts with one of
  the two prefixes of \<^verbatim>\<open>provisionDeny\<close>.
\<close>

lemma inserted_token_works:
  assumes "Insert_token H now (Some salt) db_ok name role plain rows = (Inr (), rows')"
    "Load_admin H s1 s2 env (Some (True, rows')) f = Inr (Some m)"
    "admin_bearer (rq_header r) = Some plain"
  shows "Require H m r =
    (let role' = role_of_bearer H m plain role in
     if role' = RoleProvision \<and> (HasPrefix (rq_path r) ''/v1/credentials'' \<or> HasPrefix (rq_path r) ''/v1/snapshot'')
     then Forbidden else Pass role')"
proof -
  obtain sealed where sealed: "argon_Seal H (Some salt) plain = Some sealed"
    "rows' = rows @ [\<lparr>ar_name = name, ar_role = role, ar_hash = sealed, ar_created_at = UnixMilli now\<rparr>]"
    using assms(1) by (auto simp: Insert_token_def split: option.splits if_splits)
  then obtain es where m: "m = es @ [\<lparr>te_role = role, te_sealed = sealed\<rparr>]"
    using assms(2) by (auto simp: Load_admin_def res_bind_Inr_iff loadDBTokens_def split: if_splits)
  have acc: "argon_Verify H plain sealed"
    using argon_Verify_Seal [OF sealed(1)] by simp
  have "roleFor H m plain = Some (role_of_bearer H m plain role)"
    using acc by (simp add: m roleFor_append roleFor_find [of H es] role_of_bearer_def split: option.split)
  with assms(3) show ?thesis by (simp add: Require_def Let_def provisionDeny_def gm_keys_def)
qed

end
