(* ===== verification/MintPolicy.thy ===== *)
theory MintPolicy
  imports GoTime Config
begin

section \<open>Limits on minted keys\<close>

text \<open>
  \<^verbatim>\<open>credential/admin/policy.go\<close>: the lifetime and the scopes a gateway key may be minted with. A nil
  configuration is \<open>None\<close>. The function \<^verbatim>\<open>ParseDuration\<close> of the package is \<open>admin_ParseDuration\<close>, to tell it
  from the library's.
\<close>

record MintPolicy =
  mp_MaxTTL :: duration
  mp_Scopes :: "string list"
  mp_RequireAllowlist :: bool

datatype policy_error =
    ErrInvalidTTL string
  | ErrTTLNotPositive
  | ErrProvisionScopes
  | ErrScopesRequired
  | ErrScopeNotAllowed string

definition DefaultProvisionPolicy :: MintPolicy where
  "DefaultProvisionPolicy =
     \<lparr>mp_MaxTTL = 24 * Hour,
      mp_Scopes = [''wire:openai-chat-completions'', ''wire:anthropic-messages'', ''wire:openai-responses''],
      mp_RequireAllowlist = True\<rparr>"

definition admin_ParseDuration :: "string \<Rightarrow> duration \<Rightarrow> duration \<Rightarrow> (policy_error, duration) res" where
  "admin_ParseDuration raw fallback maxd =
     (if TrimSpace raw = '''' then Inr fallback
      else case time_ParseDuration raw of
        None \<Rightarrow> Inl (ErrInvalidTTL raw)
      | Some d \<Rightarrow>
          (if d \<le> 0 then Inl ErrTTLNotPositive
           else if maxd > 0 \<and> d > maxd then Inr maxd
           else Inr d))"

fun scopeAllowed :: "string \<Rightarrow> string list \<Rightarrow> bool" where
  "scopeAllowed scope [] = False"
| "scopeAllowed scope (a0 # as) =
     (let a = TrimSpace a0 in a = ''*'' \<or> a = TrimSpace scope \<or> scopeAllowed scope as)"

definition ResolveScopes :: "MintPolicy \<Rightarrow> string list \<Rightarrow> (policy_error, string list) res" where
  "ResolveScopes p requested =
     (if mp_RequireAllowlist p then
        (if mp_Scopes p = [] then Inl ErrProvisionScopes else Inr (mp_Scopes p))
      else if mp_Scopes p = [] then Inr requested
      else if requested = [] then Inl ErrScopesRequired
      else case find (\<lambda>s. \<not> scopeAllowed s (mp_Scopes p)) requested of
        Some s \<Rightarrow> Inl (ErrScopeNotAllowed s)
      | None \<Rightarrow> Inr requested)"

definition config_ttl :: "MintPolicyConfig \<Rightarrow> duration \<Rightarrow> duration" where
  "config_ttl cfg d0 =
     (if mpc_MaxTTL cfg \<noteq> '''' then
        (case time_ParseDuration (mpc_MaxTTL cfg) of
           Some d \<Rightarrow> if d > 0 then d else d0
         | None \<Rightarrow> d0)
      else d0)"

definition config_scopes :: "MintPolicyConfig \<Rightarrow> string list \<Rightarrow> string list" where
  "config_scopes cfg s0 = (if mpc_Scopes cfg \<noteq> [] then mpc_Scopes cfg else s0)"

definition ProvisionPolicyFromConfig :: "File option \<Rightarrow> MintPolicy" where
  "ProvisionPolicyFromConfig f =
     (let p = DefaultProvisionPolicy in
      case f of
        None \<Rightarrow> p
      | Some file \<Rightarrow>
          p\<lparr>mp_MaxTTL := config_ttl (f_Admin_Provision file) (mp_MaxTTL p),
            mp_Scopes := config_scopes (f_Admin_Provision file) (mp_Scopes p)\<rparr>)"

definition KeysPolicyFromConfig :: "File option \<Rightarrow> MintPolicy" where
  "KeysPolicyFromConfig f =
     (let p = \<lparr>mp_MaxTTL = 720 * Hour, mp_Scopes = [], mp_RequireAllowlist = False\<rparr> in
      case f of
        None \<Rightarrow> p
      | Some file \<Rightarrow>
          p\<lparr>mp_MaxTTL := config_ttl (f_Admin_Keys file) (mp_MaxTTL p),
            mp_Scopes := config_scopes (f_Admin_Keys file) (mp_Scopes p)\<rparr>)"

lemma admin_ParseDuration_bounds:
  assumes "admin_ParseDuration raw fallback maxd = Inr d"
  shows "if TrimSpace raw = '''' then d = fallback else 0 < d \<and> (maxd > 0 \<longrightarrow> d \<le> maxd)"
  using assms by (auto simp: admin_ParseDuration_def split: if_splits option.splits)

lemma scopeAllowed_iff:
  "scopeAllowed scope allow \<longleftrightarrow> (\<exists>a \<in> set allow. TrimSpace a = ''*'' \<or> TrimSpace a = TrimSpace scope)"
  by (induction allow) (auto simp: Let_def)

lemma ResolveScopes_allowlist:
  "mp_RequireAllowlist p \<Longrightarrow> ResolveScopes p requested = Inr scopes \<Longrightarrow> scopes = mp_Scopes p \<and> scopes \<noteq> []"
  by (auto simp: ResolveScopes_def split: if_splits)

lemma ResolveScopes_admin:
  assumes "\<not> mp_RequireAllowlist p" "ResolveScopes p requested = Inr scopes"
  shows "scopes = requested \<and> (mp_Scopes p \<noteq> [] \<longrightarrow> scopes \<noteq> [] \<and> (\<forall>s \<in> set scopes. scopeAllowed s (mp_Scopes p)))"
  using assms by (auto simp: ResolveScopes_def find_None_iff split: if_splits option.splits)

lemma ProvisionPolicy_props:
  "mp_RequireAllowlist (ProvisionPolicyFromConfig f)" "0 < mp_MaxTTL (ProvisionPolicyFromConfig f)"
  "mp_Scopes (ProvisionPolicyFromConfig f) \<noteq> []"
  by (auto simp: ProvisionPolicyFromConfig_def DefaultProvisionPolicy_def config_ttl_def config_scopes_def Let_def
      duration_defs split: option.split)

lemma KeysPolicy_props:
  "\<not> mp_RequireAllowlist (KeysPolicyFromConfig f)" "0 < mp_MaxTTL (KeysPolicyFromConfig f)"
  by (auto simp: KeysPolicyFromConfig_def config_ttl_def Let_def duration_defs split: option.split)

end
