(* ===== verification/Seal.thy ===== *)
theory Seal
  imports GoBase64 GoJson
begin

section \<open>Encryption at rest\<close>

text \<open>
  \<^verbatim>\<open>credential/seal/seal.go\<close>: the JSON envelope around AES-256-GCM in which credentials are stored.
  The cipher itself is a parameter: \<open>gcm_seal\<close> and \<open>gcm_open\<close> take key, nonce and text. What the code
  relies on is \<open>gcm_inverse\<close>: opening with the same key and nonce gives the plaintext back.
  \<^verbatim>\<open>gcm.Open\<close> panics when the nonce does not have 12 bytes; this is the outcome \<open>PanicNonceLength\<close>.
\<close>

record gcm =
  gcm_seal :: "string \<Rightarrow> string \<Rightarrow> string \<Rightarrow> string"
  gcm_open :: "string \<Rightarrow> string \<Rightarrow> string \<Rightarrow> string option"

definition gcm_inverse :: "gcm \<Rightarrow> bool" where
  "gcm_inverse G \<longleftrightarrow> (\<forall>k n p. gcm_open G k n (gcm_seal G k n p) = Some p)"

type_synonym Key = string

datatype seal_error =
    ErrKeyBase64
  | ErrKeyBytes nat
  | ErrKeyLength
  | ErrNonce
  | ErrEnvelope
  | ErrUnsupportedEnvelope
  | ErrBase64
  | ErrDecrypt
  | PanicNonceLength

record envelope =
  env_V :: int
  env_Alg :: string
  env_Nonce :: string
  env_CT :: string

definition envelopeVersion :: int where "envelopeVersion = 1"

definition aes_256_gcm :: string where "aes_256_gcm = ''aes-256-gcm''"

definition envelope_json :: "envelope \<Rightarrow> json" where
  "envelope_json e = JObj
     [(''v'', JNum (show_int (env_V e))), (''alg'', JStr (env_Alg e)), (''nonce'', JStr (env_Nonce e)),
      (''ct'', JStr (env_CT e))]"

definition envelope_of :: "string \<Rightarrow> envelope option" where
  "envelope_of data =
     (case struct_members data of
        None \<Rightarrow> None
      | Some ms \<Rightarrow>
          (if list_all int_typed (field_vals ''v'' ms) \<and> list_all str_typed (field_vals ''alg'' ms) \<and>
              list_all str_typed (field_vals ''nonce'' ms) \<and> list_all str_typed (field_vals ''ct'' ms)
           then Some \<lparr>env_V = field_int ''v'' ms, env_Alg = field_str ''alg'' ms, env_Nonce = field_str ''nonce'' ms,
                      env_CT = field_str ''ct'' ms\<rparr>
           else None))"

definition ParseKey :: "string \<Rightarrow> (seal_error, Key) res" where
  "ParseKey b64 =
     (case StdDecode b64 of
        None \<Rightarrow> Inl ErrKeyBase64
      | Some raw \<Rightarrow> (if length raw = 32 then Inr raw else Inl (ErrKeyBytes (length raw))))"

definition Encrypt :: "gcm \<Rightarrow> string option \<Rightarrow> Key \<Rightarrow> string \<Rightarrow> (seal_error, string) res" where
  "Encrypt G rnd k plaintext =
     (if length k \<noteq> 32 then Inl ErrKeyLength
      else case rnd of
        None \<Rightarrow> Inl ErrNonce
      | Some nonce \<Rightarrow>
          Inr (emit (envelope_json
            \<lparr>env_V = envelopeVersion, env_Alg = aes_256_gcm, env_Nonce = StdEncode nonce,
             env_CT = StdEncode (gcm_seal G k nonce plaintext)\<rparr>)))"

definition Decrypt :: "gcm \<Rightarrow> Key \<Rightarrow> string \<Rightarrow> (seal_error, string) res" where
  "Decrypt G k data =
     (if length k \<noteq> 32 then Inl ErrKeyLength
      else case envelope_of data of
        None \<Rightarrow> Inl ErrEnvelope
      | Some env \<Rightarrow>
          (if env_V env \<noteq> envelopeVersion \<or> env_Alg env \<noteq> aes_256_gcm then Inl ErrUnsupportedEnvelope
           else case StdDecode (env_Nonce env) of
             None \<Rightarrow> Inl ErrBase64
           | Some nonce \<Rightarrow>
               (case StdDecode (env_CT env) of
                  None \<Rightarrow> Inl ErrBase64
                | Some ct \<Rightarrow>
                    (if length nonce \<noteq> 12 then Inl PanicNonceLength
                     else case gcm_open G k nonce ct of
                       None \<Rightarrow> Inl ErrDecrypt
                     | Some plain \<Rightarrow> Inr plain))))"

text \<open>Base64 is ASCII, so that the encoder leaves it as it is.\<close>

lemma ascii_StdEncode [simp]: "ascii (StdEncode s)"
proof -
  have "(of_char (std_char v) :: nat) < 128" if "v < 64" for v
    using b64_cases [OF that] by (elim disjE) (auto simp: b64_char_def of_char_of)
  then show ?thesis
    unfolding ascii_def list_all_iff StdEncode_def by (auto dest!: b64_enc_std_chars)
qed

lemma to_utf8_ascii: "ascii s \<Longrightarrow> to_utf8 s = s"
  by (rule to_utf8_ok) (rule utf8_ok_ascii)

lemma envelope_json_ok: "json_ok (envelope_json e)"
  by (simp add: envelope_json_def num_ok_show_int)

text \<open>The names of the envelope's fields do not fold together.\<close>

lemma field_vals_Cons:
  "field_vals name ((k, v) # ms) = (if field_match name k then v # field_vals name ms else field_vals name ms)"
  by (simp add: field_vals_def)

lemma field_vals_Nil [simp]: "field_vals name [] = []"
  by (simp add: field_vals_def)

lemma envelope_of_json: "- (2 ^ 63) \<le> env_V e \<Longrightarrow> env_V e < 2 ^ 63 \<Longrightarrow>
    ascii (env_Alg e) \<Longrightarrow> ascii (env_Nonce e) \<Longrightarrow> ascii (env_CT e) \<Longrightarrow> envelope_of (emit (envelope_json e)) = Some e"
  using envelope_json_ok [of e] unfolding envelope_json_def
  by (simp add: envelope_of_def struct_members_emit field_vals_Cons field_match_def bytes_def char_of_def bit_Suc_0_iff
      char_upper_def field_int_def field_str_def set_int_def set_str_def int_typed_def str_typed_def ParseInt_show_int
      to_utf8_ascii del: emit.simps)

lemma Decrypt_envelope:
  "length k = 32 \<Longrightarrow>
    Decrypt G k (emit (envelope_json \<lparr>env_V = envelopeVersion, env_Alg = aes_256_gcm,
      env_Nonce = StdEncode nonce, env_CT = StdEncode ct\<rparr>)) =
    (if length nonce \<noteq> 12 then Inl PanicNonceLength
     else case gcm_open G k nonce ct of None \<Rightarrow> Inl ErrDecrypt | Some plain \<Rightarrow> Inr plain)"
  by (simp add: Decrypt_def envelope_of_json envelopeVersion_def aes_256_gcm_def)

lemma Decrypt_Encrypt:
  assumes "gcm_inverse G" "length nonce = 12" "Encrypt G (Some nonce) k plaintext = Inr data"
  shows "Decrypt G k data = Inr plaintext"
proof -
  have k: "length k = 32" and data: "data = emit (envelope_json \<lparr>env_V = envelopeVersion, env_Alg = aes_256_gcm,
      env_Nonce = StdEncode nonce, env_CT = StdEncode (gcm_seal G k nonce plaintext)\<rparr>)"
    using assms(3) by (auto simp: Encrypt_def split: if_splits)
  show ?thesis
    using assms(1,2) by (simp add: data Decrypt_envelope [OF k] gcm_inverse_def)
qed

text \<open>The text of an envelope is never one of the legacy plaintext rows: it has no type.\<close>

lemma envelope_no_type:
  "struct_members (emit (envelope_json e)) = Some ms \<Longrightarrow> field_vals ''type'' ms = []"
  using envelope_json_ok [of e] unfolding envelope_json_def
  by (auto simp: struct_members_emit field_vals_Cons field_match_def bytes_def char_of_def bit_Suc_0_iff
      char_upper_def simp del: emit.simps)

text \<open>
  (C000) A damaged envelope crashes the reader instead of being refused: with a well-formed key, an envelope in
  the form that \<open>Encrypt\<close> writes, but with a nonce that does not decode to 12 bytes, makes \<open>Decrypt\<close> panic, whatever its
  ciphertext.
\<close>

theorem decrypt_panics_on_short_nonce:
  assumes "length k = 32" "length nonce \<noteq> 12"
  shows "Decrypt G k (emit (envelope_json \<lparr>env_V = envelopeVersion, env_Alg = aes_256_gcm,
      env_Nonce = StdEncode nonce, env_CT = StdEncode ct\<rparr>)) = Inl PanicNonceLength"
  using assms by (simp add: Decrypt_envelope)

definition demo_gcm :: gcm where
  "demo_gcm = \<lparr>gcm_seal = (\<lambda>k n p. rev p), gcm_open = (\<lambda>k n c. Some (rev c))\<rparr>"

lemma demo_gcm_inverse: "gcm_inverse demo_gcm"
  by (simp add: gcm_inverse_def demo_gcm_def)

theorem decrypt_panics_on_short_nonce_witness:
  "Decrypt demo_gcm (replicate 32 (CHR ''k'')) (emit (envelope_json \<lparr>env_V = envelopeVersion, env_Alg = aes_256_gcm,
      env_Nonce = StdEncode ''short'', env_CT = StdEncode ''x''\<rparr>)) = Inl PanicNonceLength"
  by (rule decrypt_panics_on_short_nonce) simp_all

end
