(* ===== verification/StorePayload.thy ===== *)
theory StorePayload
  imports Seal GoTime "HOL-Library.Multiset"
begin

section \<open>Credential material and its stored form\<close>

text \<open>
  \<^verbatim>\<open>credential/store/types.go\<close> and \<^verbatim>\<open>credential/store/payload.go\<close>: the credential a request is sent with,
  its JSON payloads, and the merging of metadata. A nil map of extras is the empty list; the encoder
  writes a map with its keys sorted.
\<close>

type_synonym Kind = string

definition KindAPIKey :: Kind where "KindAPIKey = ''api_key''"
definition KindOAuth :: Kind where "KindOAuth = ''oauth''"

record Material =
  mat_Profile :: string
  mat_Kind :: Kind
  mat_APIKey :: string
  mat_AccessToken :: string
  mat_RefreshToken :: string
  mat_ExpiresAt :: "instant option"
  mat_Email :: string
  mat_Extras :: "(string, string) gomap"

definition Extra :: "Material \<Rightarrow> string \<Rightarrow> string" where
  "Extra m key = TrimSpace (gm_getd '''' (mat_Extras m) key)"

record CredentialSummary =
  cs_ID :: int
  cs_Profile :: string
  cs_Kind :: Kind
  cs_Status :: string
  cs_IdentityKey :: "string option"
  cs_DisabledCause :: "string option"
  cs_CreatedAt :: int
  cs_UpdatedAt :: int

record SnapshotMeta =
  sm_Generation :: int
  sm_GeneratedAt :: int
  sm_ServerNowMs :: int

datatype store_error =
    ErrSeal seal_error
  | ErrPayload
  | ErrUnknownKind string
  | ErrProfileNotFound string
  | ErrDisabled int string
  | ErrOAuthNotFound string
  | ErrNotOAuth string
  | ErrCredentialNotFound int
  | ErrStoreDatabase

record apiPayload =
  ap_Type :: string
  ap_Key :: string

record oauthPayload =
  oa_Type :: string
  oa_Access :: string
  oa_Refresh :: string
  oa_Expires :: int
  oa_Email :: string
  oa_Extras :: "(string, string) gomap"
  oa_Account :: string
  oa_AccountCamel :: string
  oa_Project :: string
  oa_ProjectCamel :: string

subsection \<open>JSON\<close>

definition json_api :: "apiPayload \<Rightarrow> json" where
  "json_api p = JObj [(''type'', JStr (ap_Type p)), (''key'', JStr (ap_Key p))]"

definition json_strmap :: "(string, string) gomap \<Rightarrow> json" where
  "json_strmap m = JObj (map (\<lambda>(k, v). (k, JStr v)) (sort_key fst m))"

definition omit_str :: "string \<Rightarrow> string \<Rightarrow> (string \<times> json) list" where
  "omit_str name s = (if s = '''' then [] else [(name, JStr s)])"

definition json_oauth :: "oauthPayload \<Rightarrow> json" where
  "json_oauth p = JObj
     ([(''type'', JStr (oa_Type p)), (''access'', JStr (oa_Access p)), (''refresh'', JStr (oa_Refresh p)),
       (''expires'', JNum (show_int (oa_Expires p)))] @
      omit_str ''email'' (oa_Email p) @
      (if oa_Extras p = [] then [] else [(''extras'', json_strmap (oa_Extras p))]) @
      omit_str ''account_id'' (oa_Account p) @ omit_str ''accountId'' (oa_AccountCamel p) @
      omit_str ''project_id'' (oa_Project p) @ omit_str ''projectId'' (oa_ProjectCamel p))"

definition api_of_json :: "string \<Rightarrow> apiPayload option" where
  "api_of_json raw =
     (case struct_members raw of
        None \<Rightarrow> None
      | Some ms \<Rightarrow>
          (if list_all str_typed (field_vals ''type'' ms) \<and> list_all str_typed (field_vals ''key'' ms)
           then Some \<lparr>ap_Type = field_str ''type'' ms, ap_Key = field_str ''key'' ms\<rparr> else None))"

definition oauth_str_fields :: "string list" where
  "oauth_str_fields =
     [''type'', ''access'', ''refresh'', ''email'', ''account_id'', ''accountId'', ''project_id'', ''projectId'']"

definition oauth_of_json :: "string \<Rightarrow> oauthPayload option" where
  "oauth_of_json raw =
     (case struct_members raw of
        None \<Rightarrow> None
      | Some ms \<Rightarrow>
          (if list_all (\<lambda>n. list_all str_typed (field_vals n ms)) oauth_str_fields \<and>
              list_all int_typed (field_vals ''expires'' ms) \<and> list_all strmap_typed (field_vals ''extras'' ms)
           then Some \<lparr>oa_Type = field_str ''type'' ms, oa_Access = field_str ''access'' ms,
                      oa_Refresh = field_str ''refresh'' ms, oa_Expires = field_int ''expires'' ms,
                      oa_Email = field_str ''email'' ms, oa_Extras = field_strmap ''extras'' ms,
                      oa_Account = field_str ''account_id'' ms, oa_AccountCamel = field_str ''accountId'' ms,
                      oa_Project = field_str ''project_id'' ms, oa_ProjectCamel = field_str ''projectId'' ms\<rparr>
           else None))"

subsection \<open>Extras\<close>

text \<open>A range loop over a map is a fold over its list.\<close>

definition cloneExtras :: "(string, string) gomap \<Rightarrow> (string, string) gomap" where
  "cloneExtras m =
     fold (\<lambda>(k, v) out. let s = TrimSpace v in if s \<noteq> '''' then gm_set k s out else out) m []"

definition setExtra :: "(string, string) gomap \<Rightarrow> string \<Rightarrow> string \<Rightarrow> (string, string) gomap" where
  "setExtra m key value =
     (let v = TrimSpace value in if v = '''' then m else gm_set key v m)"

fun firstNonEmpty :: "string list \<Rightarrow> string" where
  "firstNonEmpty [] = ''''"
| "firstNonEmpty (v # vs) = (let s = TrimSpace v in if s \<noteq> '''' then s else firstNonEmpty vs)"

definition mergeOAuthExtras ::
  "(string, string) gomap \<Rightarrow> string \<Rightarrow> string \<Rightarrow> string \<Rightarrow> string \<Rightarrow> (string, string) gomap" where
  "mergeOAuthExtras extras l0 l1 l2 l3 =
     (let out0 = cloneExtras extras;
          out1 = (if gm_get out0 ''account_id'' = None \<and> firstNonEmpty [l0, l1] \<noteq> ''''
                  then setExtra out0 ''account_id'' (firstNonEmpty [l0, l1]) else out0);
          out2 = (if gm_get out1 ''project_id'' = None \<and> firstNonEmpty [l2, l3] \<noteq> ''''
                  then setExtra out1 ''project_id'' (firstNonEmpty [l2, l3]) else out1)
      in out2)"

definition MergeExtras :: "(string, string) gomap \<Rightarrow> (string, string) gomap \<Rightarrow> (string, string) gomap" where
  "MergeExtras cur refreshed =
     (if cur = [] then refreshed
      else fold (\<lambda>(k, v) out. if gm_get out k = None then gm_set k v out else out) cur (cloneExtras refreshed))"

subsection \<open>From material to payload and back\<close>

definition apiKeyPayload :: "string \<Rightarrow> apiPayload" where
  "apiKeyPayload key = \<lparr>ap_Type = ''api_key'', ap_Key = key\<rparr>"

definition oauthMaterialPayload :: "Material \<Rightarrow> oauthPayload" where
  "oauthMaterialPayload m =
     \<lparr>oa_Type = ''oauth'', oa_Access = mat_AccessToken m, oa_Refresh = mat_RefreshToken m,
      oa_Expires = (case mat_ExpiresAt m of None \<Rightarrow> 0 | Some t \<Rightarrow> UnixMilli t),
      oa_Email = mat_Email m, oa_Extras = mat_Extras m,
      oa_Account = '''', oa_AccountCamel = '''', oa_Project = '''', oa_ProjectCamel = ''''\<rparr>"

definition EncryptPayload :: "gcm \<Rightarrow> string option \<Rightarrow> Key \<Rightarrow> json \<Rightarrow> (store_error, string) res" where
  "EncryptPayload G rnd key v =
     (case Encrypt G rnd key (emit v) of Inl e \<Rightarrow> Inl (ErrSeal e) | Inr enc \<Rightarrow> Inr enc)"

definition zero_Material :: "string \<Rightarrow> Kind \<Rightarrow> Material" where
  "zero_Material profile kind =
     \<lparr>mat_Profile = profile, mat_Kind = kind, mat_APIKey = '''', mat_AccessToken = '''', mat_RefreshToken = '''',
      mat_ExpiresAt = None, mat_Email = '''', mat_Extras = []\<rparr>"

definition MaterialFromDecrypted :: "string \<Rightarrow> Kind \<Rightarrow> string \<Rightarrow> (store_error, Material) res" where
  "MaterialFromDecrypted profile kind raw =
     (if kind = KindAPIKey then
        (case api_of_json raw of
           None \<Rightarrow> Inl ErrPayload
         | Some p \<Rightarrow> Inr ((zero_Material profile kind)\<lparr>mat_APIKey := ap_Key p\<rparr>))
      else if kind = KindOAuth then
        (case oauth_of_json raw of
           None \<Rightarrow> Inl ErrPayload
         | Some p \<Rightarrow>
             Inr ((zero_Material profile kind)
               \<lparr>mat_AccessToken := oa_Access p, mat_RefreshToken := oa_Refresh p,
                mat_ExpiresAt := (if oa_Expires p > 0 then Some (from_UnixMilli (oa_Expires p)) else None),
                mat_Email := oa_Email p,
                mat_Extras := mergeOAuthExtras (oa_Extras p) (oa_Account p) (oa_AccountCamel p)
                  (oa_Project p) (oa_ProjectCamel p)\<rparr>))
      else Inl (ErrUnknownKind kind))"

subsection \<open>Reading back what was written\<close>

lemma field_vals_append: "field_vals name (xs @ ys) = field_vals name xs @ field_vals name ys"
  by (simp add: field_vals_def)

lemma field_vals_omit:
  "field_vals name (members_utf8 (omit_str n s)) = (if field_match name (to_utf8 n) \<and> s \<noteq> '''' then [JStr (to_utf8 s)] else [])"
  by (simp add: omit_str_def field_vals_Cons)

lemma members_ok_append [simp]: "members_ok (xs @ ys) \<longleftrightarrow> members_ok xs \<and> members_ok ys"
  by (induction xs) auto

lemma members_ok_strs: "members_ok (map (\<lambda>(k, v). (k, JStr v)) m)"
  by (induction m) auto

lemma json_strmap_ok: "json_ok (json_strmap m)"
  by (simp add: json_strmap_def members_ok_strs)

lemma omit_str_ok: "members_ok (omit_str n s)"
  by (simp add: omit_str_def)

lemma json_oauth_ok: "json_ok (json_oauth p)"
  by (simp add: json_oauth_def omit_str_ok json_strmap_ok num_ok_show_int)

lemma fold_gm_set_distinct:
  "distinct (map fst ms) \<Longrightarrow> set (gm_keys acc) \<inter> fst ` set ms = {} \<Longrightarrow>
     fold (\<lambda>(k, v) m. gm_set k v m) ms acc = acc @ ms"
proof (induction ms arbitrary: acc)
  case (Cons e ms)
  obtain k v where e: "e = (k, v)" by (cases e)
  have "gm_set k v acc = acc @ [(k, v)]"
    using Cons.prems(2) by (intro gm_set_new) (auto simp: gm_get_None e)
  with Cons.IH [of "acc @ [(k, v)]"] Cons.prems show ?case
    by (auto simp: e gm_keys_def)
qed simp

definition sort_extras :: "(string, string) gomap \<Rightarrow> (string, string) gomap" where
  "sort_extras m = sort_key fst m"

lemma sort_extras_wf [simp]: "gm_wf (sort_extras m) = gm_wf m"
proof -
  have "mset (map fst (sort_key fst m)) = mset (map fst m)" by (simp only: mset_map mset_sort)
  then show ?thesis
    unfolding gm_wf_def sort_extras_def by (metis mset_eq_imp_distinct_iff)
qed

text \<open>A map of strings as the decoder gives it back.\<close>

definition utf8_extras :: "(string, string) gomap \<Rightarrow> (string, string) gomap" where
  "utf8_extras m = fold (\<lambda>(k, v) out. gm_set (to_utf8 k) (to_utf8 v) out) (sort_extras m) []"

lemma fold_strmap_map:
  "fold (\<lambda>(k, v) m. if str_typed v then gm_set k (set_str v []) m else m) (map (\<lambda>(k, v). (to_utf8 k, JStr (to_utf8 v))) ms) acc =
     fold (\<lambda>(k, v) m. gm_set (to_utf8 k) (to_utf8 v) m) ms acc"
  by (induction ms arbitrary: acc) (auto simp: str_typed_def set_str_def)

lemma json_utf8_strmap: "json_utf8 (json_strmap m) = JObj (map (\<lambda>(k, v). (to_utf8 k, JStr (to_utf8 v))) (sort_extras m))"
  by (simp add: json_strmap_def members_utf8_map sort_extras_def case_prod_beta o_def)

lemma set_strmap_json: "set_strmap (json_utf8 (json_strmap m)) [] = utf8_extras m"
  by (simp add: set_strmap_def json_utf8_strmap fold_strmap_map utf8_extras_def)

lemma utf8_extras_ok:
  assumes "gm_wf m" "list_all (\<lambda>(k, v). utf8_ok k \<and> utf8_ok v) m"
  shows "utf8_extras m = sort_extras m"
proof -
  have "fold (\<lambda>(k, v). gm_set (to_utf8 k) (to_utf8 v)) ms acc = fold (\<lambda>(k, v). gm_set k v) ms acc"
    if "list_all (\<lambda>(k, v). utf8_ok k \<and> utf8_ok v) ms" for ms acc
    using that by (induction ms arbitrary: acc) (auto simp: to_utf8_ok)
  moreover have "list_all (\<lambda>(k, v). utf8_ok k \<and> utf8_ok v) (sort_extras m)"
    using assms(2) by (simp add: sort_extras_def list_all_iff)
  moreover have "fold (\<lambda>(k, v) m. gm_set k v m) (sort_extras m) [] = sort_extras m"
    using fold_gm_set_distinct [of "sort_extras m" "[]"] sort_extras_wf [of m] assms(1) by (simp add: gm_wf_def)
  ultimately show ?thesis by (simp add: utf8_extras_def)
qed

lemma utf8_extras_wf: "gm_wf (utf8_extras m)"
proof -
  have "gm_wf acc \<Longrightarrow> gm_wf (fold (\<lambda>(k, v). gm_set (to_utf8 k) (to_utf8 v)) ms acc)" for ms acc
    by (induction ms arbitrary: acc) auto
  then show ?thesis by (simp add: utf8_extras_def)
qed

lemma strmap_typed_json: "strmap_typed (json_utf8 (json_strmap m))"
  by (auto simp: strmap_typed_def json_utf8_strmap list_all_iff str_typed_def)

lemma folded_names:
  "json_fold ''type'' = ''TYPE''" "json_fold ''key'' = ''KEY''" "json_fold ''access'' = ''ACCESS''"
  "json_fold ''refresh'' = ''REFRESH''" "json_fold ''expires'' = ''EXPIRES''" "json_fold ''email'' = ''EMAIL''"
  "json_fold ''extras'' = ''EXTRAS''" "json_fold ''account_id'' = ''ACCOUNT_ID''"
  "json_fold ''accountId'' = ''ACCOUNTID''" "json_fold ''project_id'' = ''PROJECT_ID''"
  "json_fold ''projectId'' = ''PROJECTID''"
  by (simp_all add: bytes_def char_of_def bit_Suc_0_iff char_upper_def)

lemmas field_matches = field_match_def folded_names

text \<open>The names of the members are ASCII.\<close>

lemma utf8_names:
  "to_utf8 ''type'' = ''type''" "to_utf8 ''key'' = ''key''" "to_utf8 ''access'' = ''access''"
  "to_utf8 ''refresh'' = ''refresh''" "to_utf8 ''expires'' = ''expires''" "to_utf8 ''email'' = ''email''"
  "to_utf8 ''extras'' = ''extras''" "to_utf8 ''account_id'' = ''account_id''"
  "to_utf8 ''accountId'' = ''accountId''" "to_utf8 ''project_id'' = ''project_id''"
  "to_utf8 ''projectId'' = ''projectId''"
  by (simp_all add: to_utf8_ascii)

lemma api_of_json_emit:
  "api_of_json (emit (json_api p)) = Some \<lparr>ap_Type = to_utf8 (ap_Type p), ap_Key = to_utf8 (ap_Key p)\<rparr>"
proof -
  have "members_ok [(''type'', JStr (ap_Type p)), (''key'', JStr (ap_Key p))]" by simp
  then show ?thesis
    by (simp add: api_of_json_def json_api_def struct_members_emit field_vals_Cons field_matches utf8_names
        field_str_def set_str_def str_typed_def del: emit.simps json_fold.simps to_utf8.simps)
qed

lemma oauth_members:
  assumes "struct_members (emit (json_oauth p)) = Some ms"
  shows "field_vals ''type'' ms = [JStr (to_utf8 (oa_Type p))]" "field_vals ''access'' ms = [JStr (to_utf8 (oa_Access p))]"
    "field_vals ''refresh'' ms = [JStr (to_utf8 (oa_Refresh p))]" "field_vals ''expires'' ms = [JNum (show_int (oa_Expires p))]"
    "field_vals ''email'' ms = (if oa_Email p = '''' then [] else [JStr (to_utf8 (oa_Email p))])"
    "field_vals ''extras'' ms = (if oa_Extras p = [] then [] else [json_utf8 (json_strmap (oa_Extras p))])"
    "field_vals ''account_id'' ms = (if oa_Account p = '''' then [] else [JStr (to_utf8 (oa_Account p))])"
    "field_vals ''accountId'' ms = (if oa_AccountCamel p = '''' then [] else [JStr (to_utf8 (oa_AccountCamel p))])"
    "field_vals ''project_id'' ms = (if oa_Project p = '''' then [] else [JStr (to_utf8 (oa_Project p))])"
    "field_vals ''projectId'' ms = (if oa_ProjectCamel p = '''' then [] else [JStr (to_utf8 (oa_ProjectCamel p))])"
  using assms json_oauth_ok [of p] unfolding json_oauth_def
  by (auto simp: struct_members_emit field_vals_append field_vals_Cons field_vals_omit field_matches utf8_names
      simp del: emit.simps json_fold.simps to_utf8.simps)

text \<open>A payload as the decoder gives it back.\<close>

definition utf8_oauth :: "oauthPayload \<Rightarrow> oauthPayload" where
  "utf8_oauth p =
     \<lparr>oa_Type = to_utf8 (oa_Type p), oa_Access = to_utf8 (oa_Access p), oa_Refresh = to_utf8 (oa_Refresh p),
      oa_Expires = oa_Expires p, oa_Email = to_utf8 (oa_Email p), oa_Extras = utf8_extras (oa_Extras p),
      oa_Account = to_utf8 (oa_Account p), oa_AccountCamel = to_utf8 (oa_AccountCamel p),
      oa_Project = to_utf8 (oa_Project p), oa_ProjectCamel = to_utf8 (oa_ProjectCamel p)\<rparr>"

lemma oauth_of_json_emit:
  assumes "- (2 ^ 63) \<le> oa_Expires p" "oa_Expires p < 2 ^ 63"
  shows "oauth_of_json (emit (json_oauth p)) = Some (utf8_oauth p)"
proof -
  obtain ms where ms: "struct_members (emit (json_oauth p)) = Some ms"
    using json_oauth_ok [of p] unfolding json_oauth_def by (simp add: struct_members_emit del: emit.simps)
  note v = oauth_members [OF ms]
  have typed: "list_all (\<lambda>n. list_all str_typed (field_vals n ms)) oauth_str_fields"
    "list_all int_typed (field_vals ''expires'' ms)" "list_all strmap_typed (field_vals ''extras'' ms)"
    using assms by (simp_all add: oauth_str_fields_def v str_typed_def int_typed_def ParseInt_show_int strmap_typed_json)
  have "field_int ''expires'' ms = oa_Expires p"
    using assms by (simp add: field_int_def v set_int_def ParseInt_show_int)
  moreover have "field_strmap ''extras'' ms = utf8_extras (oa_Extras p)"
    by (simp add: field_strmap_def v set_strmap_json) (simp add: utf8_extras_def sort_extras_def)
  ultimately show ?thesis
    using typed by (simp add: oauth_of_json_def ms field_str_def v set_str_def utf8_oauth_def)
qed

lemma cloneExtras_get:
  assumes "gm_wf m"
  shows "gm_get (cloneExtras m) k =
    (case gm_get m k of None \<Rightarrow> None | Some v \<Rightarrow> if TrimSpace v = '''' then None else Some (TrimSpace v))"
proof -
  have "gm_get (fold (\<lambda>(k, v) out. let s = TrimSpace v in if s \<noteq> '''' then gm_set k s out else out) m acc) k =
    (case gm_get m k of None \<Rightarrow> gm_get acc k
     | Some v \<Rightarrow> if TrimSpace v = '''' then gm_get acc k else Some (TrimSpace v))" for acc
    using assms
  proof (induction m arbitrary: acc)
    case (Cons e m)
    then show ?case
      by (cases e) (auto simp: Let_def gm_get_keys split: option.split)
  qed simp
  then show ?thesis by (simp add: cloneExtras_def split: option.split)
qed

lemma cloneExtras_wf: "gm_wf (cloneExtras m)"
proof -
  have "gm_wf acc \<Longrightarrow> gm_wf (fold (\<lambda>(k, v) out. let s = TrimSpace v in if s \<noteq> '''' then gm_set k s out else out) m acc)" for acc
    by (induction m arbitrary: acc) (auto simp: Let_def split: prod.split)
  then show ?thesis by (simp add: cloneExtras_def)
qed

lemma mergeOAuthExtras_none [simp]: "mergeOAuthExtras m '''' '''' '''' '''' = cloneExtras m"
  by (simp add: mergeOAuthExtras_def)

text \<open>What the store gives back for material that was put: strings as UTF-8, times to the millisecond, extras trimmed.\<close>

definition stored_oauth :: "string \<Rightarrow> Material \<Rightarrow> Material" where
  "stored_oauth profile m =
     (zero_Material profile KindOAuth)
       \<lparr>mat_AccessToken := to_utf8 (mat_AccessToken m), mat_RefreshToken := to_utf8 (mat_RefreshToken m),
        mat_ExpiresAt := (case mat_ExpiresAt m of None \<Rightarrow> None
          | Some t \<Rightarrow> if UnixMilli t > 0 then Some (from_UnixMilli (UnixMilli t)) else None),
        mat_Email := to_utf8 (mat_Email m), mat_Extras := cloneExtras (utf8_extras (mat_Extras m))\<rparr>"

definition stored_api :: "string \<Rightarrow> string \<Rightarrow> Material" where
  "stored_api profile key = (zero_Material profile KindAPIKey)\<lparr>mat_APIKey := to_utf8 key\<rparr>"

text \<open>Material a program can hold: an expiry that fits in 64 bits of milliseconds, a real map of extras.\<close>

definition material_ok :: "Material \<Rightarrow> bool" where
  "material_ok m \<longleftrightarrow> gm_wf (mat_Extras m) \<and>
     (case mat_ExpiresAt m of None \<Rightarrow> True | Some t \<Rightarrow> - (2 ^ 63) \<le> UnixMilli t \<and> UnixMilli t < 2 ^ 63)"

lemma MaterialFromDecrypted_api:
  "MaterialFromDecrypted profile KindAPIKey (emit (json_api (apiKeyPayload key))) = Inr (stored_api profile key)"
  by (simp add: MaterialFromDecrypted_def api_of_json_emit apiKeyPayload_def stored_api_def)

lemma MaterialFromDecrypted_oauth:
  assumes "material_ok m"
  shows "MaterialFromDecrypted profile KindOAuth (emit (json_oauth (oauthMaterialPayload m))) = Inr (stored_oauth profile m)"
proof -
  have "oauth_of_json (emit (json_oauth (oauthMaterialPayload m))) =
    Some (utf8_oauth (oauthMaterialPayload m))"
    using assms oauth_of_json_emit [of "oauthMaterialPayload m"]
    by (auto simp: oauthMaterialPayload_def material_ok_def split: option.splits)
  then show ?thesis
    by (simp add: MaterialFromDecrypted_def oauthMaterialPayload_def stored_oauth_def utf8_oauth_def KindAPIKey_def KindOAuth_def
        split: option.split)
qed

text \<open>Material that was read is UTF-8.\<close>

definition extras_utf8 :: "(string, string) gomap \<Rightarrow> bool" where
  "extras_utf8 m = list_all (\<lambda>(k, v). utf8_ok k \<and> utf8_ok v) m"

definition material_utf8 :: "Material \<Rightarrow> bool" where
  "material_utf8 m \<longleftrightarrow> utf8_ok (mat_APIKey m) \<and> utf8_ok (mat_AccessToken m) \<and> utf8_ok (mat_RefreshToken m) \<and>
     utf8_ok (mat_Email m) \<and> extras_utf8 (mat_Extras m)"

lemma extras_utf8_set: "extras_utf8 m \<Longrightarrow> utf8_ok k \<Longrightarrow> utf8_ok v \<Longrightarrow> extras_utf8 (gm_set k v m)"
  by (induction m) (auto simp: extras_utf8_def gm_set_def)

lemma extras_utf8_Cons: "extras_utf8 ((k, v) # m) \<longleftrightarrow> utf8_ok k \<and> utf8_ok v \<and> extras_utf8 m"
  by (simp add: extras_utf8_def)

lemma json_utf8_members:
  assumes "struct_members raw = Some ms"
  shows "\<forall>(k, v) \<in> set ms. utf8_ok k \<and> json_utf8 v = v"
proof -
  have "members_utf8 ms = ms"
    using assms json_parse_utf8 [of raw] by (auto simp: struct_members_def split: option.splits json.splits)
  then show ?thesis by (induction ms) (auto simp: to_utf8_iff)
qed

lemma json_utf8_field_vals: "struct_members raw = Some ms \<Longrightarrow> v \<in> set (field_vals name ms) \<Longrightarrow> json_utf8 v = v"
  by (auto simp: field_vals_def dest!: json_utf8_members)

lemma utf8_ok_field_str: 
  assumes "struct_members raw = Some ms"
  shows "utf8_ok (field_str name ms)"
proof -
  have "\<forall>v \<in> set vs. json_utf8 v = v \<Longrightarrow> utf8_ok cur \<Longrightarrow> utf8_ok (fold set_str vs cur)" for vs cur
    by (induction vs arbitrary: cur) (auto simp: set_str_def to_utf8_iff split: json.split)
  then show ?thesis
    using json_utf8_field_vals [OF assms] by (simp add: field_str_def)
qed

lemma extras_utf8_field_strmap:
  assumes "struct_members raw = Some ms"
  shows "extras_utf8 (field_strmap name ms)"
proof -
  have m: "extras_utf8 (fold (\<lambda>(k, v) m. if str_typed v then gm_set k (set_str v []) m else m) ms acc)"
    if "members_utf8 ms = ms" "extras_utf8 acc" for ms acc
    using that
  proof (induction ms arbitrary: acc)
    case (Cons e ms)
    obtain k v where e: "e = (k, v)" by (cases e)
    have "utf8_ok (set_str v [])" using Cons.prems(1) by (auto simp: e set_str_def to_utf8_iff split: json.split)
    with Cons e show ?case by (auto simp: extras_utf8_set to_utf8_iff)
  qed simp
  have "\<forall>v \<in> set vs. json_utf8 v = v \<Longrightarrow> extras_utf8 cur \<Longrightarrow> extras_utf8 (fold set_strmap vs cur)" for vs cur
  proof (induction vs arbitrary: cur)
    case (Cons v vs)
    then have "extras_utf8 (set_strmap v cur)"
      using m by (auto simp: set_strmap_def extras_utf8_def split: json.split)
    with Cons show ?case by simp
  qed simp
  then show ?thesis
    using json_utf8_field_vals [OF assms] by (simp add: field_strmap_def extras_utf8_def)
qed

lemma extras_utf8_cloneExtras: "extras_utf8 m \<Longrightarrow> extras_utf8 (cloneExtras m)"
proof -
  have "extras_utf8 m \<Longrightarrow> extras_utf8 acc \<Longrightarrow>
    extras_utf8 (fold (\<lambda>(k, v) out. let s = TrimSpace v in if s \<noteq> '''' then gm_set k s out else out) m acc)" for acc
  proof (induction m arbitrary: acc)
    case (Cons e m)
    then show ?case
      by (cases e) (auto simp: extras_utf8_def [of "_ # _"] extras_utf8_def [of m, symmetric] Let_def extras_utf8_set utf8_ok_TrimSpace)
  qed simp
  then show "extras_utf8 m \<Longrightarrow> ?thesis" by (simp add: cloneExtras_def extras_utf8_def [of "[]"])
qed

lemma extras_utf8_setExtra: "extras_utf8 m \<Longrightarrow> ascii k \<Longrightarrow> utf8_ok v \<Longrightarrow> extras_utf8 (setExtra m k v)"
  by (simp add: setExtra_def Let_def extras_utf8_set utf8_ok_TrimSpace utf8_ok_ascii)

lemma utf8_ok_firstNonEmpty: "list_all utf8_ok vs \<Longrightarrow> utf8_ok (firstNonEmpty vs)"
  by (induction vs) (auto simp: Let_def utf8_ok_TrimSpace)

lemma extras_utf8_mergeOAuthExtras:
  "extras_utf8 m \<Longrightarrow> list_all utf8_ok [a, b, c, d] \<Longrightarrow> extras_utf8 (mergeOAuthExtras m a b c d)"
  unfolding mergeOAuthExtras_def Let_def
  by (auto simp: extras_utf8_cloneExtras simp del: firstNonEmpty.simps
      intro!: extras_utf8_setExtra utf8_ok_firstNonEmpty)

lemma MaterialFromDecrypted_utf8:
  assumes "MaterialFromDecrypted profile kind raw = Inr m"
  shows "material_utf8 m"
proof -
  have "extras_utf8 []" by (simp add: extras_utf8_def)
  then show ?thesis
    using assms
    by (auto simp: MaterialFromDecrypted_def api_of_json_def oauth_of_json_def material_utf8_def zero_Material_def utf8_ok_field_str
        split: if_splits option.splits intro!: extras_utf8_mergeOAuthExtras extras_utf8_field_strmap)
qed

lemma mergeOAuthExtras_wf: "gm_wf (mergeOAuthExtras m a b c d)"
  by (simp add: mergeOAuthExtras_def setExtra_def Let_def cloneExtras_wf)

lemma MaterialFromDecrypted_wf: "MaterialFromDecrypted profile kind raw = Inr m \<Longrightarrow> gm_wf (mat_Extras m)"
  by (auto simp: MaterialFromDecrypted_def zero_Material_def mergeOAuthExtras_wf split: if_splits option.splits)

lemmas MaterialFromDecrypted_read = conjI [OF MaterialFromDecrypted_wf MaterialFromDecrypted_utf8]

text \<open>Such material is stored as it is, up to the extras, which are trimmed, and the milliseconds.\<close>

lemma stored_utf8:
  assumes "material_utf8 m"
  shows "stored_api p (mat_APIKey m) = (zero_Material p KindAPIKey)\<lparr>mat_APIKey := mat_APIKey m\<rparr>"
    "mat_AccessToken (stored_oauth p m) = mat_AccessToken m" "mat_RefreshToken (stored_oauth p m) = mat_RefreshToken m"
    "mat_Email (stored_oauth p m) = mat_Email m"
    "gm_wf (mat_Extras m) \<Longrightarrow> mat_Extras (stored_oauth p m) = cloneExtras (sort_extras (mat_Extras m))"
  using assms utf8_extras_ok [of "mat_Extras m"]
  by (simp_all add: stored_api_def stored_oauth_def material_utf8_def to_utf8_ok extras_utf8_def)

text \<open>Merging keeps what the refreshed credential says and fills in what it leaves out.\<close>

lemma MergeExtras_get:
  assumes "gm_wf cur" "gm_wf refreshed" "cur \<noteq> []"
  shows "gm_get (MergeExtras cur refreshed) k =
    (case gm_get (cloneExtras refreshed) k of Some v \<Rightarrow> Some v | None \<Rightarrow> gm_get cur k)"
proof -
  have "gm_get (fold (\<lambda>(k, v) out. if gm_get out k = None then gm_set k v out else out) cur acc) k =
    (case gm_get acc k of Some v \<Rightarrow> Some v | None \<Rightarrow> gm_get cur k)" for acc
    using assms(1)
  proof (induction cur arbitrary: acc)
    case (Cons e cur)
    then show ?case
      by (cases e) (auto simp: gm_get_keys split: option.split)
  qed (simp split: option.split)
  then show ?thesis using assms(3) by (simp add: MergeExtras_def)
qed

end
