(* ===== verification/Store.thy ===== *)
theory Store
  imports StorePayload
begin

section \<open>What the credential stores share\<close>

text \<open>
  The two implementations of the interface \<^verbatim>\<open>Store\<close> of \<^verbatim>\<open>credential/store/types.go\<close> are in the theories \<^verbatim>\<open>StoreMemory\<close> and
  \<^verbatim>\<open>StoreSqlite\<close>; the contract they keep is the locale of theory \<^verbatim>\<open>StoreHistory\<close>.
  An operation takes the readings of the clock, the random nonce and the outcome of each database
  statement from a \<open>store_env\<close>; \<open>env_good\<close> is one in which nothing fails.
\<close>

record store_env =
  st_now :: instant
  st_now2 :: instant
  st_nonce :: "string option"
  st_ok1 :: bool
  st_ok2 :: bool
  st_bump_ok :: bool

definition env_good :: "store_env \<Rightarrow> bool" where
  "env_good e \<longleftrightarrow> (case st_nonce e of None \<Rightarrow> False | Some n \<Rightarrow> length n = 12) \<and> st_ok1 e \<and> st_ok2 e \<and> st_bump_ok e"

text \<open>
  The state a client can observe: for a profile its newest credential, as an id, the material and the
  cause for which it is disabled (empty when it is not).
\<close>

type_synonym vault = "string \<Rightarrow> (int \<times> Material \<times> string) option"

definition vault_get :: "vault \<Rightarrow> string \<Rightarrow> (store_error, Material) res" where
  "vault_get v p =
     (case v p of
        None \<Rightarrow> Inl (ErrProfileNotFound p)
      | Some (i, m, cause) \<Rightarrow> (if cause \<noteq> '''' then Inl (ErrDisabled i cause) else Inr m))"

end
