(* ===== verification/StoreMemory.thy ===== *)
theory StoreMemory
  imports Store
begin

section \<open>The credential store in memory\<close>

text \<open>
  \<^verbatim>\<open>credential/store/memory.go\<close>. Each operation holds the mutex while it touches the state, so it is one
  step. Ids and generations are \<^verbatim>\<open>int64\<close> counters that start at 0 and 1 and grow by one per change;
  they are plain integers here.
\<close>

record row =
  row_id :: int
  row_profile :: string
  row_kind :: Kind
  row_identity :: string
  row_disabledCause :: string
  row_createdAt :: int
  row_updatedAt :: int
  row_dataEnc :: string

record Memory =
  mem_key :: Key
  mem_rows :: "(int, row) gomap"
  mem_byProf :: "(string, int) gomap"
  mem_nextID :: int
  mem_gen :: int
  mem_genAt :: int

definition NewMemory :: "instant \<Rightarrow> Key \<Rightarrow> Memory" where
  "NewMemory now key =
     \<lparr>mem_key = key, mem_rows = [], mem_byProf = [], mem_nextID = 0, mem_gen = 1, mem_genAt = UnixMilli now\<rparr>"

definition Memory_BumpGeneration :: "store_env \<Rightarrow> Memory \<Rightarrow> Memory" where
  "Memory_BumpGeneration e s = s\<lparr>mem_gen := mem_gen s + 1, mem_genAt := UnixMilli (st_now e)\<rparr>"

definition Memory_SnapshotMeta :: "store_env \<Rightarrow> Memory \<Rightarrow> (store_error, SnapshotMeta) res" where
  "Memory_SnapshotMeta e s =
     Inr \<lparr>sm_Generation = mem_gen s, sm_GeneratedAt = mem_genAt s, sm_ServerNowMs = UnixMilli (st_now e)\<rparr>"

definition decryptRow :: "gcm \<Rightarrow> Memory \<Rightarrow> row \<Rightarrow> (store_error, Material) res" where
  "decryptRow G s r =
     (case Decrypt G (mem_key s) (row_dataEnc r) of
        Inl err \<Rightarrow> Inl (ErrSeal err)
      | Inr raw \<Rightarrow> MaterialFromDecrypted (row_profile r) (row_kind r) raw)"

text \<open>The entry of \<open>byProf\<close> always points to a row; the zero row is what a missing one would read as.\<close>

definition zero_row :: row where
  "zero_row = \<lparr>row_id = 0, row_profile = '''', row_kind = '''', row_identity = '''', row_disabledCause = '''',
     row_createdAt = 0, row_updatedAt = 0, row_dataEnc = ''''\<rparr>"

definition Memory_Get :: "gcm \<Rightarrow> string \<Rightarrow> Memory \<Rightarrow> (store_error, Material) res" where
  "Memory_Get G profile s =
     (case gm_get (mem_byProf s) profile of
        None \<Rightarrow> Inl (ErrProfileNotFound profile)
      | Some i \<Rightarrow>
          (let r = gm_getd zero_row (mem_rows s) i in
           if row_disabledCause r \<noteq> '''' then Inl (ErrDisabled i (row_disabledCause r))
           else decryptRow G s r))"

definition Memory_put :: "store_env \<Rightarrow> string \<Rightarrow> Kind \<Rightarrow> string \<Rightarrow> string \<Rightarrow> Memory \<Rightarrow> (store_error, int) res \<times> Memory" where
  "Memory_put e profile kind identity enc s =
     (let now = UnixMilli (st_now e);
          i = mem_nextID s + 1
      in (Inr i,
          s\<lparr>mem_nextID := i,
            mem_rows := gm_set i
              \<lparr>row_id = i, row_profile = profile, row_kind = kind, row_identity = identity, row_disabledCause = '''',
               row_createdAt = now, row_updatedAt = now, row_dataEnc = enc\<rparr> (mem_rows s),
            mem_byProf := gm_set profile i (mem_byProf s),
            mem_gen := mem_gen s + 1, mem_genAt := now\<rparr>))"

definition Memory_PutAPIKey :: "gcm \<Rightarrow> store_env \<Rightarrow> string \<Rightarrow> string \<Rightarrow> Memory \<Rightarrow> (store_error, int) res \<times> Memory" where
  "Memory_PutAPIKey G e profile key s =
     (case EncryptPayload G (st_nonce e) (mem_key s) (json_api (apiKeyPayload key)) of
        Inl err \<Rightarrow> (Inl err, s)
      | Inr enc \<Rightarrow> Memory_put e profile KindAPIKey '''' enc s)"

definition Memory_PutOAuth :: "gcm \<Rightarrow> store_env \<Rightarrow> string \<Rightarrow> Material \<Rightarrow> Memory \<Rightarrow> (store_error, int) res \<times> Memory" where
  "Memory_PutOAuth G e profile m s =
     (case EncryptPayload G (st_nonce e) (mem_key s) (json_oauth (oauthMaterialPayload m)) of
        Inl err \<Rightarrow> (Inl err, s)
      | Inr enc \<Rightarrow> Memory_put e profile KindOAuth (mat_Email m) enc s)"

definition Memory_summary :: "row \<Rightarrow> CredentialSummary" where
  "Memory_summary r =
     \<lparr>cs_ID = row_id r, cs_Profile = row_profile r, cs_Kind = row_kind r,
      cs_Status = (if row_disabledCause r \<noteq> '''' then ''disabled'' else ''active''),
      cs_IdentityKey = (if row_identity r \<noteq> '''' then Some (row_identity r) else None),
      cs_DisabledCause = (if row_disabledCause r \<noteq> '''' then Some (row_disabledCause r) else None),
      cs_CreatedAt = row_createdAt r, cs_UpdatedAt = row_updatedAt r\<rparr>"

definition Memory_ListSummaries :: "Memory \<Rightarrow> (store_error, CredentialSummary list option) res" where
  "Memory_ListSummaries s = Inr (Some (map (\<lambda>(i, r). Memory_summary r) (mem_rows s)))"

definition Memory_GetSummary :: "int \<Rightarrow> Memory \<Rightarrow> (store_error, CredentialSummary) res" where
  "Memory_GetSummary i s =
     (case gm_get (mem_rows s) i of None \<Rightarrow> Inl (ErrCredentialNotFound i) | Some r \<Rightarrow> Inr (Memory_summary r))"

definition Memory_UpdateOAuth :: "gcm \<Rightarrow> store_env \<Rightarrow> string \<Rightarrow> Material \<Rightarrow> Memory \<Rightarrow> (store_error, unit) res \<times> Memory" where
  "Memory_UpdateOAuth G e profile m s =
     (case gm_get (mem_byProf s) profile of
        None \<Rightarrow> (Inl (ErrOAuthNotFound profile), s)
      | Some i \<Rightarrow>
          (let r = gm_getd zero_row (mem_rows s) i in
           if row_kind r \<noteq> KindOAuth then (Inl (ErrNotOAuth profile), s)
           else case EncryptPayload G (st_nonce e) (mem_key s) (json_oauth (oauthMaterialPayload m)) of
             Inl err \<Rightarrow> (Inl err, s)
           | Inr enc \<Rightarrow>
               (let now = UnixMilli (st_now e) in
                (Inr (),
                 s\<lparr>mem_rows := gm_set i
                     (r\<lparr>row_dataEnc := enc, row_updatedAt := now,
                        row_identity := (if mat_Email m \<noteq> '''' then mat_Email m else row_identity r),
                        row_disabledCause := ''''\<rparr>) (mem_rows s),
                   mem_gen := mem_gen s + 1, mem_genAt := now\<rparr>))))"

definition Memory_Disable :: "store_env \<Rightarrow> int \<Rightarrow> string \<Rightarrow> Memory \<Rightarrow> (store_error, unit) res \<times> Memory" where
  "Memory_Disable e i cause s =
     (case gm_get (mem_rows s) i of
        None \<Rightarrow> (Inl (ErrCredentialNotFound i), s)
      | Some r \<Rightarrow>
          (let now = UnixMilli (st_now e) in
           (Inr (),
            s\<lparr>mem_rows := gm_set i (r\<lparr>row_disabledCause := cause, row_updatedAt := now\<rparr>) (mem_rows s),
              mem_gen := mem_gen s + 1, mem_genAt := now\<rparr>)))"

subsection \<open>The invariant of the store\<close>

definition Memory_cur :: "gcm \<Rightarrow> Memory \<Rightarrow> vault" where
  "Memory_cur G s p =
     (case gm_get (mem_byProf s) p of
        None \<Rightarrow> None
      | Some i \<Rightarrow>
          (case gm_get (mem_rows s) i of
             None \<Rightarrow> None
           | Some r \<Rightarrow> Some (i, projr (decryptRow G s r), row_disabledCause r)))"

definition row_ok :: "gcm \<Rightarrow> Key \<Rightarrow> int \<Rightarrow> row \<Rightarrow> bool" where
  "row_ok G k i r \<longleftrightarrow> row_id r = i \<and>
     (\<exists>raw m. Decrypt G k (row_dataEnc r) = Inr raw \<and> MaterialFromDecrypted (row_profile r) (row_kind r) raw = Inr m)"

definition Memory_inv :: "gcm \<Rightarrow> Memory \<Rightarrow> bool" where
  "Memory_inv G s \<longleftrightarrow> gcm_inverse G \<and> length (mem_key s) = 32 \<and> gm_wf (mem_rows s) \<and> 0 \<le> mem_nextID s \<and>
     (\<forall>i r. gm_get (mem_rows s) i = Some r \<longrightarrow> row_ok G (mem_key s) i r \<and> 0 < i \<and> i \<le> mem_nextID s) \<and>
     (\<forall>p i. gm_get (mem_byProf s) p = Some i \<longrightarrow> (\<exists>r. gm_get (mem_rows s) i = Some r \<and> row_profile r = p))"

lemma MaterialFromDecrypted_kind:
  "MaterialFromDecrypted p k raw = Inr m \<Longrightarrow> mat_Kind m = k \<and> mat_Profile m = p"
  by (auto simp: MaterialFromDecrypted_def zero_Material_def split: if_splits option.splits)

lemma decryptRow_ok:
  assumes "row_ok G (mem_key s) i r"
  obtains m where "decryptRow G s r = Inr m" "mat_Kind m = row_kind r" "mat_Profile m = row_profile r"
  using assms MaterialFromDecrypted_kind by (fastforce simp: row_ok_def decryptRow_def)

lemma EncryptPayload_good:
  assumes "length key = 32" "env_good e"
  shows "\<exists>enc n. st_nonce e = Some n \<and> length n = 12 \<and> Encrypt G (st_nonce e) key (emit v) = Inr enc \<and>
    EncryptPayload G (st_nonce e) key v = Inr enc"
  using assms by (auto simp: env_good_def EncryptPayload_def Encrypt_def split: option.splits)

lemma Encrypt_payload_reads:
  assumes "gcm_inverse G" "length key = 32" "env_good e" "EncryptPayload G (st_nonce e) key v = Inr enc"
  shows "Decrypt G key enc = Inr (emit v)"
  using EncryptPayload_good [OF assms(2,3), of G v] assms(1,4) Decrypt_Encrypt by auto

lemma Memory_put_ok:
  assumes "Memory_inv G s" "Decrypt G (mem_key s) enc = Inr raw" "MaterialFromDecrypted p kind raw = Inr m"
  shows "\<exists>i s'. Memory_put e p kind identity enc s = (Inr i, s') \<and> Memory_inv G s' \<and>
    Memory_cur G s' = (Memory_cur G s)(p \<mapsto> (i, m, '''')) \<and> mem_gen s' = mem_gen s + 1"
proof -
  let ?i = "mem_nextID s + 1"
  let ?s = "snd (Memory_put e p kind identity enc s)"
  have fresh: "gm_get (mem_rows s) ?i = None"
  proof (rule ccontr)
    assume "gm_get (mem_rows s) ?i \<noteq> None"
    then obtain r where "gm_get (mem_rows s) ?i = Some r" by auto
    with assms(1) have "?i \<le> mem_nextID s" unfolding Memory_inv_def by blast
    then show False by simp
  qed
  have byProf: "gm_get (mem_byProf s) q \<noteq> Some ?i" for q
  proof
    assume "gm_get (mem_byProf s) q = Some ?i"
    with assms(1) have "\<exists>r. gm_get (mem_rows s) ?i = Some r" unfolding Memory_inv_def by blast
    with fresh show False by simp
  qed
  have "Memory_inv G ?s"
    using assms byProf unfolding Memory_inv_def
    by (auto simp: Memory_put_def Let_def row_ok_def) fastforce
  moreover have "Memory_cur G ?s = (Memory_cur G s)(p \<mapsto> (?i, m, ''''))"
    using assms(2,3) byProf
    by (auto simp: Memory_put_def Let_def Memory_cur_def decryptRow_def fun_eq_iff split: option.split)
  ultimately show ?thesis
    by (auto simp: Memory_put_def Let_def)
qed

text \<open>Replacing a row by one of the same id and profile that still decrypts.\<close>

lemma Memory_row_set:
  assumes "Memory_inv G s" "gm_get (mem_rows s) i = Some r" "row_ok G (mem_key s) i r'" "row_profile r' = row_profile r"
  shows "Memory_inv G (s\<lparr>mem_rows := gm_set i r' (mem_rows s), mem_gen := g, mem_genAt := t\<rparr>)"
    "Memory_cur G (s\<lparr>mem_rows := gm_set i r' (mem_rows s), mem_gen := g, mem_genAt := t\<rparr>) =
       (\<lambda>p. if gm_get (mem_byProf s) p = Some i
             then Some (i, projr (decryptRow G s r'), row_disabledCause r') else Memory_cur G s p)"
proof -
  have b: "0 < i" "i \<le> mem_nextID s" using assms(1,2) unfolding Memory_inv_def by blast+
  show "Memory_inv G (s\<lparr>mem_rows := gm_set i r' (mem_rows s), mem_gen := g, mem_genAt := t\<rparr>)"
  proof -
    have "\<forall>j q. gm_get (gm_set i r' (mem_rows s)) j = Some q \<longrightarrow> row_ok G (mem_key s) j q \<and> 0 < j \<and> j \<le> mem_nextID s"
      using assms(1,3) b unfolding Memory_inv_def by auto
    moreover have "\<forall>p j. gm_get (mem_byProf s) p = Some j \<longrightarrow> (\<exists>q. gm_get (gm_set i r' (mem_rows s)) j = Some q \<and> row_profile q = p)"
      using assms(1,2,4) unfolding Memory_inv_def by (metis gm_get_set option.inject)
    ultimately show ?thesis using assms(1) unfolding Memory_inv_def by simp
  qed
  show "Memory_cur G (s\<lparr>mem_rows := gm_set i r' (mem_rows s), mem_gen := g, mem_genAt := t\<rparr>) =
       (\<lambda>p. if gm_get (mem_byProf s) p = Some i
             then Some (i, projr (decryptRow G s r'), row_disabledCause r') else Memory_cur G s p)"
    by (auto simp: Memory_cur_def decryptRow_def fun_eq_iff split: option.split)
qed

end
