(* ===== verification/StoreSqlite.thy ===== *)
theory StoreSqlite
  imports StoreMemory
begin

section \<open>The credential store on sqlite\<close>

text \<open>
  \<^verbatim>\<open>credential/store/sqlite.go\<close> on the tables of \<^verbatim>\<open>credential/store/schema.sql\<close>. A table is the list of
  its rows in insertion order with the counter of \<^verbatim>\<open>AUTOINCREMENT\<close>; each statement is a definition on
  it. The store holds one connection, so statements do not interleave. Whether a statement
  succeeds is an input; ids stay below 2^63. A \<^verbatim>\<open>NULL\<close> column is \<open>None\<close>.
\<close>

record cred_row =
  cr_id :: int
  cr_provider :: string
  cr_type :: Kind
  cr_data :: string
  cr_identity_key :: "string option"
  cr_disabled_cause :: "string option"
  cr_created_at :: int
  cr_updated_at :: int

record SQLite =
  sq_key :: Key
  sq_rows :: "cred_row list"
  sq_seq :: int
  sq_meta :: "(int \<times> int) option"
  sq_versions :: "int list"
  sq_scopes_column :: bool

subsection \<open>Opening\<close>

text \<open>\<open>mg_schema_ok\<close> and the others: which statement of the migration succeeds.\<close>

record migrate_env =
  mg_now :: instant
  mg_schema_ok :: bool
  mg_count_ok :: bool
  mg_insert_ok :: bool
  mg_version_ok :: bool
  mg_alter_ok :: bool
  mg_record_ok :: bool

definition migrateV2 :: "migrate_env \<Rightarrow> SQLite \<Rightarrow> (store_error, unit) res \<times> SQLite" where
  "migrateV2 e s =
     (let ver = (if mg_version_ok e then fold max (sq_versions s) 0 else 0) in
      if ver \<ge> 2 then (Inr (), s)
      else
        (let s1 = (if mg_alter_ok e then s\<lparr>sq_scopes_column := True\<rparr> else s) in
         if mg_record_ok e \<and> 2 \<notin> set (sq_versions s1) then (Inr (), s1\<lparr>sq_versions := sq_versions s1 @ [2]\<rparr>)
         else (Inl ErrStoreDatabase, s1)))"

definition migrate :: "migrate_env \<Rightarrow> SQLite \<Rightarrow> (store_error, unit) res \<times> SQLite" where
  "migrate e s =
     (if \<not> mg_schema_ok e \<or> \<not> mg_count_ok e then (Inl ErrStoreDatabase, s)
      else if sq_meta s = None then
        (if \<not> mg_insert_ok e then (Inl ErrStoreDatabase, s)
         else migrateV2 e (s\<lparr>sq_meta := Some (1, UnixMilli (mg_now e))\<rparr>))
      else migrateV2 e s)"

text \<open>An empty database file; the schema creates \<open>gateway_keys\<close> with its column of scopes.\<close>

definition empty_db :: "Key \<Rightarrow> SQLite" where
  "empty_db key = \<lparr>sq_key = key, sq_rows = [], sq_seq = 0, sq_meta = None, sq_versions = [], sq_scopes_column = True\<rparr>"

definition OpenSQLite :: "bool \<Rightarrow> migrate_env \<Rightarrow> SQLite \<Rightarrow> (store_error, SQLite) res" where
  "OpenSQLite open_ok e file =
     (if \<not> open_ok then Inl ErrStoreDatabase
      else case migrate e file of (Inl err, s) \<Rightarrow> Inl err | (Inr _, s) \<Rightarrow> Inr s)"

subsection \<open>Operations\<close>

definition SQLite_BumpGeneration :: "store_env \<Rightarrow> SQLite \<Rightarrow> (store_error, unit) res \<times> SQLite" where
  "SQLite_BumpGeneration e s =
     (if st_bump_ok e
      then (Inr (), s\<lparr>sq_meta := map_option (\<lambda>(g, t). (g + 1, UnixMilli (st_now2 e))) (sq_meta s)\<rparr>)
      else (Inl ErrStoreDatabase, s))"

definition SQLite_SnapshotMeta :: "store_env \<Rightarrow> SQLite \<Rightarrow> (store_error, SnapshotMeta) res" where
  "SQLite_SnapshotMeta e s =
     (if \<not> st_ok1 e then Inl ErrStoreDatabase
      else case sq_meta s of
        None \<Rightarrow> Inl ErrStoreDatabase
      | Some (g, t) \<Rightarrow> Inr \<lparr>sm_Generation = g, sm_GeneratedAt = t, sm_ServerNowMs = UnixMilli (st_now e)\<rparr>)"

definition decryptData :: "gcm \<Rightarrow> SQLite \<Rightarrow> string \<Rightarrow> (store_error, string) res" where
  "decryptData G s raw =
     (case struct_members raw of
        Some ms \<Rightarrow>
          (if list_all str_typed (field_vals ''type'' ms) \<and> field_str ''type'' ms \<in> {''api_key'', ''oauth''}
           then Inr raw
           else (case Decrypt G (sq_key s) raw of Inl err \<Rightarrow> Inl (ErrSeal err) | Inr p \<Rightarrow> Inr p))
      | None \<Rightarrow> (case Decrypt G (sq_key s) raw of Inl err \<Rightarrow> Inl (ErrSeal err) | Inr p \<Rightarrow> Inr p))"

definition materialFromRow :: "gcm \<Rightarrow> SQLite \<Rightarrow> string \<Rightarrow> Kind \<Rightarrow> string \<Rightarrow> (store_error, Material) res" where
  "materialFromRow G s profile kind dataEnc =
     res_bind (decryptData G s dataEnc) (MaterialFromDecrypted profile kind)"

text \<open>\<^verbatim>\<open>WHERE ... ORDER BY id DESC LIMIT 1\<close>.\<close>

definition latest_row :: "(cred_row \<Rightarrow> bool) \<Rightarrow> SQLite \<Rightarrow> cred_row option" where
  "latest_row P s = find P (rev (sort_key cr_id (sq_rows s)))"

definition null_str :: "string option \<Rightarrow> string" where
  "null_str c = (case c of None \<Rightarrow> '''' | Some x \<Rightarrow> x)"

definition SQLite_Get :: "gcm \<Rightarrow> bool \<Rightarrow> string \<Rightarrow> SQLite \<Rightarrow> (store_error, Material) res" where
  "SQLite_Get G db_ok profile s =
     (if \<not> db_ok then Inl ErrStoreDatabase
      else case latest_row (\<lambda>r. cr_provider r = profile) s of
        None \<Rightarrow> Inl (ErrProfileNotFound profile)
      | Some r \<Rightarrow>
          (if null_str (cr_disabled_cause r) \<noteq> '''' then Inl (ErrDisabled (cr_id r) (null_str (cr_disabled_cause r)))
           else materialFromRow G s profile (cr_type r) (cr_data r)))"

definition SQLite_insert :: "store_env \<Rightarrow> string \<Rightarrow> Kind \<Rightarrow> string \<Rightarrow> string option \<Rightarrow> SQLite \<Rightarrow> (store_error, int) res \<times> SQLite" where
  "SQLite_insert e profile kind enc identity s =
     (if \<not> st_ok1 e then (Inl ErrStoreDatabase, s)
      else
        (let i = sq_seq s + 1;
             now = UnixMilli (st_now e);
             s1 = s\<lparr>sq_rows := sq_rows s @
                    [\<lparr>cr_id = i, cr_provider = profile, cr_type = kind, cr_data = enc, cr_identity_key = identity,
                      cr_disabled_cause = None, cr_created_at = now, cr_updated_at = now\<rparr>],
                   sq_seq := i\<rparr>
         in (Inr i, snd (SQLite_BumpGeneration e s1))))"

definition SQLite_PutAPIKey :: "gcm \<Rightarrow> store_env \<Rightarrow> string \<Rightarrow> string \<Rightarrow> SQLite \<Rightarrow> (store_error, int) res \<times> SQLite" where
  "SQLite_PutAPIKey G e profile key s =
     (case EncryptPayload G (st_nonce e) (sq_key s) (json_api (apiKeyPayload key)) of
        Inl err \<Rightarrow> (Inl err, s)
      | Inr enc \<Rightarrow> SQLite_insert e profile ''api_key'' enc None s)"

definition identity_of :: "Material \<Rightarrow> string option" where
  "identity_of m = (if mat_Email m \<noteq> '''' then Some (mat_Email m) else None)"

definition SQLite_PutOAuth :: "gcm \<Rightarrow> store_env \<Rightarrow> string \<Rightarrow> Material \<Rightarrow> SQLite \<Rightarrow> (store_error, int) res \<times> SQLite" where
  "SQLite_PutOAuth G e profile m s =
     (case EncryptPayload G (st_nonce e) (sq_key s) (json_oauth (oauthMaterialPayload m)) of
        Inl err \<Rightarrow> (Inl err, s)
      | Inr enc \<Rightarrow> SQLite_insert e profile ''oauth'' enc (identity_of m) s)"

definition scanSummary :: "cred_row \<Rightarrow> CredentialSummary" where
  "scanSummary r =
     \<lparr>cs_ID = cr_id r, cs_Profile = cr_provider r, cs_Kind = cr_type r,
      cs_Status = (if null_str (cr_disabled_cause r) \<noteq> '''' then ''disabled'' else ''active''),
      cs_IdentityKey = (if null_str (cr_identity_key r) \<noteq> '''' then Some (null_str (cr_identity_key r)) else None),
      cs_DisabledCause = (if null_str (cr_disabled_cause r) \<noteq> '''' then Some (null_str (cr_disabled_cause r)) else None),
      cs_CreatedAt = cr_created_at r, cs_UpdatedAt = cr_updated_at r\<rparr>"

text \<open>No row gives a nil slice.\<close>

definition SQLite_ListSummaries :: "bool \<Rightarrow> SQLite \<Rightarrow> (store_error, CredentialSummary list option) res" where
  "SQLite_ListSummaries db_ok s =
     (if \<not> db_ok then Inl ErrStoreDatabase
      else Inr (case map scanSummary (sort_key cr_id (sq_rows s)) of [] \<Rightarrow> None | xs \<Rightarrow> Some xs))"

definition SQLite_GetSummary :: "bool \<Rightarrow> int \<Rightarrow> SQLite \<Rightarrow> (store_error, CredentialSummary) res" where
  "SQLite_GetSummary db_ok i s =
     (if \<not> db_ok then Inl ErrStoreDatabase
      else case map scanSummary (filter (\<lambda>r. cr_id r = i) (sq_rows s)) of
        [] \<Rightarrow> Inl (ErrCredentialNotFound i)
      | x # _ \<Rightarrow> Inr x)"

definition set_rows :: "int \<Rightarrow> (cred_row \<Rightarrow> cred_row) \<Rightarrow> SQLite \<Rightarrow> SQLite" where
  "set_rows i f s = s\<lparr>sq_rows := map (\<lambda>r. if cr_id r = i then f r else r) (sq_rows s)\<rparr>"

definition SQLite_UpdateOAuth :: "gcm \<Rightarrow> store_env \<Rightarrow> string \<Rightarrow> Material \<Rightarrow> SQLite \<Rightarrow> (store_error, unit) res \<times> SQLite" where
  "SQLite_UpdateOAuth G e profile m s =
     (if \<not> st_ok1 e then (Inl ErrStoreDatabase, s)
      else case latest_row (\<lambda>r. cr_provider r = profile \<and> cr_type r = ''oauth'') s of
        None \<Rightarrow> (Inl (ErrOAuthNotFound profile), s)
      | Some row \<Rightarrow>
          (case EncryptPayload G (st_nonce e) (sq_key s) (json_oauth (oauthMaterialPayload m)) of
             Inl err \<Rightarrow> (Inl err, s)
           | Inr enc \<Rightarrow>
               (if \<not> st_ok2 e then (Inl ErrStoreDatabase, s)
                else if filter (\<lambda>r. cr_id r = cr_id row) (sq_rows s) = [] then (Inl (ErrCredentialNotFound (cr_id row)), s)
                else SQLite_BumpGeneration e
                  (set_rows (cr_id row)
                    (\<lambda>r. r\<lparr>cr_data := enc, cr_identity_key := identity_of m, cr_updated_at := UnixMilli (st_now e),
                           cr_disabled_cause := None\<rparr>) s))))"

definition SQLite_Disable :: "store_env \<Rightarrow> int \<Rightarrow> string \<Rightarrow> SQLite \<Rightarrow> (store_error, unit) res \<times> SQLite" where
  "SQLite_Disable e i cause s =
     (if \<not> st_ok1 e then (Inl ErrStoreDatabase, s)
      else if filter (\<lambda>r. cr_id r = i) (sq_rows s) = [] then (Inl (ErrCredentialNotFound i), s)
      else SQLite_BumpGeneration e
        (set_rows i (\<lambda>r. r\<lparr>cr_disabled_cause := Some cause, cr_updated_at := UnixMilli (st_now e)\<rparr>) s))"

subsection \<open>The invariant of the store\<close>

definition SQLite_cur :: "gcm \<Rightarrow> SQLite \<Rightarrow> vault" where
  "SQLite_cur G s p =
     (case latest_row (\<lambda>r. cr_provider r = p) s of
        None \<Rightarrow> None
      | Some r \<Rightarrow> Some (cr_id r, projr (materialFromRow G s p (cr_type r) (cr_data r)), null_str (cr_disabled_cause r)))"

definition SQLite_gen :: "SQLite \<Rightarrow> int" where
  "SQLite_gen s = fst (the (sq_meta s))"

definition readable :: "gcm \<Rightarrow> SQLite \<Rightarrow> cred_row \<Rightarrow> bool" where
  "readable G s r \<longleftrightarrow> (\<exists>m. materialFromRow G s (cr_provider r) (cr_type r) (cr_data r) = Inr m)"

definition SQLite_inv :: "gcm \<Rightarrow> SQLite \<Rightarrow> bool" where
  "SQLite_inv G s \<longleftrightarrow> gcm_inverse G \<and> length (sq_key s) = 32 \<and> sq_meta s \<noteq> None \<and>
     sorted_wrt (<) (map cr_id (sq_rows s)) \<and>
     (\<forall>r \<in> set (sq_rows s). cr_id r \<le> sq_seq s \<and> readable G s r)"

lemma latest_row_sorted:
  assumes "sorted_wrt (<) (map cr_id (sq_rows s))"
  shows "latest_row P s = find P (rev (sq_rows s))"
proof -
  have "sorted (map cr_id (sq_rows s))"
    using assms by (rule sorted_wrt_mono_rel [rotated]) simp
  then show ?thesis by (simp add: latest_row_def sorted_sort_id sort_key_id_if_sorted)
qed

lemma latest_row_Some: "latest_row P s = Some r \<Longrightarrow> r \<in> set (sq_rows s) \<and> P r"
  by (auto simp: latest_row_def find_Some_iff) (metis length_rev length_sort nth_mem set_rev set_sort)

lemma materialFromRow_key: "sq_key s = sq_key s' \<Longrightarrow> materialFromRow G s = materialFromRow G s'"
  by (intro ext) (simp only: materialFromRow_def decryptData_def)

text \<open>Data that was encrypted is never taken for a legacy row.\<close>

lemma decryptData_Encrypt:
  assumes "Encrypt G rnd (sq_key s) p = Inr enc"
  shows "decryptData G s enc = (case Decrypt G (sq_key s) enc of Inl err \<Rightarrow> Inl (ErrSeal err) | Inr p \<Rightarrow> Inr p)"
proof -
  obtain e where e: "enc = emit (envelope_json e)"
    using assms by (auto simp: Encrypt_def split: if_splits option.splits)
  have "field_vals ''type'' ms = []" if "struct_members enc = Some ms" for ms
    using envelope_no_type that unfolding e by blast
  then show ?thesis
    by (auto simp: decryptData_def field_str_def split: option.split)
qed

lemma materialFromRow_Encrypt:
  assumes "gcm_inverse G" "length (sq_key s) = 32" "env_good e" "EncryptPayload G (st_nonce e) (sq_key s) v = Inr enc"
  shows "materialFromRow G s p k enc = MaterialFromDecrypted p k (emit v)"
proof -
  have "Decrypt G (sq_key s) enc = Inr (emit v)" by (rule Encrypt_payload_reads [OF assms])
  moreover have "Encrypt G (st_nonce e) (sq_key s) (emit v) = Inr enc"
    using assms(4) by (auto simp: EncryptPayload_def split: sum.splits)
  ultimately show ?thesis
    using decryptData_Encrypt [of G "st_nonce e" s "emit v" enc] by (simp add: materialFromRow_def)
qed

lemma bump_good:
  assumes "env_good e"
  shows "SQLite_BumpGeneration e s = (Inr (), s\<lparr>sq_meta := map_option (\<lambda>(g, t). (g + 1, UnixMilli (st_now2 e))) (sq_meta s)\<rparr>)"
  using assms by (simp add: SQLite_BumpGeneration_def env_good_def)

lemma cur_meta [simp]: "SQLite_cur G (s\<lparr>sq_meta := x\<rparr>) = SQLite_cur G s"
  using materialFromRow_key [of "s\<lparr>sq_meta := x\<rparr>" s G]
  by (intro ext) (simp add: SQLite_cur_def latest_row_def split: option.split)

lemma gen_bump:
  "sq_meta s \<noteq> None \<Longrightarrow> SQLite_gen (s\<lparr>sq_meta := map_option (\<lambda>(g, t). (g + 1, n)) (sq_meta s)\<rparr>) = SQLite_gen s + 1"
  by (auto simp: SQLite_gen_def)

lemma inv_meta_set: "SQLite_inv G s \<Longrightarrow> SQLite_inv G (s\<lparr>sq_meta := map_option f (sq_meta s)\<rparr>)"
  using materialFromRow_key [of "s\<lparr>sq_meta := map_option f (sq_meta s)\<rparr>" s G]
  by (auto simp: SQLite_inv_def readable_def)

lemma bump_contract:
  assumes "SQLite_inv G t" "env_good e"
  shows "\<exists>s'. SQLite_BumpGeneration e t = (Inr (), s') \<and> SQLite_inv G s' \<and> SQLite_cur G s' = SQLite_cur G t \<and>
    SQLite_gen s' = SQLite_gen t + 1"
proof -
  have "sq_meta t \<noteq> None" using assms(1) by (simp add: SQLite_inv_def)
  then show ?thesis
    using inv_meta_set [OF assms(1)] gen_bump by (simp add: bump_good [OF assms(2)])
qed

text \<open>Changing one row in place, without changing what identifies it.\<close>

lemma find_map: "find P (map g xs) = map_option g (find (P \<circ> g) xs)"
  by (induction xs) auto

lemma set_rows_ok:
  assumes inv: "SQLite_inv G s" and r: "r \<in> set (sq_rows s)"
    and same: "\<And>x. cr_id (f x) = cr_id x" "\<And>x. cr_provider (f x) = cr_provider x"
    and m: "materialFromRow G s (cr_provider r) (cr_type (f r)) (cr_data (f r)) = Inr m"
  shows "SQLite_inv G (set_rows (cr_id r) f s)"
    "SQLite_cur G (set_rows (cr_id r) f s) =
       (\<lambda>p. if latest_row (\<lambda>x. cr_provider x = p) s = Some r
             then Some (cr_id r, m, null_str (cr_disabled_cause (f r))) else SQLite_cur G s p)"
    "sq_meta (set_rows (cr_id r) f s) = sq_meta s"
proof -
  let ?g = "\<lambda>x. if cr_id x = cr_id r then f x else x"
  let ?s = "set_rows (cr_id r) f s"
  have key': "materialFromRow G ?s = materialFromRow G s"
    by (rule materialFromRow_key) (simp add: set_rows_def)
  have sorted: "sorted_wrt (<) (map cr_id (sq_rows s))" using inv by (simp add: SQLite_inv_def)
  have ids: "map cr_id (sq_rows ?s) = map cr_id (sq_rows s)"
    using same(1) by (simp add: set_rows_def)
  have uniq: "x = r" if "x \<in> set (sq_rows s)" "cr_id x = cr_id r" for x
  proof -
    have "distinct (map cr_id (sq_rows s))"
      using sorted strict_sorted_iff by blast
    with that r show ?thesis by (auto simp: distinct_map dest: inj_onD)
  qed
  show "sq_meta ?s = sq_meta s" by (simp add: set_rows_def)
  have "\<forall>x \<in> set (sq_rows ?s). cr_id x \<le> sq_seq s \<and> readable G s x"
  proof -
    have "readable G s (f x)" if "x \<in> set (sq_rows s)" "cr_id x = cr_id r" for x
      using uniq [OF that] m same by (simp add: readable_def)
    then show ?thesis
      using inv same(1) unfolding SQLite_inv_def set_rows_def by auto
  qed
  then show "SQLite_inv G ?s"
  proof -
    assume rows: "\<forall>x \<in> set (sq_rows ?s). cr_id x \<le> sq_seq s \<and> readable G s x"
    have eq: "sq_seq ?s = sq_seq s" "sq_key ?s = sq_key s" "sq_meta ?s = sq_meta s" "readable G ?s = readable G s"
      by (simp_all add: readable_def key' fun_eq_iff) (simp_all add: set_rows_def)
    show ?thesis
      using inv rows unfolding SQLite_inv_def ids eq by blast
  qed
  have latest: "latest_row (\<lambda>x. cr_provider x = p) ?s = map_option ?g (latest_row (\<lambda>x. cr_provider x = p) s)" for p
  proof -
    have "latest_row (\<lambda>x. cr_provider x = p) ?s = find (\<lambda>x. cr_provider x = p) (rev (sq_rows ?s))"
      by (rule latest_row_sorted) (simp only: ids sorted)
    also have "\<dots> = find (\<lambda>x. cr_provider x = p) (map ?g (rev (sq_rows s)))"
      by (simp add: set_rows_def rev_map)
    also have "\<dots> = map_option ?g (find (\<lambda>x. cr_provider x = p) (rev (sq_rows s)))"
      using same(2) by (simp add: find_map o_def if_distrib cong: if_cong)
    finally show ?thesis by (simp add: latest_row_sorted [OF sorted])
  qed
  show "SQLite_cur G ?s =
       (\<lambda>p. if latest_row (\<lambda>x. cr_provider x = p) s = Some r
             then Some (cr_id r, m, null_str (cr_disabled_cause (f r))) else SQLite_cur G s p)"
  proof
    fix p
    show "SQLite_cur G ?s p = (if latest_row (\<lambda>x. cr_provider x = p) s = Some r
             then Some (cr_id r, m, null_str (cr_disabled_cause (f r))) else SQLite_cur G s p)"
    proof (cases "latest_row (\<lambda>x. cr_provider x = p) s")
      case (Some x)
      note x = latest_row_Some [OF Some]
      show ?thesis
      proof (cases "cr_id x = cr_id r")
        case True
        with uniq x have "x = r" by blast
        with Some x m show ?thesis by (simp add: SQLite_cur_def latest same key')
      next
        case False
        then have "x \<noteq> r" by auto
        with False Some show ?thesis by (simp add: SQLite_cur_def latest key')
      qed
    qed (simp add: SQLite_cur_def latest)
  qed
qed

lemma SQLite_get_cur:
  assumes "SQLite_inv G s"
  shows "SQLite_Get G True p s = vault_get (SQLite_cur G s) p"
proof (cases "latest_row (\<lambda>r. cr_provider r = p) s")
  case (Some r)
  note x = latest_row_Some [OF Some]
  obtain m where "materialFromRow G s p (cr_type r) (cr_data r) = Inr m"
    using assms x by (auto simp: SQLite_inv_def readable_def)
  with Some show ?thesis by (simp add: SQLite_Get_def vault_get_def SQLite_cur_def)
qed (simp add: SQLite_Get_def vault_get_def SQLite_cur_def)

lemma SQLite_row_nonempty: "r \<in> set (sq_rows s) \<Longrightarrow> filter (\<lambda>x. cr_id x = cr_id r) (sq_rows s) \<noteq> []"
  by (auto simp: filter_empty_conv)

lemma SQLite_snapshot_gen:
  "SQLite_inv G s \<Longrightarrow> env_good e \<Longrightarrow> \<exists>sm. SQLite_SnapshotMeta e s = Inr sm \<and> sm_Generation sm = SQLite_gen s"
  by (auto simp: SQLite_SnapshotMeta_def SQLite_inv_def SQLite_gen_def env_good_def split: option.split)

subsection \<open>Opening the database\<close>

definition migrate_good :: "migrate_env \<Rightarrow> bool" where
  "migrate_good e \<longleftrightarrow> mg_schema_ok e \<and> mg_count_ok e \<and> mg_insert_ok e \<and> mg_version_ok e \<and> mg_alter_ok e \<and> mg_record_ok e"

lemma fold_max_ge2:
  assumes "2 \<in> set vs"
  shows "(2::int) \<le> fold max vs 0"
proof -
  have "fold max vs (0::int) = Max (set (0 # vs))" by (rule Max.set_eq_fold [symmetric])
  moreover have "2 \<le> Max (set (0 # vs))" by (rule Max_ge) (use assms in simp_all)
  ultimately show ?thesis by simp
qed

lemma migrateV2_good:
  assumes "migrate_good e"
  shows "\<exists>s'. migrateV2 e s = (Inr (), s') \<and> sq_rows s' = sq_rows s \<and> sq_seq s' = sq_seq s \<and> sq_key s' = sq_key s \<and>
    sq_meta s' = sq_meta s \<and> fold max (sq_versions s') 0 \<ge> 2"
proof (cases "fold max (sq_versions s) 0 \<ge> 2")
  case True
  with assms show ?thesis by (simp add: migrateV2_def migrate_good_def)
next
  case False
  then have "2 \<notin> set (sq_versions s)" using fold_max_ge2 by blast
  with False assms fold_max_ge2 [of "sq_versions s @ [2]"] show ?thesis
    by (simp add: migrateV2_def migrate_good_def Let_def)
qed

lemma OpenSQLite_good:
  assumes "migrate_good e"
  shows "\<exists>s'. OpenSQLite True e s = Inr s' \<and> sq_rows s' = sq_rows s \<and> sq_seq s' = sq_seq s \<and> sq_key s' = sq_key s \<and>
    sq_meta s' = (case sq_meta s of None \<Rightarrow> Some (1, UnixMilli (mg_now e)) | Some x \<Rightarrow> Some x)"
proof -
  have ok: "mg_schema_ok e" "mg_count_ok e" "mg_insert_ok e" using assms by (simp_all add: migrate_good_def)
  show ?thesis
  proof (cases "sq_meta s")
    case None
    with migrateV2_good [OF assms, of "s\<lparr>sq_meta := Some (1, UnixMilli (mg_now e))\<rparr>"] ok
    show ?thesis by (auto simp: OpenSQLite_def migrate_def)
  next
    case (Some x)
    with migrateV2_good [OF assms, of s] ok show ?thesis by (auto simp: OpenSQLite_def migrate_def)
  qed
qed

subsection \<open>What the credential vault guarantees\<close>

lemma empty_db_inv:
  assumes "gcm_inverse G" "length key = 32" "OpenSQLite True e (empty_db key) = Inr s" "migrate_good e"
  shows "SQLite_inv G s" "SQLite_cur G s = Map.empty" "SQLite_gen s = 1"
proof -
  from OpenSQLite_good [OF assms(4), of "empty_db key"] assms(3)
  have s: "sq_rows s = []" "sq_key s = key" "sq_meta s = Some (1, UnixMilli (mg_now e))"
    by (auto simp: empty_db_def)
  then show "SQLite_inv G s" "SQLite_cur G s = Map.empty" "SQLite_gen s = 1"
    using assms(1,2) by (auto simp: SQLite_inv_def SQLite_cur_def latest_row_def SQLite_gen_def fun_eq_iff)
qed

text \<open>Plaintext rows of an older program in the same database are read as they are.\<close>

lemma legacy_oauth_row:
  "materialFromRow G s p KindOAuth (emit (json_oauth (oauthMaterialPayload m))) =
     MaterialFromDecrypted p KindOAuth (emit (json_oauth (oauthMaterialPayload m)))"
proof -
  let ?raw = "emit (json_oauth (oauthMaterialPayload m))"
  obtain ms where ms: "struct_members ?raw = Some ms"
    using json_oauth_ok [of "oauthMaterialPayload m"] unfolding json_oauth_def by (simp add: struct_members_emit del: emit.simps)
  have "field_vals ''type'' ms = [JStr ''oauth'']"
    using oauth_members(1) [OF ms] by (simp add: oauthMaterialPayload_def)
  then show ?thesis
    by (simp add: materialFromRow_def decryptData_def ms field_str_def set_str_def str_typed_def)
qed

subsection \<open>A concrete vault\<close>

definition demo_store_env :: store_env where
  "demo_store_env = \<lparr>st_now = 0, st_now2 = 0, st_nonce = Some ''0123456789ab'', st_ok1 = True, st_ok2 = True, st_bump_ok = True\<rparr>"

definition demo_migrate :: migrate_env where
  "demo_migrate = \<lparr>mg_now = 0, mg_schema_ok = True, mg_count_ok = True, mg_insert_ok = True, mg_version_ok = True,
     mg_alter_ok = True, mg_record_ok = True\<rparr>"

definition demo_key :: Key where "demo_key = replicate 32 (CHR ''k'')"

definition demo_vault :: SQLite where
  "demo_vault = projr (OpenSQLite True demo_migrate (empty_db demo_key))"

lemma demo_open: "OpenSQLite True demo_migrate (empty_db demo_key) = Inr demo_vault"
  using OpenSQLite_good [of demo_migrate "empty_db demo_key"]
  by (auto simp: demo_vault_def migrate_good_def demo_migrate_def)

lemma demo_good: "length demo_key = 32" "migrate_good demo_migrate"
  by (simp_all add: demo_key_def migrate_good_def demo_migrate_def)

definition demo_oauth :: Material where
  "demo_oauth = (zero_Material ''acct'' KindOAuth)\<lparr>mat_AccessToken := ''old'', mat_RefreshToken := ''r''\<rparr>"

lemma demo_oauth_ok: "material_ok demo_oauth"
  by (simp add: material_ok_def demo_oauth_def zero_Material_def)

lemma demo_env_good: "env_good demo_store_env"
  by (simp add: env_good_def demo_store_env_def)

end
