(* ===== verification/GoUrl.thy ===== *)
theory GoUrl
  imports GoJson GoBase64
begin

section \<open>Query strings\<close>

text \<open>
  What the OAuth client uses of \<^verbatim>\<open>net/url\<close>: the escaping of query components, the encoding of \<^verbatim>\<open>url.Values\<close>
  with its keys sorted, and the query of a parsed URL. Parsing and printing the rest of a URL are left
  to the library.
\<close>

type_synonym url_values = "(string, string list) gomap"

definition unreserved :: "char \<Rightarrow> bool" where
  "unreserved c \<longleftrightarrow>
     (let n = of_char c :: nat in
      48 \<le> n \<and> n \<le> 57 \<or> 65 \<le> n \<and> n \<le> 90 \<or> 97 \<le> n \<and> n \<le> 122 \<or> n \<in> set [45, 95, 46, 126])"

definition hex_upper :: "nat \<Rightarrow> char" where
  "hex_upper d = (if d < 10 then char_of (48 + d) else char_of (55 + d))"

definition escape_char :: "char \<Rightarrow> string" where
  "escape_char c =
     (if unreserved c then [c]
      else if c = CHR '' '' then ''+''
      else [CHR ''%'', hex_upper (of_char c div 16), hex_upper (of_char c mod 16)])"

definition QueryEscape :: "string \<Rightarrow> string" where
  "QueryEscape s = concat (map escape_char s)"

fun QueryUnescape :: "string \<Rightarrow> string option" where
  "QueryUnescape [] = Some []"
| "QueryUnescape (c # s) =
     (if c = CHR ''%'' then
        (case s of
           a # b # r \<Rightarrow>
             (case (hex_val a, hex_val b) of
                (Some x, Some y) \<Rightarrow> map_option (\<lambda>t. char_of (16 * x + y) # t) (QueryUnescape r)
              | _ \<Rightarrow> None)
         | _ \<Rightarrow> None)
      else map_option (\<lambda>t. (if c = CHR ''+'' then CHR '' '' else c) # t) (QueryUnescape s))"

definition v_Set :: "string \<Rightarrow> string \<Rightarrow> url_values \<Rightarrow> url_values" where
  "v_Set k v m = gm_set k [v] m"

definition v_Get :: "url_values \<Rightarrow> string \<Rightarrow> string" where
  "v_Get m k = (case gm_getd [] m k of [] \<Rightarrow> '''' | v # _ \<Rightarrow> v)"

definition Values_Encode :: "url_values \<Rightarrow> string" where
  "Values_Encode m =
     Join (concat (map (\<lambda>(k, vs). map (\<lambda>v. QueryEscape k @ ''='' @ QueryEscape v) vs) (sort_key fst m))) ''&''"

text \<open>\<^verbatim>\<open>url.ParseQuery\<close>: a broken pair is skipped, the others are kept.\<close>

definition parse_pair :: "string \<Rightarrow> (string \<times> string) option" where
  "parse_pair seg =
     (if seg = '''' \<or> CHR '';'' \<in> set seg then None
      else
        (let (k, v) = (case Cut CHR ''='' seg of None \<Rightarrow> (seg, '''') | Some kv \<Rightarrow> kv) in
         case (QueryUnescape k, QueryUnescape v) of (Some k', Some v') \<Rightarrow> Some (k', v') | _ \<Rightarrow> None))"

definition ParseQuery :: "string \<Rightarrow> url_values" where
  "ParseQuery q =
     fold (\<lambda>seg m. case parse_pair seg of None \<Rightarrow> m | Some (k, v) \<Rightarrow> gm_set k (gm_getd [] m k @ [v]) m) (Split CHR ''&'' q) []"

text \<open>The query of a URL that parses: what is between the first question mark and the fragment.\<close>

definition raw_query :: "string \<Rightarrow> string" where
  "raw_query u =
     (let s = (case Cut CHR ''#'' u of None \<Rightarrow> u | Some (a, _) \<Rightarrow> a)
      in case Cut CHR ''?'' s of None \<Rightarrow> '''' | Some (_, q) \<Rightarrow> q)"

lemma hex_upper_val: "d < 16 \<Longrightarrow> hex_val (hex_upper d) = Some d"
  by (auto simp: hex_val_def hex_upper_def Let_def of_char_of)

lemma unescape_escape_char:
  "QueryUnescape (escape_char c @ s) = map_option (\<lambda>t. c # t) (QueryUnescape s)"
proof (cases "unreserved c")
  case True
  then have "c \<noteq> CHR ''%''" "c \<noteq> CHR ''+''" by (auto simp: unreserved_def)
  with True show ?thesis by (simp add: escape_char_def)
next
  case False
  have "(of_char c :: nat) < 256" by (rule of_char_less)
  then have b: "of_char c div 16 < (16 :: nat)" "of_char c mod 16 < (16 :: nat)"
    "16 * (of_char c div 16) + of_char c mod 16 = (of_char c :: nat)" by (auto intro: less_mult_imp_div_less)
  then show ?thesis
    using False by (simp add: escape_char_def hex_upper_val del: div_mult_mod_eq mult_div_mod_eq)
qed

text \<open>What is escaped is read back unchanged.\<close>

lemma QueryUnescape_Escape: "QueryUnescape (QueryEscape s) = Some s"
  by (induction s) (simp_all add: QueryEscape_def unescape_escape_char)

lemma hex_upper_range: "d < 16 \<Longrightarrow> 48 \<le> (of_char (hex_upper d) :: nat) \<and> of_char (hex_upper d) \<le> (70 :: nat) \<and>
    (of_char (hex_upper d) :: nat) \<notin> {58..64}"
  by (auto simp: hex_upper_def of_char_of)

lemma QueryEscape_chars:
  assumes "c \<in> set (QueryEscape s)"
  shows "c \<noteq> CHR ''&'' \<and> c \<noteq> CHR ''='' \<and> c \<noteq> CHR '';'' \<and> c \<noteq> CHR ''#'' \<and> c \<noteq> CHR ''?''"
proof -
  obtain d where d: "c \<in> set (escape_char d)" using assms by (auto simp: QueryEscape_def)
  have "(of_char d :: nat) < 256" by (rule of_char_less)
  then have "of_char d div 16 < (16 :: nat)" "of_char d mod 16 < (16 :: nat)" by (auto intro: less_mult_imp_div_less)
  note h = hex_upper_range [OF this(1)] hex_upper_range [OF this(2)]
  have "unreserved c \<or> c = CHR ''+'' \<or> c = CHR ''%'' \<or>
    48 \<le> (of_char c :: nat) \<and> of_char c \<le> (70 :: nat) \<and> (of_char c :: nat) \<notin> {58..64}"
    using d h by (auto simp: escape_char_def split: if_splits)
  then show ?thesis by (auto simp: unreserved_def Let_def)
qed

lemma parse_pair_encoded: "parse_pair (QueryEscape k @ ''='' @ QueryEscape v) = Some (k, v)"
proof -
  have "CHR '';'' \<notin> set (QueryEscape k @ ''='' @ QueryEscape v)" "CHR ''='' \<notin> set (QueryEscape k)"
    using QueryEscape_chars by auto
  then show ?thesis by (simp add: parse_pair_def Cut_append QueryUnescape_Escape)
qed

end
