(* ===== verification/GoMux.thy ===== *)
theory GoMux
  imports GoHttp GoUrl
begin

section \<open>Request paths and the mux\<close>

text \<open>
  \<^verbatim>\<open>http.ServeMux\<close> routes by the escaped path of a request (\<^verbatim>\<open>URL.EscapedPath\<close>). A path that is not clean is
  redirected, except for \<^verbatim>\<open>CONNECT\<close>; a clean one is cut at its slashes, each segment is unescaped on its own, and the
  segments are compared with those of the patterns. A handler reads the path unescaped as a whole
  (\<^verbatim>\<open>URL.Path\<close>), where an escaped slash is a slash.
\<close>

fun PathUnescape :: "string \<Rightarrow> string option" where
  "PathUnescape [] = Some []"
| "PathUnescape (c # s) =
     (if c = CHR ''%'' then
        (case s of
           a # b # r \<Rightarrow>
             (case (hex_val a, hex_val b) of
                (Some x, Some y) \<Rightarrow> map_option (\<lambda>t. char_of (16 * x + y) # t) (PathUnescape r)
              | _ \<Rightarrow> None)
         | _ \<Rightarrow> None)
      else map_option (\<lambda>t. c # t) (PathUnescape s))"

text \<open>A segment with a broken escape is taken as it is.\<close>

definition segment_text :: "string \<Rightarrow> string" where
  "segment_text seg = (case PathUnescape seg of Some t \<Rightarrow> t | None \<Rightarrow> seg)"

text \<open>The segments of a rooted path; a trailing slash is the last segment \<open>''/''\<close>.\<close>

definition path_segments :: "string \<Rightarrow> string list" where
  "path_segments path =
     (case Split (CHR ''/'') path of
        seg0 # segs \<Rightarrow>
          (if segs = [] then []
           else map segment_text (butlast segs) @ [if last segs = '''' then ''/'' else segment_text (last segs)])
      | [] \<Rightarrow> [])"

text \<open>Paths as the mux wants them: rooted, without empty or dot segments.\<close>

definition path_clean :: "string \<Rightarrow> bool" where
  "path_clean path =
     (case Split (CHR ''/'') path of
        seg0 # segs \<Rightarrow>
          seg0 = '''' \<and> segs \<noteq> [] \<and> list_all (\<lambda>seg. seg \<noteq> '''') (butlast segs) \<and>
          list_all (\<lambda>seg. seg \<noteq> ''.'' \<and> seg \<noteq> ''..'') segs
      | [] \<Rightarrow> False)"

definition mux_cleans :: "string \<Rightarrow> string \<Rightarrow> bool" where
  "mux_cleans meth path \<longleftrightarrow> meth \<noteq> ''CONNECT'' \<and> \<not> path_clean path"

text \<open>The two forms of the path of a request belong together.\<close>

definition well_escaped :: "request \<Rightarrow> bool" where
  "well_escaped r \<longleftrightarrow> PathUnescape (rq_escaped r) = Some (rq_path r)"

text \<open>The pattern without wildcards that a list of segments matches.\<close>

definition route_of :: "(string \<times> 'r) list \<Rightarrow> string list \<Rightarrow> 'r option" where
  "route_of routes segs = map_option snd (find (\<lambda>(pat, _). path_segments pat = segs) routes)"

lemma route_of_mem: "route_of routes segs = Some rt \<Longrightarrow> rt \<in> snd ` set routes"
  by (force simp: route_of_def find_Some_iff in_set_conv_nth)

lemmas path_eval = path_segments_def segment_text_def path_clean_def mux_cleans_def route_of_def

lemma PathUnescape_slash:
  "PathUnescape (s @ CHR ''/'' # t) =
     (case PathUnescape s of
        None \<Rightarrow> None
      | Some s' \<Rightarrow> map_option (\<lambda>t'. s' @ CHR ''/'' # t') (PathUnescape t))"
proof (induction s rule: PathUnescape.induct)
  case (2 c s)
  have h: "hex_val (CHR ''/'') = None" by (simp add: hex_val_def)
  show ?case
  proof (cases "c = CHR ''%''")
    case False
    with 2 show ?thesis by (auto simp: option.map_comp comp_def split: option.split)
  next
    case True
    consider "s = []" | a where "s = [a]" | a b r where "s = a # b # r" by (metis list.exhaust)
    then show ?thesis
    proof cases
      case 3
      with 2 True show ?thesis by (auto simp: option.map_comp comp_def split: option.split)
    qed (auto simp: True h split: list.split option.split)
  qed
qed (simp add: option.map_comp comp_def)

lemma PathUnescape_Join:
  "parts \<noteq> [] \<Longrightarrow> PathUnescape (Join parts ''/'') = Some p \<Longrightarrow> p = Join (map segment_text parts) ''/''"
proof (induction parts arbitrary: p rule: induct_list012)
  case (3 s t ss)
  then obtain s' t' where "PathUnescape s = Some s'" "PathUnescape (Join (t # ss) ''/'') = Some t'" "p = s' @ CHR ''/'' # t'"
    by (auto simp: PathUnescape_slash split: option.splits)
  with 3 show ?case by (simp add: segment_text_def)
qed (auto simp: segment_text_def)

text \<open>The path of a request, read off its segments.\<close>

lemma well_escaped_path: "well_escaped r \<Longrightarrow> rq_path r = Join (map segment_text (Split (CHR ''/'') (rq_escaped r))) ''/''"
  using PathUnescape_Join [of "Split (CHR ''/'') (rq_escaped r)"] by (simp add: well_escaped_def)

lemma path_segments_two:
  assumes "well_escaped r" "path_segments (rq_escaped r) = [a, b]" "b \<noteq> ''/''"
  shows "HasSuffix (rq_path r) (''/'' @ a @ ''/'' @ b)"
proof -
  obtain s0 segs where split: "Split (CHR ''/'') (rq_escaped r) = s0 # segs" by (metis Split_nonempty list.exhaust)
  with assms(2,3) obtain s1 s2 where "segs = [s1, s2]" "segment_text s1 = a" "segment_text s2 = b"
    by (cases segs rule: rev_cases; cases "butlast segs") (auto simp: path_segments_def split: if_splits)
  with well_escaped_path [OF assms(1)] split show ?thesis by (simp add: suffix_def)
qed

text \<open>A text with every byte escaped: how a client can put any text into one segment.\<close>

definition pct_escape :: "string \<Rightarrow> string" where
  "pct_escape s = concat (map (\<lambda>c. [CHR ''%'', hex_upper (of_char c div 16), hex_upper (of_char c mod 16)]) s)"

lemma byte_halves: "of_char c div 16 < (16 :: nat)" "of_char c mod 16 < (16 :: nat)"
  using of_char_less [of c] by (auto intro: less_mult_imp_div_less)

lemma PathUnescape_pct: "PathUnescape (pct_escape s) = Some s"
proof (induction s)
  case (Cons c s)
  have "16 * (of_char c div 16) + of_char c mod 16 = (of_char c :: nat)" by simp
  with Cons show ?case
    by (simp add: pct_escape_def hex_upper_val byte_halves del: div_mult_mod_eq mult_div_mod_eq)
qed (simp add: pct_escape_def)

lemma pct_escape_no_slash: "CHR ''/'' \<notin> set (pct_escape s)"
proof -
  have "CHR ''/'' \<noteq> hex_upper d" if "d < 16" for d
    using hex_upper_range [OF that] by (cases "CHR ''/'' = hex_upper d") (auto dest: sym)
  then show ?thesis using byte_halves by (auto simp: pct_escape_def)
qed

lemma segment_text_pct: "segment_text (pct_escape s) = s"
  by (simp add: segment_text_def PathUnescape_pct)

lemma pct_escape_dots: "pct_escape s \<noteq> ''.'' \<and> pct_escape s \<noteq> ''..'' \<and> (pct_escape s = '''' \<longleftrightarrow> s = '''')"
  by (cases s) (simp_all add: pct_escape_def)

end
