(* ===== verification/AdminServer.thy ===== *)
theory AdminServer
  imports AdminAuth MintPolicy StoreSqlite GoMux
begin

section \<open>The admin server\<close>

text \<open>
  \<^verbatim>\<open>credential/admin/server.go\<close>: the control plane's HTTP API over a credential store and a key store.
  The two interfaces a \<open>Server\<close> holds are records of their operations, over a state \<open>'s\<close> of the stores.
  Error texts that quote an error of a store stay values (\<open>BError\<close>). Writing a JSON reply never fails here, except in
  the event stream, whose writes have an outcome.
\<close>

datatype admin_failure =
    FStore store_error
  | FKey key_error
  | FPolicy policy_error

datatype body =
    BNone
  | BText string
  | BError admin_failure
  | BJson json

record reply =
  rep_status :: int
  rep_header :: header
  rep_body :: body

definition http_Error :: "body \<Rightarrow> int \<Rightarrow> reply" where
  "http_Error b code = \<lparr>rep_status = code,
     rep_header = [(''Content-Type'', [''text/plain; charset=utf-8'']), (''X-Content-Type-Options'', [''nosniff''])],
     rep_body = b\<rparr>"

definition json_reply :: "json \<Rightarrow> reply" where
  "json_reply j = \<lparr>rep_status = StatusOK, rep_header = [(''Content-Type'', [''application/json''])], rep_body = BJson j\<rparr>"

text \<open>The store operations the server calls; \<open>None\<close> is a nil slice of summaries.\<close>

record 's Server =
  sv_ListSummaries :: "'s \<Rightarrow> (store_error, CredentialSummary list option) res"
  sv_GetSummary :: "int \<Rightarrow> 's \<Rightarrow> (store_error, CredentialSummary) res"
  sv_SnapshotMeta :: "'s \<Rightarrow> (store_error, SnapshotMeta) res"
  sv_PutAPIKey :: "string \<Rightarrow> string \<Rightarrow> 's \<Rightarrow> (store_error, int) res \<times> 's"
  sv_Create :: "string \<Rightarrow> string \<Rightarrow> duration \<Rightarrow> string list \<Rightarrow> 's \<Rightarrow> (key_error, string \<times> int) res \<times> 's"
  sv_Revoke :: "int \<Rightarrow> 's \<Rightarrow> (key_error, unit) res \<times> 's"
  sv_OnImport :: "(string \<Rightarrow> string \<Rightarrow> 's \<Rightarrow> (store_error, int) res \<times> 's) option"
  sv_Auth :: Middleware
  sv_KeyPolicy :: MintPolicy
  sv_ProvisionPolicy :: MintPolicy

definition opt_str :: "string \<Rightarrow> string option \<Rightarrow> (string \<times> json) list" where
  "opt_str name v = (case v of None \<Rightarrow> [] | Some s \<Rightarrow> [(name, JStr s)])"

definition summary_json :: "CredentialSummary \<Rightarrow> json" where
  "summary_json c = JObj
     ([(''id'', JNum (show_int (cs_ID c))), (''profile'', JStr (cs_Profile c)), (''kind'', JStr (cs_Kind c)),
       (''status'', JStr (cs_Status c))] @
      opt_str ''identityKey'' (cs_IdentityKey c) @ opt_str ''disabledCause'' (cs_DisabledCause c) @
      [(''createdAt'', JNum (show_int (cs_CreatedAt c))), (''updatedAt'', JNum (show_int (cs_UpdatedAt c)))])"

definition meta_json :: "SnapshotMeta \<Rightarrow> json" where
  "meta_json m = JObj
     [(''generation'', JNum (show_int (sm_Generation m))), (''generatedAt'', JNum (show_int (sm_GeneratedAt m))),
      (''serverNowMs'', JNum (show_int (sm_ServerNowMs m)))]"

subsection \<open>Handlers\<close>

definition healthz :: reply where
  "healthz = json_reply (JObj [(''ok'', JBool True)])"

definition listCredentials :: "'s Server \<Rightarrow> 's \<Rightarrow> reply" where
  "listCredentials sv s =
     (case sv_ListSummaries sv s of
        Inl err \<Rightarrow> http_Error (BError (FStore err)) StatusInternalServerError
      | Inr xs \<Rightarrow>
          \<lparr>rep_status = StatusOK,
           rep_header = [(''Content-Type'', [''application/json'']), (''Cache-Control'', [''no-store''])],
           rep_body = BJson (case xs of None \<Rightarrow> JNull | Some cs \<Rightarrow> JArr (map summary_json cs))\<rparr>)"

definition path_id :: "string \<Rightarrow> string \<Rightarrow> int option" where
  "path_id path pre =
     (case ParseInt (TrimPrefix path pre) of
        None \<Rightarrow> None
      | Some i \<Rightarrow> (if i \<le> 0 then None else Some i))"

definition getCredential :: "'s Server \<Rightarrow> string \<Rightarrow> 's \<Rightarrow> reply" where
  "getCredential sv path s =
     (case path_id path ''/v1/credentials/'' of
        None \<Rightarrow> http_Error (BText ''bad request'') StatusBadRequest
      | Some i \<Rightarrow>
          (case sv_GetSummary sv i s of
             Inl err \<Rightarrow> http_Error (BError (FStore err)) StatusNotFound
           | Inr cs \<Rightarrow> json_reply (summary_json cs)))"

definition snapshot :: "'s Server \<Rightarrow> 's \<Rightarrow> reply" where
  "snapshot sv s =
     (case sv_SnapshotMeta sv s of
        Inl err \<Rightarrow> http_Error (BError (FStore err)) StatusInternalServerError
      | Inr m \<Rightarrow> json_reply (meta_json m))"

text \<open>The members of a nested raw message; a message that is no object has none.\<close>

definition raw_members :: "json list \<Rightarrow> (string \<times> json) list" where
  "raw_members vs = (if vs = [] then [] else case last vs of JObj ms \<Rightarrow> ms | _ \<Rightarrow> [])"

definition importCredential :: "'s Server \<Rightarrow> string \<Rightarrow> 's \<Rightarrow> reply \<times> 's" where
  "importCredential sv raw s =
     (if length raw > MaxRequestBody then (http_Error (BText ''bad request'') StatusBadRequest, s)
      else case struct_members raw of
        None \<Rightarrow> (http_Error (BText ''bad request'') StatusBadRequest, s)
      | Some ms \<Rightarrow>
          (if \<not> list_all str_typed (field_vals ''provider'' ms) then (http_Error (BText ''bad request'') StatusBadRequest, s)
           else
             (let provider = field_str ''provider'' ms;
                  cred = raw_members (field_vals ''credential'' ms)
              in if field_str ''type'' cred \<noteq> ''api_key'' \<or> field_str ''key'' cred = ''''
                 then (http_Error (BText ''only api_key import supported'') StatusBadRequest, s)
                 else case (case sv_OnImport sv of
                              Some f \<Rightarrow> f provider (field_str ''key'' cred) s
                            | None \<Rightarrow> sv_PutAPIKey sv provider (field_str ''key'' cred) s) of
                   (Inl err, s') \<Rightarrow> (http_Error (BError (FStore err)) StatusInternalServerError, s')
                 | (Inr i, s') \<Rightarrow>
                     (json_reply (JObj [(''id'', JNum (show_int i)), (''provider'', JStr provider)]), s'))))"

text \<open>\<^verbatim>\<open>json.Decoder.Decode\<close> takes the first JSON value of the body and ignores what follows it.\<close>

definition decode_first :: "string \<Rightarrow> (string \<times> json) list option" where
  "decode_first raw =
     (let lim = take MaxRequestBody raw in
      case pval (json_fuel lim) lim of
        Some (JObj ms, _) \<Rightarrow> Some ms
      | Some (JNull, _) \<Rightarrow> Some []
      | _ \<Rightarrow> None)"

definition mint_policy :: "'s Server \<Rightarrow> Role option \<Rightarrow> MintPolicy" where
  "mint_policy sv role =
     (if role = Some RoleProvision then
        (if mp_MaxTTL (sv_ProvisionPolicy sv) = 0 then DefaultProvisionPolicy else sv_ProvisionPolicy sv)
      else if mp_MaxTTL (sv_KeyPolicy sv) = 0 then KeysPolicyFromConfig None
      else sv_KeyPolicy sv)"

definition createKey :: "'s Server \<Rightarrow> Role option \<Rightarrow> string \<Rightarrow> 's \<Rightarrow> reply \<times> 's" where
  "createKey sv role raw s =
     (let policy = mint_policy sv role in
      case decode_first raw of
        None \<Rightarrow> (http_Error (BText ''bad request'') StatusBadRequest, s)
      | Some ms \<Rightarrow>
          (if \<not> (list_all str_typed (field_vals ''name'' ms) \<and> list_all bool_typed (field_vals ''static'' ms) \<and>
                  list_all str_typed (field_vals ''ttl'' ms) \<and> list_all strs_typed (field_vals ''scopes'' ms))
           then (http_Error (BText ''bad request'') StatusBadRequest, s)
           else if role = Some RoleProvision \<and> field_bool ''static'' ms
             then (http_Error (BText ''forbidden'') StatusForbidden, s)
           else
             (case (if field_bool ''static'' ms then Inr (KindStatic, 0)
                    else res_bind (admin_ParseDuration (field_str ''ttl'' ms) (24 * Hour) (mp_MaxTTL policy))
                           (\<lambda>d. Inr (KindIssued, d))) of
                Inl err \<Rightarrow> (http_Error (BError (FPolicy err)) StatusBadRequest, s)
              | Inr (kind, ttl) \<Rightarrow>
                  (case ResolveScopes policy (if role = Some RoleProvision then [] else field_strs ''scopes'' ms) of
                     Inl err \<Rightarrow> (http_Error (BError (FPolicy err)) StatusBadRequest, s)
                   | Inr scopes \<Rightarrow>
                       (case sv_Create sv (field_str ''name'' ms) kind ttl scopes s of
                          (Inl err, s') \<Rightarrow> (http_Error (BError (FKey err)) StatusBadRequest, s')
                        | (Inr (secret, kid), s') \<Rightarrow>
                            (json_reply (JObj [(''id'', JNum (show_int kid)), (''key'', JStr secret)]), s'))))))"

definition revokeKey :: "'s Server \<Rightarrow> string \<Rightarrow> 's \<Rightarrow> reply \<times> 's" where
  "revokeKey sv path s =
     (case path_id path ''/v1/keys/'' of
        None \<Rightarrow> (http_Error (BText ''bad request'') StatusBadRequest, s)
      | Some i \<Rightarrow>
          (case sv_Revoke sv i s of
             (Inl err, s') \<Rightarrow> (http_Error (BError (FKey err)) StatusNotFound, s')
           | (Inr _, s') \<Rightarrow> (\<lparr>rep_status = StatusNoContent, rep_header = [], rep_body = BNone\<rparr>, s')))"

subsection \<open>The event stream\<close>

text \<open>
  One turn of the loop of \<^verbatim>\<open>snapshotStream\<close> handles one event: the end of the request, a tick of the
  keepalive timer, or a poll with the result of reading the generation; \<open>write_ok\<close> is the outcome of the
  write the turn makes. The loop ends with \<open>Done\<close>.
\<close>

datatype stream_event =
    CtxDone
  | KeepaliveTick bool
  | PollTick "(store_error, SnapshotMeta) res" bool

datatype chunk = KeepaliveChunk | SnapshotChunk SnapshotMeta

definition chunk_text :: "chunk \<Rightarrow> string" where
  "chunk_text c =
     (case c of
        KeepaliveChunk \<Rightarrow> '': keepalive'' @ [CHR 0x0A, CHR 0x0A]
      | SnapshotChunk m \<Rightarrow> ''event: snapshot'' @ [CHR 0x0A] @ ''data: '' @ emit (meta_json m) @ [CHR 0x0A, CHR 0x0A])"

fun stream_loop :: "int \<Rightarrow> stream_event list \<Rightarrow> chunk list" where
  "stream_loop lastGen [] = []"
| "stream_loop lastGen (CtxDone # evs) = []"
| "stream_loop lastGen (KeepaliveTick write_ok # evs) =
     (if write_ok then KeepaliveChunk # stream_loop lastGen evs else [])"
| "stream_loop lastGen (PollTick r write_ok # evs) =
     (case r of
        Inl _ \<Rightarrow> []
      | Inr m \<Rightarrow>
          (if sm_Generation m = lastGen then stream_loop lastGen evs
           else if write_ok then SnapshotChunk m # stream_loop (sm_Generation m) evs
           else []))"

definition snapshotStream :: "'s Server \<Rightarrow> bool \<Rightarrow> bool \<Rightarrow> stream_event list \<Rightarrow> 's \<Rightarrow> reply \<times> chunk list" where
  "snapshotStream sv flusher first_ok evs s =
     (if \<not> flusher then (http_Error (BText ''streaming unsupported'') StatusInternalServerError, [])
      else case sv_SnapshotMeta sv s of
        Inl err \<Rightarrow> (http_Error (BError (FStore err)) StatusInternalServerError, [])
      | Inr m \<Rightarrow>
          (\<lparr>rep_status = StatusOK,
            rep_header = [(''Content-Type'', [''text/event-stream'']), (''Cache-Control'', [''no-cache''])],
            rep_body = BNone\<rparr>,
           if first_ok then SnapshotChunk m # stream_loop (sm_Generation m) evs else []))"

subsection \<open>Routing\<close>

datatype 's admin_result =
    Reply reply 's
  | Stream reply "chunk list"

text \<open>\<open>evs\<close> and \<open>first_ok\<close> are what the rest of the world does to an event stream, should the request open one.\<close>

definition admin_route ::
  "'s Server \<Rightarrow> Role option \<Rightarrow> request \<Rightarrow> bool \<Rightarrow> bool \<Rightarrow> stream_event list \<Rightarrow> 's \<Rightarrow> 's admin_result" where
  "admin_route sv role r flusher first_ok evs s =
     (let path = rq_path r; meth = rq_method r in
      if path = ''/v1/credentials'' \<and> meth = MethodGet then Reply (listCredentials sv s) s
      else if path = ''/v1/credentials'' \<and> meth = MethodPost then
        (case importCredential sv (rq_body r) s of (rep, s') \<Rightarrow> Reply rep s')
      else if HasPrefix path ''/v1/credentials/'' \<and> meth = MethodGet then Reply (getCredential sv path s) s
      else if path = ''/v1/snapshot/stream'' \<and> meth = MethodGet then
        (case snapshotStream sv flusher first_ok evs s of (rep, cs) \<Rightarrow> Stream rep cs)
      else if path = ''/v1/snapshot'' \<and> meth = MethodGet then Reply (snapshot sv s) s
      else if path = ''/v1/keys'' \<and> meth = MethodPost then
        (case createKey sv role (rq_body r) s of (rep, s') \<Rightarrow> Reply rep s')
      else if HasPrefix path ''/v1/keys/'' \<and> meth = MethodDelete then
        (case revokeKey sv path s of (rep, s') \<Rightarrow> Reply rep s')
      else Reply (http_Error (BText ''404 page not found'') StatusNotFound) s)"

text \<open>The mux redirects a path that is not clean, and \<^verbatim>\<open>/v1\<close> to the pattern with a slash; body and target of a redirect are left out.\<close>

definition mux_redirect :: reply where
  "mux_redirect = \<lparr>rep_status = 307, rep_header = [], rep_body = BNone\<rparr>"

definition Admin_Handler ::
  "idkey \<Rightarrow> 's Server \<Rightarrow> request \<Rightarrow> bool \<Rightarrow> bool \<Rightarrow> stream_event list \<Rightarrow> 's \<Rightarrow> 's admin_result" where
  "Admin_Handler H sv r flusher first_ok evs s =
     (if mux_cleans (rq_method r) (rq_escaped r) \<or> path_segments (rq_escaped r) = [''v1'']
      then Reply mux_redirect s
      else if path_segments (rq_escaped r) = [''v1'', ''healthz''] then Reply healthz s
      else if take 1 (path_segments (rq_escaped r)) = [''v1''] then
        (case Require H (sv_Auth sv) r of
           Unauthorized \<Rightarrow> Reply (http_Error (BText ''unauthorized'') StatusUnauthorized) s
         | Forbidden \<Rightarrow> Reply (http_Error (BText ''forbidden'') StatusForbidden) s
         | Pass role \<Rightarrow> admin_route sv (Some role) r flusher first_ok evs s)
      else Reply (http_Error (BText ''404 page not found'') StatusNotFound) s)"

lemma Admin_Handler_admin_route:
  "\<not> mux_cleans (rq_method r) (rq_escaped r) \<Longrightarrow> path_segments (rq_escaped r) = ''v1'' # seg # segs \<Longrightarrow> seg \<noteq> ''healthz'' \<Longrightarrow>
     Require H (sv_Auth sv) r = Pass role \<Longrightarrow>
     Admin_Handler H sv r fl fo evs s = admin_route sv (Some role) r fl fo evs s"
  by (simp add: Admin_Handler_def)

lemma Admin_Handler_ok_route:
  "Admin_Handler H sv r fl fo evs s = Reply rep s' \<Longrightarrow> rep_status rep = StatusOK \<Longrightarrow>
     path_segments (rq_escaped r) \<noteq> [''v1'', ''healthz''] \<Longrightarrow> Require H (sv_Auth sv) r = Pass role \<Longrightarrow>
     admin_route sv (Some role) r fl fo evs s = Reply rep s'"
  by (auto simp: Admin_Handler_def http_Error_def mux_redirect_def split: if_splits)

subsection \<open>What the admin plane guarantees\<close>

lemma Require_state:
  "Admin_Handler H sv r fl fo evs s = Reply rep s' \<Longrightarrow> s' \<noteq> s \<Longrightarrow>
     \<exists>role. Require H (sv_Auth sv) r = Pass role \<and> admin_route sv (Some role) r fl fo evs s = Reply rep s'"
  by (auto simp: Admin_Handler_def split: if_splits guarded.splits)

lemma admin_route_state:
  "admin_route sv role r fl fo evs s = Reply rep s' \<Longrightarrow> s' \<noteq> s \<Longrightarrow>
     rq_path r = ''/v1/credentials'' \<and> rq_method r = MethodPost \<and> importCredential sv (rq_body r) s = (rep, s') \<or>
     rq_path r = ''/v1/keys'' \<and> rq_method r = MethodPost \<and> createKey sv role (rq_body r) s = (rep, s') \<or>
     HasPrefix (rq_path r) ''/v1/keys/'' \<and> rq_method r = MethodDelete \<and> revokeKey sv (rq_path r) s = (rep, s')"
  by (auto simp: admin_route_def Let_def split: if_splits prod.splits)

text \<open>
  (C9) Only an authenticated request changes anything, and only by the three changing routes: if the stores
  differ after a request, it bore a token that an entry of the middleware accepts, and it was an
  import of a credential by a token that is not a provision token, a mint, or a revocation.
\<close>

theorem admin_changes_guarded:
  assumes "Admin_Handler H sv r flusher first_ok evs s = Reply rep s'" "s' \<noteq> s"
  shows "\<exists>tok e. admin_bearer (rq_header r) = Some tok \<and> e \<in> set (sv_Auth sv) \<and> argon_Verify H tok (te_sealed e) \<and>
    (rq_path r = ''/v1/credentials'' \<and> rq_method r = MethodPost \<and> te_role e \<noteq> RoleProvision \<or>
     rq_path r = ''/v1/keys'' \<and> rq_method r = MethodPost \<or>
     HasPrefix (rq_path r) ''/v1/keys/'' \<and> rq_method r = MethodDelete)"
proof -
  obtain role where role: "Require H (sv_Auth sv) r = Pass role"
    "admin_route sv (Some role) r flusher first_ok evs s = Reply rep s'"
    using Require_state [OF assms] by blast
  obtain tok where tok: "admin_bearer (rq_header r) = Some tok" "roleFor H (sv_Auth sv) tok = Some role"
    "role = RoleProvision \<longrightarrow> \<not> HasPrefix (rq_path r) ''/v1/credentials''"
    using Require_Pass [OF role(1)] by blast
  obtain e where "e \<in> set (sv_Auth sv)" "te_role e = role" "argon_Verify H tok (te_sealed e)"
    using roleFor_Some [OF tok(2)] by blast
  with tok admin_route_state [OF role(2) assms(2)] show ?thesis by auto
qed

text \<open>What the handlers that change the stores do to them: one store operation or nothing.\<close>

lemma importCredential_state:
  assumes "importCredential sv raw s = (rep, s')"
  obtains "s' = s"
  | p k x where "(case sv_OnImport sv of Some f \<Rightarrow> f p k s | None \<Rightarrow> sv_PutAPIKey sv p k s) = (x, s')"
  using assms unfolding importCredential_def Let_def by (auto split: option.splits sum.splits prod.splits if_splits)

lemma createKey_state:
  assumes "createKey sv role raw s = (rep, s')"
  obtains "s' = s" | name kind ttl scopes x where "sv_Create sv name kind ttl scopes s = (x, s')"
  using assms unfolding createKey_def Let_def by (auto split: option.splits sum.splits prod.splits if_splits)

lemma revokeKey_state:
  assumes "revokeKey sv path s = (rep, s')"
  obtains "s' = s" "rep_status rep \<noteq> StatusNoContent"
  | kid x where "path_id path ''/v1/keys/'' = Some kid" "sv_Revoke sv kid s = (x, s')"
      "rep_status rep = StatusNoContent \<longleftrightarrow> is_ok x"
  using assms unfolding revokeKey_def
  by (auto simp: http_Error_def split: option.splits sum.splits prod.splits if_splits)

text \<open>Only a revocation is answered with 204.\<close>

definition no_content_by :: "reply \<times> 's \<Rightarrow> 's admin_result \<Rightarrow> bool" where
  "no_content_by p x \<longleftrightarrow> (\<forall>rep s'. x = Reply rep s' \<longrightarrow> rep_status rep = StatusNoContent \<longrightarrow> p = (rep, s'))"

lemma no_content_by_if: "no_content_by p x \<Longrightarrow> no_content_by p y \<Longrightarrow> no_content_by p (if c then x else y)"
  by simp

lemma no_content_by_simps:
  "rep_status rep \<noteq> StatusNoContent \<Longrightarrow> no_content_by p (Reply rep s)"
  "no_content_by p (Stream rep cs)"
  by (auto simp: no_content_by_def)

lemma reply_statuses:
  "rep_status (http_Error x c) = c" "rep_status (json_reply j) = StatusOK" "rep_status healthz = StatusOK"
  "rep_status (listCredentials sv s) \<noteq> StatusNoContent" "rep_status (getCredential sv path s) \<noteq> StatusNoContent"
  "rep_status (snapshot sv s) \<noteq> StatusNoContent" "rep_status mux_redirect \<noteq> StatusNoContent"
  by (simp_all add: http_Error_def json_reply_def healthz_def mux_redirect_def listCredentials_def getCredential_def snapshot_def
      split: sum.split option.split)

lemma importCredential_status: "importCredential sv raw s = (rep, s') \<Longrightarrow> rep_status rep \<noteq> StatusNoContent"
  unfolding importCredential_def Let_def
  by (auto simp: reply_statuses split: option.splits sum.splits prod.splits if_splits)

lemma createKey_status: "createKey sv role raw s = (rep, s') \<Longrightarrow> rep_status rep \<noteq> StatusNoContent"
  unfolding createKey_def Let_def
  by (auto simp: reply_statuses split: option.splits sum.splits prod.splits if_splits)

lemma Admin_Handler_no_content: "no_content_by (revokeKey sv (rq_path r) s) (Admin_Handler H sv r fl fo evs s)"
proof -
  have leaf: "no_content_by (revokeKey sv (rq_path r) s) (case importCredential sv (rq_body r) s of (rep, s') \<Rightarrow> Reply rep s')"
    "no_content_by (revokeKey sv (rq_path r) s) (case createKey sv role (rq_body r) s of (rep, s') \<Rightarrow> Reply rep s')"
    "no_content_by (revokeKey sv (rq_path r) s) (case revokeKey sv (rq_path r) s of (rep, s') \<Rightarrow> Reply rep s')"
    "no_content_by (revokeKey sv (rq_path r) s) (case snapshotStream sv fl fo evs s of (rep, cs) \<Rightarrow> Stream rep cs)" for role
    by (auto simp: no_content_by_def dest: importCredential_status createKey_status split: prod.splits)
  have "no_content_by (revokeKey sv (rq_path r) s) (admin_route sv role r fl fo evs s)" for role
    unfolding admin_route_def Let_def
    by (intro no_content_by_if leaf no_content_by_simps) (simp_all add: reply_statuses)
  then show ?thesis
    unfolding Admin_Handler_def
    by (intro no_content_by_if) (simp_all add: no_content_by_simps reply_statuses split: guarded.split)
qed

lemma createKey_ok:
  assumes "createKey sv role raw s = (rep, s')" "rep_status rep = StatusOK"
  obtains ms kind ttl scopes secret kid where "decode_first raw = Some ms"
    "field_bool ''static'' ms \<and> role \<noteq> Some RoleProvision \<and> kind = KindStatic \<and> ttl = 0 \<or>
     \<not> field_bool ''static'' ms \<and> kind = KindIssued \<and>
       admin_ParseDuration (field_str ''ttl'' ms) (24 * Hour) (mp_MaxTTL (mint_policy sv role)) = Inr ttl"
    "ResolveScopes (mint_policy sv role) (if role = Some RoleProvision then [] else field_strs ''scopes'' ms) = Inr scopes"
    "sv_Create sv (field_str ''name'' ms) kind ttl scopes s = (Inr (secret, kid), s')"
    "rep = json_reply (JObj [(''id'', JNum (show_int kid)), (''key'', JStr secret)])"
proof -
  have bad: "rep_status (http_Error b c) = c" for b c by (simp add: http_Error_def)
  show ?thesis
    using assms that unfolding createKey_def Let_def
    by (auto simp: bad res_bind_Inr_iff split: option.splits if_splits sum.splits prod.splits)
qed

lemma provision_mint:
  assumes "createKey sv (Some RoleProvision) raw s = (rep, s')" "rep_status rep = StatusOK"
    "sv_ProvisionPolicy sv = ProvisionPolicyFromConfig f"
  shows "\<exists>name ttl secret kid. 0 < ttl \<and> ttl \<le> max (mp_MaxTTL (sv_ProvisionPolicy sv)) (24 * Hour) \<and>
    mp_Scopes (sv_ProvisionPolicy sv) \<noteq> [] \<and>
    sv_Create sv name KindIssued ttl (mp_Scopes (sv_ProvisionPolicy sv)) s = (Inr (secret, kid), s') \<and>
    rep = json_reply (JObj [(''id'', JNum (show_int kid)), (''key'', JStr secret)])"
proof -
  note p = ProvisionPolicy_props [of f, folded assms(3)]
  have pol: "mint_policy sv (Some RoleProvision) = sv_ProvisionPolicy sv"
    using p(2) by (simp add: mint_policy_def)
  obtain ms kind ttl scopes secret kid where c:
    "kind = KindIssued" "admin_ParseDuration (field_str ''ttl'' ms) (24 * Hour) (mp_MaxTTL (sv_ProvisionPolicy sv)) = Inr ttl"
    "ResolveScopes (sv_ProvisionPolicy sv) [] = Inr scopes"
    "sv_Create sv (field_str ''name'' ms) kind ttl scopes s = (Inr (secret, kid), s')"
    "rep = json_reply (JObj [(''id'', JNum (show_int kid)), (''key'', JStr secret)])"
    by (rule createKey_ok [OF assms(1,2)]) (auto simp: pol)
  have "scopes = mp_Scopes (sv_ProvisionPolicy sv)"
    using ResolveScopes_allowlist [OF p(1) c(3)] by simp
  moreover have "0 < ttl \<and> ttl \<le> max (mp_MaxTTL (sv_ProvisionPolicy sv)) (24 * Hour)"
    using admin_ParseDuration_bounds [OF c(2)] p(2) by (auto simp: duration_defs split: if_splits)
  ultimately show ?thesis using c p(3) by auto
qed

text \<open>
  What a provision token can mint: only keys that expire, with exactly the scopes the operator fixed
  for provisioning, whatever the request asks for, and with a lifetime of at most the configured
  limit or 24 hours, whichever is longer.
\<close>

lemma provision_mint_confined:
  assumes "createKey sv (Some RoleProvision) raw s = (rep, s')" "rep_status rep = StatusOK"
    "sv_ProvisionPolicy sv = ProvisionPolicyFromConfig f"
  shows "\<exists>name ttl secret kid. 0 < ttl \<and> ttl \<le> max (mp_MaxTTL (sv_ProvisionPolicy sv)) (24 * Hour) \<and>
    mp_Scopes (sv_ProvisionPolicy sv) \<noteq> [] \<and>
    sv_Create sv name KindIssued ttl (mp_Scopes (sv_ProvisionPolicy sv)) s = (Inr (secret, kid), s') \<and>
    rep = json_reply (JObj [(''id'', JNum (show_int kid)), (''key'', JStr secret)])"
  by (rule provision_mint [OF assms])

lemma decode_first_emit:
  "members_ok ms \<Longrightarrow> length (emit (JObj ms)) \<le> MaxRequestBody \<Longrightarrow> decode_first (emit (JObj ms)) = Some (members_utf8 ms)"
  using pval_emit [of "JObj ms" "[]" "json_fuel (emit (JObj ms))"]
  by (simp add: decode_first_def Let_def json_fuel_def delim_def del: emit.simps)

text \<open>A mint request that holds a name and nothing else.\<close>

lemma createKey_name_only:
  assumes "sv_ProvisionPolicy sv = ProvisionPolicyFromConfig f"
    "length (emit (JObj [(''name'', JStr name)])) \<le> MaxRequestBody"
    "sv_Create sv (to_utf8 name) KindIssued (24 * Hour) (mp_Scopes (sv_ProvisionPolicy sv)) s = (Inr (secret, kid), s')"
  shows "createKey sv (Some RoleProvision) (emit (JObj [(''name'', JStr name)])) s =
    (json_reply (JObj [(''id'', JNum (show_int kid)), (''key'', JStr secret)]), s')"
proof -
  note p = ProvisionPolicy_props [of f, folded assms(1)]
  have pol: "mint_policy sv (Some RoleProvision) = sv_ProvisionPolicy sv"
    using p(2) by (simp add: mint_policy_def)
  have ms: "decode_first (emit (JObj [(''name'', JStr name)])) = Some [(''name'', JStr (to_utf8 name))]"
    using decode_first_emit [of "[(''name'', JStr name)]"] assms(2) by (simp del: emit.simps)
  have fold: "json_fold ''name'' = ''NAME''" "json_fold ''static'' = ''STATIC''" "json_fold ''ttl'' = ''TTL''"
    "json_fold ''scopes'' = ''SCOPES''"
    by (simp_all add: bytes_def char_of_def bit_Suc_0_iff char_upper_def)
  have vals: "field_vals ''name'' [(''name'', JStr (to_utf8 name))] = [JStr (to_utf8 name)]" "field_vals ''static'' [(''name'', JStr (to_utf8 name))] = []"
    "field_vals ''ttl'' [(''name'', JStr (to_utf8 name))] = []" "field_vals ''scopes'' [(''name'', JStr (to_utf8 name))] = []"
    by (simp_all add: field_vals_Cons field_match_def fold del: json_fold.simps)
  have "ResolveScopes (sv_ProvisionPolicy sv) [] = Inr (mp_Scopes (sv_ProvisionPolicy sv))"
    using p(1,3) by (simp add: ResolveScopes_def)
  then show ?thesis
    using assms(3) by (simp add: createKey_def pol ms vals field_str_def field_bool_def set_str_def str_typed_def
        admin_ParseDuration_def del: emit.simps)
qed

text \<open>
  (C000) The limit on lifetimes does not bind the default: a mint request of the provision role that names the key and leaves
  out \<open>ttl\<close> gets a key of 24 hours, also where the operator limited keys to less.
\<close>

theorem omitted_ttl_ignores_limit:
  assumes "sv_ProvisionPolicy sv = ProvisionPolicyFromConfig f" "mp_MaxTTL (sv_ProvisionPolicy sv) < 24 * Hour"
    "length (emit (JObj [(''name'', JStr name)])) \<le> MaxRequestBody"
    "sv_Create sv (to_utf8 name) KindIssued (24 * Hour) (mp_Scopes (sv_ProvisionPolicy sv)) s = (Inr (secret, kid), s')"
  shows "createKey sv (Some RoleProvision) (emit (JObj [(''name'', JStr name)])) s =
    (json_reply (JObj [(''id'', JNum (show_int kid)), (''key'', JStr secret)]), s')"
  by (rule createKey_name_only [OF assms(1,3,4)])

text \<open>The generations a reader polled, and an event list in which nothing fails.\<close>

fun polled :: "stream_event list \<Rightarrow> int list" where
  "polled [] = []"
| "polled (PollTick (Inr m) w # evs) = sm_Generation m # polled evs"
| "polled (_ # evs) = polled evs"

fun stream_fine :: "stream_event \<Rightarrow> bool" where
  "stream_fine CtxDone = False"
| "stream_fine (KeepaliveTick w) = w"
| "stream_fine (PollTick r w) = (is_ok r \<and> w)"

fun chunk_gens :: "chunk list \<Rightarrow> int list" where
  "chunk_gens [] = []"
| "chunk_gens (KeepaliveChunk # cs) = chunk_gens cs"
| "chunk_gens (SnapshotChunk m # cs) = sm_Generation m # chunk_gens cs"

lemma stream_loop_gens:
  "list_all stream_fine evs \<Longrightarrow> g # chunk_gens (stream_loop g evs) = remdups_adj (g # polled evs)"
proof (induction evs arbitrary: g)
  case (Cons ev evs)
  show ?case
  proof (cases ev)
    case (PollTick r w)
    then obtain m where "r = Inr m" "w" using Cons.prems by (cases r) auto
    with Cons PollTick show ?thesis by auto
  qed (use Cons in auto)
qed simp

text \<open>
  (C11) The event stream reports every change of the generation once and nothing twice: while the client stays
  and no read or write fails, the generations sent are the generations polled, starting with the one
  read first, with adjacent repetitions removed.
\<close>

theorem stream_reports_changes:
  assumes "sv_SnapshotMeta sv s = Inr m" "list_all stream_fine evs"
  shows "chunk_gens (snd (snapshotStream sv True True evs s)) = remdups_adj (sm_Generation m # polled evs)"
  using stream_loop_gens [OF assms(2), of "sm_Generation m"] assms(1) by (simp add: snapshotStream_def)

subsection \<open>The server on the broker database\<close>

text \<open>The stores of the broker database, and the server \<^verbatim>\<open>gateway.New\<close> puts over them.\<close>

record broker =
  br_creds :: SQLite
  br_keys :: SQLStore

definition with_creds :: "('e, 'a) res \<times> SQLite \<Rightarrow> broker \<Rightarrow> ('e, 'a) res \<times> broker" where
  "with_creds p b = (fst p, b\<lparr>br_creds := snd p\<rparr>)"

definition with_keys :: "('e, 'a) res \<times> SQLStore \<Rightarrow> broker \<Rightarrow> ('e, 'a) res \<times> broker" where
  "with_keys p b = (fst p, b\<lparr>br_keys := snd p\<rparr>)"

definition broker_Server ::
  "gcm \<Rightarrow> idkey \<Rightarrow> store_env \<Rightarrow> create_env \<Rightarrow> Middleware \<Rightarrow> MintPolicy \<Rightarrow> MintPolicy \<Rightarrow> broker Server" where
  "broker_Server G H e ce auth keys provision =
     \<lparr>sv_ListSummaries = (\<lambda>b. SQLite_ListSummaries (st_ok1 e) (br_creds b)),
      sv_GetSummary = (\<lambda>i b. SQLite_GetSummary (st_ok2 e) i (br_creds b)),
      sv_SnapshotMeta = (\<lambda>b. SQLite_SnapshotMeta e (br_creds b)),
      sv_PutAPIKey = (\<lambda>p k b. with_creds (SQLite_PutAPIKey G e p k (br_creds b)) b),
      sv_Create = (\<lambda>name kind ttl scopes b. with_keys (SQL_Create H ce name kind ttl scopes (br_keys b)) b),
      sv_Revoke = (\<lambda>i b. with_keys (SQL_Revoke (ce_update_ok ce) i (br_keys b)) b),
      sv_OnImport = None, sv_Auth = auth, sv_KeyPolicy = keys, sv_ProvisionPolicy = provision\<rparr>"

definition demo_file :: "string \<Rightarrow> File" where
  "demo_file max_ttl =
     \<lparr>f_Serve_DataListen = '''', f_Serve_Catalog = '''', f_Admin_Listen = '''', f_Admin_Enable = None,
      f_Admin_Tokens_AdminEnv = '''', f_Admin_Tokens_ProvisionEnv = '''',
      f_Admin_Keys = \<lparr>mpc_MaxTTL = '''', mpc_Scopes = []\<rparr>,
      f_Admin_Provision = \<lparr>mpc_MaxTTL = max_ttl, mpc_Scopes = [''model:m'']\<rparr>,
      f_Credential_Backend = '''', f_Credential_Broker = '''', f_Credential_Encryption_KeyEnv = '''',
      f_Credential_Encryption_KeyFile = '''', f_Credential_BackendConfig = '''', f_Ingress_ClientAuth = '''',
      f_Ingress_Issuers = [], f_Adapters_Enable = [], f_CredentialProfiles = []\<rparr>"

definition demo_policy :: MintPolicy where
  "demo_policy = ProvisionPolicyFromConfig (Some (demo_file ''1h''))"

lemma demo_1h: "time_ParseDuration ''1h'' = Some Hour"
proof -
  have "dur_group ''1h'' = Some (3600000000000, [])"
    by (simp add: dur_group_def num_or_dot_def is_digit_def dec_val_def digit_val_def unit_map_def bytes_def)
  then show ?thesis
    by (simp add: time_ParseDuration_def duration_defs dur_groups.simps [of "''1h''"] dur_groups.simps [of "[]"])
qed

lemma demo_policy: "mp_MaxTTL demo_policy = Hour" "mp_Scopes demo_policy = [''model:m'']" "mp_RequireAllowlist demo_policy"
  by (simp_all add: demo_policy_def ProvisionPolicyFromConfig_def DefaultProvisionPolicy_def demo_file_def
      config_ttl_def config_scopes_def demo_1h duration_defs Let_def)

definition demo_auth :: Middleware where
  "demo_auth = [\<lparr>te_role = RoleProvision, te_sealed = the (argon_Seal demo_H (Some ''salt'') ''prov'')\<rparr>]"

definition demo_Server :: "broker Server" where
  "demo_Server = broker_Server demo_gcm demo_H demo_store_env demo_env demo_auth (KeysPolicyFromConfig None) demo_policy"

definition demo_broker :: broker where
  "demo_broker = \<lparr>br_creds = demo_vault, br_keys = NewSQLStore\<rparr>"

definition demo_minted :: broker where
  "demo_minted = demo_broker\<lparr>br_keys := snd (SQL_Create demo_H demo_env ''ci'' KindIssued (24 * Hour) [''model:m''] NewSQLStore)\<rparr>"

definition demo_mint_body :: string where
  "demo_mint_body = emit (JObj [(''name'', JStr ''ci'')])"

lemma demo_issue: "fst (SQL_Create demo_H demo_env ''ci'' KindIssued (24 * Hour) [''model:m''] NewSQLStore) = Inr (demo_secret, 1)"
  by (simp add: SQL_Create_def key_expiry_def KindIssued_def KindStatic_def SQL_insert_def demo_env_def NewSQLStore_def
      demo_format argon_Seal_def duration_defs)

lemma demo_sv_Create:
  "sv_Create demo_Server (to_utf8 ''ci'') KindIssued (24 * Hour) (mp_Scopes (sv_ProvisionPolicy demo_Server)) demo_broker =
    (Inr (demo_secret, 1), demo_minted)"
  by (simp add: demo_Server_def broker_Server_def demo_policy with_keys_def demo_broker_def demo_minted_def demo_issue)

lemma demo_body_short: "length (emit (JObj [(''name'', JStr ''ci'')])) \<le> MaxRequestBody"
  by (simp add: enc_str_def esc_char_def short_escapes_def quote_def MaxRequestBody_def)

lemma demo_ProvisionPolicy: "sv_ProvisionPolicy demo_Server = ProvisionPolicyFromConfig (Some (demo_file ''1h''))"
  by (simp add: demo_Server_def broker_Server_def demo_policy_def)

lemma demo_mint:
  "createKey demo_Server (Some RoleProvision) demo_mint_body demo_broker =
    (json_reply (JObj [(''id'', JNum (show_int 1)), (''key'', JStr demo_secret)]), demo_minted)"
  unfolding demo_mint_body_def
  by (rule createKey_name_only [OF demo_ProvisionPolicy demo_body_short demo_sv_Create])

theorem omitted_ttl_ignores_limit_witness:
  "mp_MaxTTL demo_policy = Hour \<and>
   createKey demo_Server (Some RoleProvision) (emit (JObj [(''name'', JStr ''ci'')])) demo_broker =
    (json_reply (JObj [(''id'', JNum (show_int 1)), (''key'', JStr demo_secret)]), demo_minted)"
  using omitted_ttl_ignores_limit [OF demo_ProvisionPolicy _ demo_body_short demo_sv_Create] demo_policy(1)
  by (simp add: demo_Server_def broker_Server_def duration_defs)

lemma provision_mint_confined_instance:
  "\<exists>name ttl secret kid. 0 < ttl \<and> ttl \<le> 24 * Hour \<and>
     sv_Create demo_Server name KindIssued ttl [''model:m''] demo_broker = (Inr (secret, kid), demo_minted)"
proof -
  have "sv_ProvisionPolicy demo_Server = demo_policy" by (simp add: demo_Server_def broker_Server_def)
  with provision_mint_confined [OF demo_mint _ demo_ProvisionPolicy] show ?thesis
    by (auto simp: json_reply_def demo_policy duration_defs)
qed

theorem stream_reports_changes_witness:
  "chunk_gens (snd (snapshotStream demo_Server True True
     [PollTick (Inr \<lparr>sm_Generation = 1, sm_GeneratedAt = 0, sm_ServerNowMs = 0\<rparr>) True, KeepaliveTick True,
      PollTick (Inr \<lparr>sm_Generation = 4, sm_GeneratedAt = 0, sm_ServerNowMs = 0\<rparr>) True] demo_broker)) = [1, 4]"
proof -
  have "OpenSQLite True demo_migrate (empty_db demo_key) = Inr demo_vault" by (rule demo_open)
  from empty_db_inv [OF demo_gcm_inverse demo_good(1) this demo_good(2)]
  have v: "SQLite_inv demo_gcm demo_vault" "SQLite_gen demo_vault = 1" by simp_all
  obtain m where m: "sv_SnapshotMeta demo_Server demo_broker = Inr m" "sm_Generation m = 1"
    using SQLite_snapshot_gen [OF v(1) demo_env_good] v(2)
    by (auto simp: demo_Server_def broker_Server_def demo_broker_def)
  show ?thesis
    using stream_reports_changes [OF m(1), of "[PollTick (Inr \<lparr>sm_Generation = 1, sm_GeneratedAt = 0, sm_ServerNowMs = 0\<rparr>) True,
        KeepaliveTick True, PollTick (Inr \<lparr>sm_Generation = 4, sm_GeneratedAt = 0, sm_ServerNowMs = 0\<rparr>) True]"] m(2)
    by simp
qed

definition demo_mint_request :: request where
  "demo_mint_request = \<lparr>rq_method = MethodPost, rq_path = ''/v1/keys'', rq_escaped = ''/v1/keys'', rq_query = [],
     rq_header = [(''Authorization'', [''Bearer prov''])], rq_body = demo_mint_body\<rparr>"

lemma demo_CanonicalKey: "CanonicalKey ''Authorization'' = ''Authorization''"
  by (simp add: CanonicalKey_def token_char_def char_upper_def char_lower_def Let_def)

lemma demo_admin_bearer: "admin_bearer (rq_header demo_mint_request) = Some ''prov''"
  by (simp add: admin_bearer_def demo_mint_request_def h_Get_def h_values_def demo_CanonicalKey gm_getd_def
      TrimPrefix_def TrimSpace_graphic graphic_def)

lemma demo_Require: "Require demo_H (sv_Auth demo_Server) demo_mint_request = Pass RoleProvision"
  using argon_Verify_Seal [of demo_H "''salt''" "''prov''"]
  by (simp add: Require_def demo_admin_bearer demo_Server_def broker_Server_def demo_auth_def argon_Seal_def)
    (simp add: demo_mint_request_def provisionDeny_def gm_keys_def)

lemma demo_mint_routed:
  "\<not> mux_cleans (rq_method demo_mint_request) (rq_escaped demo_mint_request)"
  "path_segments (rq_escaped demo_mint_request) = [''v1'', ''keys'']" "''keys'' \<noteq> ''healthz''"
  by (simp_all add: demo_mint_request_def path_eval)

theorem admin_changes_guarded_witness:
  "\<exists>tok e. admin_bearer (rq_header demo_mint_request) = Some tok \<and> e \<in> set demo_auth \<and> argon_Verify demo_H tok (te_sealed e)"
proof -
  have "Admin_Handler demo_H demo_Server demo_mint_request True True [] demo_broker =
    Reply (json_reply (JObj [(''id'', JNum (show_int 1)), (''key'', JStr demo_secret)])) demo_minted"
    using demo_mint Admin_Handler_admin_route [OF demo_mint_routed demo_Require] by (simp add: admin_route_def) (simp add: demo_mint_request_def)
  moreover have "demo_minted \<noteq> demo_broker"
  proof -
    have "ks_rows (br_keys demo_minted) \<noteq> []"
      by (simp add: demo_minted_def SQL_Create_def key_expiry_def KindIssued_def KindStatic_def SQL_insert_def demo_env_def
          NewSQLStore_def demo_format argon_Seal_def duration_defs SQL_update_def)
    moreover have "ks_rows (br_keys demo_broker) = []" by (simp add: demo_broker_def NewSQLStore_def)
    ultimately show ?thesis by metis
  qed
  ultimately show ?thesis
    using admin_changes_guarded [of demo_H demo_Server demo_mint_request True True "[]" demo_broker]
    by (fastforce simp: demo_Server_def broker_Server_def)
qed

end
