(* ===== verification/Inject.thy ===== *)
theory Inject
  imports GoHttp StorePayload "HOL-Library.Multiset"
begin

section \<open>Credential injection\<close>

text \<open>
  \<^verbatim>\<open>credential/inject/inject.go\<close> and \<^verbatim>\<open>spec.go\<close>: the client's credentials are removed from an outbound
  request and the upstream credential is written into its headers, from a preset or from the header
  templates of the catalog. The registry of OAuth presets is a map from names to functions on
  requests; \<^verbatim>\<open>RegisterOAuthPreset\<close> refuses a nil function, which is \<open>None\<close> here. The order of a \<open>Spec\<close>
  is the order in which one run of the loop visits the map.
\<close>

type_synonym Spec = "(string, string) gomap"
type_synonym oauth_presets = "(string, out_request \<Rightarrow> out_request) gomap"

record Route =
  rt_Spec :: Spec
  rt_Preset :: string

record AdapterDefault =
  ad_Spec :: Spec
  ad_Preset :: string

datatype inject_error =
    MissingPlaceholder string
  | UnsupportedPlaceholder string
  | InjectFailed string inject_error
  | EmptyAfterSubstitution string
  | UnknownPreset string Kind
  | PresetNotForOAuth

definition RegisterOAuthPreset :: "string \<Rightarrow> (out_request \<Rightarrow> out_request) option \<Rightarrow> oauth_presets \<Rightarrow> oauth_presets" where
  "RegisterOAuthPreset name fn presets =
     (let key = ToLower (TrimSpace name) in
      case fn of
        None \<Rightarrow> presets
      | Some f \<Rightarrow> if key = '''' then presets else gm_set key f presets)"

definition set_header :: "string \<Rightarrow> string \<Rightarrow> out_request \<Rightarrow> out_request" where
  "set_header k v r = r\<lparr>or_header := h_Set k v (or_header r)\<rparr>"

definition CopyHeaders :: "out_request \<Rightarrow> header \<Rightarrow> out_request" where
  "CopyHeaders dst src = dst\<lparr>or_header := h_add_all (or_header dst) src\<rparr>"

definition StripClient :: "out_request \<Rightarrow> out_request" where
  "StripClient r = r\<lparr>or_header := h_Del ''X-Api-Key'' (h_Del ''x-api-key'' (h_Del ''Authorization'' (or_header r)))\<rparr>"

definition applyAPIKey :: "string \<Rightarrow> out_request \<Rightarrow> string \<Rightarrow> out_request" where
  "applyAPIKey key0 r preset0 =
     (let key = TrimSpace key0; preset = ToLower (TrimSpace preset0) in
      if preset = '''' \<or> preset = ''bearer'' then set_header ''Authorization'' (''Bearer '' @ key) r
      else if preset = ''x-api-key'' then set_header ''x-api-key'' key r
      else set_header ''Authorization'' (''Bearer '' @ key) r)"

definition applyOAuthPreset :: "oauth_presets \<Rightarrow> string \<Rightarrow> out_request \<Rightarrow> out_request" where
  "applyOAuthPreset presets preset r =
     (if preset = '''' then r
      else case gm_get presets preset of None \<Rightarrow> r | Some fn \<Rightarrow> fn r)"

definition applyPreset :: "oauth_presets \<Rightarrow> Material \<Rightarrow> out_request \<Rightarrow> string \<Rightarrow> out_request" where
  "applyPreset presets m r preset0 =
     (let preset = ToLower (TrimSpace preset0) in
      if mat_Kind m = KindAPIKey then applyAPIKey (mat_APIKey m) r preset
      else if mat_Kind m = KindOAuth then
        applyOAuthPreset presets preset (set_header ''Authorization'' (''Bearer '' @ TrimSpace (mat_AccessToken m)) r)
      else r)"

definition Apply :: "oauth_presets \<Rightarrow> Material \<Rightarrow> out_request \<Rightarrow> string \<Rightarrow> out_request" where
  "Apply presets m r preset = applyPreset presets m (StripClient r) preset"

definition applyCatalogPreset :: "Material \<Rightarrow> out_request \<Rightarrow> string \<Rightarrow> (inject_error, out_request) res" where
  "applyCatalogPreset m r preset0 =
     (let preset = ToLower (TrimSpace preset0) in
      if mat_Kind m = KindAPIKey then
        (let key = TrimSpace (mat_APIKey m) in
         if preset = '''' \<or> preset = ''bearer'' then Inr (set_header ''Authorization'' (''Bearer '' @ key) r)
         else if preset = ''x-api-key'' then Inr (set_header ''x-api-key'' key r)
         else Inl (UnknownPreset preset KindAPIKey))
      else if mat_Kind m = KindOAuth then
        (if preset = '''' \<or> preset = ''bearer''
         then Inr (set_header ''Authorization'' (''Bearer '' @ TrimSpace (mat_AccessToken m)) r)
         else if preset = ''x-api-key'' then Inl PresetNotForOAuth
         else Inl (UnknownPreset preset KindOAuth))
      else Inr r)"

subsection \<open>Header templates\<close>

definition ph_key :: string where "ph_key = ''${key}''"
definition ph_access :: string where "ph_access = ''${access}''"
definition ph_account :: string where "ph_account = ''${accountId}''"
definition ph_project :: string where "ph_project = ''${projectId}''"

definition materialValues :: "Material \<Rightarrow> string \<times> string \<times> string \<times> string" where
  "materialValues m =
     (if mat_Kind m = KindAPIKey then (TrimSpace (mat_APIKey m), '''', '''', '''')
      else if mat_Kind m = KindOAuth
        then ('''', TrimSpace (mat_AccessToken m), Extra m ''account_id'', Extra m ''project_id'')
      else ('''', '''', '''', ''''))"

text \<open>One of the four replacements of \<open>substitute\<close>.\<close>

definition subst_one :: "string \<Rightarrow> string \<Rightarrow> string \<Rightarrow> (inject_error, string) res" where
  "subst_one ph val out =
     (if Contains out ph then
        (if val = '''' then Inl (MissingPlaceholder ph) else Inr (ReplaceAll out ph val))
      else Inr out)"

definition substitute :: "string \<Rightarrow> string \<times> string \<times> string \<times> string \<Rightarrow> (inject_error, string) res" where
  "substitute tmpl = (\<lambda>(key, access, accountID, projectID).
     res_bind (subst_one ph_key key tmpl) (\<lambda>o1.
     res_bind (subst_one ph_access access o1) (\<lambda>o2.
     res_bind (subst_one ph_account accountID o2) (\<lambda>o3.
     res_bind (subst_one ph_project projectID o3) (\<lambda>o4.
       if Contains o4 ''${'' then Inl (UnsupportedPlaceholder tmpl) else Inr o4)))))"

definition canonicalHeader :: "string \<Rightarrow> string" where
  "canonicalHeader name =
     (let lower = ToLower (TrimSpace name) in
      if lower = ''authorization'' then ''Authorization''
      else if lower = ''x-api-key'' then ''X-Api-Key''
      else lower)"

text \<open>The value one entry of a spec gives its header.\<close>

definition spec_value :: "Material \<Rightarrow> string \<times> string \<Rightarrow> (inject_error, string) res" where
  "spec_value m = (\<lambda>(name, tmpl).
     (case substitute tmpl (materialValues m) of
        Inl e \<Rightarrow> Inl (InjectFailed name e)
      | Inr val \<Rightarrow> if val = '''' then Inl (EmptyAfterSubstitution name) else Inr val))"

fun spec_loop :: "Material \<Rightarrow> Spec \<Rightarrow> out_request \<Rightarrow> (inject_error, out_request) res" where
  "spec_loop m [] r = Inr r"
| "spec_loop m ((name, tmpl) # rest) r =
     (case spec_value m (name, tmpl) of
        Inl e \<Rightarrow> Inl e
      | Inr val \<Rightarrow> spec_loop m rest (set_header (canonicalHeader name) val r))"

definition ApplySpec :: "Material \<Rightarrow> out_request \<Rightarrow> Spec \<Rightarrow> (inject_error, out_request) res" where
  "ApplySpec m r spec = (if spec = [] then Inr r else spec_loop m spec r)"

definition ApplyRoute :: "Material \<Rightarrow> out_request \<Rightarrow> Route \<Rightarrow> AdapterDefault \<Rightarrow> (inject_error, out_request) res" where
  "ApplyRoute m r0 route adapterDefault =
     (let r = StripClient r0; preset = TrimSpace (rt_Preset route) in
      if rt_Spec route \<noteq> [] then ApplySpec m r (rt_Spec route)
      else if preset \<noteq> '''' then applyCatalogPreset m r preset
      else if ad_Spec adapterDefault \<noteq> [] then ApplySpec m r (ad_Spec adapterDefault)
      else applyCatalogPreset m r (ad_Preset adapterDefault))"

subsection \<open>Injection as a list of assignments\<close>

text \<open>
  What injection is meant to do, without the request: the material and the route alone determine a list of
  header assignments, or the error.
\<close>

definition preset_sets :: "Material \<Rightarrow> string \<Rightarrow> (inject_error, (string \<times> string) list) res" where
  "preset_sets m preset0 =
     (let preset = ToLower (TrimSpace preset0); bearer = preset \<in> {'''', ''bearer''} in
      if mat_Kind m = KindAPIKey then
        (if bearer then Inr [(''Authorization'', ''Bearer '' @ TrimSpace (mat_APIKey m))]
         else if preset = ''x-api-key'' then Inr [(''X-Api-Key'', TrimSpace (mat_APIKey m))]
         else Inl (UnknownPreset preset KindAPIKey))
      else if mat_Kind m = KindOAuth then
        (if bearer then Inr [(''Authorization'', ''Bearer '' @ TrimSpace (mat_AccessToken m))]
         else if preset = ''x-api-key'' then Inl PresetNotForOAuth
         else Inl (UnknownPreset preset KindOAuth))
      else Inr [])"

definition spec_sets :: "Material \<Rightarrow> Spec \<Rightarrow> (inject_error, (string \<times> string) list) res" where
  "spec_sets m spec = map_sum id (\<lambda>vs. zip (map (canonicalHeader \<circ> fst) spec) vs) (res_mapM (spec_value m) spec)"

definition route_sets :: "Material \<Rightarrow> Route \<Rightarrow> AdapterDefault \<Rightarrow> (inject_error, (string \<times> string) list) res" where
  "route_sets m route adapterDefault =
     (if rt_Spec route \<noteq> [] then spec_sets m (rt_Spec route)
      else if TrimSpace (rt_Preset route) \<noteq> '''' then preset_sets m (rt_Preset route)
      else if ad_Spec adapterDefault \<noteq> [] then spec_sets m (ad_Spec adapterDefault)
      else preset_sets m (ad_Preset adapterDefault))"

definition assign :: "(string \<times> string) list \<Rightarrow> out_request \<Rightarrow> out_request" where
  "assign sets r = fold (\<lambda>(k, v). set_header k v) sets r"

text \<open>The value the last assignment to a header gives it.\<close>

definition assigned :: "(string \<times> string) list \<Rightarrow> string \<Rightarrow> string option" where
  "assigned sets k = map_of (rev (map (\<lambda>(n, v). (CanonicalKey n, v)) sets)) (CanonicalKey k)"

lemma credential_headers [simp, header_simps]:
  "CanonicalKey ''Authorization'' = ''Authorization''"
  "CanonicalKey ''x-api-key'' = ''X-Api-Key''"
  "CanonicalKey ''X-Api-Key'' = ''X-Api-Key''"
  by (simp_all add: CanonicalKey_def token_char_def char_upper_def char_lower_def Let_def char_of_def bit_Suc_0_iff)

lemma assign_Cons [simp]: "assign ((k, v) # sets) r = assign sets (set_header k v r)"
  by (simp add: assign_def)

lemma assign_Nil [simp]: "assign [] r = r"
  by (simp add: assign_def)

lemma set_header_fields [simp]:
  "or_method (set_header k v r) = or_method r" "or_url (set_header k v r) = or_url r"
  "or_body (set_header k v r) = or_body r" "or_header (set_header k v r) = h_Set k v (or_header r)"
  by (simp_all add: set_header_def)

lemma assign_fields [simp]:
  "or_method (assign sets r) = or_method r" "or_url (assign sets r) = or_url r" "or_body (assign sets r) = or_body r"
  by (induction sets arbitrary: r) (auto simp: split_paired_all)

lemma assign_values:
  "h_values (or_header (assign sets r)) k = (case assigned sets k of Some v \<Rightarrow> [v] | None \<Rightarrow> h_values (or_header r) k)"
  by (induction sets arbitrary: r) (auto simp: split_paired_all assigned_def map_add_def split: option.splits)

lemma StripClient_values:
  "h_values (or_header (StripClient r)) k =
     (if CanonicalKey k \<in> {''Authorization'', ''X-Api-Key''} then [] else h_values (or_header r) k)"
  by (auto simp: StripClient_def)

lemma StripClient_fields [simp]:
  "or_method (StripClient r) = or_method r" "or_url (StripClient r) = or_url r" "or_body (StripClient r) = or_body r"
  by (simp_all add: StripClient_def)

lemma set_x_api_key: "set_header ''x-api-key'' v r = set_header ''X-Api-Key'' v r"
  by (simp add: set_header_def h_Set_def)

lemma applyCatalogPreset_sets: "applyCatalogPreset m r preset = map_sum id (\<lambda>sets. assign sets r) (preset_sets m preset)"
  by (simp add: applyCatalogPreset_def preset_sets_def Let_def set_x_api_key)

lemma spec_loop_sets: "spec_loop m spec r = map_sum id (\<lambda>sets. assign sets r) (spec_sets m spec)"
proof (induction spec arbitrary: r)
  case (Cons e spec)
  obtain n t where e: "e = (n, t)" by (cases e)
  show ?case
    using Cons.IH unfolding e
    by (cases "spec_value m (n, t)"; cases "res_mapM (spec_value m) spec") (simp_all add: spec_sets_def)
qed (simp add: spec_sets_def)

lemma ApplySpec_sets: "ApplySpec m r spec = map_sum id (\<lambda>sets. assign sets r) (spec_sets m spec)"
  by (simp add: ApplySpec_def spec_loop_sets spec_sets_def)

lemma preset_sets_trim [simp]: "preset_sets m (TrimSpace preset) = preset_sets m preset"
  by (simp add: preset_sets_def)

lemma ApplyRoute_sets:
  "ApplyRoute m r route ad = map_sum id (\<lambda>sets. assign sets (StripClient r)) (route_sets m route ad)"
  by (simp add: ApplyRoute_def route_sets_def Let_def ApplySpec_sets applyCatalogPreset_sets)

text \<open>
  (C000) The client's credentials stop at the gateway: an outbound request holds in \<open>Authorization\<close> and
  \<open>X-Api-Key\<close> only what the stored credential and the route put there, whatever the client sent in them;
  every other header the route does not set passes through, and injection fails or succeeds
  independently of the request.
\<close>

theorem client_credentials_stripped:
  "case route_sets m route ad of
     Inl e \<Rightarrow> ApplyRoute m r route ad = Inl e
   | Inr sets \<Rightarrow>
       (\<exists>r'. ApplyRoute m r route ad = Inr r' \<and> or_method r' = or_method r \<and> or_url r' = or_url r \<and> or_body r' = or_body r \<and>
         (\<forall>k. h_values (or_header r') k =
            (case assigned sets k of
               Some v \<Rightarrow> [v]
             | None \<Rightarrow> if CanonicalKey k \<in> {''Authorization'', ''X-Api-Key''} then [] else h_values (or_header r) k)))"
  by (auto simp: ApplyRoute_sets assign_values StripClient_values split: sum.splits option.splits)

subsection \<open>The order of a header map\<close>

lemma spec_sets_Inr_iff:
  "spec_sets m spec = Inr sets \<longleftrightarrow>
     (\<forall>e \<in> set spec. is_ok (spec_value m e)) \<and>
     sets = map (\<lambda>e. (canonicalHeader (fst e), projr (spec_value m e))) spec"
proof (induction spec arbitrary: sets)
  case (Cons e spec)
  show ?case
    using Cons.IH [of "tl sets"]
    by (cases "spec_value m e"; cases "res_mapM (spec_value m) spec") (auto simp: spec_sets_def)
qed (auto simp: spec_sets_def)

lemma assigned_perm:
  assumes "mset spec = mset spec'" "distinct (map (CanonicalKey \<circ> canonicalHeader \<circ> fst) spec)"
  shows "assigned (map (\<lambda>e. (canonicalHeader (fst e), f e)) spec) k = assigned (map (\<lambda>e. (canonicalHeader (fst e), f e)) spec') k"
proof -
  let ?g = "\<lambda>e. (CanonicalKey (canonicalHeader (fst e)), f e)"
  have "mset (map (CanonicalKey \<circ> canonicalHeader \<circ> fst) spec) = mset (map (CanonicalKey \<circ> canonicalHeader \<circ> fst) spec')"
    using assms(1) by simp
  with assms(2) have d: "distinct (map (CanonicalKey \<circ> canonicalHeader \<circ> fst) spec')"
    using mset_eq_imp_distinct_iff by blast
  have "gm_get (rev (map ?g spec)) = gm_get (rev (map ?g spec'))"
    by (rule gm_get_perm)
      (use assms d mset_eq_setD [OF assms(1)] in \<open>auto simp: gm_wf_def rev_map [symmetric] comp_def\<close>)
  from fun_cong [OF this, of "CanonicalKey k"] show ?thesis
    by (simp add: assigned_def gm_get_def comp_def)
qed

lemma map_sum_Inr_iff: "map_sum id f x = Inr y \<longleftrightarrow> (\<exists>z. x = Inr z \<and> y = f z)"
  by (cases x) auto

lemma is_ok_map_sum [simp]: "is_ok (map_sum id f x) = is_ok x"
  by (cases x) auto

lemma is_ok_iff: "is_ok x \<longleftrightarrow> (\<exists>y. x = Inr y)"
  by (cases x) auto

text \<open>
  (C18) The header map of the catalog is a Go map, so its order is open; the order does not matter as long as
  no two names denote the same header: with any order, injection succeeds or fails alike and gives
  each header the same values.
\<close>

theorem inject_order_independent:
  assumes "mset spec = mset spec'" "distinct (map (CanonicalKey \<circ> canonicalHeader \<circ> fst) spec)"
  shows "is_ok (ApplyRoute m r \<lparr>rt_Spec = spec, rt_Preset = p\<rparr> ad) = is_ok (ApplyRoute m r \<lparr>rt_Spec = spec', rt_Preset = p\<rparr> ad) \<and>
    (\<forall>r1 r2. ApplyRoute m r \<lparr>rt_Spec = spec, rt_Preset = p\<rparr> ad = Inr r1 \<longrightarrow>
       ApplyRoute m r \<lparr>rt_Spec = spec', rt_Preset = p\<rparr> ad = Inr r2 \<longrightarrow>
       h_values (or_header r1) = h_values (or_header r2))"
proof (cases "spec = []")
  case False

  have "spec' \<noteq> []" using False assms(1) by auto
  moreover have "set spec = set spec'" using assms(1) by (rule mset_eq_setD)
  ultimately show ?thesis
    using False assigned_perm [OF assms]
    by (simp add: ApplyRoute_sets route_sets_def is_ok_iff [of "spec_sets m _"] spec_sets_Inr_iff map_sum_Inr_iff
        assign_values fun_eq_iff)
qed (use assms in auto)

subsection \<open>Templates\<close>

text \<open>A template as it is meant: literal text and the four placeholders.\<close>

datatype piece = Lit string | Ph string

definition placeholders :: "string list" where
  "placeholders = [ph_key, ph_access, ph_account, ph_project]"

fun piece_ok :: "piece \<Rightarrow> bool" where
  "piece_ok (Lit l) = (CHR ''$'' \<notin> set l)"
| "piece_ok (Ph p) = (p \<in> set placeholders)"

fun render_piece :: "piece \<Rightarrow> string" where
  "render_piece (Lit l) = l"
| "render_piece (Ph p) = p"

definition render :: "piece list \<Rightarrow> string" where
  "render ps = concat (map render_piece ps)"

definition put :: "string \<Rightarrow> string \<Rightarrow> piece list \<Rightarrow> piece list" where
  "put ph v ps = map (\<lambda>x. if x = Ph ph then Lit v else x) ps"

lemmas ph_defs = ph_key_def ph_access_def ph_account_def ph_project_def

lemma placeholder_form: "p \<in> set placeholders \<Longrightarrow> \<exists>u. p = CHR ''$'' # u \<and> CHR ''$'' \<notin> set u"
  by (auto simp: placeholders_def ph_defs)

lemma placeholder_prefix:
  "p \<in> set placeholders \<Longrightarrow> q \<in> set placeholders \<Longrightarrow> prefix p (q @ r) \<longleftrightarrow> p = q"
  by (auto simp: placeholders_def ph_defs)

lemma Contains_Lit: "CHR ''$'' \<notin> set l \<Longrightarrow> Contains (l @ s) (CHR ''$'' # u) = Contains s (CHR ''$'' # u)"
  by (induction l) (auto simp: sublist_Cons_right)

lemma ReplaceAll_Lit:
  "CHR ''$'' \<notin> set l \<Longrightarrow> ReplaceAll (l @ s) (CHR ''$'' # u) v = l @ ReplaceAll s (CHR ''$'' # u) v"
  by (induction l) auto

lemma Contains_Ph:
  assumes "p \<in> set placeholders" "q \<in> set placeholders"
  shows "Contains (q @ s) p \<longleftrightarrow> p = q \<or> Contains s p"
proof -
  obtain u where q: "q = CHR ''$'' # u" "CHR ''$'' \<notin> set u" using placeholder_form assms(2) by blast
  obtain t where p: "p = CHR ''$'' # t" using placeholder_form assms(1) by blast
  have "Contains (q @ s) p \<longleftrightarrow> prefix p (q @ s) \<or> Contains (u @ s) p"
    by (simp add: q(1) sublist_Cons_right)
  then show ?thesis
    using placeholder_prefix [OF assms] Contains_Lit [OF q(2), of t s] p by simp
qed

lemma ReplaceAll_Ph:
  assumes "p \<in> set placeholders" "q \<in> set placeholders"
  shows "ReplaceAll (q @ s) p v = (if p = q then v else q) @ ReplaceAll s p v"
proof -
  obtain u where q: "q = CHR ''$'' # u" "CHR ''$'' \<notin> set u" using placeholder_form assms(2) by blast
  obtain t where p: "p = CHR ''$'' # t" using placeholder_form assms(1) by blast
  show ?thesis
  proof (cases "p = q")
    case True
    then show ?thesis by (simp add: q)
  next
    case False
    then have "\<not> prefix p (CHR ''$'' # u @ s)" using placeholder_prefix [OF assms, of s] by (simp add: q(1))
    then show ?thesis using False ReplaceAll_Lit [OF q(2), of s t v] by (simp add: q(1) p)
  qed
qed

lemma Contains_render:
  "list_all piece_ok ps \<Longrightarrow> p \<in> set placeholders \<Longrightarrow> Contains (render ps) p \<longleftrightarrow> Ph p \<in> set ps"
proof (induction ps)
  case Nil
  then show ?case using placeholder_form [of p] by (auto simp: render_def)
next
  case (Cons x ps)
  obtain t where p: "p = CHR ''$'' # t" using placeholder_form Cons.prems(2) by blast
  show ?case
    using Cons Contains_Ph [of p _ "render ps"] Contains_Lit [of _ t "render ps"]
    by (cases x) (auto simp: render_def p)
qed

lemma ReplaceAll_render:
  "list_all piece_ok ps \<Longrightarrow> p \<in> set placeholders \<Longrightarrow> ReplaceAll (render ps) p v = render (put p v ps)"
proof (induction ps)
  case (Cons x ps)
  obtain t where p: "p = CHR ''$'' # t" using placeholder_form Cons.prems(2) by blast
  show ?case
    using Cons ReplaceAll_Ph [of p _ "render ps" v] ReplaceAll_Lit [of _ "render ps" t v]
    by (cases x) (auto simp: render_def put_def p)
qed (simp add: render_def put_def)

lemma put_ok: "list_all piece_ok ps \<Longrightarrow> CHR ''$'' \<notin> set v \<Longrightarrow> list_all piece_ok (put p v ps)"
  by (auto simp: put_def list_all_iff)

lemma put_absent: "Ph p \<notin> set ps \<Longrightarrow> put p v ps = ps"
  by (induction ps) (auto simp: put_def)

lemma Ph_put: "Ph q \<in> set (put p v ps) \<longleftrightarrow> p \<noteq> q \<and> Ph q \<in> set ps"
  by (auto simp: put_def)

lemma subst_one_render:
  "list_all piece_ok ps \<Longrightarrow> p \<in> set placeholders \<Longrightarrow>
     subst_one p v (render ps) =
       (if Ph p \<in> set ps \<and> v = '''' then Inl (MissingPlaceholder p) else Inr (render (put p v ps)))"
  by (simp add: subst_one_def Contains_render ReplaceAll_render put_absent)

lemma render_no_ph:
  "list_all piece_ok ps \<Longrightarrow> (\<And>p. p \<in> set placeholders \<Longrightarrow> Ph p \<notin> set ps) \<Longrightarrow> CHR ''$'' \<notin> set (render ps)"
  unfolding render_def by (induction ps) (auto, metis piece_ok.simps render_piece.simps piece.exhaust)

text \<open>
  Templates mean what they say: a template of literal text and placeholders is expanded by putting each
  value for its placeholders at once, and fails exactly when it names a value the credential does not have,
  naming the first such placeholder in the order key, access token, account, project. (Literal text and
  values hold no dollar sign.)
\<close>

lemma substitute_exact:
  assumes "list_all piece_ok ps" "CHR ''$'' \<notin> set key \<union> set access \<union> set account \<union> set project"
  defines "vals \<equiv> [(ph_key, key), (ph_access, access), (ph_account, account), (ph_project, project)]"
  shows "substitute (render ps) (key, access, account, project) =
    (case find (\<lambda>(p, v). Ph p \<in> set ps \<and> v = '''') vals of
       Some (p, v) \<Rightarrow> Inl (MissingPlaceholder p)
     | None \<Rightarrow> Inr (concat (map (\<lambda>x. case x of Lit l \<Rightarrow> l | Ph p \<Rightarrow> the (map_of vals p)) ps)))"
proof -
  let ?p1 = "put ph_key key ps" and ?p2 = "put ph_access access (put ph_key key ps)"
  let ?p3 = "put ph_account account (put ph_access access (put ph_key key ps))"
  let ?p4 = "put ph_project project (put ph_account account (put ph_access access (put ph_key key ps)))"
  have mem: "ph_key \<in> set placeholders" "ph_access \<in> set placeholders" "ph_account \<in> set placeholders"
    "ph_project \<in> set placeholders" by (simp_all add: placeholders_def)
  have ne: "ph_key \<noteq> ph_access" "ph_key \<noteq> ph_account" "ph_key \<noteq> ph_project" "ph_access \<noteq> ph_account"
    "ph_access \<noteq> ph_project" "ph_account \<noteq> ph_project" by (simp_all add: ph_defs)
  have ok: "list_all piece_ok ?p1" "list_all piece_ok ?p2" "list_all piece_ok ?p3" "list_all piece_ok ?p4"
    using assms(1,2) by (simp_all add: put_ok)
  have "CHR ''$'' \<notin> set (render ?p4)"
    by (rule render_no_ph [OF ok(4)]) (auto simp: Ph_put placeholders_def)
  then have none: "\<not> Contains (render ?p4) ''${''" by (metis list.set_intros(1) set_mono_sublist subsetD)
  have exp: "render ?p4 = concat (map (\<lambda>x. case x of Lit l \<Rightarrow> l | Ph p \<Rightarrow> the (map_of vals p)) ps)"
    using assms(1) ne unfolding render_def put_def
    by (induction ps) (auto simp: vals_def placeholders_def split: piece.split)
  have "substitute (render ps) (key, access, account, project) =
    (case find (\<lambda>(p, v). Ph p \<in> set ps \<and> v = '''') vals of
       Some (p, v) \<Rightarrow> Inl (MissingPlaceholder p) | None \<Rightarrow> Inr (render ?p4))"
    using ne none by (simp add: substitute_def subst_one_render ok assms(1) mem vals_def Ph_put)
  then show ?thesis by (simp only: exp)
qed

subsection \<open>Instances\<close>

definition demo_key_material :: Material where
  "demo_key_material = (zero_Material ''openai'' KindAPIKey)\<lparr>mat_APIKey := ''sk-up''\<rparr>"

definition demo_spec :: Spec where
  "demo_spec = [(''Authorization'', ''Bearer ${key}''), (''x-org'', ''acme'')]"

definition demo_out :: out_request where
  "demo_out = \<lparr>or_method = ''POST'', or_url = ''http://up'', or_header = [(''Authorization'', [''Bearer sk-dg-1.x''])], or_body = None\<rparr>"

lemma demo_spec_names: "map (CanonicalKey \<circ> canonicalHeader \<circ> fst) demo_spec = [''Authorization'', ''X-Org'']"
  by (simp add: demo_spec_def canonicalHeader_def TrimSpace_graphic graphic_def ToLower_def char_lower_def Let_def
      char_of_def bit_Suc_0_iff)
    (simp add: CanonicalKey_def token_char_def char_upper_def char_lower_def Let_def char_of_def bit_Suc_0_iff)

theorem inject_order_independent_witness:
  "is_ok (ApplyRoute demo_key_material demo_out \<lparr>rt_Spec = demo_spec, rt_Preset = ''''\<rparr> \<lparr>ad_Spec = [], ad_Preset = ''''\<rparr>) =
   is_ok (ApplyRoute demo_key_material demo_out \<lparr>rt_Spec = rev demo_spec, rt_Preset = ''''\<rparr> \<lparr>ad_Spec = [], ad_Preset = ''''\<rparr>)"
  by (rule conjunct1 [OF inject_order_independent]) (simp_all add: demo_spec_names)

lemma substitute_exact_instance:
  "substitute ''Bearer ${access}'' ('''', ''tok'', '''', '''') = Inr ''Bearer tok''"
proof -
  have r: "''Bearer ${access}'' = render [Lit ''Bearer '', Ph ph_access]" by (simp add: render_def ph_defs)
  show ?thesis
    unfolding r by (subst substitute_exact) (simp_all add: placeholders_def ph_defs)
qed

end
