(* ===== verification/Upstream.thy ===== *)
theory Upstream
  imports Inject
begin

section \<open>The upstream side\<close>

text \<open>
  \<^verbatim>\<open>upstream/retry.go\<close>, \<^verbatim>\<open>url.go\<close> and \<^verbatim>\<open>relay.go\<close>: which results another pool member may be tried
  after, the URL of a hop, the copy of a response to the client, and the outbound call.
  An outbound call is a step of an interaction: \<open>fwd\<close> is a program that sends requests and goes on with
  the answers. Parsing of URLs (\<open>url_ok\<close>) and the propagation of trace headers (\<open>trace\<close>, the
  OpenTelemetry propagator called by \<^verbatim>\<open>observability.HTTPDo\<close>) are parameters.
\<close>

definition Retryable :: "int \<Rightarrow> bool \<Rightarrow> bool" where
  "Retryable status err =
     (if err then True
      else status \<in> {StatusPaymentRequired, StatusTooManyRequests, StatusBadGateway, StatusServiceUnavailable,
                     StatusGatewayTimeout})"

subsection \<open>URLs\<close>

definition JoinURL :: "string \<Rightarrow> string \<Rightarrow> string" where
  "JoinURL baseURL path0 =
     (let base = TrimRight (CHR ''/'') baseURL in
      if path0 = '''' \<or> path0 = ''/'' then base
      else
        (let path1 = (if \<not> HasPrefix path0 ''/'' then ''/'' @ path0 else path0);
             path2 = (if HasSuffix base ''/v1'' \<and> HasPrefix path1 ''/v1/'' then TrimPrefix path1 ''/v1'' else path1)
         in base @ path2))"

definition ImageUpstreamPath :: "string \<Rightarrow> string \<Rightarrow> string" where
  "ImageUpstreamPath baseURL ingressPath =
     (let base = TrimRight (CHR ''/'') baseURL in
      if ingressPath = ''/v1/images/generations'' then
        (if HasSuffix base ''/images'' then base @ ''/generations'' else JoinURL baseURL ingressPath)
      else if ingressPath = ''/v1/images/edits'' then
        (if HasSuffix base ''/images'' then base @ ''/edits'' else JoinURL baseURL ingressPath)
      else JoinURL baseURL ingressPath)"

definition VideoUpstreamPath :: "string \<Rightarrow> string \<Rightarrow> string" where
  "VideoUpstreamPath baseURL ingressPath =
     (let base = TrimRight (CHR ''/'') baseURL in
      if ingressPath = ''/v1/videos/generations'' then
        (if HasSuffix base ''/videos'' then base @ ''/generations'' else JoinURL baseURL ingressPath)
      else if ingressPath = ''/v1/videos/edits'' then
        (if HasSuffix base ''/videos'' then base @ ''/edits'' else JoinURL baseURL ingressPath)
      else if ingressPath = ''/v1/videos/extensions'' then
        (if HasSuffix base ''/videos'' then base @ ''/extensions'' else JoinURL baseURL ingressPath)
      else if HasPrefix ingressPath ''/v1/videos/'' then
        (if HasSuffix base ''/videos'' then base @ ''/'' @ TrimPrefix ingressPath ''/v1/videos/''
         else JoinURL baseURL ingressPath)
      else JoinURL baseURL ingressPath)"

subsection \<open>Copying a response\<close>

definition hopByHopHeaders :: "string list" where
  "hopByHopHeaders =
     [''Connection'', ''Keep-Alive'', ''Proxy-Authenticate'', ''Proxy-Authorization'', ''Te'', ''Trailer'',
      ''Transfer-Encoding'', ''Upgrade'']"

text \<open>\<^verbatim>\<open>textproto.TrimString\<close> removes blanks, tabs and line ends.\<close>

definition ascii_space :: "char \<Rightarrow> bool" where
  "ascii_space c \<longleftrightarrow> (of_char c :: nat) \<in> {32, 9, 10, 13}"

definition TrimString :: "string \<Rightarrow> string" where
  "TrimString s = rev (dropWhile ascii_space (rev (dropWhile ascii_space s)))"

text \<open>The names the first \<open>Connection\<close> value lists.\<close>

definition connection_names :: "header \<Rightarrow> string list" where
  "connection_names h =
     (let c = h_Get h ''Connection'' in
      if c = '''' then [] else filter (\<lambda>f. f \<noteq> '''') (map TrimString (Split (CHR '','') c)))"

definition removeHopByHopHeaders :: "header \<Rightarrow> header" where
  "removeHopByHopHeaders h = fold h_Del hopByHopHeaders (fold h_Del (connection_names h) h)"

datatype copy_error = CtxErr | ReadErr | WriteErr

text \<open>What reaches the client: the pieces written, each with a flag whether it was flushed.\<close>

record client_reply =
  cr_status :: int
  cr_header :: header
  cr_body :: "(string \<times> bool) list"
  cr_err :: "copy_error option"

text \<open>The lines of a stream, with their line ends, and what follows the last line end.\<close>

fun sse_lines :: "string \<Rightarrow> string list \<times> string" where
  "sse_lines [] = ([], [])"
| "sse_lines (c # s) =
     (case sse_lines s of
        (ls, rest) \<Rightarrow>
          (if c = CHR 0x0A then ([c] # ls, rest)
           else case ls of [] \<Rightarrow> ([], c # rest) | l # ls' \<Rightarrow> ((c # l) # ls', rest)))"

text \<open>
  One turn of the loop reads up to the next line end. \<open>cancelled i\<close> tells whether the context is done at turn
  \<open>i\<close>; \<open>wfail i\<close> is \<open>Some n\<close> when the write of turn \<open>i\<close> fails after \<open>n\<close> bytes.
\<close>

definition read_end :: "bool \<Rightarrow> copy_error option" where
  "read_end eof = (if eof then None else Some ReadErr)"

fun copySSE_loop ::
  "(nat \<Rightarrow> bool) \<Rightarrow> (nat \<Rightarrow> nat option) \<Rightarrow> bool \<Rightarrow> bool \<Rightarrow> nat \<Rightarrow> string list \<Rightarrow> string \<Rightarrow>
     (string \<times> bool) list \<times> copy_error option" where
  "copySSE_loop cancelled wfail fl eof i [] rest =
     (if cancelled i then ([], Some CtxErr)
      else if rest = '''' then ([], read_end eof)
      else case wfail i of
        Some n \<Rightarrow> ([(take n rest, False)], Some WriteErr)
      | None \<Rightarrow> ([(rest, fl)], read_end eof))"
| "copySSE_loop cancelled wfail fl eof i (l # ls) rest =
     (if cancelled i then ([], Some CtxErr)
      else case wfail i of
        Some n \<Rightarrow> ([(take n l, False)], Some WriteErr)
      | None \<Rightarrow>
          (case copySSE_loop cancelled wfail fl eof (Suc i) ls rest of
             (out, err) \<Rightarrow> ((l, fl) # out, err)))"

definition copySSE ::
  "(nat \<Rightarrow> bool) \<Rightarrow> (nat \<Rightarrow> nat option) \<Rightarrow> bool \<Rightarrow> string \<times> bool \<Rightarrow> (string \<times> bool) list \<times> copy_error option" where
  "copySSE cancelled wfail fl body =
     (case sse_lines (fst body) of (ls, rest) \<Rightarrow> copySSE_loop cancelled wfail fl (snd body) 0 ls rest)"

text \<open>\<^verbatim>\<open>io.Copy\<close>: everything the reader delivers, up to a write that fails after \<open>n\<close> bytes.\<close>

definition io_Copy :: "nat option \<Rightarrow> string \<times> bool \<Rightarrow> (string \<times> bool) list \<times> copy_error option" where
  "io_Copy wfail body =
     (case wfail of
        Some n \<Rightarrow> (if n < length (fst body) then ([(take n (fst body), False)], Some WriteErr)
                   else ([(fst body, False)], read_end (snd body)))
      | None \<Rightarrow> ([(fst body, False)], read_end (snd body)))"

record copy_env =
  ce_cancelled :: "nat \<Rightarrow> bool"
  ce_wfail :: "nat \<Rightarrow> nat option"
  ce_flusher :: bool

definition CopyResponse :: "copy_env \<Rightarrow> header \<Rightarrow> response \<Rightarrow> client_reply" where
  "CopyResponse env w resp =
     (let h = removeHopByHopHeaders (rs_header resp);
          out = (case rs_body resp of
                   None \<Rightarrow> ([], None)
                 | Some body \<Rightarrow>
                     (if Contains (h_Get (rs_header resp) ''Content-Type'') ''text/event-stream''
                      then copySSE (ce_cancelled env) (ce_wfail env) (ce_flusher env) body
                      else io_Copy (ce_wfail env 0) body))
      in \<lparr>cr_status = rs_status resp, cr_header = h_add_all w h, cr_body = fst out, cr_err = snd out\<rparr>)"

text \<open>\<^verbatim>\<open>DrainReader\<close> returns with whichever comes first, the end of the context or of the copy.\<close>

definition DrainReader :: "bool \<Rightarrow> string \<times> bool \<Rightarrow> copy_error option" where
  "DrainReader ctx_first body = (if ctx_first then Some CtxErr else read_end (snd body))"

subsection \<open>Outbound calls\<close>

datatype do_error = DoError

datatype fwd_error =
    ErrRequestURL
  | ErrInject inject_error
  | ErrUpstream
  | ErrRouteNotRegistered
  | ErrAdapter string

datatype fwd =
    Done "(fwd_error, response) res"
  | Do out_request "(do_error, response) res \<Rightarrow> fwd"

definition HTTPDo :: "(header \<Rightarrow> header) \<Rightarrow> out_request \<Rightarrow> fwd" where
  "HTTPDo trace req =
     Do (req\<lparr>or_header := trace (or_header req)\<rparr>)
       (\<lambda>r. Done (case r of Inl _ \<Rightarrow> Inl ErrUpstream | Inr resp \<Rightarrow> Inr resp))"

definition NewRequest :: "(string \<Rightarrow> bool) \<Rightarrow> string \<Rightarrow> string \<Rightarrow> string option \<Rightarrow> out_request option" where
  "NewRequest url_ok meth url body =
     (if url_ok url then Some \<lparr>or_method = meth, or_url = url, or_header = [], or_body = body\<rparr> else None)"

definition Relay ::
  "(string \<Rightarrow> bool) \<Rightarrow> (header \<Rightarrow> header) \<Rightarrow> oauth_presets \<Rightarrow> string \<Rightarrow> string \<Rightarrow> Material \<Rightarrow> string \<Rightarrow> string option \<Rightarrow> header \<Rightarrow> fwd" where
  "Relay url_ok trace presets baseURL path mat preset body headers =
     (case NewRequest url_ok MethodPost (JoinURL baseURL path) body of
        None \<Rightarrow> Done (Inl ErrRequestURL)
      | Some req \<Rightarrow> HTTPDo trace (Apply presets mat (CopyHeaders req headers) preset))"

subsection \<open>What the upstream side guarantees\<close>

lemma HasSuffix_append_slashes: "TrimRight c (s @ replicate n c) = TrimRight c s"
  by (induction n arbitrary: s) (simp_all add: replicate_append_same [symmetric] flip: append_assoc)

text \<open>
  Both styles of base URL work: with or without a final \<open>/v1\<close>, and with any number of final slashes, a
  base joins with a wire path to the same URL, with one slash in between and \<open>/v1\<close> once.
\<close>

lemma join_url_styles:
  assumes "b \<noteq> ''''" "\<not> HasSuffix b ''/''" "\<not> HasSuffix b ''/v1''"
  shows "JoinURL (b @ replicate n (CHR ''/'')) (''/v1/'' @ p) = b @ ''/v1/'' @ p \<and>
    JoinURL (b @ ''/v1'' @ replicate n (CHR ''/'')) (''/v1/'' @ p) = b @ ''/v1/'' @ p"
proof -
  have 1: "TrimRight (CHR ''/'') (b @ replicate n (CHR ''/'')) = b"
    using assms(2) by (simp add: HasSuffix_append_slashes TrimRight_id)
  have "\<not> HasSuffix (b @ ''/v1'') ''/''" by (simp add: suffix_def)
  then have 2: "TrimRight (CHR ''/'') (b @ ''/v1'' @ replicate n (CHR ''/'')) = b @ ''/v1''"
    using HasSuffix_append_slashes [of "CHR ''/''" "b @ ''/v1''" n] by (simp add: TrimRight_id)
  have "TrimPrefix (''/v1/'' @ p) ''/v1'' = ''/'' @ p"
    using TrimPrefix_append [of "''/v1''" "''/'' @ p"] by simp
  moreover have "HasSuffix (b @ ''/v1'') ''/v1''" by (simp add: suffix_def)
  ultimately show ?thesis using assms(3) unfolding JoinURL_def 1 2 Let_def by simp
qed

lemma join_url_styles_instance:
  "JoinURL ''https://h/v1/'' ''/v1/messages'' = ''https://h/v1/messages''"
  using join_url_styles [of "''https://h''" 1 "''messages''"] by (simp add: suffix_def Cons_eq_append_conv)

lemma fold_h_Del_values:
  "h_values (fold h_Del ns h) k = (if CanonicalKey k \<in> CanonicalKey ` set ns then [] else h_values h k)"
  by (induction ns arbitrary: h) auto

lemma fold_h_Del_canonical: "h_canonical h \<Longrightarrow> h_canonical (fold h_Del ns h)"
  by (induction ns arbitrary: h) auto

lemma removeHopByHop_values:
  "h_values (removeHopByHopHeaders h) k =
     (if CanonicalKey k \<in> CanonicalKey ` (set hopByHopHeaders \<union> set (connection_names h)) then [] else h_values h k)"
  by (auto simp: removeHopByHopHeaders_def fold_h_Del_values)

text \<open>
  RFC 7230: a header is hop-by-hop when it is one of the fixed names or one that any \<open>Connection\<close> value
  lists. \<open>late_option\<close>: it is hop-by-hop only because of a \<open>Connection\<close> value after the first.
\<close>

definition value_options :: "string list \<Rightarrow> string set" where
  "value_options vs = (\<Union>v \<in> set vs. CanonicalKey ` set (filter (\<lambda>f. f \<noteq> '''') (map TrimString (Split (CHR '','') v))))"

definition fixed_hop :: "string set" where
  "fixed_hop = CanonicalKey ` set hopByHopHeaders"

definition hop_by_hop :: "header \<Rightarrow> string \<Rightarrow> bool" where
  "hop_by_hop h k \<longleftrightarrow> CanonicalKey k \<in> fixed_hop \<union> value_options (h_values h ''Connection'')"

definition late_option :: "header \<Rightarrow> string \<Rightarrow> bool" where
  "late_option h k \<longleftrightarrow>
     CanonicalKey k \<in> value_options (drop 1 (h_values h ''Connection'')) -
       (fixed_hop \<union> value_options (take 1 (h_values h ''Connection'')))"

lemma value_options_append: "value_options (xs @ ys) = value_options xs \<union> value_options ys"
  by (simp add: value_options_def)

lemma connection_names_options:
  "CanonicalKey ` set (connection_names h) = value_options (take 1 (h_values h ''Connection''))"
proof -
  have "TrimString '''' = ''''" by (simp add: TrimString_def)
  then show ?thesis
    by (cases "h_values h ''Connection''") (auto simp: connection_names_def value_options_def h_Get_def Let_def)
qed

lemma hop_by_hop_relayed:
  "CanonicalKey k \<in> CanonicalKey ` (set hopByHopHeaders \<union> set (connection_names h)) \<longleftrightarrow>
     hop_by_hop h k \<and> \<not> late_option h k"
proof -
  have "value_options (h_values h ''Connection'') =
      value_options (take 1 (h_values h ''Connection'')) \<union> value_options (drop 1 (h_values h ''Connection''))"
    by (metis append_take_drop_id value_options_append)
  then show ?thesis
    unfolding image_Un connection_names_options fixed_hop_def [symmetric] hop_by_hop_def late_option_def by blast
qed

text \<open>
  (C000) A response reaches the client with its status; every end-to-end header keeps its values and their
  order, and every hop-by-hop header of RFC 7230 (the fixed names and the names a \<open>Connection\<close> value lists)
  is removed, with one exception: a header that only a \<open>Connection\<close> value after the first one lists is
  relayed with its values, although the comment in \<^verbatim>\<open>relay.go\<close> says hop-by-hop headers must not be.
\<close>

theorem copy_response_headers:
  assumes "h_canonical (rs_header resp)"
  shows "cr_status (CopyResponse env [] resp) = rs_status resp \<and>
    h_values (cr_header (CopyResponse env [] resp)) k =
      (if hop_by_hop (rs_header resp) k \<and> \<not> late_option (rs_header resp) k then [] else h_values (rs_header resp) k)"
proof -
  have "h_canonical (removeHopByHopHeaders (rs_header resp))"
    using assms by (simp add: removeHopByHopHeaders_def fold_h_Del_canonical)
  then show ?thesis
    unfolding hop_by_hop_relayed [symmetric]
    by (auto simp: CopyResponse_def Let_def h_add_all_values removeHopByHop_values)
qed

lemma sse_lines_concat: "sse_lines s = (ls, rest) \<Longrightarrow> concat ls @ rest = s"
  by (induction s arbitrary: ls rest) (auto split: prod.splits if_splits list.splits)

lemma sse_lines_ends: "sse_lines s = (ls, rest) \<Longrightarrow> \<forall>l \<in> set ls. \<exists>t. l = t @ [CHR 0x0A] \<and> CHR 0x0A \<notin> set t"
proof (induction s arbitrary: ls rest)
  case (Cons c s)
  obtain ls' rest' where s: "sse_lines s = (ls', rest')" by fastforce
  show ?case
  proof (cases "c = CHR 0x0A")
    case True
    with Cons.IH [OF s] Cons.prems s show ?thesis by auto
  next
    case False
    with Cons.IH [OF s] Cons.prems s show ?thesis
      by (auto split: list.splits)
  qed
qed simp

lemma sse_lines_rest: "sse_lines s = (ls, rest) \<Longrightarrow> CHR 0x0A \<notin> set rest"
  by (induction s arbitrary: ls rest) (auto split: prod.splits if_splits list.splits)

lemma copySSE_loop_prefix:
  "prefix (concat (map fst (fst (copySSE_loop cn wf0 fl eof i ls rest)))) (concat ls @ rest)"
proof (induction ls arbitrary: i)
  case (Cons l ls)
  then show ?case
    using Cons.IH [of "Suc i"]
    by (auto simp: case_prod_beta split: option.splits intro: prefix_order.trans [OF take_is_prefix])
qed (auto split: option.splits simp: take_is_prefix)

lemma copySSE_loop_none:
  "snd (copySSE_loop cn wf0 fl eof i ls rest) = None \<Longrightarrow>
     eof \<and> fst (copySSE_loop cn wf0 fl eof i ls rest) = map (\<lambda>l. (l, fl)) (ls @ (if rest = '''' then [] else [rest]))"
proof (induction ls arbitrary: i)
  case (Cons l ls)
  then show ?case using Cons.IH [of "Suc i"] by (auto simp: case_prod_beta split: option.splits if_splits)
qed (auto simp: read_end_def split: option.splits if_splits)

lemma copySSE_loop_fine:
  "(\<And>j. j \<le> i + length ls \<Longrightarrow> \<not> cn j \<and> wf0 j = None) \<Longrightarrow>
     copySSE_loop cn wf0 fl eof i ls rest = (map (\<lambda>l. (l, fl)) (ls @ (if rest = '''' then [] else [rest])), read_end eof)"
proof (induction ls arbitrary: i)
  case Nil
  from Nil [of i] show ?case by simp
next
  case (Cons l ls)
  have "copySSE_loop cn wf0 fl eof (Suc i) ls rest =
    (map (\<lambda>l. (l, fl)) (ls @ (if rest = '''' then [] else [rest])), read_end eof)"
    by (rule Cons.IH) (use Cons.prems in auto)
  with Cons.prems [of i] show ?case by simp
qed

text \<open>
  (C20) An event stream is relayed faithfully, line by line. Whatever happens, the client has received a prefix
  of the upstream body, in the same order and without changes. If the copy ends without an error, it received the whole
  body, every piece but the last one is one line, and every piece was flushed as it came (when the
  writer can flush); and that is what happens unless the client leaves, a write fails, or the
  upstream body ends with an error.
\<close>

theorem event_stream_relayed:
  fixes env :: copy_env and w :: header
  assumes "Contains (h_Get (rs_header resp) ''Content-Type'') ''text/event-stream''" "rs_body resp = Some (data, eof)"
  defines "out \<equiv> CopyResponse env w resp"
  shows "prefix (concat (map fst (cr_body out))) data \<and>
    (cr_err out = None \<longrightarrow> concat (map fst (cr_body out)) = data \<and>
       (\<forall>p \<in> set (cr_body out). snd p = ce_flusher env) \<and>
       (\<forall>p \<in> set (butlast (cr_body out)). \<exists>t. fst p = t @ [CHR 0x0A] \<and> CHR 0x0A \<notin> set t)) \<and>
    (eof \<and> (\<forall>i. \<not> ce_cancelled env i \<and> ce_wfail env i = None) \<longrightarrow> cr_err out = None)"
proof -
  obtain ls rest where s: "sse_lines data = (ls, rest)" by fastforce
  let ?l = "copySSE_loop (ce_cancelled env) (ce_wfail env) (ce_flusher env) eof 0 ls rest"
  have b: "cr_body out = fst ?l" "cr_err out = snd ?l"
    using assms by (simp_all add: out_def CopyResponse_def Let_def copySSE_def s)
  have 1: "prefix (concat (map fst (cr_body out))) data"
    using copySSE_loop_prefix [of _ _ _ _ 0 ls rest] sse_lines_concat [OF s] by (simp add: b)
  have 2: "concat (map fst (cr_body out)) = data \<and> (\<forall>p \<in> set (cr_body out). snd p = ce_flusher env) \<and>
      (\<forall>p \<in> set (butlast (cr_body out)). \<exists>t. fst p = t @ [CHR 0x0A] \<and> CHR 0x0A \<notin> set t)"
    if "cr_err out = None"
  proof -
    note e = copySSE_loop_none [OF that [unfolded b(2)], THEN conjunct2]
    have "butlast (map (\<lambda>l. (l, ce_flusher env)) (ls @ (if rest = '''' then [] else [rest]))) =
      map (\<lambda>l. (l, ce_flusher env)) (if rest = '''' then butlast ls else ls)"
      by (simp add: map_butlast)
    then show ?thesis
      using sse_lines_concat [OF s] sse_lines_ends [OF s]
      by (auto simp: b(1) e comp_def dest!: in_set_butlastD split: if_splits)
  qed
  have 3: "cr_err out = None" if "eof" "\<forall>i. \<not> ce_cancelled env i \<and> ce_wfail env i = None"
    using copySSE_loop_fine [of 0 ls "ce_cancelled env" "ce_wfail env"] that by (simp add: b(2) read_end_def)
  show ?thesis using 1 2 3 by blast
qed

subsection \<open>Instances\<close>

text \<open>A response with two \<open>Connection\<close> lines, of which only the first is looked at.\<close>

definition demo_response :: response where
  "demo_response =
     \<lparr>rs_status = 200,
      rs_header = [(''Connection'', [''Te'', ''X-Foo'']), (''X-Foo'', [''bar'']), (''Content-Type'', [''text/event-stream''])],
      rs_body = Some (''a'' @ [CHR 0x0A] @ ''b'', True)\<rparr>"

definition demo_copy_env :: copy_env where
  "demo_copy_env = \<lparr>ce_cancelled = (\<lambda>_. False), ce_wfail = (\<lambda>_. None), ce_flusher = True\<rparr>"

lemmas canonical_eval = CanonicalKey_def token_char_def char_upper_def char_lower_def Let_def char_of_def bit_Suc_0_iff

lemma demo_names:
  "CanonicalKey ''Connection'' = ''Connection''" "CanonicalKey ''X-Foo'' = ''X-Foo''"
  "CanonicalKey ''Content-Type'' = ''Content-Type''" "CanonicalKey ''Te'' = ''Te''"
  by (simp_all add: canonical_eval)

lemma hop_canonical: "fixed_hop = set hopByHopHeaders"
  by (simp add: fixed_hop_def hopByHopHeaders_def canonical_eval)

lemma demo_options:
  "h_values (rs_header demo_response) ''Connection'' = [''Te'', ''X-Foo'']"
  "value_options [''Te''] = {''Te''}" "value_options [''X-Foo''] = {''X-Foo''}"
  by (auto simp: demo_response_def h_values_def demo_names gm_getd_def value_options_def TrimString_def ascii_space_def)

theorem copy_response_headers_witness:
  "h_values (cr_header (CopyResponse demo_copy_env [] demo_response)) ''Content-Type'' = [''text/event-stream''] \<and>
   h_values (cr_header (CopyResponse demo_copy_env [] demo_response)) ''Connection'' = [] \<and>
   late_option (rs_header demo_response) ''X-Foo'' \<and>
   h_values (cr_header (CopyResponse demo_copy_env [] demo_response)) ''X-Foo'' = [''bar'']"
proof -
  have canonical: "h_canonical (rs_header demo_response)"
    by (simp add: demo_response_def h_canonical_def demo_names)
  have late: "late_option (rs_header demo_response) ''X-Foo''"
    by (simp add: late_option_def demo_options demo_names hop_canonical hopByHopHeaders_def)
  have hop: "\<not> late_option (rs_header demo_response) ''Connection''" "hop_by_hop (rs_header demo_response) ''Connection''"
    "\<not> hop_by_hop (rs_header demo_response) ''Content-Type''"
    using value_options_append [of "[''Te'']" "[''X-Foo'']"]
    by (simp_all add: late_option_def hop_by_hop_def demo_options demo_names hop_canonical hopByHopHeaders_def)
  have vals: "h_values (rs_header demo_response) ''X-Foo'' = [''bar'']"
    "h_values (rs_header demo_response) ''Content-Type'' = [''text/event-stream'']"
    by (simp_all add: demo_response_def h_values_def demo_names gm_getd_def)
  note relayed = copy_response_headers [OF canonical, THEN conjunct2, of demo_copy_env]
  show ?thesis by (simp add: relayed late hop vals)
qed

theorem event_stream_relayed_witness:
  "concat (map fst (cr_body (CopyResponse demo_copy_env [] demo_response))) = ''a'' @ [CHR 0x0A] @ ''b''"
proof -
  have "h_Get (rs_header demo_response) ''Content-Type'' = ''text/event-stream''"
    by (simp add: demo_response_def h_Get_def h_values_def demo_names gm_getd_def)
  then show ?thesis
    using event_stream_relayed [of demo_response "''a'' @ [CHR 0x0A] @ ''b''" True demo_copy_env "[]"]
    by (simp add: demo_response_def demo_copy_env_def)
qed

end
