(* ===== verification/Adapters.thy ===== *)
theory Adapters
  imports Catalog Upstream
begin

section \<open>Adapters and their registry\<close>

text \<open>
  \<^verbatim>\<open>adaptersdk/adapter.go\<close> and \<^verbatim>\<open>adaptersdk/handler\<close>: the registry of handlers the wires look their
  targets up in; \<^verbatim>\<open>passthrough\<close>: the stock handlers, which relay without transformation;
  \<^verbatim>\<open>compose/compose.go\<close>: the registry of the enabled adapters.
  A handler is a value with a protocol name and a \<open>Forward\<close> function, as in the interfaces of
  \<^verbatim>\<open>adaptersdk/handler\<close>; what \<open>Forward\<close> does is an interaction of type \<open>fwd\<close>. Adapters other than
  \<^verbatim>\<open>passthrough\<close> are linked by the operator: they are values of the type \<open>Adapter\<close>.
\<close>

record HandlerTarget =
  ht_Target :: Target
  ht_Material :: Material

text \<open>\<open>Chat\<close>, \<open>Embed\<close>, \<open>Speech\<close> and \<open>Transcription\<close>; \<open>Image\<close> and \<open>Video\<close> also take the ingress path.\<close>

record Handler =
  ha_Protocol :: string
  ha_Forward :: "HandlerTarget \<Rightarrow> string option \<Rightarrow> header \<Rightarrow> fwd"

record PathHandler =
  ph_Protocol :: string
  ph_Forward :: "HandlerTarget \<Rightarrow> string \<Rightarrow> string option \<Rightarrow> header \<Rightarrow> fwd"

record Registry =
  ChatHandlers :: "(string, Handler) gomap"
  EmbedHandlers :: "(string, Handler) gomap"
  ImageHandlers :: "(string, PathHandler) gomap"
  SpeechHandlers :: "(string, Handler) gomap"
  TranscriptionHandlers :: "(string, Handler) gomap"
  VideoHandlers :: "(string, PathHandler) gomap"
  ImageAdapters :: "(string, PathHandler) gomap"
  SpeechAdapters :: "(string, Handler) gomap"
  EmbedAdapters :: "(string, Handler) gomap"
  VideoAdapters :: "(string, PathHandler) gomap"
  ChatAdapters :: "(string, Handler) gomap"

definition NewRegistry :: Registry where
  "NewRegistry =
     \<lparr>ChatHandlers = [], EmbedHandlers = [], ImageHandlers = [], SpeechHandlers = [], TranscriptionHandlers = [],
      VideoHandlers = [], ImageAdapters = [], SpeechAdapters = [], EmbedAdapters = [], VideoAdapters = [],
      ChatAdapters = []\<rparr>"

definition RegisterChat :: "Handler \<Rightarrow> Registry \<Rightarrow> Registry" where
  "RegisterChat h reg = reg\<lparr>ChatHandlers := gm_set (ha_Protocol h) h (ChatHandlers reg)\<rparr>"

definition RegisterEmbed :: "Handler \<Rightarrow> Registry \<Rightarrow> Registry" where
  "RegisterEmbed h reg = reg\<lparr>EmbedHandlers := gm_set (ha_Protocol h) h (EmbedHandlers reg)\<rparr>"

definition RegisterImage :: "PathHandler \<Rightarrow> Registry \<Rightarrow> Registry" where
  "RegisterImage h reg = reg\<lparr>ImageHandlers := gm_set (ph_Protocol h) h (ImageHandlers reg)\<rparr>"

definition RegisterSpeech :: "Handler \<Rightarrow> Registry \<Rightarrow> Registry" where
  "RegisterSpeech h reg = reg\<lparr>SpeechHandlers := gm_set (ha_Protocol h) h (SpeechHandlers reg)\<rparr>"

definition RegisterTranscription :: "Handler \<Rightarrow> Registry \<Rightarrow> Registry" where
  "RegisterTranscription h reg = reg\<lparr>TranscriptionHandlers := gm_set (ha_Protocol h) h (TranscriptionHandlers reg)\<rparr>"

definition RegisterVideo :: "PathHandler \<Rightarrow> Registry \<Rightarrow> Registry" where
  "RegisterVideo h reg = reg\<lparr>VideoHandlers := gm_set (ph_Protocol h) h (VideoHandlers reg)\<rparr>"

definition RegisterImageAdapter :: "string \<Rightarrow> PathHandler \<Rightarrow> Registry \<Rightarrow> Registry" where
  "RegisterImageAdapter name h reg = reg\<lparr>ImageAdapters := gm_set name h (ImageAdapters reg)\<rparr>"

definition RegisterSpeechAdapter :: "string \<Rightarrow> Handler \<Rightarrow> Registry \<Rightarrow> Registry" where
  "RegisterSpeechAdapter name h reg = reg\<lparr>SpeechAdapters := gm_set name h (SpeechAdapters reg)\<rparr>"

definition RegisterEmbedAdapter :: "string \<Rightarrow> Handler \<Rightarrow> Registry \<Rightarrow> Registry" where
  "RegisterEmbedAdapter name h reg = reg\<lparr>EmbedAdapters := gm_set name h (EmbedAdapters reg)\<rparr>"

definition RegisterVideoAdapter :: "string \<Rightarrow> PathHandler \<Rightarrow> Registry \<Rightarrow> Registry" where
  "RegisterVideoAdapter name h reg = reg\<lparr>VideoAdapters := gm_set name h (VideoAdapters reg)\<rparr>"

definition RegisterChatAdapter :: "string \<Rightarrow> Handler \<Rightarrow> Registry \<Rightarrow> Registry" where
  "RegisterChatAdapter name h reg = reg\<lparr>ChatAdapters := gm_set name h (ChatAdapters reg)\<rparr>"

subsection \<open>Looking a target up\<close>

definition lookupHandler :: "(string, 'h) gomap \<Rightarrow> (string, 'h) gomap \<Rightarrow> Target \<Rightarrow> 'h option" where
  "lookupHandler adapterMap protocolMap t =
     (if tg_Adapter t \<noteq> '''' then gm_get adapterMap (tg_Adapter t) else gm_get protocolMap (tg_Protocol t))"

definition lookupChat :: "Registry \<Rightarrow> Target \<Rightarrow> Handler option" where
  "lookupChat reg t = lookupHandler (ChatAdapters reg) (ChatHandlers reg) t"

definition lookupEmbed :: "Registry \<Rightarrow> Target \<Rightarrow> Handler option" where
  "lookupEmbed reg t = lookupHandler (EmbedAdapters reg) (EmbedHandlers reg) t"

definition lookupImage :: "Registry \<Rightarrow> Target \<Rightarrow> PathHandler option" where
  "lookupImage reg t = lookupHandler (ImageAdapters reg) (ImageHandlers reg) t"

definition lookupSpeech :: "Registry \<Rightarrow> Target \<Rightarrow> Handler option" where
  "lookupSpeech reg t = lookupHandler (SpeechAdapters reg) (SpeechHandlers reg) t"

definition lookupTranscription :: "Registry \<Rightarrow> Target \<Rightarrow> Handler option" where
  "lookupTranscription reg t = lookupHandler [] (TranscriptionHandlers reg) t"

definition lookupVideo :: "Registry \<Rightarrow> Target \<Rightarrow> PathHandler option" where
  "lookupVideo reg t = lookupHandler (VideoAdapters reg) (VideoHandlers reg) t"

subsection \<open>The passthrough adapter\<close>

text \<open>What the handlers need of the client: the check of URLs and the propagator of trace headers.\<close>

record client =
  cl_url_ok :: "string \<Rightarrow> bool"
  cl_trace :: "header \<Rightarrow> header"

definition relay :: "client \<Rightarrow> HandlerTarget \<Rightarrow> string \<Rightarrow> string \<Rightarrow> string option \<Rightarrow> header \<Rightarrow> fwd" where
  "relay cl t meth path body hdr =
     (let url = (if HasPrefix path ''http://'' \<or> HasPrefix path ''https://'' then path
                 else JoinURL (tg_BaseURL (ht_Target t)) path)
      in case NewRequest (cl_url_ok cl) meth url body of
           None \<Rightarrow> Done (Inl ErrRequestURL)
         | Some req \<Rightarrow>
             (case ApplyRoute (ht_Material t) (CopyHeaders req hdr)
                     \<lparr>rt_Spec = tg_Inject (ht_Target t), rt_Preset = tg_InjectPreset (ht_Target t)\<rparr>
                     \<lparr>ad_Spec = [], ad_Preset = ''''\<rparr> of
                Inl e \<Rightarrow> Done (Inl (ErrInject e))
              | Inr req' \<Rightarrow> HTTPDo (cl_trace cl) req'))"

definition passthrough_forward :: "client \<Rightarrow> HandlerTarget \<Rightarrow> string \<Rightarrow> string option \<Rightarrow> header \<Rightarrow> fwd" where
  "passthrough_forward cl t path body hdr = relay cl t MethodPost path body hdr"

record ChatHandler =
  ch_ProtocolName :: string
  ch_WireID :: string
  ch_Path :: string

definition UpstreamPath :: "ChatHandler \<Rightarrow> string" where
  "UpstreamPath h =
     (if ch_Path h \<noteq> '''' then ch_Path h
      else if ch_WireID h = WireAnthropicMsg then ''/v1/messages''
      else ''/v1/chat/completions'')"

definition ChatHandler_of :: "client \<Rightarrow> ChatHandler \<Rightarrow> Handler" where
  "ChatHandler_of cl h =
     \<lparr>ha_Protocol = ch_ProtocolName h, ha_Forward = (\<lambda>t body hdr. passthrough_forward cl t (UpstreamPath h) body hdr)\<rparr>"

definition EmbedHandler :: "client \<Rightarrow> string \<Rightarrow> Handler" where
  "EmbedHandler cl name =
     \<lparr>ha_Protocol = name, ha_Forward = (\<lambda>t body hdr. passthrough_forward cl t ''/v1/embeddings'' body hdr)\<rparr>"

definition ImageHandler :: "client \<Rightarrow> string \<Rightarrow> PathHandler" where
  "ImageHandler cl name =
     \<lparr>ph_Protocol = name,
      ph_Forward = (\<lambda>t ingressPath body hdr.
        relay cl t MethodPost (ImageUpstreamPath (tg_BaseURL (ht_Target t)) ingressPath) body hdr)\<rparr>"

definition SpeechHandler :: "client \<Rightarrow> string \<Rightarrow> Handler" where
  "SpeechHandler cl name =
     \<lparr>ha_Protocol = name, ha_Forward = (\<lambda>t body hdr. relay cl t MethodPost ''/v1/audio/speech'' body hdr)\<rparr>"

definition TranscriptionHandler :: "client \<Rightarrow> string \<Rightarrow> Handler" where
  "TranscriptionHandler cl name =
     \<lparr>ha_Protocol = name, ha_Forward = (\<lambda>t body hdr. relay cl t MethodPost ''/v1/audio/transcriptions'' body hdr)\<rparr>"

definition VideoHandler :: "client \<Rightarrow> string \<Rightarrow> PathHandler" where
  "VideoHandler cl name =
     \<lparr>ph_Protocol = name,
      ph_Forward = (\<lambda>t ingressPath body hdr.
        relay cl t (if body = None then MethodGet else MethodPost)
          (VideoUpstreamPath (tg_BaseURL (ht_Target t)) ingressPath) body hdr)\<rparr>"

record Adapter =
  adp_Name :: string
  adp_Register :: "Registry \<Rightarrow> (string, Registry) res"

definition passthrough_Register :: "client \<Rightarrow> Registry \<Rightarrow> (string, Registry) res" where
  "passthrough_Register cl reg0 =
     (let chat = (\<lambda>name wire path. RegisterChat (ChatHandler_of cl \<lparr>ch_ProtocolName = name, ch_WireID = wire, ch_Path = path\<rparr>));
          reg1 = chat ''openai-chat-completions'' WireOpenAIChat '''' reg0;
          reg2 = chat ''anthropic-messages'' WireAnthropicMsg '''' reg1;
          reg3 = chat ''openai-responses'' WireOpenAIResponses ''/v1/responses'' reg2;
          reg4 = RegisterEmbed (EmbedHandler cl ''openai-embeddings'') reg3;
          reg5 = RegisterImage (ImageHandler cl ''openai-images'') reg4;
          reg6 = RegisterSpeech (SpeechHandler cl ''openai-tts'') reg5;
          reg7 = RegisterTranscription (TranscriptionHandler cl ''openai-transcriptions'') reg6;
          reg8 = RegisterVideo (VideoHandler cl ''openai-videos'') reg7
      in Inr reg8)"

definition passthrough :: "client \<Rightarrow> Adapter" where
  "passthrough cl = \<lparr>adp_Name = ''passthrough'', adp_Register = passthrough_Register cl\<rparr>"

subsection \<open>Composing a registry\<close>

datatype compose_error =
    RegisterFailed string string
  | NoAdaptersEnabled

definition DefaultAdapters :: "client \<Rightarrow> Adapter list" where
  "DefaultAdapters cl = [passthrough cl]"

definition registryEmpty :: "Registry \<Rightarrow> bool" where
  "registryEmpty reg \<longleftrightarrow>
     ChatHandlers reg = [] \<and> EmbedHandlers reg = [] \<and>
     ImageHandlers reg = [] \<and> SpeechHandlers reg = [] \<and> VideoHandlers reg = [] \<and>
     ImageAdapters reg = [] \<and> SpeechAdapters reg = [] \<and> EmbedAdapters reg = [] \<and>
     VideoAdapters reg = [] \<and> ChatAdapters reg = []"

definition enabled :: "string list \<Rightarrow> (string, bool) gomap" where
  "enabled enable = fold (\<lambda>name. gm_set (ToLower (TrimSpace name)) True) enable []"

fun register_loop :: "(string, bool) gomap \<Rightarrow> Adapter list \<Rightarrow> Registry \<Rightarrow> (compose_error, Registry) res" where
  "register_loop want [] reg = Inr reg"
| "register_loop want (a # rest) reg =
     (if \<not> gm_getd False want (ToLower (adp_Name a)) then register_loop want rest reg
      else case adp_Register a reg of
        Inl e \<Rightarrow> Inl (RegisterFailed (adp_Name a) e)
      | Inr reg' \<Rightarrow> register_loop want rest reg')"

definition FromConfig :: "client \<Rightarrow> string list \<Rightarrow> Adapter list \<Rightarrow> (compose_error, Registry) res" where
  "FromConfig cl enable available0 =
     (let available = (if available0 = [] then DefaultAdapters cl else available0) in
      case register_loop (enabled enable) available NewRegistry of
        Inl e \<Rightarrow> Inl e
      | Inr reg \<Rightarrow> if registryEmpty reg then Inl NoAdaptersEnabled else Inr reg)"

end
