(* ===== verification/GoRaw.thy ===== *)
theory GoRaw
  imports GoJson
begin

section \<open>Raw JSON values\<close>

text \<open>
  \<^verbatim>\<open>json.RawMessage\<close> keeps the text of a value, and the encoder writes it through \<^verbatim>\<open>appendCompact\<close>: white space
  between tokens is dropped, and in strings \<^verbatim>\<open><\<close>, \<^verbatim>\<open>>\<close>, \<^verbatim>\<open>&\<close>, U+2028 and U+2029 are escaped; everything else stays byte by
  byte: escapes, number literals, the order of members, duplicates, and bytes that are not UTF-8.
  \<open>cval\<close> is the parser of \<open>GoJson\<close> with this text as its result; \<open>raw_text\<close> says that a text stands for a value.
\<close>

text \<open>The rest of a string literal, closing quote included.\<close>

function cstr :: "string \<Rightarrow> (string \<times> string) option" where
  "cstr [] = None"
| "cstr (c # s) =
     (if c = CHR 0x22 then Some ([c], s)
      else if c = CHR 0x5C then
        (case pesc s of None \<Rightarrow> None | Some (p, t) \<Rightarrow> str_cons (c # take (length s - length t) s) (cstr t))
      else if (of_char c :: nat) < 32 then None
      else if rune_len (c # s) = 0 then str_cons [c] (cstr s)
      else if take 3 (c # s) = bytes [226, 128, 168] then str_cons (CHR 0x5C # ''u2028'') (cstr (drop 2 s))
      else if take 3 (c # s) = bytes [226, 128, 169] then str_cons (CHR 0x5C # ''u2029'') (cstr (drop 2 s))
      else str_cons (if c \<in> set ''<>&'' then esc_char c else take (rune_len (c # s)) (c # s))
             (cstr (drop (rune_len (c # s) - 1) s)))"
  by pat_completeness auto
termination
  by (relation "measure length") (auto dest: pesc_length)

definition cscalar :: "string \<Rightarrow> (string \<times> string) option" where
  "cscalar s =
     (if prefix quote s then str_cons quote (cstr (drop 1 s))
      else if prefix ''true'' s then Some (''true'', drop 4 s)
      else if prefix ''false'' s then Some (''false'', drop 5 s)
      else if prefix ''null'' s then Some (''null'', drop 4 s)
      else pnum s)"

fun cval :: "nat \<Rightarrow> string \<Rightarrow> (string \<times> string) option"
  and celems :: "nat \<Rightarrow> string \<Rightarrow> (string \<times> string) option"
  and cmembers :: "nat \<Rightarrow> string \<Rightarrow> (string \<times> string) option" where
  "cval 0 s = None"
| "cval (Suc n) s =
     (case skip_ws s of
        [] \<Rightarrow> None
      | c # r \<Rightarrow>
          (if c = CHR ''{'' then
             (if prefix ''}'' (skip_ws r) then Some (''{}'', drop 1 (skip_ws r)) else str_cons [c] (cmembers n r))
           else if c = CHR ''['' then
             (if prefix '']'' (skip_ws r) then Some (''[]'', drop 1 (skip_ws r)) else str_cons [c] (celems n r))
           else cscalar (c # r)))"
| "celems 0 s = None"
| "celems (Suc n) s =
     (case cval n s of
        None \<Rightarrow> None
      | Some (v, r) \<Rightarrow>
          (case skip_ws r of
             [] \<Rightarrow> None
           | c # t \<Rightarrow>
               (if c = CHR '','' then str_cons (v @ [c]) (celems n t)
                else if c = CHR '']'' then Some (v @ [c], t) else None)))"
| "cmembers 0 s = None"
| "cmembers (Suc n) s =
     (case skip_ws s of
        [] \<Rightarrow> None
      | q # r \<Rightarrow>
          (if q \<noteq> CHR 0x22 then None
           else case cstr r of
             None \<Rightarrow> None
           | Some (k, r1) \<Rightarrow>
               (if \<not> prefix '':'' (skip_ws r1) then None
                else case cval n (drop 1 (skip_ws r1)) of
                  None \<Rightarrow> None
                | Some (v, r2) \<Rightarrow>
                    (case skip_ws r2 of
                       [] \<Rightarrow> None
                     | c # t \<Rightarrow>
                         (if c = CHR '','' then str_cons (q # k @ '':'' @ v @ [c]) (cmembers n t)
                          else if c = CHR ''}'' then Some (q # k @ '':'' @ v @ [c], t) else None)))))"

declare cval.simps(2) [simp del] celems.simps(2) [simp del] cmembers.simps(2) [simp del]

text \<open>The members of an object in a map of raw messages: names are decoded, values are not.\<close>

fun rmembers :: "nat \<Rightarrow> string \<Rightarrow> ((string \<times> string) list \<times> string) option" where
  "rmembers 0 s = None"
| "rmembers (Suc n) s =
     (case skip_ws s of
        [] \<Rightarrow> None
      | q # r \<Rightarrow>
          (if q \<noteq> CHR 0x22 then None
           else case pstr r of
             None \<Rightarrow> None
           | Some (k, r1) \<Rightarrow>
               (if \<not> prefix '':'' (skip_ws r1) then None
                else case cval n (drop 1 (skip_ws r1)) of
                  None \<Rightarrow> None
                | Some (v, r2) \<Rightarrow>
                    (case skip_ws r2 of
                       [] \<Rightarrow> None
                     | c # t \<Rightarrow>
                         (if c = CHR '','' then map_option (\<lambda>(ms, t'). ((k, v) # ms, t')) (rmembers n t)
                          else if c = CHR ''}'' then Some ([(k, v)], t) else None)))))"

declare rmembers.simps(2) [simp del]

definition raw_members :: "string \<Rightarrow> (string \<times> string) list option" where
  "raw_members s =
     (case skip_ws s of
        [] \<Rightarrow> None
      | c # r \<Rightarrow>
          (if c \<noteq> CHR ''{'' then None
           else if prefix ''}'' (skip_ws r) then Some []
           else map_option fst (rmembers (json_fuel s) r)))"

fun emit_raw :: "(string \<times> string) list \<Rightarrow> string" where
  "emit_raw [] = []"
| "emit_raw [(k, t)] = enc_str k @ '':'' @ t"
| "emit_raw ((k, t) # m # ms) = enc_str k @ '':'' @ t @ '','' @ emit_raw (m # ms)"

subsection \<open>A compact text has the value of the text\<close>

text \<open>What follows a string literal does not change what its bytes mean.\<close>

lemma list_all_takeWhile: "n \<le> length s \<and> list_all P (take n s) \<longleftrightarrow> n \<le> length (takeWhile P s)"
proof (induction s arbitrary: n)
  case (Cons a s)
  then show ?case by (cases n) auto
qed auto

lemma rune_tail_takeWhile:
  "rune_tail n k s \<longleftrightarrow>
     k - 1 \<le> length (takeWhile cont_byte s) \<and> (1 < k \<longrightarrow> second_byte n (hd (takeWhile cont_byte s)))"
proof -
  have "1 < k \<Longrightarrow> k - 1 \<le> length (takeWhile cont_byte s) \<Longrightarrow> hd (takeWhile cont_byte s) = hd s"
    by (cases s) (auto split: if_splits)
  then show ?thesis
    unfolding rune_tail_def conj_assoc [symmetric] list_all_takeWhile by metis
qed

lemma rune_len_cong: "takeWhile cont_byte s = takeWhile cont_byte t \<Longrightarrow> rune_len (c # s) = rune_len (c # t)"
  by (simp add: rune_len_def rune_tail_takeWhile)

lemma cont_byte_start: "cont_byte c \<Longrightarrow> rune_len (c # s) = 0"
  by (auto simp: cont_byte_def rune_len_def rune_size_def)

lemma low_surrogate_start: "c \<noteq> CHR 0x5C \<Longrightarrow> low_surrogate (c # s) = None"
  by (auto simp: low_surrogate_def split: list.split)

text \<open>An escape sequence is copied; only a lone surrogate looks at what follows it.\<close>

lemma pesc_raw:
  assumes "pesc s = Some (p, t)"
  obtains e where "s = e @ t" "e = take (length s - length t) s" "hd e \<noteq> CHR ''u'' \<or> 5 \<le> length e" "e \<noteq> []"
    "\<forall>t'. (low_surrogate t = None \<longrightarrow> low_surrogate t' = None) \<longrightarrow> pesc (e @ t') = Some (p, t')"
proof -
  from assms obtain c s' where s: "s = c # s'" by (cases s) (auto simp: pesc_def)
  show ?thesis
  proof (cases "c = CHR ''u''")
    case False
    with assms s have "t = s'" by (auto simp: pesc_def)
    with False assms s show ?thesis by (intro that [of "[c]"]) (auto simp: pesc_def)
  next
    case True
    with assms s obtain h1 h2 h3 h4 t0 n where h: "s' = h1 # h2 # h3 # h4 # t0" "hex4 h1 h2 h3 h4 = Some n"
      by (auto simp: pesc_def split: list.splits option.splits)
    have p: "pesc (CHR ''u'' # h1 # h2 # h3 # h4 # x) =
        (if 55296 \<le> n \<and> n < 57344 then
           (case low_surrogate x of
              Some m \<Rightarrow>
                (if n < 56320
                 then Some (utf8 (65536 + (n - 55296) * 1024 + (m - 56320)), drop 6 x)
                 else Some (utf8 65533, x))
            | None \<Rightarrow> Some (utf8 65533, x))
         else Some (utf8 n, x))" for x
      using h(2) by (simp add: pesc_def)
    show ?thesis
    proof (cases "low_surrogate t0 = None \<or> \<not> (55296 \<le> n \<and> n < 56320)")
      case 1: True
      then have "t = t0" using assms True s h p [of t0] by (auto split: option.splits if_splits)
      with 1 assms True s h p show ?thesis
        by (intro that [of "c # h1 # h2 # h3 # h4 # []"]) (auto split: option.splits if_splits)
    next
      case False
      then obtain m where m: "low_surrogate t0 = Some m" "55296 \<le> n" "n < 56320" by auto
      then obtain b u l1 l2 l3 l4 t1 where t0: "t0 = b # u # l1 # l2 # l3 # l4 # t1"
        by (auto simp: low_surrogate_def split: list.splits)
      have low: "low_surrogate (b # u # l1 # l2 # l3 # l4 # x) = Some m" for x
        using m(1) by (simp add: low_surrogate_def t0)
      have "t = t1" using assms True s h p [of t0] m t0 by auto
      with assms True s h t0 m p low show ?thesis
        by (intro that [of "c # h1 # h2 # h3 # h4 # b # u # l1 # l2 # l3 # l4 # []"]) auto
    qed
  qed
qed

lemma low_surrogate_escape:
  assumes "hd e \<noteq> CHR ''u'' \<or> 5 \<le> length e" "e \<noteq> []" "low_surrogate (c # e @ t) = None"
  shows "low_surrogate (c # e @ t') = None"
proof (cases "hd e = CHR ''u''")
  case True
  with assms(1) obtain h1 h2 h3 h4 e' where "e = CHR ''u'' # h1 # h2 # h3 # h4 # e'"
    by (cases e; cases "tl e"; cases "tl (tl e)"; cases "tl (tl (tl e))"; cases "tl (tl (tl (tl e)))") auto
  with assms(3) show ?thesis by (simp add: low_surrogate_def)
next
  case False
  with assms(2) show ?thesis by (cases e) (auto simp: low_surrogate_def split: list.split)
qed

definition cstr_reads :: "string \<Rightarrow> string \<Rightarrow> string \<Rightarrow> bool" where
  "cstr_reads s t a \<longleftrightarrow>
     (\<forall>u. takeWhile cont_byte (t @ u) = takeWhile cont_byte s \<and> (low_surrogate s = None \<longrightarrow> low_surrogate (t @ u) = None) \<and>
       pstr (t @ u) = Some (a, u))"

lemma esc_html:
  assumes "c \<in> set ''<>&''"
  shows "takeWhile cont_byte (esc_char c @ s) = []" "low_surrogate (esc_char c @ s) = None"
proof -
  have "esc_char (CHR ''<'') = CHR 0x5C # ''u003c''" "esc_char (CHR ''>'') = CHR 0x5C # ''u003e''"
    "esc_char (CHR ''&'') = CHR 0x5C # ''u0026''"
    by (simp_all add: esc_char_def short_escapes_def hex_digit_def char_of_def bit_Suc_0_iff)
  moreover have "low_surrogate (CHR 0x5C # ''u003c'' @ s) = None" "low_surrogate (CHR 0x5C # ''u003e'' @ s) = None"
    "low_surrogate (CHR 0x5C # ''u0026'' @ s) = None"
    by (simp_all add: low_surrogate_def hex4_def hex_val_def)
  ultimately show "takeWhile cont_byte (esc_char c @ s) = []" "low_surrogate (esc_char c @ s) = None"
    using assms by (auto simp: cont_byte_def)
qed

lemma cstr_ok: "pstr s = Some (a, r) \<Longrightarrow> \<exists>t. cstr s = Some (t, r) \<and> cstr_reads s t a"
proof (induction s arbitrary: a rule: pstr.induct)
  case (2 c s)
  let ?k = "rune_len (c # s)"
  consider (quote) "c = CHR 0x22" | (esc) "c = CHR 0x5C"
    | (bad) "c \<noteq> CHR 0x22" "c \<noteq> CHR 0x5C" "\<not> (of_char c :: nat) < 32" "?k = 0"
    | (sep) x where "c \<noteq> CHR 0x22" "c \<noteq> CHR 0x5C" "\<not> (of_char c :: nat) < 32" "?k \<noteq> 0" "take 3 (c # s) = bytes [226, 128, x]"
        "x = 168 \<or> x = 169"
    | (html) "c \<noteq> CHR 0x22" "c \<noteq> CHR 0x5C" "\<not> (of_char c :: nat) < 32" "?k \<noteq> 0" "c \<in> set ''<>&''"
    | (rune) "c \<noteq> CHR 0x22" "c \<noteq> CHR 0x5C" "\<not> (of_char c :: nat) < 32" "?k \<noteq> 0" "c \<notin> set ''<>&''"
        "take 3 (c # s) \<noteq> bytes [226, 128, 168]" "take 3 (c # s) \<noteq> bytes [226, 128, 169]"
    using "2.prems" by (auto split: if_splits)
  then show ?case
  proof cases
    case quote
    with "2.prems" show ?thesis by (simp add: cstr_reads_def low_surrogate_start cont_byte_def)
  next
    case esc
    with "2.prems" obtain p t0 a' where p: "pesc s = Some (p, t0)" "pstr t0 = Some (a', r)" "a = p @ a'"
      by (auto simp: str_cons_Some split: option.splits)
    with esc obtain t' where t': "cstr t0 = Some (t', r)" "cstr_reads t0 t' a'"
      using "2.IH"(1) [OF _ _ p(1) refl p(2)] by auto
    obtain e where e: "s = e @ t0" "e = take (length s - length t0) s" "hd e \<noteq> CHR ''u'' \<or> 5 \<le> length e" "e \<noteq> []"
      "\<forall>x. (low_surrogate t0 = None \<longrightarrow> low_surrogate x = None) \<longrightarrow> pesc (e @ x) = Some (p, x)"
      by (rule pesc_raw [OF p(1)])
    have "cstr (c # s) = Some (c # e @ t', r)"
      using esc p(1) t'(1) e(2) [symmetric] by (simp add: str_cons_def)
    moreover have "cstr_reads (c # s) (c # e @ t') a"
    proof -
      have "pesc (e @ t' @ u) = Some (p, t' @ u)" for u
        using e(5) t'(2) by (auto simp: cstr_reads_def)
      moreover have "low_surrogate (c # s) = None \<Longrightarrow> low_surrogate (c # e @ t' @ u) = None" for u
        using low_surrogate_escape [OF e(3,4)] e(1) by simp
      ultimately show ?thesis
        using t'(2) esc p(3) by (simp add: cstr_reads_def str_cons_def cont_byte_def)
    qed
    ultimately show ?thesis by blast
  next
    case bad
    with "2.prems" obtain a' where a: "pstr s = Some (a', r)" "a = replacement @ a'" by (auto simp: str_cons_Some)
    obtain t' where t': "cstr s = Some (t', r)" "cstr_reads s t' a'" using "2.IH"(2) [OF bad a(1)] by blast
    have "rune_len (c # t' @ u) = 0" for u
      using t'(2) rune_len_cong [of "t' @ u" s c] bad(4) by (simp add: cstr_reads_def)
    with bad t' a show ?thesis by (simp add: cstr_reads_def str_cons_def low_surrogate_start)
  next
    case (sep x)
    then have k: "?k = 3" and c: "c = CHR 0xE2" using rune_len_separator [of "c # s" x] by (auto simp: bytes_def char_of_def bit_Suc_0_iff)
    from "2.prems" sep(1-4) obtain a' where a': "pstr (drop (?k - 1) s) = Some (a', r)" "a = take ?k (c # s) @ a'"
      by (auto simp: str_cons_Some)
    then have a: "pstr (drop 2 s) = Some (a', r)" "a = bytes [226, 128, x] @ a'"
      unfolding k sep(5) by simp_all
    from "2.IH"(3) [OF sep(1-4)] k a(1) obtain t' where t': "cstr (drop 2 s) = Some (t', r)" "cstr_reads (drop 2 s) t' a'"
      by auto
    let ?e = "CHR 0x5C # (if x = 168 then ''u2028'' else ''u2029'')"
    have "cstr (c # s) = Some (?e @ t', r)"
      using sep t'(1) by (auto simp: str_cons_def bytes_def simp del: take_Suc_Cons)
    moreover have "cstr_reads (c # s) (?e @ t') a"
      using t'(2) a(2) sep(6)
      by (auto simp: cstr_reads_def pesc_literals [simplified] str_cons_def c cont_byte_def low_surrogate_def hex4_def hex_val_def)
    ultimately show ?thesis by blast
  next
    case html
    then have ascii: "(of_char c :: nat) < 128" and k: "?k = 1" by auto
    with "2.prems" html(1-3) obtain a' where a: "pstr s = Some (a', r)" "a = c # a'"
      by (auto simp: str_cons_Some)
    from "2.IH"(3) [OF html(1-4)] k a(1) obtain t' where t': "cstr s = Some (t', r)" "cstr_reads s t' a'" by auto
    have "cstr (c # s) = Some (esc_char c @ t', r)"
      using html k t'(1) by (auto simp: str_cons_def bytes_def char_of_def)
    moreover have "cstr_reads (c # s) (esc_char c @ t') a"
      using t'(2) a(2) pstr_esc [OF ascii] esc_html [OF html(5)] ascii
      by (auto simp: cstr_reads_def str_cons_def cont_byte_def)
    ultimately show ?thesis by blast
  next
    case rune
    let ?p = "take ?k (c # s)"
    from "2.prems" rune(1-4) obtain a' where a: "pstr (drop (?k - 1) s) = Some (a', r)" "a = ?p @ a'"
      by (auto simp: str_cons_Some)
    from "2.IH"(3) [OF rune(1-4) a(1)] obtain t' where t': "cstr (drop (?k - 1) s) = Some (t', r)"
      "cstr_reads (drop (?k - 1) s) t' a'" by auto
    have "cstr (c # s) = Some (?p @ t', r)"
      using rune t'(1) by (simp add: str_cons_def del: take_Suc_Cons)
    moreover obtain p' where p': "?p = c # p'" using rune(4) by (cases ?k) auto
    moreover have "pstr (?p @ t' @ u) = Some (?p @ a', u)" for u
    proof (cases "(of_char c :: nat) < 128")
      case True
      with rune t'(2) show ?thesis by (simp add: cstr_reads_def str_cons_def)
    next
      case False
      with rune t'(2) pstr_rune [of c s "t' @ u"] show ?thesis by (simp add: cstr_reads_def str_cons_def)
    qed
    moreover have "\<not> cont_byte c" using cont_byte_start [of c s] rune(4) by auto
    ultimately show ?thesis
      using a(2) rune(2) by (auto simp: cstr_reads_def low_surrogate_start)
  qed
qed simp

text \<open>\<open>t\<close> is a compact text of the value \<open>v\<close>, at depth at most \<open>n\<close>.\<close>

definition value_text :: "nat \<Rightarrow> json \<Rightarrow> string \<Rightarrow> bool" where
  "value_text n v t \<longleftrightarrow> (\<exists>c t'. t = c # t' \<and> \<not> is_ws c \<and> c \<noteq> CHR '']'') \<and> (\<forall>r. delim r \<longrightarrow> pval n (t @ r) = Some (v, r))"

lemma cscalar_ok:
  assumes "pscalar s = Some (v, r)"
  obtains t where "cscalar s = Some (t, r)" "value_text (Suc n) v t"
proof -
  consider (str) a where "prefix quote s" "pstr (drop 1 s) = Some (a, r)" "v = JStr a"
    | (literal) l where "\<not> prefix quote s" "cscalar s = Some (l, r)" "l \<in> {''true'', ''false'', ''null''}"
        "v = (if l = ''null'' then JNull else JBool (l = ''true''))"
    | (num) l where "cscalar s = Some (l, r)" "pnum s = Some (l, r)" "v = JNum l"
    using assms by (auto simp: pscalar_def cscalar_def split: if_splits)
  then show ?thesis
  proof cases
    case str
    from cstr_ok [OF str(2)] obtain t where t: "cstr (drop 1 s) = Some (t, r)" "cstr_reads (drop 1 s) t a" by blast
    then have "pval (Suc n) (CHR 0x22 # t @ u) = Some (v, u)" for u
      using str(3) by (simp add: pval.simps(2) pscalar_def quote_def cstr_reads_def)
    with t str(1) show ?thesis
      by (intro that [of "quote @ t"]) (simp_all add: cscalar_def str_cons_def value_text_def quote_def)
  next
    case (literal l)
    then have l: "l = ''true'' \<or> l = ''false'' \<or> l = ''null''" by simp
    then have "pval (Suc n) (l @ u) = Some (v, u)" for u
      unfolding literal(4) by (elim disjE) (simp_all add: pval.simps(2) pscalar_def quote_def)
    moreover have "\<exists>c t'. l = c # t' \<and> \<not> is_ws c \<and> c \<noteq> CHR '']''" using l by (elim disjE) simp_all
    ultimately show ?thesis using that [OF literal(2)] unfolding value_text_def by blast
  next
    case (num l)
    have ok: "num_ok l" by (rule pnum_num_ok [OF num(2)])
    have "\<exists>c t'. l = c # t' \<and> \<not> is_ws c \<and> c \<noteq> CHR '']''"
      by (rule pscalar_num [OF ok, of "[]"]) (auto simp: delim_def)
    moreover have "pval (Suc n) (l @ u) = Some (v, u)" if "delim u" for u
      by (rule pscalar_num [OF ok that]) (simp add: pval.simps(2) num(3))
    ultimately show ?thesis using that [OF num(1)] unfolding value_text_def by blast
  qed
qed

text \<open>One step of the parser on elements and on members.\<close>

lemma pelems_step:
  assumes "pelems (Suc n) s = Some (vs, r)"
  obtains (last) v r1 where "pval n s = Some (v, r1)" "skip_ws r1 = CHR '']'' # r" "vs = [v]"
  | (more) v r1 t vs' where "pval n s = Some (v, r1)" "skip_ws r1 = CHR '','' # t" "pelems n t = Some (vs', r)" "vs = v # vs'"
  using assms that by (auto simp: pelems.simps(2) split: option.splits list.splits if_splits)

lemma pmembers_step:
  assumes "pmembers (Suc n) s = Some (ms, r)"
  obtains (last) r0 k r1 u v r2 where "skip_ws s = CHR 0x22 # r0" "pstr r0 = Some (k, r1)" "skip_ws r1 = CHR '':'' # u"
      "pval n u = Some (v, r2)" "skip_ws r2 = CHR ''}'' # r" "ms = [(k, v)]"
  | (more) r0 k r1 u v r2 t ms' where "skip_ws s = CHR 0x22 # r0" "pstr r0 = Some (k, r1)" "skip_ws r1 = CHR '':'' # u"
      "pval n u = Some (v, r2)" "skip_ws r2 = CHR '','' # t" "pmembers n t = Some (ms', r)" "ms = (k, v) # ms'"
proof -
  obtain r0 where a: "skip_ws s = CHR 0x22 # r0"
    using assms by (auto simp: pmembers.simps(2) split: list.splits if_splits)
  with assms obtain k r1 where b: "pstr r0 = Some (k, r1)" "prefix '':'' (skip_ws r1)"
    by (auto simp: pmembers.simps(2) split: option.splits if_splits)
  then obtain u where c: "skip_ws r1 = CHR '':'' # u" by (auto simp: prefix_def)
  from assms a b obtain v r2 where d: "pval n u = Some (v, r2)"
    by (auto simp: pmembers.simps(2) c split: option.splits)
  from assms a b d show ?thesis
    using last [OF a b(1) c d] more [OF a b(1) c d]
    by (auto simp: pmembers.simps(2) c split: list.splits if_splits)
qed

lemma cval_ok: "pval n s = Some (v, r) \<Longrightarrow> \<exists>t. cval n s = Some (t, r) \<and> value_text n v t"
  and celems_ok: "pelems n s = Some (vs, r) \<Longrightarrow>
    \<exists>t. celems n s = Some (t, r) \<and> (\<exists>c t'. t = c # t' \<and> \<not> is_ws c \<and> c \<noteq> CHR '']'') \<and> (\<forall>u. pelems n (t @ u) = Some (vs, u))"
  and cmembers_ok: "pmembers n s = Some (ms, r) \<Longrightarrow>
    \<exists>t. cmembers n s = Some (CHR 0x22 # t, r) \<and> (\<forall>u. pmembers n (CHR 0x22 # t @ u) = Some (ms, u))"
proof (induction n arbitrary: s v r vs ms)
  case 0
  { case 1 then show ?case by simp }
  { case 2 then show ?case by simp }
  { case 3 then show ?case by simp }
next
  case (Suc n)
  { case 1
    obtain c r0 where s: "skip_ws s = c # r0" using 1 by (auto simp: pval.simps(2) split: list.splits)
    consider (obj0) "c = CHR ''{''" "prefix ''}'' (skip_ws r0)" | (obj) "c = CHR ''{''" "\<not> prefix ''}'' (skip_ws r0)"
      | (arr0) "c = CHR ''[''" "prefix '']'' (skip_ws r0)" | (arr) "c = CHR ''[''" "\<not> prefix '']'' (skip_ws r0)"
      | (scalar) "c \<noteq> CHR ''{''" "c \<noteq> CHR ''[''" by blast
    then show ?case
    proof cases
      case obj0
      with 1 s show ?thesis by (auto simp: pval.simps(2) cval.simps(2) value_text_def)
    next
      case obj
      with 1 s obtain ms where ms: "pmembers n r0 = Some (ms, r)" "v = JObj ms" by (auto simp: pval.simps(2))
      from Suc.IH(3) [OF ms(1)] obtain t where t: "cmembers n r0 = Some (CHR 0x22 # t, r)"
        "\<forall>u. pmembers n (CHR 0x22 # t @ u) = Some (ms, u)" by blast
      with obj s ms(2) show ?thesis by (simp add: cval.simps(2) str_cons_def value_text_def pval.simps(2))
    next
      case arr0
      with 1 s show ?thesis by (auto simp: pval.simps(2) cval.simps(2) value_text_def)
    next
      case arr
      with 1 s obtain vs where vs: "pelems n r0 = Some (vs, r)" "v = JArr vs" by (auto simp: pval.simps(2))
      from Suc.IH(2) [OF vs(1)] obtain t c' t' where t: "celems n r0 = Some (t, r)" "t = c' # t'" "\<not> is_ws c'" "c' \<noteq> CHR '']''"
        "\<forall>u. pelems n (t @ u) = Some (vs, u)" by blast
      with arr s vs(2) show ?thesis by (auto simp: cval.simps(2) str_cons_def value_text_def pval.simps(2))
    next
      case scalar
      with 1 s have "pscalar (c # r0) = Some (v, r)" by (simp add: pval.simps(2))
      from cscalar_ok [OF this, of n] scalar s show ?thesis by (auto simp: cval.simps(2))
    qed }
  { case 2
    then show ?case
    proof (cases rule: pelems_step)
      case (last v r1)
      from Suc.IH(1) [OF last(1)] obtain t where t: "cval n s = Some (t, r1)" "value_text n v t" by blast
      with last have "pelems (Suc n) (t @ CHR '']'' # u) = Some (vs, u)" for u
        by (simp add: value_text_def pelems.simps(2) delim_def)
      with t last show ?thesis by (auto simp: celems.simps(2) value_text_def)
    next
      case (more v r1 s' vs')
      from Suc.IH(1) [OF more(1)] obtain t where t: "cval n s = Some (t, r1)" "value_text n v t" by blast
      from Suc.IH(2) [OF more(3)] obtain t' where t': "celems n s' = Some (t', r)" "\<forall>u. pelems n (t' @ u) = Some (vs', u)" by blast
      with t more have "pelems (Suc n) (t @ CHR '','' # t' @ u) = Some (vs, u)" for u
        by (simp add: value_text_def pelems.simps(2) delim_def)
      with t t' more show ?thesis by (auto simp: celems.simps(2) value_text_def str_cons_def)
    qed }
  { case 3
    then show ?case
    proof (cases rule: pmembers_step)
      case (last r0 k r1 u v r2)
      from cstr_ok [OF last(2)] obtain kt where k: "cstr r0 = Some (kt, r1)" "cstr_reads r0 kt k" by blast
      from Suc.IH(1) [OF last(4)] obtain t where t: "cval n u = Some (t, r2)" "value_text n v t" by blast
      with k last have "pmembers (Suc n) (CHR 0x22 # (kt @ '':'' @ t @ ''}'') @ x) = Some (ms, x)" for x
        by (simp add: value_text_def cstr_reads_def pmembers.simps(2) delim_def)
      with k t last show ?thesis by (auto simp: cmembers.simps(2))
    next
      case (more r0 k r1 u v r2 s' ms')
      from cstr_ok [OF more(2)] obtain kt where k: "cstr r0 = Some (kt, r1)" "cstr_reads r0 kt k" by blast
      from Suc.IH(1) [OF more(4)] obtain t where t: "cval n u = Some (t, r2)" "value_text n v t" by blast
      from Suc.IH(3) [OF more(6)] obtain t' where t': "cmembers n s' = Some (CHR 0x22 # t', r)"
        "\<forall>u. pmembers n (CHR 0x22 # t' @ u) = Some (ms', u)" by blast
      with k t more have "pmembers (Suc n) (CHR 0x22 # (kt @ '':'' @ t @ '','' @ CHR 0x22 # t') @ x) = Some (ms, x)" for x
        by (simp add: value_text_def cstr_reads_def pmembers.simps(2) delim_def)
      with k t t' more show ?thesis by (auto simp: cmembers.simps(2) str_cons_def)
    qed }
qed

subsection \<open>The members of a map of raw messages\<close>

text \<open>A parse that succeeds succeeds with more fuel.\<close>

lemma pval_mono: "pval n s = Some (v, r) \<Longrightarrow> pval (Suc n) s = Some (v, r)"
  and pelems_mono: "pelems n s = Some (vs, r) \<Longrightarrow> pelems (Suc n) s = Some (vs, r)"
  and pmembers_mono: "pmembers n s = Some (ms, r) \<Longrightarrow> pmembers (Suc n) s = Some (ms, r)"
proof (induction n arbitrary: s v r vs ms)
  case 0
  { case 1 then show ?case by simp }
  { case 2 then show ?case by simp }
  { case 3 then show ?case by simp }
next
  case (Suc n)
  { case 1
    then show ?case
      by (auto simp: pval.simps(2) [of n] pval.simps(2) [of "Suc n"] dest: Suc.IH(2,3) split: list.splits if_splits) }
  { case 2
    then show ?case
    proof (cases rule: pelems_step)
      case (last v r1)
      with Suc.IH(1) [OF last(1)] show ?thesis by (simp add: pelems.simps(2) [of "Suc n"])
    next
      case (more v r1 t vs')
      with Suc.IH(1) [OF more(1)] Suc.IH(2) [OF more(3)] show ?thesis by (simp add: pelems.simps(2) [of "Suc n"])
    qed }
  { case 3
    then show ?case
    proof (cases rule: pmembers_step)
      case (last r0 k r1 u v r2)
      with Suc.IH(1) [OF last(4)] show ?thesis by (simp add: pmembers.simps(2) [of "Suc n"])
    next
      case (more r0 k r1 u v r2 t ms')
      with Suc.IH(1) [OF more(4)] Suc.IH(3) [OF more(6)] show ?thesis by (simp add: pmembers.simps(2) [of "Suc n"])
    qed }
qed

lemma value_text_mono: "value_text n v t \<Longrightarrow> value_text (Suc n) v t"
  by (auto simp: value_text_def intro: pval_mono)

abbreviation members_text :: "nat \<Rightarrow> (string \<times> json) list \<Rightarrow> (string \<times> string) list \<Rightarrow> bool" where
  "members_text n \<equiv> list_all2 (\<lambda>(k, v) (k', t). k' = k \<and> value_text n v t)"

lemma members_text_mono: "members_text n ms rs \<Longrightarrow> members_text (Suc n) ms rs"
  by (erule list_all2_mono) (auto intro: value_text_mono)

lemma value_text_mono_le: "value_text n v t \<Longrightarrow> value_text (n + l) v t"
  by (induction l) (simp_all add: value_text_mono)

lemma members_text_mono_le: "members_text n ms rs \<Longrightarrow> members_text (n + l) ms rs"
  by (erule list_all2_mono) (auto intro: value_text_mono_le)

lemma rmembers_ok: "pmembers n s = Some (ms, r) \<Longrightarrow> \<exists>rs. rmembers n s = Some (rs, r) \<and> members_text n ms rs"
proof (induction n arbitrary: s ms)
  case (Suc n)
  from Suc.prems show ?case
  proof (cases rule: pmembers_step)
    case (last r0 k r1 u v r2)
    with cval_ok [OF last(4)] show ?thesis by (auto simp: rmembers.simps(2) intro: value_text_mono)
  next
    case (more r0 k r1 u v r2 s' ms')
    with cval_ok [OF more(4)] Suc.IH [OF more(6)] show ?thesis
      by (auto simp: rmembers.simps(2) intro: value_text_mono members_text_mono)
  qed
qed simp

lemma raw_members_ok:
  assumes "json_parse s = Some (JObj ms)"
  shows "\<exists>rs. raw_members s = Some rs \<and> members_text (json_fuel s) ms rs"
proof -
  obtain r where p: "pval (json_fuel s) s = Some (JObj ms, r)"
    using assms by (auto simp: json_parse_def split: option.splits if_splits)
  obtain n where n: "json_fuel s = Suc n" by (simp add: json_fuel_def)
  obtain c r0 where s: "skip_ws s = c # r0" using p by (auto simp: n pval.simps(2) split: list.splits)
  have c: "c = CHR ''{''"
    using p s by (auto simp: n pval.simps(2) pscalar_def split: if_splits)
  show ?thesis
  proof (cases "prefix ''}'' (skip_ws r0)")
    case True
    with p s c show ?thesis by (simp add: n pval.simps(2) raw_members_def)
  next
    case False
    with p s c have "pmembers n r0 = Some (ms, r)" by (auto simp: n pval.simps(2))
    from rmembers_ok [OF pmembers_mono [OF this]] False s c show ?thesis
      by (auto simp: n raw_members_def)
  qed
qed

lemma pmembers_emit_raw:
  "members_text n ms rs \<Longrightarrow> rs \<noteq> [] \<Longrightarrow>
     pmembers (n + length rs) (emit_raw rs @ ''}'' @ u) = Some (map (\<lambda>(k, v). (to_utf8 k, v)) ms, u)"
proof (induction rs arbitrary: ms rule: emit_raw.induct)
  case (2 k t)
  then obtain v where v: "ms = [(k, v)]" "value_text n v t" by (auto simp: list_all2_Cons2)
  with pmembers_Cons [of n k "t @ ''}'' @ u"] show ?case by (simp add: value_text_def delim_def)
next
  case (3 k t m rs)
  then obtain v ms' where v: "ms = (k, v) # ms'" "value_text n v t" "members_text n ms' (m # rs)"
    by (auto simp: list_all2_Cons2)
  have "value_text (n + length (m # rs)) v t" by (rule value_text_mono_le [OF v(2)])
  then have "pval (n + length (m # rs)) (t @ '','' @ emit_raw (m # rs) @ ''}'' @ u) =
      Some (v, '','' @ emit_raw (m # rs) @ ''}'' @ u)"
    unfolding value_text_def by (simp add: delim_def)
  with pmembers_Cons [of "n + length (m # rs)" k "t @ '','' @ emit_raw (m # rs) @ ''}'' @ u"] "3.IH" [OF v(3)] v(1)
  show ?case by simp
qed simp

lemma pval_mono_le: "pval n s = Some (v, r) \<Longrightarrow> pval (n + l) s = Some (v, r)"
  by (induction l) (simp_all add: pval_mono)

text \<open>An object written from raw members has their values.\<close>

lemma json_parse_emit_raw:
  assumes "members_text n ms rs"
  shows "json_parse (''{'' @ emit_raw rs @ ''}'') = Some (JObj (map (\<lambda>(k, v). (to_utf8 k, v)) ms))"
proof -
  let ?s = "''{'' @ emit_raw rs @ ''}''"
  have "pval (Suc (n + length rs)) ?s = Some (JObj (map (\<lambda>(k, v). (to_utf8 k, v)) ms), [])"
  proof (cases rs)
    case Nil
    with assms show ?thesis by (simp add: pval.simps(2))
  next
    case (Cons m rs')
    have "\<exists>x. emit_raw rs @ ''}'' = CHR 0x22 # x"
      using Cons by (cases m; cases rs') (simp_all add: enc_str_def quote_def)
    with pmembers_emit_raw [OF assms, of "[]"] Cons show ?thesis by (auto simp: pval.simps(2))
  qed
  then have "pval (Suc (n + length rs) + json_fuel ?s) ?s = Some (JObj (map (\<lambda>(k, v). (to_utf8 k, v)) ms), [])"
    by (rule pval_mono_le)
  moreover have "pval (Suc (n + length rs) + json_fuel ?s) ?s = pval (json_fuel ?s) ?s"
    by (rule pval_enough) simp
  ultimately show ?thesis
    by (simp only: json_parse_def option.case prod.case skip_ws_simps(1) simp_thms if_True)
qed

lemma value_text_emit: "json_ok v \<Longrightarrow> value_text (2 * length (emit v)) (json_utf8 v) (emit v)"
  using emit_hd [of v] pval_emit [of v] by (auto simp: value_text_def)

end
