(* ===== verification/Wire.thy ===== *)
theory Wire
  imports Adapters Keyring GoMux GoRaw
begin

section \<open>The data plane\<close>

text \<open>
  \<^verbatim>\<open>wire/wire.go\<close>: the handlers of the ingress wires. A request is authenticated, its model is read,
  authorised and resolved to a pool of targets, and the targets are tried in order until one answers.
  \<open>Engine\<close> holds what the handlers read: the verification of keys, the credential store, the registry,
  the upstream, and the outcome of reading the body and writing the response. The credential store and
  the upstream may change while a request runs: their answers depend on the trace of what the request
  did so far. The catalog is the only state (its round-robin counters) and is passed on.
  \<^verbatim>\<open>mime.ParseMediaType\<close> and the multipart reader are functions of the engine: \<open>en_media_params\<close> gives the
  parameters of a media type, \<open>en_parts\<close> the parts of a body in the order \<^verbatim>\<open>NextPart\<close> returns them.
  A \<^verbatim>\<open>json.RawMessage\<close> is its JSON value: a rewritten body equals the source's up to the choice of
  escapes inside strings that are passed through.
\<close>

datatype wire_event = GotMaterial string | Sent out_request

text \<open>The parts of a multipart body: a form name with its content (\<open>None\<close> when reading it fails), or a broken part.\<close>

datatype multipart_part = Part string "string option" | BrokenPart

record Engine =
  en_Verify :: "string \<Rightarrow> (key_error, Principal) res"
  en_Get :: "wire_event list \<Rightarrow> string \<Rightarrow> (store_error, Material) res"
  en_Do :: "wire_event list \<Rightarrow> out_request \<Rightarrow> (do_error, response) res"
  en_Adapters :: Registry
  en_media_params :: "string \<Rightarrow> (string, string) gomap option"
  en_parts :: "string \<Rightarrow> string \<Rightarrow> multipart_part list"
  en_read_ok :: bool
  en_copy :: copy_env

record Recorder =
  rec_Wire :: string
  rec_Model :: string
  rec_ProviderRef :: string
  rec_Protocol :: string
  rec_PrincipalID :: string

definition zero_Recorder :: Recorder where
  "zero_Recorder = \<lparr>rec_Wire = '''', rec_Model = '''', rec_ProviderRef = '''', rec_Protocol = '''', rec_PrincipalID = ''''\<rparr>"

datatype wire_error =
    WMethodNotAllowed
  | WModelRequired
  | WForbidden
  | WResolve catalog_error
  | WNoCredential
  | WRouteNotRegistered
  | WUpstream
  | WUnauthorized

datatype wire_reply =
    WError wire_error int
  | WJson json
  | WRelay client_reply
  | WNotFound
  | WRedirect
  | WNothing
  | WPanic

text \<open>What a request may change: the log record, its own header map, and the trace of its calls.\<close>

record wire_state =
  ws_rec :: Recorder
  ws_hdr :: header
  ws_trace :: "wire_event list"

subsection \<open>Reading the request\<close>

datatype read_error = BodyTooLarge | BodyReadFailed | BadMediaType | BadPart

definition readLimitedBody :: "string \<Rightarrow> bool \<Rightarrow> nat \<Rightarrow> (read_error, string) res" where
  "readLimitedBody body ok max_len =
     (if length body > max_len then Inl BodyTooLarge
      else if \<not> ok then Inl BodyReadFailed
      else Inr body)"

text \<open>A body that is no JSON object leaves the model empty; a member of the wrong type is skipped.\<close>

definition readModel :: "Engine \<Rightarrow> request \<Rightarrow> (read_error, string \<times> string) res" where
  "readModel e r =
     (case readLimitedBody (rq_body r) (en_read_ok e) MaxRequestBody of
        Inl err \<Rightarrow> Inl err
      | Inr raw \<Rightarrow>
          Inr (TrimSpace (case struct_members raw of None \<Rightarrow> '''' | Some ms \<Rightarrow> field_str ''model'' ms), raw))"

fun model_part :: "multipart_part list \<Rightarrow> (read_error, string) res" where
  "model_part [] = Inr ''''"
| "model_part (BrokenPart # ps) = Inl BadPart"
| "model_part (Part name content # ps) =
     (if name \<noteq> ''model'' then model_part ps
      else case content of None \<Rightarrow> Inl BadPart | Some b \<Rightarrow> Inr (TrimSpace b))"

definition modelFromMultipart :: "Engine \<Rightarrow> string \<Rightarrow> string \<Rightarrow> (read_error, string) res" where
  "modelFromMultipart e raw contentType =
     (case en_media_params e contentType of
        None \<Rightarrow> Inl BadMediaType
      | Some params \<Rightarrow>
          (case gm_get params ''boundary'' of
             None \<Rightarrow> Inr ''''
           | Some boundary \<Rightarrow> if boundary = '''' then Inr '''' else model_part (en_parts e boundary raw)))"

definition query_get :: "(string, string list) gomap \<Rightarrow> string \<Rightarrow> string" where
  "query_get q k = (case gm_getd [] q k of [] \<Rightarrow> '''' | v # _ \<Rightarrow> v)"

definition readIngress :: "Engine \<Rightarrow> request \<Rightarrow> string \<Rightarrow> (read_error, string \<times> string option) res" where
  "readIngress e r wireID =
     (if wireID = WireOpenAIVideos \<and> rq_method r = MethodGet
      then Inr (TrimSpace (query_get (rq_query r) ''model''), None)
      else if HasPrefix (h_Get (rq_header r) ''Content-Type'') ''multipart/'' then
        (case readLimitedBody (rq_body r) (en_read_ok e) MaxRequestBody of
           Inl err \<Rightarrow> Inl err
         | Inr raw \<Rightarrow>
             (case modelFromMultipart e raw (h_Get (rq_header r) ''Content-Type'') of
                Inl err \<Rightarrow> Inl err
              | Inr model \<Rightarrow> Inr (model, Some raw)))
      else map_sum id (apsnd Some) (readModel e r))"

text \<open>
  The members of the rewritten object: the last value of each name as the client wrote it, \<open>model\<close> replaced, names
  in order. Writing into the nil map that \<^verbatim>\<open>null\<close> decodes to panics: \<open>None\<close>.
\<close>

definition member_map :: "(string \<times> 'v) list \<Rightarrow> (string, 'v) gomap" where
  "member_map ms = fold (\<lambda>(k, v). gm_set k v) ms []"

definition sort_members :: "(string, 'v) gomap \<Rightarrow> (string \<times> 'v) list" where
  "sort_members m = map (\<lambda>k. (k, the (gm_get m k))) (sort (gm_keys m))"

definition rewriteModelBody :: "string \<Rightarrow> string \<Rightarrow> string option" where
  "rewriteModelBody raw upstreamModel =
     (if upstreamModel = '''' then Some raw
      else case json_parse raw of
        Some (JObj _) \<Rightarrow>
          (case raw_members raw of
             Some ms \<Rightarrow> Some (''{'' @ emit_raw (sort_members (gm_set ''model'' (enc_str upstreamModel) (member_map ms))) @ ''}'')
           | None \<Rightarrow> Some raw)
      | Some JNull \<Rightarrow> None
      | _ \<Rightarrow> Some raw)"

definition refreshContentLength :: "nat \<Rightarrow> header \<Rightarrow> header" where
  "refreshContentLength n h = h_Set ''Content-Length'' (show_nat n) h"

definition requestBody :: "string option \<Rightarrow> string \<Rightarrow> header \<Rightarrow> (string option \<times> header) option" where
  "requestBody raw upstreamModel h =
     (case raw of
        None \<Rightarrow> Some (None, h)
      | Some b \<Rightarrow>
          (case rewriteModelBody b upstreamModel of
             None \<Rightarrow> None
           | Some rewritten \<Rightarrow> Some (Some rewritten, refreshContentLength (length rewritten) h)))"

subsection \<open>Trying the targets\<close>

definition recordTarget :: "Target \<Rightarrow> Recorder \<Rightarrow> Recorder" where
  "recordTarget t rec =
     rec\<lparr>rec_ProviderRef := tg_ProviderRef t,
         rec_Protocol := (if tg_Adapter t \<noteq> '''' then ''adapter:'' @ tg_Adapter t else tg_Protocol t)\<rparr>"

definition toHandlerTarget :: "Target \<Rightarrow> Material \<Rightarrow> HandlerTarget" where
  "toHandlerTarget t m = \<lparr>ht_Target = t, ht_Material = m\<rparr>"

definition with_handler :: "'h option \<Rightarrow> ('h \<Rightarrow> fwd) \<Rightarrow> fwd" where
  "with_handler h f = (case h of None \<Rightarrow> Done (Inl ErrRouteNotRegistered) | Some x \<Rightarrow> f x)"

definition forward :: "Registry \<Rightarrow> string \<Rightarrow> string \<Rightarrow> HandlerTarget \<Rightarrow> string option \<Rightarrow> header \<Rightarrow> fwd" where
  "forward reg wireID ingressPath ht body hdr =
     (let target = ht_Target ht in
      if wireID = WireOpenAIEmbed then with_handler (lookupEmbed reg target) (\<lambda>h. ha_Forward h ht body hdr)
      else if wireID = WireOpenAIImagesGen then
        with_handler (lookupImage reg target) (\<lambda>h. ph_Forward h ht ingressPath body hdr)
      else if wireID = WireOpenAIAudioSpeech then with_handler (lookupSpeech reg target) (\<lambda>h. ha_Forward h ht body hdr)
      else if wireID = WireOpenAIAudioTranscriptions then
        with_handler (lookupTranscription reg target) (\<lambda>h. ha_Forward h ht body hdr)
      else if wireID = WireOpenAIVideos then
        with_handler (lookupVideo reg target) (\<lambda>h. ph_Forward h ht ingressPath body hdr)
      else with_handler (lookupChat reg target) (\<lambda>h. ha_Forward h ht body hdr))"

text \<open>Running an outbound interaction: each request sent is recorded and answered by the upstream.\<close>

primrec fwd_run ::
  "fwd \<Rightarrow> (wire_event list \<Rightarrow> out_request \<Rightarrow> (do_error, response) res) \<Rightarrow> wire_event list \<Rightarrow>
     (fwd_error, response) res \<times> wire_event list" where
  "fwd_run (Done r) up tr = (r, tr)"
| "fwd_run (Do q k) up tr = fwd_run (k (up tr q)) up (tr @ [Sent q])"

fun target_loop ::
  "Engine \<Rightarrow> string \<Rightarrow> string \<Rightarrow> string option \<Rightarrow> header \<Rightarrow> bool \<Rightarrow> Target list \<Rightarrow> wire_state \<Rightarrow> wire_reply \<times> wire_state" where
  "target_loop e wireID ingressPath raw outHdr failover [] st = (WNothing, st)"
| "target_loop e wireID ingressPath raw outHdr failover (target # rest) st =
     (let more = failover \<and> rest \<noteq> [];
          st1 = st\<lparr>ws_rec := recordTarget target (ws_rec st),
                   ws_trace := ws_trace st @ [GotMaterial (tg_CredentialProfile target)]\<rparr>
      in case en_Get e (ws_trace st) (tg_CredentialProfile target) of
           Inl _ \<Rightarrow>
             (if more then target_loop e wireID ingressPath raw outHdr failover rest st1
              else (WError WNoCredential StatusBadGateway, st1))
         | Inr mat \<Rightarrow>
             (case requestBody raw (tg_UpstreamModel target) (ws_hdr st1) of
                None \<Rightarrow> (WPanic, st1)
              | Some (body, hdr) \<Rightarrow>
                  (case fwd_run (forward (en_Adapters e) wireID ingressPath (toHandlerTarget target mat) body outHdr)
                          (en_Do e) (ws_trace st1) of
                     (r, tr) \<Rightarrow>
                       (let st2 = st1\<lparr>ws_hdr := hdr, ws_trace := tr\<rparr> in
                        case r of
                          Inl err \<Rightarrow>
                            (if more \<and> Retryable 0 True then target_loop e wireID ingressPath raw outHdr failover rest st2
                             else if err = ErrRouteNotRegistered then (WError WRouteNotRegistered StatusBadGateway, st2)
                             else (WError WUpstream StatusBadGateway, st2))
                        | Inr resp \<Rightarrow>
                            (if more \<and> Retryable (rs_status resp) False
                             then target_loop e wireID ingressPath raw outHdr failover rest st2
                             else (WRelay (CopyResponse (en_copy e) [] resp), st2))))))"

definition validateWireMethod :: "request \<Rightarrow> string \<Rightarrow> bool" where
  "validateWireMethod r wireID =
     (if wireID \<in> {WireOpenAIImagesGen, WireOpenAIAudioSpeech, WireOpenAIAudioTranscriptions} then rq_method r = MethodPost
      else if wireID = WireOpenAIVideos then
        (if rq_path r = ''/v1/videos/generations'' then rq_method r = MethodPost else rq_method r = MethodGet)
      else True)"

definition handleWire ::
  "Engine \<Rightarrow> request \<Rightarrow> Principal \<Rightarrow> string \<Rightarrow> wire_state \<Rightarrow> Catalog \<Rightarrow> wire_reply \<times> wire_state \<times> Catalog" where
  "handleWire e r p wireID st c =
     (if \<not> validateWireMethod r wireID then (WError WMethodNotAllowed StatusMethodNotAllowed, st, c)
      else case readIngress e r wireID of
        Inl _ \<Rightarrow> (WError WModelRequired StatusBadRequest, st, c)
      | Inr (model, raw) \<Rightarrow>
          (if model = '''' then (WError WModelRequired StatusBadRequest, st, c)
           else
             (let st1 = st\<lparr>ws_rec := (ws_rec st)\<lparr>rec_Model := model\<rparr>\<rparr> in
              case Authorize (prin_Scopes p) model wireID of
                Inl _ \<Rightarrow> (WError WForbidden StatusForbidden, st1, c)
              | Inr _ \<Rightarrow>
                  (case ResolveWithModality c model wireID (ModalityHintFromRequest (Some r) wireID) of
                     (Inl err, c') \<Rightarrow> (WError (WResolve err) StatusBadRequest, st1, c')
                   | (Inr plan, c') \<Rightarrow>
                       (case target_loop e wireID (rq_path r) raw (StripIngressControlHeaders (rq_header r))
                               (rp_Strategy plan = StrategyFailover) (rp_Targets plan) st1 of
                          (rep, st2) \<Rightarrow> (rep, st2, c'))))))"

definition withAuth :: "Engine \<Rightarrow> string \<Rightarrow> request \<Rightarrow> wire_state \<Rightarrow> Catalog \<Rightarrow> wire_reply \<times> wire_state \<times> Catalog" where
  "withAuth e wireID r st0 c =
     (let st = st0\<lparr>ws_rec := (ws_rec st0)\<lparr>rec_Wire := wireID\<rparr>\<rparr> in
      case Authenticate (en_Verify e) (rq_header r) of
        Inl _ \<Rightarrow> (WError WUnauthorized StatusUnauthorized, st, c)
      | Inr p \<Rightarrow>
          handleWire e r p wireID (st\<lparr>ws_rec := (ws_rec st)\<lparr>rec_PrincipalID := prin_ID p\<rparr>\<rparr>) c)"

subsection \<open>The other handlers and the routes\<close>

definition wire_healthz :: "wire_state \<Rightarrow> wire_reply \<times> wire_state" where
  "wire_healthz st = (WJson (JObj [(''ok'', JBool True)]), st\<lparr>ws_rec := (ws_rec st)\<lparr>rec_Wire := ''healthz''\<rparr>\<rparr>)"

definition list_item_json :: "ModelListItem \<Rightarrow> json" where
  "list_item_json i = JObj
     [(''id'', JStr (li_ID i)), (''object'', JStr (li_Object i)), (''created'', JNum (show_int (li_Created i))),
      (''owned_by'', JStr (li_OwnedBy i))]"

definition models :: "Engine \<Rightarrow> request \<Rightarrow> wire_state \<Rightarrow> Catalog \<Rightarrow> wire_reply \<times> wire_state" where
  "models e r st0 c =
     (let st = st0\<lparr>ws_rec := (ws_rec st0)\<lparr>rec_Wire := ''models''\<rparr>\<rparr> in
      if rq_method r \<noteq> MethodGet then (WError WMethodNotAllowed StatusMethodNotAllowed, st)
      else case Authenticate (en_Verify e) (rq_header r) of
        Inl _ \<Rightarrow> (WError WUnauthorized StatusUnauthorized, st)
      | Inr p \<Rightarrow>
          (WJson (JObj [(''object'', JStr ''list''), (''data'', JArr (map list_item_json (ListModelsFor c (Some (prin_Scopes p)))))]),
           st\<lparr>ws_rec := (ws_rec st)\<lparr>rec_PrincipalID := prin_ID p\<rparr>\<rparr>))"

datatype wire_route = ToHealthz | ToModels | ToWire string | NoMethod | NoRoute | ToClean

text \<open>The routes of the mux: patterns without a method, patterns for \<^verbatim>\<open>POST\<close>, and \<^verbatim>\<open>GET /v1/videos/{id}\<close>, which also matches \<^verbatim>\<open>HEAD\<close>.\<close>

definition any_method_routes :: "(string \<times> wire_route) list" where
  "any_method_routes =
     [(''/v1/healthz'', ToHealthz), (''/v1/models'', ToModels), (''/v1/chat/completions'', ToWire WireOpenAIChat),
      (''/v1/messages'', ToWire WireAnthropicMsg), (''/v1/embeddings'', ToWire WireOpenAIEmbed),
      (''/v1/responses'', ToWire WireOpenAIResponses)]"

definition post_routes :: "(string \<times> wire_route) list" where
  "post_routes =
     [(''/v1/images/generations'', ToWire WireOpenAIImagesGen), (''/v1/images/edits'', ToWire WireOpenAIImagesGen),
      (''/v1/audio/speech'', ToWire WireOpenAIAudioSpeech),
      (''/v1/audio/transcriptions'', ToWire WireOpenAIAudioTranscriptions),
      (''/v1/videos/generations'', ToWire WireOpenAIVideos)]"

text \<open>The wildcard is one segment, unescaped; it is not empty and not a single slash.\<close>

definition video_id :: "string list \<Rightarrow> bool" where
  "video_id segs = (case segs of [a, b, x] \<Rightarrow> a = ''v1'' \<and> b = ''videos'' \<and> x \<noteq> ''/'' | _ \<Rightarrow> False)"

definition wire_mux :: "string \<Rightarrow> string \<Rightarrow> wire_route" where
  "wire_mux meth path =
     (let segs = path_segments path in
      if mux_cleans meth path then ToClean
      else case route_of any_method_routes segs of
        Some rt \<Rightarrow> rt
      | None \<Rightarrow>
          (case (if meth = MethodPost then route_of post_routes segs else None) of
             Some rt \<Rightarrow> rt
           | None \<Rightarrow>
               (if meth \<in> {MethodGet, ''HEAD''} \<and> video_id segs then ToWire WireOpenAIVideos
                else if route_of post_routes segs \<noteq> None \<or> video_id segs then NoMethod
                else NoRoute)))"

definition wire_routes :: "Engine \<Rightarrow> request \<Rightarrow> Catalog \<Rightarrow> wire_reply \<times> wire_state \<times> Catalog" where
  "wire_routes e r c =
     (let st = \<lparr>ws_rec = zero_Recorder, ws_hdr = rq_header r, ws_trace = []\<rparr> in
      case wire_mux (rq_method r) (rq_escaped r) of
        ToHealthz \<Rightarrow> (case wire_healthz st of (rep, st') \<Rightarrow> (rep, st', c))
      | ToModels \<Rightarrow> (case models e r st c of (rep, st') \<Rightarrow> (rep, st', c))
      | ToWire wireID \<Rightarrow> withAuth e wireID r st c
      | NoMethod \<Rightarrow> (WError WMethodNotAllowed StatusMethodNotAllowed, st, c)
      | NoRoute \<Rightarrow> (WNotFound, st, c)
      | ToClean \<Rightarrow> (WRedirect, st, c))"

text \<open>
  \<^verbatim>\<open>observability.IngressLog\<close> wraps the mux. It gives the handlers a \<^verbatim>\<open>statusWriter\<close>, which embeds the interface
  \<^verbatim>\<open>http.ResponseWriter\<close> and so has no \<^verbatim>\<open>Flush\<close> of its own: whatever the connection can do, the handlers see a writer that is
  no \<^verbatim>\<open>http.Flusher\<close>. The line it logs is in theory \<^verbatim>\<open>Observability\<close>.
\<close>

definition behind_statusWriter :: "Engine \<Rightarrow> Engine" where
  "behind_statusWriter e = e\<lparr>en_copy := (en_copy e)\<lparr>ce_flusher := False\<rparr>\<rparr>"

definition Wire_Handler :: "Engine \<Rightarrow> request \<Rightarrow> Catalog \<Rightarrow> wire_reply \<times> wire_state \<times> Catalog" where
  "Wire_Handler e r c = wire_routes (behind_statusWriter e) r c"

lemma behind_statusWriter_simps [simp]:
  "en_Verify (behind_statusWriter e) = en_Verify e" "en_Get (behind_statusWriter e) = en_Get e"
  "en_Do (behind_statusWriter e) = en_Do e" "en_Adapters (behind_statusWriter e) = en_Adapters e"
  "en_parts (behind_statusWriter e) = en_parts e" "en_media_params (behind_statusWriter e) = en_media_params e"
  "en_read_ok (behind_statusWriter e) = en_read_ok e" "\<not> ce_flusher (en_copy (behind_statusWriter e))"
  by (simp_all add: behind_statusWriter_def)

lemma readIngress_behind [simp]: "readIngress (behind_statusWriter e) r wireID = readIngress e r wireID"
proof -
  have "modelFromMultipart (behind_statusWriter e) raw ct = modelFromMultipart e raw ct" for raw ct
    by (simp add: modelFromMultipart_def split: option.split)
  then show ?thesis by (simp add: readIngress_def readModel_def split: sum.split)
qed

section \<open>What the data plane guarantees\<close>

subsection \<open>Interactions\<close>

primrec fwd_all :: "(out_request \<Rightarrow> bool) \<Rightarrow> fwd \<Rightarrow> bool" where
  "fwd_all P (Done r) = True"
| "fwd_all P (Do q k) = (P q \<and> (\<forall>r. fwd_all P (k r)))"

text \<open>Sending at most one request.\<close>

definition fwd_once :: "fwd \<Rightarrow> bool" where
  "fwd_once p = (case p of Done _ \<Rightarrow> True | Do _ k \<Rightarrow> \<forall>r. \<exists>x. k r = Done x)"

definition sent :: "wire_event list \<Rightarrow> out_request list" where
  "sent tr = List.map_filter (\<lambda>ev. case ev of Sent q \<Rightarrow> Some q | GotMaterial _ \<Rightarrow> None) tr"

lemma sent_simps [simp]:
  "sent [] = []" "sent (xs @ ys) = sent xs @ sent ys" "sent (Sent q # xs) = q # sent xs" "sent (GotMaterial p # xs) = sent xs"
  by (simp_all add: sent_def map_filter_def)

lemma fwd_run_sent:
  "fwd_all P p \<Longrightarrow> fwd_run p up tr = (r, tr') \<Longrightarrow> \<exists>qs. sent tr' = sent tr @ qs \<and> list_all P qs"
proof (induction p arbitrary: tr)
  case (Do q k)
  have "fwd_run (k (up tr q)) up (tr @ [Sent q]) = (r, tr')" using Do.prems by simp
  from Do.IH [OF _ _ this] Do.prems(1) obtain qs where "sent tr' = sent (tr @ [Sent q]) @ qs" "list_all P qs" by auto
  with Do.prems(1) show ?case by (intro exI [of _ "q # qs"]) simp
qed auto

subsection \<open>The handlers of a registry\<close>

text \<open>
  One turn of the loop, seen from outside: an attempt at a target has a result, which says whether another
  target may be tried and what the client is told if none is.
\<close>

datatype attempt = NoCredential | Panicked | Failed fwd_error | Answered response

definition attempt_target ::
  "Engine \<Rightarrow> string \<Rightarrow> string \<Rightarrow> string option \<Rightarrow> header \<Rightarrow> Target \<Rightarrow> wire_state \<Rightarrow> attempt \<times> wire_state" where
  "attempt_target e wireID ingressPath raw outHdr t st =
     (let st1 = st\<lparr>ws_rec := recordTarget t (ws_rec st), ws_trace := ws_trace st @ [GotMaterial (tg_CredentialProfile t)]\<rparr> in
      case en_Get e (ws_trace st) (tg_CredentialProfile t) of
        Inl _ \<Rightarrow> (NoCredential, st1)
      | Inr mat \<Rightarrow>
          (case requestBody raw (tg_UpstreamModel t) (ws_hdr st) of
             None \<Rightarrow> (Panicked, st1)
           | Some (body, hdr) \<Rightarrow>
               (case fwd_run (forward (en_Adapters e) wireID ingressPath (toHandlerTarget t mat) body outHdr)
                       (en_Do e) (ws_trace st1) of
                  (r, tr) \<Rightarrow>
                    (case r of Inl err \<Rightarrow> Failed err | Inr resp \<Rightarrow> Answered resp, st1\<lparr>ws_hdr := hdr, ws_trace := tr\<rparr>))))"

fun may_retry :: "attempt \<Rightarrow> bool" where
  "may_retry NoCredential = True"
| "may_retry Panicked = False"
| "may_retry (Failed err) = True"
| "may_retry (Answered resp) = Retryable (rs_status resp) False"

fun attempt_reply :: "Engine \<Rightarrow> attempt \<Rightarrow> wire_reply" where
  "attempt_reply e NoCredential = WError WNoCredential StatusBadGateway"
| "attempt_reply e Panicked = WPanic"
| "attempt_reply e (Failed err) =
     (if err = ErrRouteNotRegistered then WError WRouteNotRegistered StatusBadGateway else WError WUpstream StatusBadGateway)"
| "attempt_reply e (Answered resp) = WRelay (CopyResponse (en_copy e) [] resp)"

lemma target_loop_attempt:
  "target_loop e wireID ingressPath raw outHdr fo (t # ts) st =
     (case attempt_target e wireID ingressPath raw outHdr t st of
        (a, st') \<Rightarrow> if fo \<and> ts \<noteq> [] \<and> may_retry a then target_loop e wireID ingressPath raw outHdr fo ts st'
                    else (attempt_reply e a, st'))"
proof (cases "en_Get e (ws_trace st) (tg_CredentialProfile t)")
  case (Inr mat)
  show ?thesis
  proof (cases "requestBody raw (tg_UpstreamModel t) (ws_hdr st)")
    case (Some bh)
    obtain body hdr where bh: "bh = (body, hdr)" by (cases bh)
    obtain res tr where run: "fwd_run (forward (en_Adapters e) wireID ingressPath (toHandlerTarget t mat) body outHdr) (en_Do e)
      (ws_trace st @ [GotMaterial (tg_CredentialProfile t)]) = (res, tr)" by fastforce
    show ?thesis
      using Inr Some bh run by (cases res) (simp_all add: attempt_target_def Let_def Retryable_def [of _ True])
  qed (simp add: Inr attempt_target_def Let_def)
qed (simp add: attempt_target_def Let_def)

declare target_loop.simps(2) [simp del]

end
