(* ===== verification/WireLaws.thy ===== *)
theory WireLaws
  imports Wire
begin

section \<open>What the data plane guarantees\<close>

text \<open>
  The properties of the handlers of \<^verbatim>\<open>wire/wire.go\<close>: who may cause an upstream call, in which order targets are
  tried, that every request is answered, what body and which credentials reach the upstream.
\<close>

subsection \<open>Who may act\<close>

text \<open>A request is refused before it does anything, or it is resolved with a model its key allows.\<close>

lemma handleWire_cases:
  obtains (refused) err code st' where "handleWire e r p wireID st c = (WError err code, st', c)" "ws_trace st' = ws_trace st"
  | (resolved) model raw st1 where "readIngress e r wireID = Inr (model, raw)" "model \<noteq> ''''"
    "Authorize (prin_Scopes p) model wireID = Inr ()" "ws_trace st1 = ws_trace st"
    "handleWire e r p wireID st c =
       (case ResolveWithModality c model wireID (ModalityHintFromRequest (Some r) wireID) of
          (Inl err, c') \<Rightarrow> (WError (WResolve err) StatusBadRequest, st1, c')
        | (Inr plan, c') \<Rightarrow>
            (case target_loop e wireID (rq_path r) raw (StripIngressControlHeaders (rq_header r))
                    (rp_Strategy plan = StrategyFailover) (rp_Targets plan) st1 of
               (rep, st2) \<Rightarrow> (rep, st2, c')))"
proof (cases "readIngress e r wireID")
  case (Inl err)
  then show ?thesis by (cases "validateWireMethod r wireID") (auto simp: handleWire_def intro: refused)
next
  case (Inr mr)
  obtain model raw where mr: "mr = (model, raw)" by (cases mr)
  define st1 where "st1 = st\<lparr>ws_rec := (ws_rec st)\<lparr>rec_Model := model\<rparr>\<rparr>"
  show ?thesis
  proof (cases "validateWireMethod r wireID \<and> model \<noteq> '''' \<and> Authorize (prin_Scopes p) model wireID = Inr ()")
    case True
    with Inr mr show ?thesis
      by (intro resolved [of model raw st1])
        (simp_all add: handleWire_def Let_def st1_def split: prod.split sum.split)
  next
    case False
    then consider "\<not> validateWireMethod r wireID \<or> model = ''''"
      | "validateWireMethod r wireID" "model \<noteq> ''''" "Authorize (prin_Scopes p) model wireID = Inl ErrForbidden"
      using Authorize_cases [of "prin_Scopes p" model wireID] by blast
    then show ?thesis
    proof cases
      case 1
      with Inr mr show ?thesis by (cases "validateWireMethod r wireID") (auto simp: handleWire_def intro: refused)
    next
      case 2
      with Inr mr show ?thesis
        by (intro refused [of WForbidden StatusForbidden st1]) (simp_all add: handleWire_def Let_def st1_def)
    qed
  qed
qed

lemma withAuth_cases:
  obtains (refused) err code st' where "withAuth e wireID r st c = (WError err code, st', c)" "ws_trace st' = ws_trace st"
  | (known) p st1 where "Authenticate (en_Verify e) (rq_header r) = Inr p" "ws_trace st1 = ws_trace st"
    "withAuth e wireID r st c = handleWire e r p wireID st1 c"
proof (cases "Authenticate (en_Verify e) (rq_header r)")
  case (Inl err)
  then show ?thesis by (auto simp: withAuth_def Let_def intro: refused)
next
  case (Inr p)
  then show ?thesis
    by (intro known [of p "st\<lparr>ws_rec := (ws_rec st)\<lparr>rec_Wire := wireID, rec_PrincipalID := prin_ID p\<rparr>\<rparr>"])
      (simp_all add: withAuth_def Let_def)
qed

lemma models_local:
  obtains rep st' where "models e r st c = (rep, st')" "ws_trace st' = ws_trace st" "rep \<notin> {WPanic, WNothing} \<union> range WRelay"
  by (cases "rq_method r = MethodGet"; cases "Authenticate (en_Verify e) (rq_header r)") (auto simp add: models_def Let_def)

lemma wire_routes_cases:
  obtains (local) rep st where "wire_routes e r c = (rep, st, c)" "ws_trace st = []" "rep \<notin> {WPanic, WNothing} \<union> range WRelay"
  | (wire) wireID p st1 where "wire_mux (rq_method r) (rq_escaped r) = ToWire wireID"
    "Authenticate (en_Verify e) (rq_header r) = Inr p" "ws_trace st1 = []" "wire_routes e r c = handleWire e r p wireID st1 c"
proof (cases "wire_mux (rq_method r) (rq_escaped r)")
  case (ToWire wireID)
  define st where "st = \<lparr>ws_rec = zero_Recorder, ws_hdr = rq_header r, ws_trace = []\<rparr>"
  have "wire_routes e r c = withAuth e wireID r st c" by (simp add: wire_routes_def ToWire st_def)
  with ToWire show ?thesis
    by (cases rule: withAuth_cases [of e wireID r st c]) (auto simp: st_def intro: local wire)
next
  case ToModels
  then show ?thesis
    by (rule_tac models_local [of e r "\<lparr>ws_rec = zero_Recorder, ws_hdr = rq_header r, ws_trace = []\<rparr>" c])
      (simp add: wire_routes_def local)
qed (auto simp: wire_routes_def wire_healthz_def intro: local)

lemma Wire_Handler_cases:
  obtains (local) rep st where "Wire_Handler e r c = (rep, st, c)" "ws_trace st = []" "rep \<notin> {WPanic, WNothing} \<union> range WRelay"
  | (wire) wireID p st1 where "wire_mux (rq_method r) (rq_escaped r) = ToWire wireID"
    "Authenticate (en_Verify e) (rq_header r) = Inr p" "ws_trace st1 = []"
    "Wire_Handler e r c = handleWire (behind_statusWriter e) r p wireID st1 c"
  using wire_routes_cases [of "behind_statusWriter e" r c] unfolding Wire_Handler_def behind_statusWriter_simps by metis

lemma Wire_Handler_acts:
  assumes "Wire_Handler e r c = (rep, st, c')" "ws_trace st \<noteq> [] \<or> c' \<noteq> c"
  obtains wireID p model raw where "wire_mux (rq_method r) (rq_escaped r) = ToWire wireID"
    "Authenticate (en_Verify e) (rq_header r) = Inr p" "readIngress e r wireID = Inr (model, raw)" "model \<noteq> ''''"
    "Authorize (prin_Scopes p) model wireID = Inr ()"
    "ws_trace st \<noteq> [] \<Longrightarrow> \<exists>plan st1. ws_trace st1 = [] \<and>
       fst (ResolveWithModality c model wireID (ModalityHintFromRequest (Some r) wireID)) = Inr plan \<and>
       target_loop (behind_statusWriter e) wireID (rq_path r) raw (StripIngressControlHeaders (rq_header r))
         (rp_Strategy plan = StrategyFailover) (rp_Targets plan) st1 = (rep, st)"
proof (cases rule: Wire_Handler_cases [of e r c])
  case (local rep' st')
  with assms show ?thesis by auto
next
  case (wire wireID p st1)
  show ?thesis
  proof (cases rule: handleWire_cases [of "behind_statusWriter e" r p wireID st1 c])
    case (refused err code st')
    with wire assms show ?thesis by auto
  next
    case (resolved model raw st2)
    show ?thesis
      by (rule that [OF wire(1,2) resolved(1) [unfolded readIngress_behind] resolved(2,3)])
        (use wire resolved(4,5) assms in \<open>auto split: prod.splits sum.splits\<close>)
  qed
qed

text \<open>
  (C21) Nothing happens without a key that allows it: a request that makes the gateway read a stored
  credential, call an upstream or move a round-robin counter carried a bearer key the key store accepts,
  names a model, and the scopes of that key allow that model on that wire.
\<close>

theorem wire_guarded:
  assumes "Wire_Handler e r c = (rep, st, c')" "ws_trace st \<noteq> [] \<or> c' \<noteq> c"
  shows "\<exists>wireID key p model raw. bearerToken (rq_header r) = Inr key \<and> en_Verify e key = Inr p \<and>
    wire_mux (rq_method r) (rq_escaped r) = ToWire wireID \<and> readIngress e r wireID = Inr (model, raw) \<and> model \<noteq> '''' \<and>
    (prin_Scopes p = [] \<or> (\<exists>s \<in> set (prin_Scopes p). scope_grants s model wireID))"
  by (rule Wire_Handler_acts [OF assms]) (auto simp: Authenticate_def res_bind_Inr_iff Authorize_iff)

subsection \<open>Failover\<close>

text \<open>The attempts at the targets of a pool, one after the other, each from the state the last one left.\<close>

fun attempts ::
  "Engine \<Rightarrow> string \<Rightarrow> string \<Rightarrow> string option \<Rightarrow> header \<Rightarrow> Target list \<Rightarrow> wire_state \<Rightarrow> (attempt \<times> wire_state) list" where
  "attempts e wireID ingressPath raw outHdr [] st = []"
| "attempts e wireID ingressPath raw outHdr (t # ts) st =
     (let x = attempt_target e wireID ingressPath raw outHdr t st
      in x # attempts e wireID ingressPath raw outHdr ts (snd x))"

text \<open>
  (C23) Failover tries the pool in order and stops at the first target that gives a final answer: the client
  gets the result of one attempt, every attempt before it was one that may be retried, and if pool members
  are left over its result is not. No target after it is contacted, and what earlier attempts returned
  does not show. Without failover exactly the first target is tried.
\<close>

theorem failover_in_order:
  assumes "ts \<noteq> []"
  shows "\<exists>k < length ts. (\<forall>i < k. fo \<and> may_retry (fst (attempts e wireID path raw outHdr ts st ! i))) \<and>
    (fo \<and> Suc k < length ts \<longrightarrow> \<not> may_retry (fst (attempts e wireID path raw outHdr ts st ! k))) \<and>
    target_loop e wireID path raw outHdr fo ts st =
      (attempt_reply e (fst (attempts e wireID path raw outHdr ts st ! k)), snd (attempts e wireID path raw outHdr ts st ! k))"
  using assms
proof (induction ts arbitrary: st)
  case (Cons t ts)
  obtain a st' where a: "attempt_target e wireID path raw outHdr t st = (a, st')" by fastforce
  show ?case
  proof (cases "fo \<and> ts \<noteq> [] \<and> may_retry a")
    case False
    then show ?thesis by (intro exI [of _ 0]) (auto simp: target_loop_attempt a)
  next
    case True
    then obtain k where "k < length ts" "\<forall>i < k. fo \<and> may_retry (fst (attempts e wireID path raw outHdr ts st' ! i))"
      "fo \<and> Suc k < length ts \<longrightarrow> \<not> may_retry (fst (attempts e wireID path raw outHdr ts st' ! k))"
      "target_loop e wireID path raw outHdr fo ts st' =
        (attempt_reply e (fst (attempts e wireID path raw outHdr ts st' ! k)), snd (attempts e wireID path raw outHdr ts st' ! k))"
      using Cons.IH [of st'] by blast
    with True show ?thesis
      by (intro exI [of _ "Suc k"]) (auto simp: target_loop_attempt a Let_def less_Suc_eq_0_disj)
  qed
qed simp

subsection \<open>Every request is answered\<close>

lemma json_null_chars: "json_parse raw = Some JNull \<Longrightarrow> CHR ''-'' \<notin> set raw"
proof -
  assume a: "json_parse raw = Some JNull"
  then obtain r where r: "pval (json_fuel raw) raw = Some (JNull, r)" "skip_ws r = []"
    by (auto simp: json_parse_def split: option.splits if_splits)
  obtain n where n: "json_fuel raw = Suc n" by (auto simp: json_fuel_def)
  obtain c t where s: "skip_ws raw = c # t" "pscalar (c # t) = Some (JNull, r)"
    using r(1) by (auto simp: n pval.simps(2) split: list.splits if_splits)
  have "prefix ''null'' (c # t)" "r = drop 4 (c # t)"
    using s(2) by (auto simp: pscalar_def split: if_splits)
  then have "c # t = ''null'' @ r" by (auto simp: prefix_def)
  then have "raw = takeWhile is_ws raw @ ''null'' @ r"
    using s(1) takeWhile_dropWhile_id [of is_ws raw] by (simp add: skip_ws_def)
  moreover have "\<forall>x \<in> set r. is_ws x" using r(2) by (simp add: skip_ws_def dropWhile_eq_Nil_conv)
  moreover have "\<forall>x \<in> set (takeWhile is_ws raw). is_ws x" by (auto dest: set_takeWhileD)
  ultimately have "\<forall>x \<in> set raw. is_ws x \<or> x \<in> set ''null''"
    by (metis Un_iff set_append)
  then show ?thesis by auto
qed

lemma rewriteModelBody_None: "rewriteModelBody raw up = None \<Longrightarrow> json_parse raw = Some JNull"
  by (auto simp: rewriteModelBody_def split: if_splits option.splits json.splits)

lemma model_part_Inr: "model_part ps = Inr m \<Longrightarrow> m \<noteq> '''' \<Longrightarrow> \<exists>n x. Part n x \<in> set ps"
  by (induction ps rule: model_part.induct) auto

lemma readIngress_body:
  assumes "readIngress e r wireID = Inr (model, Some raw)" "model \<noteq> ''''"
    "\<And>b body n x. Part n x \<in> set (en_parts e b body) \<Longrightarrow> Contains body (''--'' @ b)"
  shows "rewriteModelBody raw up \<noteq> None"
proof
  assume "rewriteModelBody raw up = None"
  then have null: "json_parse raw = Some JNull" by (rule rewriteModelBody_None)
  have "readModel e r \<noteq> Inr (model, raw)"
    using null assms(2) by (auto simp: readModel_def struct_members_def field_str_def field_vals_def split: sum.splits)
  then have "modelFromMultipart e raw (h_Get (rq_header r) ''Content-Type'') = Inr model"
    using assms(1) by (auto simp: readIngress_def map_sum_Inr_iff split: if_splits sum.splits)
  then obtain b n x where "Part n x \<in> set (en_parts e b raw)"
    using assms(2) by (auto simp: modelFromMultipart_def split: option.splits if_splits dest!: model_part_Inr)
  from assms(3) [OF this] have "CHR ''-'' \<in> set raw"
    by (auto simp: sublist_def)
  with json_null_chars [OF null] show False by simp
qed

lemma resolve_targets:
  assumes "ResolveWithModality c model wire hint = (Inr plan, c')"
  shows "rp_Targets plan \<noteq> []"
proof (rule resolve_Inr_cases [OF assms])
  fix m n md entries
  assume e: "mo_Providers md \<noteq> []" "pickEntries c (poolKey n wire) (rp_Strategy plan) (mo_Providers md) = (Inr entries, c')"
    "res_mapM (\<lambda>entry. targetFromEntry c model entry wire) entries = Inr (rp_Targets plan)"
  have "entries \<noteq> []" using e(1,2) by (auto simp: pickEntries_def Let_def split: if_splits)
  with res_mapM_length [OF e(3)] show ?thesis by auto
qed

lemma target_loop_no_panic:
  assumes "\<And>b up. raw = Some b \<Longrightarrow> rewriteModelBody b up \<noteq> None" "ts \<noteq> []"
  shows "fst (target_loop e wireID path raw outHdr fo ts st) \<notin> {WPanic, WNothing}"
  using assms(2)
proof (induction ts arbitrary: st)
  case (Cons t ts)
  obtain a st' where a: "attempt_target e wireID path raw outHdr t st = (a, st')" by fastforce
  have "a \<noteq> Panicked"
    using a assms(1) by (auto simp del: not_None_eq simp: attempt_target_def requestBody_def Let_def split: sum.splits option.splits prod.splits)
  then have "attempt_reply e a \<notin> {WPanic, WNothing}" by (cases a) auto
  with Cons.IH [of st'] show ?case by (auto simp: target_loop_attempt a)
qed simp

lemma Wire_Handler_replies:
  assumes "\<And>b body n x. Part n x \<in> set (en_parts e b body) \<Longrightarrow> Contains body (''--'' @ b)"
  shows "fst (Wire_Handler e r c) \<notin> {WPanic, WNothing}"
proof (cases rule: Wire_Handler_cases [of e r c])
  case (wire wireID p st1)
  show ?thesis
  proof (cases rule: handleWire_cases [of "behind_statusWriter e" r p wireID st1 c])
    case (resolved model raw st2)
    have "fst (target_loop (behind_statusWriter e) wireID path raw outHdr fo (rp_Targets plan) st) \<notin> {WPanic, WNothing}"
      if "ResolveWithModality c model wireID hint = (Inr plan, c')" for path outHdr fo plan st hint c'
      by (rule target_loop_no_panic)
        (use readIngress_body [OF _ resolved(2) assms] resolved(1) resolve_targets [OF that] in auto)
    then show ?thesis by (simp add: wire resolved split: prod.split sum.split) (metis fst_conv)
  qed (simp add: wire)
qed simp

text \<open>
  Every request gets exactly one answer: no handler panics and none returns without writing a response,
  for every catalog and whatever the stores and the upstreams return. (A multipart part is only found in a body
  that holds the boundary after two hyphens.)
\<close>

lemma wire_always_replies:
  assumes "\<And>b body n x. Part n x \<in> set (en_parts e b body) \<Longrightarrow> Contains body (''--'' @ b)"
  shows "fst (Wire_Handler e r c) \<notin> {WPanic, WNothing}"
  by (rule Wire_Handler_replies [OF assms])

subsection \<open>Event streams behind the log\<close>

lemma copySSE_loop_no_flush: "p \<in> set (fst (copySSE_loop cn wf0 False eof i ls rest)) \<Longrightarrow> \<not> snd p"
  by (induction ls arbitrary: i) (auto split: if_splits option.splits prod.splits, metis fst_conv)

lemma CopyResponse_no_flush: "p \<in> set (cr_body (CopyResponse (env\<lparr>ce_flusher := False\<rparr>) w resp)) \<Longrightarrow> \<not> snd p"
  by (auto simp: CopyResponse_def Let_def copySSE_def io_Copy_def copySSE_loop_no_flush
      split: option.splits if_splits prod.splits)

lemma copySSE_loop_flag:
  "snd (copySSE_loop cn wf0 fl eof i ls rest) = snd (copySSE_loop cn wf0 fl' eof i ls rest) \<and>
   map fst (fst (copySSE_loop cn wf0 fl eof i ls rest)) = map fst (fst (copySSE_loop cn wf0 fl' eof i ls rest))"
proof (induction ls arbitrary: i)
  case (Cons l ls)
  from Cons.IH [of "Suc i"] show ?case by (auto split: option.splits prod.splits)
qed (simp split: option.split)

lemma CopyResponse_pieces:
  "map fst (cr_body (CopyResponse (env\<lparr>ce_flusher := fl\<rparr>) w resp)) = map fst (cr_body (CopyResponse env w resp))"
  "cr_err (CopyResponse (env\<lparr>ce_flusher := fl\<rparr>) w resp) = cr_err (CopyResponse env w resp)"
  using copySSE_loop_flag
  by (simp_all add: CopyResponse_def Let_def copySSE_def io_Copy_def split: option.split prod.split)

lemma target_loop_relay:
  "target_loop e wireID path raw outHdr fo ts st = (WRelay cr, st') \<Longrightarrow> \<exists>resp. cr = CopyResponse (en_copy e) [] resp"
proof (induction ts arbitrary: st)
  case (Cons t ts)
  obtain a st1 where a: "attempt_target e wireID path raw outHdr t st = (a, st1)" by fastforce
  show ?case
  proof (cases "fo \<and> ts \<noteq> [] \<and> may_retry a")
    case True
    with Cons a show ?thesis by (auto simp: target_loop_attempt)
  next
    case False
    with Cons.prems a have "attempt_reply e a = WRelay cr" by (auto simp: target_loop_attempt split: if_splits)
    then show ?thesis by (cases a) (auto split: if_splits)
  qed
qed simp

lemma Wire_Handler_relay:
  assumes "Wire_Handler e r c = (WRelay cr, st, c')"
  shows "\<exists>resp. cr = CopyResponse ((en_copy e)\<lparr>ce_flusher := False\<rparr>) [] resp"
proof (cases rule: Wire_Handler_cases [of e r c])
  case (wire wireID p st1)
  show ?thesis
  proof (cases rule: handleWire_cases [of "behind_statusWriter e" r p wireID st1 c])
    case (resolved model raw st2)
    with wire assms target_loop_relay [of "behind_statusWriter e"] show ?thesis
      by (auto simp: behind_statusWriter_def split: prod.splits sum.splits)
  qed (use wire assms in auto)
qed (use assms in auto)

text \<open>
  (C33) Event streams pass through the data plane without a flush. Every relayed reply is written by the relay to a
  writer that cannot flush, so no piece of a stream is pushed to the client when it arrives, also when the connection
  of the client could do it; the same relay on that connection would have flushed every piece of a stream that it copied to
  its end.
\<close>

theorem streamed_replies_unflushed:
  assumes "Wire_Handler e r c = (WRelay cr, st, c')"
  shows "\<exists>resp. cr = CopyResponse ((en_copy e)\<lparr>ce_flusher := False\<rparr>) [] resp \<and> (\<forall>p \<in> set (cr_body cr). \<not> snd p) \<and>
    (ce_flusher (en_copy e) \<and> Contains (h_Get (rs_header resp) ''Content-Type'') ''text/event-stream'' \<and> cr_err cr = None \<longrightarrow>
       cr_body (CopyResponse (en_copy e) [] resp) = map (\<lambda>p. (fst p, True)) (cr_body cr))"
proof -
  obtain resp where resp: "cr = CopyResponse ((en_copy e)\<lparr>ce_flusher := False\<rparr>) [] resp"
    using Wire_Handler_relay [OF assms] by blast
  have "cr_body (CopyResponse (en_copy e) [] resp) = map (\<lambda>t. (t, True)) (map fst (cr_body cr))"
    if "ce_flusher (en_copy e)" "Contains (h_Get (rs_header resp) ''Content-Type'') ''text/event-stream''" "cr_err cr = None"
  proof -
    have "\<forall>p \<in> set (cr_body (CopyResponse (en_copy e) [] resp)). snd p"
      using that by (auto simp: resp CopyResponse_pieces(2)) (auto simp: CopyResponse_def Let_def copySSE_def dest!: copySSE_loop_none split: option.splits prod.splits)
    then have "cr_body (CopyResponse (en_copy e) [] resp) = map (\<lambda>t. (t, True)) (map fst (cr_body (CopyResponse (en_copy e) [] resp)))"
      unfolding map_map by (intro map_idI [symmetric]) auto
    then show ?thesis by (simp add: resp CopyResponse_pieces(1) flip: map_map)
  qed
  with resp show ?thesis using CopyResponse_no_flush by (auto simp: comp_def)
qed

subsection \<open>The body that is forwarded\<close>

lemma member_map_get: "gm_get (member_map ms) k = map_of (rev ms) k"
proof -
  have "gm_get (fold (\<lambda>(k, v). gm_set k v) ms m) k = (case map_of (rev ms) k of None \<Rightarrow> gm_get m k | Some v \<Rightarrow> Some v)" for m
    by (induction ms arbitrary: m) (auto simp: map_add_def split: option.splits)
  from this [of "[]"] show ?thesis by (simp add: member_map_def split: option.split)
qed

lemma member_map_wf: "gm_wf (member_map ms)"
proof -
  have "gm_wf m \<Longrightarrow> gm_wf (fold (\<lambda>(k, v). gm_set k v) ms m)" for m
    by (induction ms arbitrary: m) auto
  then show ?thesis by (simp add: member_map_def)
qed

lemma sort_members_get:
  fixes m :: "(string, 'v) gomap"
  shows "gm_wf m \<Longrightarrow> map_of (sort_members m) k = gm_get m k"
proof -
  have "map_of (map (\<lambda>k. (k, f k)) ks) k = (if k \<in> set ks then Some (f k) else None)" for ks and f :: "string \<Rightarrow> 'v"
    by (induction ks) auto
  then have "map_of (sort_members m) k = (if k \<in> set (gm_keys m) then Some (the (gm_get m k)) else None)"
    by (simp add: sort_members_def)
  then show ?thesis by (cases "gm_get m k") (simp_all add: gm_get_keys)
qed

text \<open>The members and their texts go through the map side by side.\<close>

lemma members_text_set: "members_text n m r \<Longrightarrow> value_text n v t \<Longrightarrow> members_text n (gm_set k v m) (gm_set k t r)"
proof (induction m r rule: list_all2_induct)
  case (Cons e m e' r)
  then show ?case by (cases e; cases e') (auto simp: gm_set_def)
qed (simp add: gm_set_def)

lemma members_text_map: "members_text n ms rs \<Longrightarrow> members_text n (member_map ms) (member_map rs)"
proof -
  have "members_text n ms rs \<Longrightarrow> members_text n m r \<Longrightarrow>
    members_text n (fold (\<lambda>(k, v). gm_set k v) ms m) (fold (\<lambda>(k, v). gm_set k v) rs r)" for m r
  proof (induction ms rs arbitrary: m r rule: list_all2_induct)
    case (Cons e ms e' rs)
    then show ?case by (cases e; cases e') (simp add: members_text_set)
  qed simp
  then show "members_text n ms rs \<Longrightarrow> ?thesis" by (simp add: member_map_def)
qed

lemma members_text_get:
  "members_text n m r \<Longrightarrow> gm_keys r = gm_keys m \<and> (\<forall>k v. gm_get m k = Some v \<longrightarrow> (\<exists>t. gm_get r k = Some t \<and> value_text n v t))"
proof (induction m r rule: list_all2_induct)
  case (Cons e m e' r)
  then show ?case by (cases e; cases e') auto
qed simp

lemma members_text_sort: "members_text n m r \<Longrightarrow> members_text n (sort_members m) (sort_members r)"
  using members_text_get [of n m r]
  by (fastforce simp: sort_members_def list.rel_map gm_get_keys intro!: list.rel_refl_strong)

lemma members_utf8_iff: "members_utf8 ms = ms \<longleftrightarrow> (\<forall>(k, v) \<in> set ms. utf8_ok k \<and> json_utf8 v = v)"
  by (induction ms) (auto simp: to_utf8_iff)

text \<open>
  (C000) The upstream is asked for its own model: a JSON body is forwarded with the member \<open>model\<close> set to the
  target's model and every other member as the client wrote it (the last value of a name that occurs
  more than once), names distinct and in order. It is a JSON text again, with the client's values, and the text of
  each other member is the client's text without white space between tokens, escapes and number literals included.
\<close>

theorem rewrite_model_exact:
  assumes "json_parse raw = Some (JObj ms)" "up \<noteq> ''''"
  shows "\<exists>out ms' rs rs'. rewriteModelBody raw up = Some out \<and> json_parse out = Some (JObj ms') \<and>
    sorted (map fst ms') \<and> distinct (map fst ms') \<and>
    (\<forall>k. map_of ms' k = (if k = ''model'' then Some (JStr (to_utf8 up)) else map_of (rev ms) k)) \<and>
    raw_members raw = Some rs \<and> out = ''{'' @ emit_raw rs' @ ''}'' \<and> map fst rs' = map fst ms' \<and>
    (\<forall>k. map_of rs' k = (if k = ''model'' then Some (enc_str up) else map_of (rev rs) k))"
proof -
  let ?m = "gm_set ''model'' (JStr (to_utf8 up)) (member_map ms)"
  have wf0: "gm_wf ?m" by (simp add: member_map_wf)
  have get: "gm_get ?m k = (if k = ''model'' then Some (JStr (to_utf8 up)) else map_of (rev ms) k)" for k
    by (simp add: member_map_get)
  obtain rs where rs: "raw_members raw = Some rs" "members_text (json_fuel raw) ms rs"
    using raw_members_ok [OF assms(1)] by blast
  define n where "n = json_fuel raw + 2 * length (enc_str up)"
  have "members_text n ms rs" "value_text n (JStr (to_utf8 up)) (enc_str up)"
    unfolding n_def using members_text_mono_le [OF rs(2)] value_text_mono_le [OF value_text_emit [of "JStr up"], of "json_fuel raw"]
    by (blast, simp add: add.commute)
  then have side: "members_text n ?m (gm_set ''model'' (enc_str up) (member_map rs))"
    by (intro members_text_set members_text_map)
  let ?r = "gm_set ''model'' (enc_str up) (member_map rs)"
  have keys: "map fst (sort_members ?r) = map fst (sort_members ?m)"
    using members_text_get [OF side] by (simp add: sort_members_def comp_def)
  have texts: "map_of (sort_members ?r) k = (if k = ''model'' then Some (enc_str up) else map_of (rev rs) k)" for k
    by (simp add: sort_members_get member_map_wf member_map_get)
  from json_parse_emit_raw [OF members_text_sort [OF side]] obtain out where out: "rewriteModelBody raw up = Some out"
    "out = ''{'' @ emit_raw (sort_members ?r) @ ''}''" "json_parse out = Some (JObj (map (\<lambda>(k, v). (to_utf8 k, v)) (sort_members ?m)))"
    using assms rs(1) by (simp add: rewriteModelBody_def)
  have "utf8_ok k" if "k \<in> set (gm_keys ?m)" for k
  proof (cases "k = ''model''")
    case False
    from that obtain v where "gm_get ?m k = Some v" unfolding gm_get_keys by blast
    with False get [of k] have "map_of (rev ms) k = Some v" by simp
    then have "(k, v) \<in> set ms" by (auto dest: map_of_SomeD)
    with json_parse_utf8 [OF assms(1)] show ?thesis by (auto simp: members_utf8_iff)
  qed (simp add: utf8_ok_ascii)
  then have "map (\<lambda>(k, v). (to_utf8 k, v)) (sort_members ?m) = sort_members ?m"
    by (simp add: sort_members_def to_utf8_ok)
  moreover have "map fst (sort_members ?m) = sort (gm_keys ?m)"
    by (simp add: sort_members_def comp_def)
  moreover have "distinct (gm_keys ?m)" using wf0 by (simp add: gm_wf_def gm_keys_def)
  ultimately show ?thesis
    using out rs(1) keys texts sort_members_get [OF wf0] get
    by (intro exI [of _ out] exI [of _ "sort_members ?m"] exI [of _ rs] exI [of _ "sort_members ?r"]) simp
qed

subsection \<open>The stock adapters\<close>

definition stock_registry :: "client \<Rightarrow> Registry" where
  "stock_registry cl = projr (passthrough_Register cl NewRegistry)"

lemma stock_registry_simps:
  "ChatHandlers (stock_registry cl) =
     [(''openai-chat-completions'', ChatHandler_of cl \<lparr>ch_ProtocolName = ''openai-chat-completions'', ch_WireID = WireOpenAIChat, ch_Path = ''''\<rparr>),
      (''anthropic-messages'', ChatHandler_of cl \<lparr>ch_ProtocolName = ''anthropic-messages'', ch_WireID = WireAnthropicMsg, ch_Path = ''''\<rparr>),
      (''openai-responses'', ChatHandler_of cl \<lparr>ch_ProtocolName = ''openai-responses'', ch_WireID = WireOpenAIResponses, ch_Path = ''/v1/responses''\<rparr>)]"
  "EmbedHandlers (stock_registry cl) = [(''openai-embeddings'', EmbedHandler cl ''openai-embeddings'')]"
  "ImageHandlers (stock_registry cl) = [(''openai-images'', ImageHandler cl ''openai-images'')]"
  "SpeechHandlers (stock_registry cl) = [(''openai-tts'', SpeechHandler cl ''openai-tts'')]"
  "TranscriptionHandlers (stock_registry cl) = [(''openai-transcriptions'', TranscriptionHandler cl ''openai-transcriptions'')]"
  "VideoHandlers (stock_registry cl) = [(''openai-videos'', VideoHandler cl ''openai-videos'')]"
  "ImageAdapters (stock_registry cl) = []" "SpeechAdapters (stock_registry cl) = []" "EmbedAdapters (stock_registry cl) = []"
  "VideoAdapters (stock_registry cl) = []" "ChatAdapters (stock_registry cl) = []"
  by (simp_all add: stock_registry_def passthrough_Register_def NewRegistry_def RegisterChat_def RegisterEmbed_def RegisterImage_def
      RegisterSpeech_def RegisterTranscription_def RegisterVideo_def ChatHandler_of_def EmbedHandler_def ImageHandler_def
      SpeechHandler_def TranscriptionHandler_def VideoHandler_def gm_set_def)

text \<open>With no other adapter linked, a registry is the stock one.\<close>

lemma FromConfig_stock: "FromConfig cl enable [] = Inr reg \<Longrightarrow> reg = stock_registry cl"
proof -
  have r: "passthrough_Register cl NewRegistry = Inr (stock_registry cl)"
    by (simp add: stock_registry_def passthrough_Register_def)
  have e: "registryEmpty NewRegistry" by (simp add: registryEmpty_def NewRegistry_def)
  assume "FromConfig cl enable [] = Inr reg"
  with r e show ?thesis
    by (auto simp: FromConfig_def DefaultAdapters_def passthrough_def split: if_splits sum.splits)
qed

text \<open>
  (C000) Which automatic routes the stock adapters serve: a target whose surface was chosen by its protocol has a
  handler on its wire exactly when the protocol is not \<open>openai-compat-chat\<close>, which the catalog accepts as a chat
  protocol and no stock handler is registered for.
\<close>

theorem stock_routes_served:
  assumes "FromConfig cl enable [] = Inr reg" "targetFromEntry c model entry wireID = Inr t" "pe_Surface entry = ''''"
  shows "forward reg wireID ingressPath (toHandlerTarget t mat) body hdr = Done (Inl ErrRouteNotRegistered) \<longleftrightarrow>
    tg_Protocol t = ''openai-compat-chat''"
proof -
  have reg: "reg = stock_registry cl" by (rule FromConfig_stock [OF assms(1)])
  have "\<exists>prov s. surface_of prov entry wireID s \<and> tg_Protocol t = su_Protocol s \<and> tg_Adapter t = su_Adapter s"
    using assms(2) by (auto simp: targetFromEntry_def split: option.splits sum.splits) (use surfaceFor_Inr in blast)
  then have t: "tg_Adapter t = ''''" "protocolMatchesWire (tg_Protocol t) wireID"
    using assms(3) by (auto simp: surface_of_def)
  have nr: "relay cl ht meth path body' hdr' \<noteq> Done (Inl ErrRouteNotRegistered)" for ht meth path body' hdr'
    by (simp add: relay_def Let_def HTTPDo_def split: option.splits sum.splits)
  note lk = lookupHandler_def lookupChat_def lookupEmbed_def lookupImage_def lookupSpeech_def lookupTranscription_def lookupVideo_def
  have "(wireID, tg_Protocol t) \<in>
    {(WireOpenAIChat, ''openai-chat-completions''), (WireOpenAIChat, ''openai-compat-chat''),
     (WireAnthropicMsg, ''anthropic-messages''), (WireOpenAIEmbed, ''openai-embeddings''),
     (WireOpenAIResponses, ''openai-responses''), (WireOpenAIImagesGen, ''openai-images''),
     (WireOpenAIAudioSpeech, ''openai-tts''), (WireOpenAIAudioTranscriptions, ''openai-transcriptions''),
     (WireOpenAIVideos, ''openai-videos'')}"
    using t(2) by (auto simp only: protocolMatchesWire_def split: if_splits)
  then show ?thesis
    unfolding reg
    by (elim insertE emptyE)
      (simp_all add: t(1) forward_def Let_def toHandlerTarget_def lk stock_registry_simps with_handler_def
        ChatHandler_of_def EmbedHandler_def ImageHandler_def SpeechHandler_def TranscriptionHandler_def VideoHandler_def
        passthrough_forward_def nr wire_defs)
qed

text \<open>The route of a target, which names the headers its credential goes into.\<close>

definition target_route :: "Target \<Rightarrow> Route" where
  "target_route t = \<lparr>rt_Spec = tg_Inject t, rt_Preset = tg_InjectPreset t\<rparr>"

subsection \<open>Instances\<close>

text \<open>
  A gateway with one key, whose first upstream is out of service, and a chat request to a pool of two.
\<close>

definition demo_client :: client where
  "demo_client = \<lparr>cl_url_ok = (\<lambda>_. True), cl_trace = (\<lambda>h. h)\<rparr>"

definition demo_engine :: Engine where
  "demo_engine =
     \<lparr>en_Verify = (\<lambda>k. if k = ''k1'' then Inr \<lparr>prin_ID = ''ci'', prin_KeyID = 1, prin_Scopes = [''model:f'']\<rparr> else Inl ErrInvalidGatewayKey),
      en_Get = (\<lambda>_ _. Inr demo_key_material),
      en_Do = (\<lambda>tr _. if sent tr = [] then Inr \<lparr>rs_status = 503, rs_header = [], rs_body = None\<rparr> else Inr demo_response),
      en_Adapters = stock_registry demo_client, en_media_params = (\<lambda>_. None), en_parts = (\<lambda>_ _. []), en_read_ok = True,
      en_copy = demo_copy_env\<lparr>ce_flusher := False\<rparr>\<rparr>"

definition demo_chat_body :: string where
  "demo_chat_body = emit (JObj [(''model'', JStr ''f'')])"

definition demo_chat :: request where
  "demo_chat = \<lparr>rq_method = ''POST'', rq_path = ''/v1/chat/completions'', rq_escaped = ''/v1/chat/completions'', rq_query = [],
     rq_header = [(''Authorization'', [''Bearer k1''])], rq_body = demo_chat_body\<rparr>"

lemma demo_behind: "behind_statusWriter demo_engine = demo_engine"
  by (simp add: behind_statusWriter_def demo_engine_def)

lemma demo_FromConfig: "FromConfig demo_client [''passthrough''] [] = Inr (en_Adapters demo_engine)"
proof -
  have "passthrough_Register demo_client NewRegistry = Inr (stock_registry demo_client)"
    by (simp add: stock_registry_def passthrough_Register_def)
  moreover have "\<not> registryEmpty (stock_registry demo_client)" by (simp add: registryEmpty_def stock_registry_simps)
  moreover have "ToLower ''passthrough'' = ''passthrough''" by (simp add: ToLower_def char_lower_def Let_def)
  ultimately show ?thesis
    by (simp add: FromConfig_def DefaultAdapters_def passthrough_def enabled_def TrimSpace_graphic graphic_def demo_engine_def gm_set_def gm_getd_def)
qed

lemma demo_mux: "wire_mux (rq_method demo_chat) (rq_escaped demo_chat) = ToWire WireOpenAIChat"
  by (simp add: wire_mux_def demo_chat_def path_eval any_method_routes_def)

lemma demo_bearer: "bearerToken (rq_header demo_chat) = Inr ''k1''"
  by (simp add: bearerToken_def demo_chat_def h_Get_def h_values_def gm_getd_def Let_def TrimPrefix_def TrimSpace_graphic graphic_def)

lemma demo_read: "readIngress demo_engine demo_chat WireOpenAIChat = Inr (''f'', Some demo_chat_body)"
proof -
  have "length demo_chat_body \<le> MaxRequestBody"
    by (simp add: demo_chat_body_def MaxRequestBody_def enc_str_def esc_char_def short_escapes_def quote_def)
  moreover have "struct_members demo_chat_body = Some [(''model'', JStr ''f'')]"
    using struct_members_emit [of "[(''model'', JStr ''f'')]"] by (simp add: demo_chat_body_def del: emit.simps)
  ultimately show ?thesis
    by (simp add: readIngress_def wire_defs demo_chat_def h_Get_def h_values_def demo_names gm_getd_def readModel_def readLimitedBody_def
        demo_engine_def field_str_def field_vals_def field_match_def set_str_def TrimSpace_graphic graphic_def)
qed

lemma demo_method: "validateWireMethod demo_chat WireOpenAIChat"
  by (simp add: validateWireMethod_def wire_defs)

lemma demo_hint: "ModalityHintFromRequest (Some demo_chat) WireOpenAIChat = ''''"
proof -
  have "CanonicalKey ''X-Catalog-Modality'' = ''X-Catalog-Modality''" by (simp add: canonical_eval)
  then show ?thesis
    by (simp add: ModalityHintFromRequest_def wire_defs demo_chat_def HeaderCatalogModality_def h_Get_def h_values_def gm_getd_def)
qed

lemma demo_authorize: "Authorize [''model:f''] ''f'' WireOpenAIChat = Inr ()"
  by (simp add: Authorize_def TrimSpace_graphic graphic_def)

text \<open>Any request that reaches the loop reads a credential.\<close>

lemma fwd_run_prefix: "prefix tr (snd (fwd_run p up tr))"
proof (induction p arbitrary: tr)
  case (Do q k)
  have "prefix (tr @ [Sent q]) (snd (fwd_run (k (up tr q)) up (tr @ [Sent q])))" using Do.IH by blast
  then show ?case by (auto dest: append_prefixD)
qed simp

lemma target_loop_reads:
  "ts \<noteq> [] \<Longrightarrow> ws_trace (snd (target_loop e wireID path raw outHdr fo ts st)) \<noteq> []"
proof (induction ts arbitrary: st)
  case (Cons t ts)

  obtain a st' where a: "attempt_target e wireID path raw outHdr t st = (a, st')" by fastforce
  then have "ws_trace st' \<noteq> []"
    using fwd_run_prefix [of "ws_trace st @ [GotMaterial (tg_CredentialProfile t)]" _ "en_Do e"]
    by (auto simp: attempt_target_def Let_def split: sum.splits option.splits prod.splits)
      (metis append_is_Nil_conv list.discI prefix_bot.extremum_unique snd_conv)+
  with Cons.IH [of st'] show ?case by (auto simp: target_loop_attempt a)
qed simp

definition demo_result :: "wire_reply \<times> wire_state \<times> Catalog" where
  "demo_result = Wire_Handler demo_engine demo_chat demo_catalog"

definition demo_st :: wire_state where
  "demo_st = \<lparr>ws_rec = \<lparr>rec_Wire = WireOpenAIChat, rec_Model = ''f'', rec_ProviderRef = '''', rec_Protocol = '''', rec_PrincipalID = ''ci''\<rparr>,
     ws_hdr = rq_header demo_chat, ws_trace = []\<rparr>"

lemma demo_loop:
  "demo_result =
    (case target_loop demo_engine WireOpenAIChat ''/v1/chat/completions'' (Some demo_chat_body)
       (StripIngressControlHeaders (rq_header demo_chat)) True (rp_Targets demo_plan) demo_st of
     (rep, st2) \<Rightarrow> (rep, st2, demo_catalog))"
proof -
  have "Authenticate (en_Verify demo_engine) (rq_header demo_chat) =
    Inr \<lparr>prin_ID = ''ci'', prin_KeyID = 1, prin_Scopes = [''model:f'']\<rparr>"
    by (simp add: Authenticate_def demo_bearer demo_engine_def)
  moreover have "rq_path demo_chat = ''/v1/chat/completions''"
    "wire_mux (rq_method demo_chat) (rq_escaped demo_chat) = ToWire WireOpenAIChat"
    using demo_mux by (simp_all add: demo_chat_def)
  moreover have "rp_Strategy demo_plan = StrategyFailover" by (simp add: demo_plan_def strategy_defs)
  ultimately show ?thesis
    by (simp add: demo_result_def Wire_Handler_def demo_behind wire_routes_def demo_mux withAuth_def handleWire_def demo_method demo_read
        demo_hint demo_authorize demo_resolve demo_st_def zero_Recorder_def Let_def)
qed

theorem wire_guarded_witness:
  "\<exists>key p. bearerToken (rq_header demo_chat) = Inr key \<and> en_Verify demo_engine key = Inr p \<and> prin_Scopes p = [''model:f'']"
proof -
  obtain rep st c' where r: "Wire_Handler demo_engine demo_chat demo_catalog = (rep, st, c')"
    by (cases "Wire_Handler demo_engine demo_chat demo_catalog")
  have "rp_Targets demo_plan \<noteq> []" by (simp add: demo_plan_def)
  then have "ws_trace st \<noteq> []"
    using demo_loop r target_loop_reads [of "rp_Targets demo_plan" demo_engine WireOpenAIChat "''/v1/chat/completions''"
        "Some demo_chat_body" "StripIngressControlHeaders (rq_header demo_chat)" True demo_st]
    by (auto simp: demo_result_def split: prod.splits)
  with wire_guarded [OF r] show ?thesis
    by (auto simp: demo_engine_def split: if_splits)
qed

lemma wire_always_replies_instance: "fst (Wire_Handler demo_engine demo_chat demo_catalog) \<notin> {WPanic, WNothing}"
  by (rule wire_always_replies) (simp add: demo_engine_def)

theorem failover_in_order_witness:
  "\<exists>k < 2. target_loop demo_engine WireOpenAIChat ''/v1/chat/completions'' (Some demo_chat_body) [] True (rp_Targets demo_plan) demo_st =
    (attempt_reply demo_engine (fst (attempts demo_engine WireOpenAIChat ''/v1/chat/completions'' (Some demo_chat_body) [] (rp_Targets demo_plan) demo_st ! k)),
     snd (attempts demo_engine WireOpenAIChat ''/v1/chat/completions'' (Some demo_chat_body) [] (rp_Targets demo_plan) demo_st ! k))"
proof -
  have "rp_Targets demo_plan \<noteq> []" "length (rp_Targets demo_plan) = 2" by (simp_all add: demo_plan_def)
  with failover_in_order [of "rp_Targets demo_plan" True demo_engine WireOpenAIChat "''/v1/chat/completions''"
      "Some demo_chat_body" "[]" demo_st] show ?thesis by auto
qed

lemma demo_body_parse: "json_parse demo_chat_body = Some (JObj [(''model'', JStr ''f'')])"
  using json_parse_emit [of "JObj [(''model'', JStr ''f'')]"] by (simp add: demo_chat_body_def del: emit.simps)

theorem rewrite_model_exact_witness:
  "\<exists>out ms'. rewriteModelBody demo_chat_body ''up-1'' = Some out \<and> json_parse out = Some (JObj ms') \<and> map_of ms' ''model'' = Some (JStr (to_utf8 ''up-1''))"
  using rewrite_model_exact [OF demo_body_parse, of "''up-1''"] by auto

lemma demo_sets:
  assumes "t \<in> set (rp_Targets demo_plan)"
  shows "route_sets demo_key_material (target_route t) \<lparr>ad_Spec = [], ad_Preset = ''''\<rparr> = Inr [(''Authorization'', ''Bearer sk-up'')]"
proof -
  have "canonicalHeader ''Authorization'' = ''Authorization''"
    by (simp add: canonicalHeader_def TrimSpace_graphic graphic_def ToLower_def char_lower_def Let_def char_of_def bit_Suc_0_iff)
  moreover have "substitute ''Bearer ${key}'' (''sk-up'', '''', '''', '''') = Inr ''Bearer sk-up''"
    by (simp add: substitute_def subst_one_def ph_defs sublist_code)
  moreover have "materialValues demo_key_material = (''sk-up'', '''', '''', '''')"
    by (simp add: materialValues_def demo_key_material_def zero_Material_def TrimSpace_graphic graphic_def)
  moreover have "tg_Inject t = [(''Authorization'', ''Bearer ${key}'')]" using assms by (auto simp: demo_plan_def)
  ultimately show ?thesis
    by (simp add: route_sets_def target_route_def spec_sets_def spec_value_def)
qed

lemma demo_attempt:
  assumes "t \<in> set (rp_Targets demo_plan)"
  obtains q st' where
    "attempt_target demo_engine WireOpenAIChat path (Some demo_chat_body) hdr t st =
       (Answered (if sent (ws_trace st) = [] then \<lparr>rs_status = 503, rs_header = [], rs_body = None\<rparr> else demo_response), st')"
    "sent (ws_trace st') = sent (ws_trace st) @ [q]"
proof -
  obtain body h where body: "requestBody (Some demo_chat_body) (tg_UpstreamModel t) (ws_hdr st) = Some (body, h)"
    using rewriteModelBody_None [of demo_chat_body "tg_UpstreamModel t"]
    by (cases "rewriteModelBody demo_chat_body (tg_UpstreamModel t)") (auto simp: requestBody_def demo_body_parse)
  have r: "\<exists>q. relay demo_client (toHandlerTarget t demo_key_material) meth p b hdr = Do q (\<lambda>r. Done (case r of Inl _ \<Rightarrow> Inl ErrUpstream | Inr resp \<Rightarrow> Inr resp))"
    for meth p b
    using demo_sets [OF assms]
    by (auto simp: relay_def Let_def NewRequest_def demo_client_def toHandlerTarget_def ApplyRoute_sets target_route_def HTTPDo_def)
  have "lookupChat (stock_registry demo_client) t =
      Some (ChatHandler_of demo_client \<lparr>ch_ProtocolName = ''openai-chat-completions'', ch_WireID = WireOpenAIChat, ch_Path = ''''\<rparr>)"
    using assms by (auto simp: demo_plan_def lookupChat_def lookupHandler_def stock_registry_simps)
  then obtain q where "forward (stock_registry demo_client) WireOpenAIChat path (toHandlerTarget t demo_key_material) body hdr =
      Do q (\<lambda>r. Done (case r of Inl _ \<Rightarrow> Inl ErrUpstream | Inr resp \<Rightarrow> Inr resp))"
    using r by (fastforce simp: forward_def toHandlerTarget_def wire_defs with_handler_def ChatHandler_of_def passthrough_forward_def Let_def)
  then show ?thesis
    using body by (intro that [of _ q]) (auto simp: attempt_target_def Let_def demo_engine_def)
qed

lemma demo_run:
  "length (sent (ws_trace (fst (snd demo_result)))) = 2 \<and>
   fst demo_result = WRelay (CopyResponse (en_copy demo_engine) [] demo_response)"
proof -
  let ?loop = "target_loop demo_engine WireOpenAIChat ''/v1/chat/completions'' (Some demo_chat_body) (StripIngressControlHeaders (rq_header demo_chat)) True"
  obtain t1 t2 where ts: "rp_Targets demo_plan = [t1, t2]" by (simp add: demo_plan_def)
  obtain q1 st1 where 1: "attempt_target demo_engine WireOpenAIChat ''/v1/chat/completions'' (Some demo_chat_body)
      (StripIngressControlHeaders (rq_header demo_chat)) t1 demo_st = (Answered \<lparr>rs_status = 503, rs_header = [], rs_body = None\<rparr>, st1)"
    "sent (ws_trace st1) = [q1]"
    by (rule demo_attempt [of t1 "''/v1/chat/completions''" "StripIngressControlHeaders (rq_header demo_chat)" demo_st])
      (auto simp: ts demo_st_def)
  obtain q2 st2 where 2: "attempt_target demo_engine WireOpenAIChat ''/v1/chat/completions'' (Some demo_chat_body)
      (StripIngressControlHeaders (rq_header demo_chat)) t2 st1 = (Answered demo_response, st2)"
    "sent (ws_trace st2) = [q1, q2]"
    by (rule demo_attempt [of t2 "''/v1/chat/completions''" "StripIngressControlHeaders (rq_header demo_chat)" st1])
      (auto simp: ts 1(2))
  show ?thesis
    by (simp add: demo_loop ts target_loop_attempt 1 2 Retryable_def split: prod.split)
qed

lemma demo_sent: "length (sent (ws_trace (fst (snd demo_result)))) = 2"
  using demo_run by simp

lemma demo_relayed:
  "\<exists>st c'. Wire_Handler demo_engine demo_chat demo_catalog = (WRelay (CopyResponse (en_copy demo_engine) [] demo_response), st, c')"
  using demo_run by (cases demo_result) (auto simp: demo_result_def)

definition demo_compat_catalog :: Catalog where
  "demo_compat_catalog = NewFromDocument
     \<lparr>doc_Providers = [(''p'', demo_provider ''openai-compat-chat'' ''https://p/v1'')], doc_Models = []\<rparr>"

theorem stock_routes_served_witness:
  "\<exists>t. targetFromEntry demo_compat_catalog ''m'' \<lparr>pe_ProviderRef = ''p'', pe_Model = '''', pe_Surface = ''''\<rparr> WireOpenAIChat = Inr t \<and>
    forward (en_Adapters demo_engine) WireOpenAIChat ''/v1/chat/completions'' (toHandlerTarget t demo_key_material) None [] =
      Done (Inl ErrRouteNotRegistered)"
proof -
  obtain t where t: "targetFromEntry demo_compat_catalog ''m'' \<lparr>pe_ProviderRef = ''p'', pe_Model = '''', pe_Surface = ''''\<rparr> WireOpenAIChat = Inr t"
    "tg_Protocol t = ''openai-compat-chat''"
    by (simp add: demo_compat_catalog_def targetFromEntry_def surfaceFor_def gm_keys_def protocolMatchesWire_def demo_simps)
  with stock_routes_served [OF demo_FromConfig t(1)] show ?thesis by auto
qed

theorem streamed_replies_unflushed_witness:
  "\<exists>cr st c'. Wire_Handler (demo_engine\<lparr>en_copy := demo_copy_env\<rparr>) demo_chat demo_catalog = (WRelay cr, st, c') \<and>
     concat (map fst (cr_body cr)) = ''a'' @ [CHR 0x0A] @ ''b'' \<and> (\<forall>p \<in> set (cr_body cr). \<not> snd p)"
proof -
  let ?e = "demo_engine\<lparr>en_copy := demo_copy_env\<rparr>"
  have same: "Wire_Handler ?e demo_chat demo_catalog = Wire_Handler demo_engine demo_chat demo_catalog"
    by (simp add: Wire_Handler_def behind_statusWriter_def demo_engine_def)
  obtain st c' where r: "Wire_Handler demo_engine demo_chat demo_catalog =
      (WRelay (CopyResponse (en_copy demo_engine) [] demo_response), st, c')"
    using demo_relayed by blast
  have "h_Get (rs_header demo_response) ''Content-Type'' = ''text/event-stream''"
    by (simp add: demo_response_def h_Get_def h_values_def demo_names gm_getd_def)
  then have "concat (map fst (cr_body (CopyResponse (en_copy demo_engine) [] demo_response))) = ''a'' @ [CHR 0x0A] @ ''b''"
    by (simp add: CopyResponse_def copySSE_def demo_response_def demo_engine_def demo_copy_env_def)
  with streamed_replies_unflushed [of ?e demo_chat demo_catalog] r same show ?thesis by auto
qed

end
