(* ===== verification/Drain.thy ===== *)
theory Drain
  imports Prelude
begin

section \<open>Draining the gateway\<close>

text \<open>
  \<^verbatim>\<open>gateway/gateway.go\<close>: \<^verbatim>\<open>track\<close>, which every handler of the two planes runs under, and \<^verbatim>\<open>Shutdown\<close>.
  Both are programs of concurrent goroutines: a state holds the program counter of each request and
  of the one call of \<^verbatim>\<open>Shutdown\<close>, the mutex, the flag and the counter of the wait group, and each
  statement that reads or writes them is one step. The order of the steps is open. A handler that
  panics ends its step like one that returns, since \<^verbatim>\<open>active.Done\<close> is deferred.

  \<^verbatim>\<open>http.Server.Shutdown\<close> is the library's: it returns when no request of its server is running, and
  nothing arrives at that server any more, or when the context has expired, and then requests may
  still arrive on connections that are open. The context expires after five minutes, at any time
  as far as the model goes.
\<close>

datatype plane = DataPlane | AdminPlane

text \<open>
  A request that has not arrived; that has called the handler and waits for the mutex; that holds
  it; that holds it and is counted; that runs the wrapped handler; that was answered 503; whose
  handler has returned.
\<close>

datatype req_phase = Pending | AtGate | HasLock | Counted | Serving | Rejected | Finished

text \<open>
  \<^verbatim>\<open>Shutdown\<close> before its call; with the mutex; with the flag set; waiting for the data server, for the
  admin server, and in the final \<^verbatim>\<open>select\<close>; returned after the drain (\<open>True\<close>) or the timeout.
\<close>

datatype shut_phase = Idle | ShutHasLock | ShutFlagged | StopData | StopAdmin | Selecting | Returned bool

datatype holder = RequestHolds nat | ShutdownHolds

record gate =
  gs_reqs :: "(plane \<times> req_phase) list"
  gs_lock :: "holder option"
  gs_draining :: bool
  gs_active :: int
  gs_shut :: shut_phase
  gs_admin :: bool
  gs_closed :: "plane list"
  gs_done :: bool
  gs_expired :: bool

definition gate_init :: "bool \<Rightarrow> plane list \<Rightarrow> gate" where
  "gate_init admin ps =
     \<lparr>gs_reqs = map (\<lambda>p. (p, Pending)) ps, gs_lock = None, gs_draining = False, gs_active = 0,
      gs_shut = Idle, gs_admin = admin, gs_closed = [], gs_done = False, gs_expired = False\<rparr>"

fun in_flight :: "req_phase \<Rightarrow> bool" where
  "in_flight Counted = True"
| "in_flight Serving = True"
| "in_flight _ = False"

fun running :: "req_phase \<Rightarrow> bool" where
  "running Pending = False"
| "running Rejected = False"
| "running Finished = False"
| "running _ = True"

fun draining_phase :: "shut_phase \<Rightarrow> bool" where
  "draining_phase Idle = False"
| "draining_phase ShutHasLock = False"
| "draining_phase ShutFlagged = False"
| "draining_phase _ = True"

definition server_idle :: "plane \<Rightarrow> gate \<Rightarrow> bool" where
  "server_idle p s = list_all (\<lambda>(q, ph). q = p \<longrightarrow> \<not> running ph) (gs_reqs s)"

definition in_flight_count :: "gate \<Rightarrow> nat" where
  "in_flight_count s = length (filter (\<lambda>(p, ph). in_flight ph) (gs_reqs s))"

definition at_phase :: "gate \<Rightarrow> nat \<Rightarrow> plane \<Rightarrow> req_phase \<Rightarrow> bool" where
  "at_phase s i p ph = (i < length (gs_reqs s) \<and> gs_reqs s ! i = (p, ph))"

definition go_phase :: "nat \<Rightarrow> plane \<Rightarrow> req_phase \<Rightarrow> gate \<Rightarrow> gate" where
  "go_phase i p ph s = s\<lparr>gs_reqs := (gs_reqs s)[i := (p, ph)]\<rparr>"

subsection \<open>The steps\<close>

inductive track_step :: "gate \<Rightarrow> gate \<Rightarrow> bool" where
  arrive: "at_phase s i p Pending \<Longrightarrow> p \<notin> set (gs_closed s) \<Longrightarrow> p = AdminPlane \<longrightarrow> gs_admin s \<Longrightarrow>
    track_step s (go_phase i p AtGate s)"
| lock: "at_phase s i p AtGate \<Longrightarrow> gs_lock s = None \<Longrightarrow>
    track_step s (go_phase i p HasLock s\<lparr>gs_lock := Some (RequestHolds i)\<rparr>)"
| refuse: "at_phase s i p HasLock \<Longrightarrow> gs_draining s \<Longrightarrow>
    track_step s (go_phase i p Rejected s\<lparr>gs_lock := None\<rparr>)"
| count: "at_phase s i p HasLock \<Longrightarrow> \<not> gs_draining s \<Longrightarrow>
    track_step s (go_phase i p Counted s\<lparr>gs_active := gs_active s + 1\<rparr>)"
| unlock: "at_phase s i p Counted \<Longrightarrow>
    track_step s (go_phase i p Serving s\<lparr>gs_lock := None\<rparr>)"
| finish: "at_phase s i p Serving \<Longrightarrow>
    track_step s (go_phase i p Finished s\<lparr>gs_active := gs_active s - 1\<rparr>)"

text \<open>\<open>waited\<close> is the goroutine that waits for the wait group, which may outlive \<^verbatim>\<open>Shutdown\<close> itself.\<close>

inductive shutdown_step :: "gate \<Rightarrow> gate \<Rightarrow> bool" where
  shut_lock: "gs_shut s = Idle \<Longrightarrow> gs_lock s = None \<Longrightarrow>
    shutdown_step s (s\<lparr>gs_shut := ShutHasLock, gs_lock := Some ShutdownHolds\<rparr>)"
| shut_flag: "gs_shut s = ShutHasLock \<Longrightarrow>
    shutdown_step s (s\<lparr>gs_shut := ShutFlagged, gs_draining := True\<rparr>)"
| shut_unlock: "gs_shut s = ShutFlagged \<Longrightarrow>
    shutdown_step s (s\<lparr>gs_shut := StopData, gs_lock := None\<rparr>)"
| waited: "draining_phase (gs_shut s) \<Longrightarrow> \<not> gs_done s \<Longrightarrow> gs_active s = 0 \<Longrightarrow>
    shutdown_step s (s\<lparr>gs_done := True\<rparr>)"
| deadline: "gs_shut s \<in> {StopData, StopAdmin, Selecting} \<Longrightarrow> \<not> gs_expired s \<Longrightarrow>
    shutdown_step s (s\<lparr>gs_expired := True\<rparr>)"
| data_stopped: "gs_shut s = StopData \<Longrightarrow> server_idle DataPlane s \<Longrightarrow>
    shutdown_step s (s\<lparr>gs_shut := StopAdmin, gs_closed := DataPlane # gs_closed s\<rparr>)"
| data_given_up: "gs_shut s = StopData \<Longrightarrow> gs_expired s \<Longrightarrow>
    shutdown_step s (s\<lparr>gs_shut := StopAdmin\<rparr>)"
| admin_absent: "gs_shut s = StopAdmin \<Longrightarrow> \<not> gs_admin s \<Longrightarrow>
    shutdown_step s (s\<lparr>gs_shut := Selecting\<rparr>)"
| admin_stopped: "gs_shut s = StopAdmin \<Longrightarrow> gs_admin s \<Longrightarrow> server_idle AdminPlane s \<Longrightarrow>
    shutdown_step s (s\<lparr>gs_shut := Selecting, gs_closed := AdminPlane # gs_closed s\<rparr>)"
| admin_given_up: "gs_shut s = StopAdmin \<Longrightarrow> gs_admin s \<Longrightarrow> gs_expired s \<Longrightarrow>
    shutdown_step s (s\<lparr>gs_shut := Selecting\<rparr>)"
| drained: "gs_shut s = Selecting \<Longrightarrow> gs_done s \<Longrightarrow>
    shutdown_step s (s\<lparr>gs_shut := Returned True\<rparr>)"
| timed_out: "gs_shut s = Selecting \<Longrightarrow> gs_expired s \<Longrightarrow>
    shutdown_step s (s\<lparr>gs_shut := Returned False\<rparr>)"

definition gate_step :: "gate \<Rightarrow> gate \<Rightarrow> bool" where
  "gate_step s s' \<longleftrightarrow> track_step s s' \<or> shutdown_step s s'"

abbreviation gate_run :: "gate \<Rightarrow> gate \<Rightarrow> bool" where
  "gate_run \<equiv> gate_step\<^sup>*\<^sup>*"

inductive_cases track_stepE: "track_step s s'"
inductive_cases shutdown_stepE: "shutdown_step s s'"

text \<open>Where a request or \<^verbatim>\<open>Shutdown\<close> can move.\<close>

lemma track_can_step:
  assumes "i < length (gs_reqs s)" "gs_reqs s ! i = (p, ph)"
  shows "ph = AtGate \<Longrightarrow> gs_lock s = None \<Longrightarrow> \<exists>s'. track_step s s' \<and> gs_expired s' = gs_expired s"
    "ph = HasLock \<Longrightarrow> \<exists>s'. track_step s s' \<and> gs_expired s' = gs_expired s"
    "ph = Counted \<Longrightarrow> \<exists>s'. track_step s s' \<and> gs_expired s' = gs_expired s"
    "ph = Serving \<Longrightarrow> \<exists>s'. track_step s s' \<and> gs_expired s' = gs_expired s"
proof -
  have at: "at_phase s i p ph" using assms by (simp add: at_phase_def)
  show "ph = AtGate \<Longrightarrow> gs_lock s = None \<Longrightarrow> \<exists>s'. track_step s s' \<and> gs_expired s' = gs_expired s"
    using track_step.lock [of s i p] at by (fastforce simp: go_phase_def)
  show "ph = HasLock \<Longrightarrow> \<exists>s'. track_step s s' \<and> gs_expired s' = gs_expired s"
    using track_step.refuse [of s i p] track_step.count [of s i p] at by (cases "gs_draining s") (fastforce simp: go_phase_def)+
  show "ph = Counted \<Longrightarrow> \<exists>s'. track_step s s' \<and> gs_expired s' = gs_expired s"
    using track_step.unlock [of s i p] at by (fastforce simp: go_phase_def)
  show "ph = Serving \<Longrightarrow> \<exists>s'. track_step s s' \<and> gs_expired s' = gs_expired s"
    using track_step.finish [of s i p] at by (fastforce simp: go_phase_def)
qed

subsection \<open>The invariant\<close>

text \<open>
  The counter is the number of counted requests; the mutex has the holder whose program counter says
  so; the flag is set exactly from \<open>ShutFlagged\<close> on; the wait has returned only when nothing is in
  flight and the flag is set; \<^verbatim>\<open>Shutdown\<close> has returned on a drain or on the expiry.
\<close>

fun holds_lock :: "req_phase \<Rightarrow> bool" where
  "holds_lock HasLock = True"
| "holds_lock Counted = True"
| "holds_lock _ = False"

definition lock_inv :: "gate \<Rightarrow> bool" where
  "lock_inv s \<longleftrightarrow>
     (\<forall>i p ph. at_phase s i p ph \<longrightarrow> (holds_lock ph \<longleftrightarrow> gs_lock s = Some (RequestHolds i))) \<and>
     (\<forall>i. gs_lock s = Some (RequestHolds i) \<longrightarrow> i < length (gs_reqs s))"

definition gate_inv :: "gate \<Rightarrow> bool" where
  "gate_inv s \<longleftrightarrow>
     gs_active s = int (in_flight_count s) \<and>
     lock_inv s \<and>
     (gs_lock s = Some ShutdownHolds \<longleftrightarrow> gs_shut s \<in> {ShutHasLock, ShutFlagged}) \<and>
     (gs_draining s \<longleftrightarrow> gs_shut s \<notin> {Idle, ShutHasLock}) \<and>
     (gs_done s \<longrightarrow> in_flight_count s = 0 \<and> draining_phase (gs_shut s)) \<and>
     (gs_shut s = Returned True \<longrightarrow> gs_done s) \<and>
     (gs_shut s = Returned False \<longrightarrow> gs_expired s)"

lemma in_flight_count_go:
  assumes "at_phase s i p ph"
  shows "int (in_flight_count (go_phase i p ph' s)) =
    int (in_flight_count s) - of_bool (in_flight ph) + of_bool (in_flight ph')"
proof -
  have split: "gs_reqs s = take i (gs_reqs s) @ (p, ph) # drop (Suc i) (gs_reqs s)"
    using assms unfolding at_phase_def by (metis id_take_nth_drop)
  have "int (length (filter (\<lambda>(p, ph). in_flight ph) (gs_reqs s))) =
    int (length (filter (\<lambda>(p, ph). in_flight ph) (take i (gs_reqs s)))) + of_bool (in_flight ph) +
    int (length (filter (\<lambda>(p, ph). in_flight ph) (drop (Suc i) (gs_reqs s))))"
    by (subst split) simp
  then show ?thesis
    using assms by (simp add: in_flight_count_def go_phase_def at_phase_def upd_conv_take_nth_drop)
qed

lemma at_phase_go:
  "at_phase s i p ph \<Longrightarrow> at_phase (go_phase i p ph' s) j q ph'' \<longleftrightarrow>
     (if j = i then q = p \<and> ph'' = ph' else at_phase s j q ph'')"
  by (auto simp: at_phase_def go_phase_def nth_list_update)

lemma go_phase_frame [simp]:
  "gs_lock (go_phase i p ph s) = gs_lock s" "gs_draining (go_phase i p ph s) = gs_draining s"
  "gs_active (go_phase i p ph s) = gs_active s" "gs_shut (go_phase i p ph s) = gs_shut s"
  "gs_admin (go_phase i p ph s) = gs_admin s" "gs_closed (go_phase i p ph s) = gs_closed s"
  "gs_done (go_phase i p ph s) = gs_done s" "gs_expired (go_phase i p ph s) = gs_expired s"
  "length (gs_reqs (go_phase i p ph s)) = length (gs_reqs s)"
  by (simp_all add: go_phase_def)

lemma reqs_frame [simp]:
  "at_phase (s\<lparr>gs_lock := l\<rparr>) = at_phase s" "at_phase (s\<lparr>gs_draining := b\<rparr>) = at_phase s"
  "at_phase (s\<lparr>gs_active := a\<rparr>) = at_phase s" "at_phase (s\<lparr>gs_shut := h\<rparr>) = at_phase s"
  "at_phase (s\<lparr>gs_closed := c\<rparr>) = at_phase s" "at_phase (s\<lparr>gs_done := b\<rparr>) = at_phase s"
  "at_phase (s\<lparr>gs_expired := b\<rparr>) = at_phase s"
  "in_flight_count (s\<lparr>gs_lock := l\<rparr>) = in_flight_count s" "in_flight_count (s\<lparr>gs_draining := b\<rparr>) = in_flight_count s"
  "in_flight_count (s\<lparr>gs_active := a\<rparr>) = in_flight_count s" "in_flight_count (s\<lparr>gs_shut := h\<rparr>) = in_flight_count s"
  "in_flight_count (s\<lparr>gs_closed := c\<rparr>) = in_flight_count s" "in_flight_count (s\<lparr>gs_done := b\<rparr>) = in_flight_count s"
  "in_flight_count (s\<lparr>gs_expired := b\<rparr>) = in_flight_count s"
  by (simp_all add: at_phase_def in_flight_count_def fun_eq_iff)

lemma at_phase_length: "at_phase s i p ph \<Longrightarrow> i < length (gs_reqs s)"
  by (simp add: at_phase_def)

lemma lock_inv_frame [simp]:
  "lock_inv (s\<lparr>gs_draining := b\<rparr>) = lock_inv s" "lock_inv (s\<lparr>gs_active := a\<rparr>) = lock_inv s"
  "lock_inv (s\<lparr>gs_shut := h\<rparr>) = lock_inv s" "lock_inv (s\<lparr>gs_closed := c\<rparr>) = lock_inv s"
  "lock_inv (s\<lparr>gs_done := b\<rparr>) = lock_inv s" "lock_inv (s\<lparr>gs_expired := b\<rparr>) = lock_inv s"
  by (simp_all add: lock_inv_def)

text \<open>A request that neither takes nor gives up the mutex; one that takes it; one that gives it up.\<close>

lemma lock_inv_keep:
  "at_phase s i p ph \<Longrightarrow> holds_lock ph' = holds_lock ph \<Longrightarrow> lock_inv s \<Longrightarrow> lock_inv (go_phase i p ph' s)"
  unfolding lock_inv_def by (auto simp: at_phase_go)

lemma lock_inv_take:
  "at_phase s i p ph \<Longrightarrow> holds_lock ph' \<Longrightarrow> gs_lock s = None \<Longrightarrow> lock_inv s \<Longrightarrow>
     lock_inv (go_phase i p ph' s\<lparr>gs_lock := Some (RequestHolds i)\<rparr>)"
  unfolding lock_inv_def by (auto simp: at_phase_go at_phase_length)

lemma lock_inv_release:
  "at_phase s i p ph \<Longrightarrow> holds_lock ph \<Longrightarrow> \<not> holds_lock ph' \<Longrightarrow> lock_inv s \<Longrightarrow>
     lock_inv (go_phase i p ph' s\<lparr>gs_lock := None\<rparr>)"
  unfolding lock_inv_def by (auto simp: at_phase_go)

lemma lock_inv_holder:
  "lock_inv s \<Longrightarrow> at_phase s i p ph \<Longrightarrow> holds_lock ph \<Longrightarrow> gs_lock s = Some (RequestHolds i)"
  by (auto simp: lock_inv_def)

lemma in_flight_counted: "at_phase s i p ph \<Longrightarrow> in_flight ph \<Longrightarrow> 0 < in_flight_count s"
  unfolding at_phase_def in_flight_count_def
  by (metis (mono_tags, lifting) case_prod_conv filter_empty_conv length_greater_0_conv nth_mem)

lemma gate_inv_init: "gate_inv (gate_init admin ps)"
  by (auto simp: gate_inv_def gate_init_def in_flight_count_def lock_inv_def at_phase_def filter_map o_def)

lemma track_step_inv:
  assumes "track_step s s'" "gate_inv s"
  shows "gate_inv s'"
proof -
  have inv: "gs_active s = int (in_flight_count s)" "lock_inv s"
    "gs_lock s = Some ShutdownHolds \<longleftrightarrow> gs_shut s \<in> {ShutHasLock, ShutFlagged}"
    "gs_draining s \<longleftrightarrow> gs_shut s \<notin> {Idle, ShutHasLock}"
    "gs_done s \<Longrightarrow> in_flight_count s = 0 \<and> draining_phase (gs_shut s)"
    "gs_shut s = Returned True \<Longrightarrow> gs_done s" "gs_shut s = Returned False \<Longrightarrow> gs_expired s"
    using assms(2) by (simp_all add: gate_inv_def)
  from assms(1) show ?thesis
  proof (cases rule: track_step.cases)
    case (arrive i p)
    show ?thesis
      unfolding arrive(1) gate_inv_def
      using inv lock_inv_keep [OF arrive(2), of AtGate] in_flight_count_go [OF arrive(2), of AtGate] by auto
  next
    case (lock i p)
    show ?thesis
      unfolding lock(1) gate_inv_def
      using inv lock_inv_take [OF lock(2), of HasLock] in_flight_count_go [OF lock(2), of HasLock] lock(3) by auto
  next
    case (refuse i p)
    show ?thesis
      unfolding refuse(1) gate_inv_def
      using inv lock_inv_release [OF refuse(2), of Rejected] in_flight_count_go [OF refuse(2), of Rejected]
        lock_inv_holder [OF inv(2) refuse(2)] by auto
  next
    case (count i p)
    have "\<not> gs_done s" using inv(4,5) count(3) by auto
    then show ?thesis
      unfolding count(1) gate_inv_def
      using inv lock_inv_keep [OF count(2), of Counted] in_flight_count_go [OF count(2), of Counted]
        lock_inv_holder [OF inv(2) count(2)] by auto
  next
    case (unlock i p)
    show ?thesis
      unfolding unlock(1) gate_inv_def
      using inv lock_inv_release [OF unlock(2), of Serving] in_flight_count_go [OF unlock(2), of Serving]
        lock_inv_holder [OF inv(2) unlock(2)] by auto
  next
    case (finish i p)
    show ?thesis
      unfolding finish(1) gate_inv_def
      using inv lock_inv_keep [OF finish(2), of Finished] in_flight_count_go [OF finish(2), of Finished]
        in_flight_counted [OF finish(2)] by auto
  qed
qed

lemma shutdown_step_inv:
  assumes "shutdown_step s s'" "gate_inv s"
  shows "gate_inv s'"
  using assms(1)
proof (cases rule: shutdown_step.cases)
  case shut_lock
  with assms(2) show ?thesis by (auto simp: gate_inv_def lock_inv_def)
next
  case shut_unlock
  with assms(2) show ?thesis by (auto simp: gate_inv_def lock_inv_def)
qed (use assms(2) in \<open>auto simp: gate_inv_def\<close>)

lemma gate_step_inv: "gate_step s s' \<Longrightarrow> gate_inv s \<Longrightarrow> gate_inv s'"
  by (auto simp: gate_step_def track_step_inv shutdown_step_inv)

lemma gate_run_inv: "gate_run s s' \<Longrightarrow> gate_inv s \<Longrightarrow> gate_inv s'"
  by (induction rule: rtranclp_induct) (auto intro: gate_step_inv)

lemma reachable_inv: "gate_run (gate_init admin ps) s \<Longrightarrow> gate_inv s"
  by (rule gate_run_inv [OF _ gate_inv_init])

subsection \<open>What the drain guarantees\<close>

fun admitted_phase :: "req_phase \<Rightarrow> bool" where
  "admitted_phase Counted = True"
| "admitted_phase Serving = True"
| "admitted_phase Finished = True"
| "admitted_phase _ = False"

definition admitted :: "gate \<Rightarrow> nat \<Rightarrow> bool" where
  "admitted s i \<longleftrightarrow> i < length (gs_reqs s) \<and> admitted_phase (snd (gs_reqs s ! i))"

lemma admitted_go:
  "at_phase s i p ph \<Longrightarrow> admitted_phase ph' = admitted_phase ph \<Longrightarrow> admitted (go_phase i p ph' s) = admitted s"
  by (auto simp: admitted_def at_phase_def go_phase_def nth_list_update fun_eq_iff)

lemma admitted_frame [simp]:
  "admitted (s\<lparr>gs_lock := l\<rparr>) = admitted s" "admitted (s\<lparr>gs_draining := b\<rparr>) = admitted s"
  "admitted (s\<lparr>gs_active := a\<rparr>) = admitted s" "admitted (s\<lparr>gs_shut := h\<rparr>) = admitted s"
  "admitted (s\<lparr>gs_closed := c\<rparr>) = admitted s" "admitted (s\<lparr>gs_done := b\<rparr>) = admitted s"
  "admitted (s\<lparr>gs_expired := b\<rparr>) = admitted s"
  by (simp_all add: admitted_def fun_eq_iff)

lemma draining_step:
  assumes "gate_step s s'" "gs_draining s"
  shows "gs_draining s' \<and> admitted s' = admitted s"
  using assms
  by (auto simp: gate_step_def admitted_go elim!: track_stepE shutdown_stepE)

lemma draining_run: "gate_run s s' \<Longrightarrow> gs_draining s \<Longrightarrow> gs_draining s' \<and> admitted s' = admitted s"
  by (induction rule: rtranclp_induct) (auto dest: draining_step)

lemma done_run: "gate_run s s' \<Longrightarrow> gs_done s \<Longrightarrow> gs_done s'"
  by (induction rule: rtranclp_induct) (auto simp: gate_step_def elim!: track_stepE shutdown_stepE)

text \<open>Every step lowers this number: what is left to do for the requests and for \<^verbatim>\<open>Shutdown\<close>.\<close>

fun req_work :: "req_phase \<Rightarrow> nat" where
  "req_work Pending = 5"
| "req_work AtGate = 4"
| "req_work HasLock = 3"
| "req_work Counted = 2"
| "req_work Serving = 1"
| "req_work _ = 0"

fun shut_work :: "shut_phase \<Rightarrow> nat" where
  "shut_work Idle = 6"
| "shut_work ShutHasLock = 5"
| "shut_work ShutFlagged = 4"
| "shut_work StopData = 3"
| "shut_work StopAdmin = 2"
| "shut_work Selecting = 1"
| "shut_work (Returned c) = 0"

definition reqs_work :: "gate \<Rightarrow> nat" where
  "reqs_work s = (\<Sum>(p, ph) \<leftarrow> gs_reqs s. req_work ph)"

definition gate_work :: "gate \<Rightarrow> nat" where
  "gate_work s = reqs_work s + shut_work (gs_shut s) + of_bool (\<not> gs_done s) + of_bool (\<not> gs_expired s)"

lemma reqs_work_go:
  assumes "at_phase s i p ph"
  shows "reqs_work (go_phase i p ph' s) + req_work ph = reqs_work s + req_work ph'"
proof -
  have split: "gs_reqs s = take i (gs_reqs s) @ (p, ph) # drop (Suc i) (gs_reqs s)"
    using assms unfolding at_phase_def by (metis id_take_nth_drop)
  have "reqs_work s = (\<Sum>(p, ph) \<leftarrow> take i (gs_reqs s). req_work ph) + req_work ph +
    (\<Sum>(p, ph) \<leftarrow> drop (Suc i) (gs_reqs s). req_work ph)"
    unfolding reqs_work_def by (subst split) simp
  then show ?thesis
    using assms by (simp add: reqs_work_def go_phase_def at_phase_def upd_conv_take_nth_drop)
qed

lemma reqs_work_frame [simp]:
  "reqs_work (s\<lparr>gs_lock := l\<rparr>) = reqs_work s" "reqs_work (s\<lparr>gs_draining := b\<rparr>) = reqs_work s"
  "reqs_work (s\<lparr>gs_active := a\<rparr>) = reqs_work s" "reqs_work (s\<lparr>gs_shut := h\<rparr>) = reqs_work s"
  "reqs_work (s\<lparr>gs_closed := c\<rparr>) = reqs_work s" "reqs_work (s\<lparr>gs_done := b\<rparr>) = reqs_work s"
  "reqs_work (s\<lparr>gs_expired := b\<rparr>) = reqs_work s"
  by (simp_all add: reqs_work_def)

lemma gate_step_work:
  assumes "gate_step s s'"
  shows "gate_work s' < gate_work s"
  using assms unfolding gate_step_def
proof
  assume "track_step s s'"
  then show ?thesis
  proof (cases rule: track_step.cases)
    case (arrive i p) then show ?thesis using reqs_work_go [OF arrive(2), of AtGate] by (simp add: gate_work_def)
  next
    case (lock i p) then show ?thesis using reqs_work_go [OF lock(2), of HasLock] by (simp add: gate_work_def)
  next
    case (refuse i p) then show ?thesis using reqs_work_go [OF refuse(2), of Rejected] by (simp add: gate_work_def)
  next
    case (count i p) then show ?thesis using reqs_work_go [OF count(2), of Counted] by (simp add: gate_work_def)
  next
    case (unlock i p) then show ?thesis using reqs_work_go [OF unlock(2), of Serving] by (simp add: gate_work_def)
  next
    case (finish i p) then show ?thesis using reqs_work_go [OF finish(2), of Finished] by (simp add: gate_work_def)
  qed
next
  assume "shutdown_step s s'"
  then show ?thesis by (auto simp: gate_work_def elim!: shutdown_stepE)
qed

lemma gate_run_length: "(gate_step ^^ n) s s' \<Longrightarrow> n + gate_work s' \<le> gate_work s"
proof (induction n arbitrary: s')
  case (Suc n)
  then obtain t where "(gate_step ^^ n) s t" "gate_step t s'" by auto
  with Suc.IH [of t] gate_step_work [of t s'] show ?case by simp
qed simp

lemma gate_init_work: "gate_work (gate_init admin ps) = 5 * length ps + 8"
  by (simp add: gate_work_def gate_init_def reqs_work_def o_def sum_list_triv)

text \<open>Where nothing but the expiry can happen, every request is over and \<^verbatim>\<open>Shutdown\<close> has returned.\<close>

definition gate_settled :: "gate \<Rightarrow> bool" where
  "gate_settled s \<longleftrightarrow> (\<forall>s'. gate_step s s' \<longrightarrow> gs_expired s' \<noteq> gs_expired s)"

lemma settled_track: "gate_settled s \<Longrightarrow> track_step s s' \<Longrightarrow> gs_expired s' \<noteq> gs_expired s"
  by (simp add: gate_settled_def gate_step_def)

lemma settled_shutdown: "gate_settled s \<Longrightarrow> shutdown_step s s' \<Longrightarrow> gs_expired s' \<noteq> gs_expired s"
  by (simp add: gate_settled_def gate_step_def)

lemma settled_unlocked:
  assumes "gate_settled s" "gate_inv s"
  shows "gs_lock s = None"
proof (cases "gs_lock s")
  case (Some h)
  show ?thesis
  proof (cases h)
    case (RequestHolds i)
    then obtain p ph where "i < length (gs_reqs s)" "gs_reqs s ! i = (p, ph)" "holds_lock ph"
      using Some assms(2) by (cases "gs_reqs s ! i") (auto simp: gate_inv_def lock_inv_def at_phase_def)
    with track_can_step(2,3) settled_track [OF assms(1)] have False
      by (cases ph) (simp_all, blast+)
    then show ?thesis ..
  next
    case ShutdownHolds
    with Some assms(2) have "gs_shut s \<in> {ShutHasLock, ShutFlagged}" by (simp add: gate_inv_def)
    with settled_shutdown [OF assms(1) shut_flag] settled_shutdown [OF assms(1) shut_unlock]
    show ?thesis by auto
  qed
qed simp

lemma settled_over:
  assumes "gate_settled s" "gate_inv s" "(p, ph) \<in> set (gs_reqs s)"
  shows "\<not> running ph"
proof -
  obtain i where i: "i < length (gs_reqs s)" "gs_reqs s ! i = (p, ph)"
    using assms(3) by (metis in_set_conv_nth)
  from track_can_step [OF i] settled_track [OF assms(1)] settled_unlocked [OF assms(1,2)]
  show ?thesis by (cases ph) (simp_all, blast+)
qed

lemma settled_returned:
  assumes "gate_settled s" "gate_inv s"
  shows "\<exists>c. gs_shut s = Returned c \<and> (c \<or> gs_expired s)"
proof -
  have idle: "server_idle p s" for p
    using settled_over [OF assms] by (auto simp: server_idle_def list_all_iff)
  have "\<not> in_flight ph" if "(p, ph) \<in> set (gs_reqs s)" for p ph
    using settled_over [OF assms that] by (cases ph) auto
  then have "in_flight_count s = 0" by (auto simp: in_flight_count_def filter_empty_conv)
  with assms(2) have act: "gs_active s = 0" by (simp add: gate_inv_def)
  note quiet = settled_shutdown [OF assms(1)]
  show ?thesis
  proof (cases "gs_shut s")
    case Idle with quiet [OF shut_lock] settled_unlocked [OF assms] show ?thesis by simp
  next
    case ShutHasLock with quiet [OF shut_flag] show ?thesis by simp
  next
    case ShutFlagged with quiet [OF shut_unlock] show ?thesis by simp
  next
    case StopData with quiet [OF data_stopped] idle show ?thesis by simp
  next
    case StopAdmin with quiet [OF admin_absent] quiet [OF admin_stopped] idle show ?thesis by auto
  next
    case Selecting with quiet [OF drained] quiet [OF waited] act show ?thesis by auto
  next
    case (Returned c) with assms(2) show ?thesis by (cases c) (auto simp: gate_inv_def)
  qed
qed

text \<open>
  (C000) The drain is safe. In every reachable state, whatever the order of the steps, the counter of the
  wait group is the number of requests in flight, so \<^verbatim>\<open>Done\<close> never takes it below zero, and at most one
  request is between \<^verbatim>\<open>Lock\<close> and \<^verbatim>\<open>Unlock\<close>. Once the flag is set no further request is admitted. And once
  \<^verbatim>\<open>Shutdown\<close> has returned after a complete drain, no admitted request runs and none ever will, so the
  stores may be closed.
\<close>

theorem drain_safe:
  assumes "gate_run (gate_init admin ps) s" "gate_run s s'"
  shows "gs_active s = int (in_flight_count s) \<and>
    (\<forall>i j p q ph ph'. at_phase s i p ph \<and> at_phase s j q ph' \<and> holds_lock ph \<and> holds_lock ph' \<longrightarrow> i = j) \<and>
    (gs_draining s \<longrightarrow> admitted s' = admitted s) \<and>
    (gs_shut s = Returned True \<longrightarrow> in_flight_count s' = 0)"
proof -
  have inv: "gate_inv s" "gate_inv s'" using reachable_inv assms gate_run_inv by blast+
  have "in_flight_count s' = 0" if "gs_shut s = Returned True"
    using that inv done_run [OF assms(2)] by (simp add: gate_inv_def)
  moreover have "gs_active s = int (in_flight_count s)" "lock_inv s" using inv(1) by (simp_all add: gate_inv_def)
  ultimately show ?thesis
    using lock_inv_holder draining_run [OF assms(2)] by (metis holder.inject option.inject)
qed

text \<open>
  (C000) The drain ends. With finitely many requests whose handlers return, no run of the gateway goes on for ever: it
  has at most five steps per request and eight more. And a run that nothing but the five minute limit could
  continue has brought every request that arrived to its end, and \<^verbatim>\<open>Shutdown\<close> has returned; without the limit
  it has returned after a complete drain.
\<close>

theorem drain_ends:
  assumes "(gate_step ^^ n) (gate_init admin ps) s"
  shows "n \<le> 5 * length ps + 8 \<and>
    (gate_settled s \<longrightarrow>
       (\<forall>(p, ph) \<in> set (gs_reqs s). ph \<in> {Pending, Rejected, Finished}) \<and>
       (\<exists>c. gs_shut s = Returned c \<and> (c \<or> gs_expired s)))"
proof -
  have inv: "gate_inv s" using assms by (auto intro: reachable_inv [of admin ps] relpowp_imp_rtranclp)
  have "ph \<in> {Pending, Rejected, Finished}" if "gate_settled s" "(p, ph) \<in> set (gs_reqs s)" for p ph
    using settled_over [OF that(1) inv that(2)] by (cases ph) auto
  then show ?thesis
    using gate_run_length [OF assms] settled_returned [OF _ inv] by (auto simp: gate_init_work)
qed

subsection \<open>Runs by events\<close>

text \<open>
  A scheduler: the next step of a request, of \<^verbatim>\<open>Shutdown\<close>, of the waiting goroutine or of the clock, if it can
  be taken.
\<close>

datatype gate_event = EvRequest nat | EvShutdown | EvWaited | EvDeadline

fun track_fire :: "nat \<Rightarrow> plane \<Rightarrow> req_phase \<Rightarrow> gate \<Rightarrow> gate option" where
  "track_fire i p Pending s =
     (if p \<notin> set (gs_closed s) \<and> (p = AdminPlane \<longrightarrow> gs_admin s) then Some (go_phase i p AtGate s) else None)"
| "track_fire i p AtGate s =
     (if gs_lock s = None then Some (go_phase i p HasLock s\<lparr>gs_lock := Some (RequestHolds i)\<rparr>) else None)"
| "track_fire i p HasLock s =
     Some (if gs_draining s then go_phase i p Rejected s\<lparr>gs_lock := None\<rparr>
           else go_phase i p Counted s\<lparr>gs_active := gs_active s + 1\<rparr>)"
| "track_fire i p Counted s = Some (go_phase i p Serving s\<lparr>gs_lock := None\<rparr>)"
| "track_fire i p Serving s = Some (go_phase i p Finished s\<lparr>gs_active := gs_active s - 1\<rparr>)"
| "track_fire i p Rejected s = None"
| "track_fire i p Finished s = None"

fun shut_fire :: "shut_phase \<Rightarrow> gate \<Rightarrow> gate option" where
  "shut_fire Idle s = (if gs_lock s = None then Some (s\<lparr>gs_shut := ShutHasLock, gs_lock := Some ShutdownHolds\<rparr>) else None)"
| "shut_fire ShutHasLock s = Some (s\<lparr>gs_shut := ShutFlagged, gs_draining := True\<rparr>)"
| "shut_fire ShutFlagged s = Some (s\<lparr>gs_shut := StopData, gs_lock := None\<rparr>)"
| "shut_fire StopData s =
     (if server_idle DataPlane s then Some (s\<lparr>gs_shut := StopAdmin, gs_closed := DataPlane # gs_closed s\<rparr>)
      else if gs_expired s then Some (s\<lparr>gs_shut := StopAdmin\<rparr>) else None)"
| "shut_fire StopAdmin s =
     (if \<not> gs_admin s then Some (s\<lparr>gs_shut := Selecting\<rparr>)
      else if server_idle AdminPlane s then Some (s\<lparr>gs_shut := Selecting, gs_closed := AdminPlane # gs_closed s\<rparr>)
      else if gs_expired s then Some (s\<lparr>gs_shut := Selecting\<rparr>) else None)"
| "shut_fire Selecting s =
     (if gs_done s then Some (s\<lparr>gs_shut := Returned True\<rparr>)
      else if gs_expired s then Some (s\<lparr>gs_shut := Returned False\<rparr>) else None)"
| "shut_fire (Returned c) s = None"

fun gate_fire :: "gate_event \<Rightarrow> gate \<Rightarrow> gate option" where
  "gate_fire (EvRequest i) s =
     (if i < length (gs_reqs s) then track_fire i (fst (gs_reqs s ! i)) (snd (gs_reqs s ! i)) s else None)"
| "gate_fire EvShutdown s = shut_fire (gs_shut s) s"
| "gate_fire EvWaited s =
     (if draining_phase (gs_shut s) \<and> \<not> gs_done s \<and> gs_active s = 0 then Some (s\<lparr>gs_done := True\<rparr>) else None)"
| "gate_fire EvDeadline s =
     (if gs_shut s \<in> set [StopData, StopAdmin, Selecting] \<and> \<not> gs_expired s then Some (s\<lparr>gs_expired := True\<rparr>) else None)"

fun gate_schedule :: "gate_event list \<Rightarrow> gate \<Rightarrow> gate option" where
  "gate_schedule [] s = Some s"
| "gate_schedule (e # es) s = (case gate_fire e s of None \<Rightarrow> None | Some s' \<Rightarrow> gate_schedule es s')"

lemma track_fire_step: "at_phase s i p ph \<Longrightarrow> track_fire i p ph s = Some s' \<Longrightarrow> track_step s s'"
  by (cases ph) (auto intro: track_step.intros split: if_splits)

lemma shut_fire_step: "shut_fire (gs_shut s) s = Some s' \<Longrightarrow> shutdown_step s s'"
  by (cases "gs_shut s") (auto intro: shutdown_step.intros split: if_splits)

lemma gate_fire_step: "gate_fire e s = Some s' \<Longrightarrow> gate_step s s'"
proof (cases e)
  case (EvRequest i)
  moreover assume "gate_fire e s = Some s'"
  ultimately show ?thesis
    using track_fire_step [of s i "fst (gs_reqs s ! i)" "snd (gs_reqs s ! i)" s']
    by (auto simp: gate_step_def at_phase_def split: if_splits)
next
  case EvShutdown
  moreover assume "gate_fire e s = Some s'"
  ultimately show ?thesis by (simp add: gate_step_def shut_fire_step)
next
  case EvWaited
  moreover assume "gate_fire e s = Some s'"
  ultimately show ?thesis using shutdown_step.waited [of s] by (auto simp: gate_step_def split: if_splits)
next
  case EvDeadline
  moreover assume "gate_fire e s = Some s'"
  ultimately show ?thesis using shutdown_step.deadline [of s] by (auto simp: gate_step_def split: if_splits)
qed

lemma gate_schedule_run: "gate_schedule es s = Some s' \<Longrightarrow> (gate_step ^^ length es) s s'"
proof (induction es arbitrary: s)
  case (Cons e es)
  then obtain t where "gate_fire e s = Some t" "gate_schedule es t = Some s'" by (auto split: option.splits)
  with Cons.IH [of t] gate_fire_step [of e s t] show ?case
    unfolding length_Cons by (intro relpowp_Suc_I2) auto
qed simp

text \<open>A request is served while \<^verbatim>\<open>Shutdown\<close> starts, a second one comes too late, and the drain completes.\<close>

definition demo_events :: "gate_event list" where
  "demo_events =
     replicate 4 (EvRequest 0) @ [EvRequest 1] @ replicate 3 EvShutdown @ [EvRequest 1, EvRequest 1, EvRequest 0, EvWaited] @
     replicate 3 EvShutdown"

definition demo_gate :: gate where
  "demo_gate = \<lparr>gs_reqs = [(DataPlane, Finished), (AdminPlane, Rejected)], gs_lock = None, gs_draining = True, gs_active = 0,
     gs_shut = Returned True, gs_admin = True, gs_closed = [AdminPlane, DataPlane], gs_done = True, gs_expired = False\<rparr>"

lemma demo_schedule: "gate_schedule demo_events (gate_init True [DataPlane, AdminPlane]) = Some demo_gate"
  by (simp add: demo_events_def demo_gate_def gate_init_def go_phase_def server_idle_def numeral_eq_Suc)

lemma demo_steps: "(gate_step ^^ 15) (gate_init True [DataPlane, AdminPlane]) demo_gate"
  using gate_schedule_run [OF demo_schedule] by (simp add: demo_events_def)

theorem drain_safe_witness:
  "gate_run (gate_init True [DataPlane, AdminPlane]) demo_gate \<and> gs_active demo_gate = int (in_flight_count demo_gate) \<and>
   in_flight_count demo_gate = 0"
proof -
  have run: "gate_run (gate_init True [DataPlane, AdminPlane]) demo_gate"
    using demo_steps by (rule relpowp_imp_rtranclp)
  from drain_safe [OF run rtranclp.rtrancl_refl] run show ?thesis by (auto simp: demo_gate_def)
qed

theorem drain_ends_witness:
  "gate_settled demo_gate \<and> (15::nat) \<le> 5 * length [DataPlane, AdminPlane] + 8 \<and>
   (\<exists>c. gs_shut demo_gate = Returned c \<and> (c \<or> gs_expired demo_gate))"
proof -
  have "gate_settled demo_gate"
    by (auto simp: gate_settled_def gate_step_def demo_gate_def at_phase_def nth_Cons' split: if_splits
        elim!: track_stepE shutdown_stepE)
  with drain_ends [OF demo_steps] show ?thesis by blast
qed

end
