(* ===== verification/Gateway.thy ===== *)
theory Gateway
  imports Catalog AdminServer WireLaws Drain
begin

section \<open>Assembling a gateway\<close>

text \<open>
  \<^verbatim>\<open>gateway/gateway.go\<close>, \<^verbatim>\<open>gateway/serve.go\<close>, \<^verbatim>\<open>gateway/backend.go\<close> and \<^verbatim>\<open>gateway/admin_issuer.go\<close>: opening
  the stores, building a gateway from a configuration file, and the handlers of its two planes.
  The outside world is the record \<open>boot_env\<close>: files, environment, the databases, the yaml decoders, and the
  two registries that linked modules fill at start. A credential store is the sqlite store or the one a
  registered backend opened, whose type is a parameter. What is opened and closed is a list of events.
  A nil pointer or interface is \<open>None\<close>.
\<close>

subsection \<open>Paths\<close>

text \<open>\<^verbatim>\<open>path/filepath\<close> on Unix.\<close>

fun clean_segs :: "bool \<Rightarrow> string list \<Rightarrow> string list \<Rightarrow> string list" where
  "clean_segs rooted stack [] = rev stack"
| "clean_segs rooted stack (s # ss) =
     (if s = '''' \<or> s = ''.'' then clean_segs rooted stack ss
      else if s = ''..'' then
        (case stack of
           [] \<Rightarrow> clean_segs rooted (if rooted then [] else [''..'']) ss
         | t # stack' \<Rightarrow> clean_segs rooted (if t = ''..'' then ''..'' # stack else stack') ss)
      else clean_segs rooted (s # stack) ss)"

definition filepath_IsAbs :: "string \<Rightarrow> bool" where
  "filepath_IsAbs p = HasPrefix p ''/''"

definition filepath_Clean :: "string \<Rightarrow> string" where
  "filepath_Clean p =
     (let out = (if filepath_IsAbs p then ''/'' else '''') @ Join (clean_segs (filepath_IsAbs p) [] (Split CHR ''/'' p)) ''/'' in
      if out = '''' then ''.'' else out)"

definition filepath_Dir :: "string \<Rightarrow> string" where
  "filepath_Dir p = filepath_Clean (rev (dropWhile (\<lambda>c. c \<noteq> CHR ''/'') (rev p)))"

definition filepath_Join :: "string \<Rightarrow> string \<Rightarrow> string" where
  "filepath_Join a b =
     (if a \<noteq> '''' then filepath_Clean (a @ ''/'' @ b) else if b \<noteq> '''' then filepath_Clean b else '''')"

definition serviceName :: "string \<Rightarrow> string" where
  "serviceName name = (if TrimSpace name = '''' then ''daigate'' else TrimSpace name)"

text \<open>\<open>stat\<close> says whether a file exists; both branches of the source give the same name.\<close>

definition resolveConfigPath :: "(string \<Rightarrow> bool) \<Rightarrow> string \<Rightarrow> string" where
  "resolveConfigPath stat path =
     (if TrimSpace path \<noteq> '''' then TrimSpace path
      else if stat ''daigate.yaml'' then ''daigate.yaml'' else ''daigate.yaml'')"

definition resolvePaths :: "File \<Rightarrow> string \<Rightarrow> File" where
  "resolvePaths cfg configPath =
     (let base = filepath_Dir configPath;
          cfg1 = (if \<not> filepath_IsAbs (f_Serve_Catalog cfg)
                  then cfg\<lparr>f_Serve_Catalog := filepath_Join base (f_Serve_Catalog cfg)\<rparr> else cfg)
      in (if \<not> filepath_IsAbs (f_Credential_Broker cfg1)
          then cfg1\<lparr>f_Credential_Broker := filepath_Join base (f_Credential_Broker cfg1)\<rparr> else cfg1))"

subsection \<open>Opening the stores\<close>

text \<open>What a database file holds: credentials, gateway keys, and the rows of \<^verbatim>\<open>admin_tokens\<close>.\<close>

record db_file =
  df_creds :: SQLite
  df_keys :: SQLStore
  df_admin :: "bool \<times> admin_row list"

datatype 'b vault = SqliteVault db_file | BackendVault 'b

record 'b boot_env =
  be_stat :: "string \<Rightarrow> bool"
  be_read :: "string \<Rightarrow> string option"
  be_env :: "string \<Rightarrow> string"
  be_config_yaml :: "string \<Rightarrow> File option"
  be_catalog_yaml :: "string \<Rightarrow> Document option"
  be_db :: "string \<Rightarrow> db_file"
  be_open_ok :: "string \<Rightarrow> bool"
  be_migrate :: migrate_env
  be_backends :: "(string, (File \<Rightarrow> db_file \<Rightarrow> 'b option) option) gomap"
  be_broker_db :: "'b \<Rightarrow> (bool \<times> admin_row list) option option"
  be_H :: idkey
  be_salt1 :: "string option"
  be_salt2 :: "string option"

datatype boot_event = Opened string | ClosedStore

datatype open_error =
    OErrBrokerKey config_error
  | OErrParseKey seal_error
  | OErrSqlite store_error
  | OErrBackendUnknown string
  | OErrBackend

definition RegisterCredentialBackend ::
  "string \<Rightarrow> (File \<Rightarrow> db_file \<Rightarrow> 'b option) option \<Rightarrow> 'b boot_env \<Rightarrow> 'b boot_env" where
  "RegisterCredentialBackend name open_fn e = e\<lparr>be_backends := gm_set name open_fn (be_backends e)\<rparr>"

definition openCredentialBackend :: "'b boot_env \<Rightarrow> string \<Rightarrow> File \<Rightarrow> db_file \<Rightarrow> (open_error, 'b vault) res" where
  "openCredentialBackend e name f sqlite =
     (case gm_getd None (be_backends e) name of
        None \<Rightarrow> Inl (OErrBackendUnknown name)
      | Some open_fn \<Rightarrow> (case open_fn f sqlite of None \<Rightarrow> Inl OErrBackend | Some st \<Rightarrow> Inr (BackendVault st)))"

definition OpenStore ::
  "'b boot_env \<Rightarrow> File \<Rightarrow> (open_error, 'b vault \<times> SQLStore) res \<times> boot_event list" where
  "OpenStore e f =
     (case BrokerKey (be_read e) (be_env e) f of
        Inl err \<Rightarrow> (Inl (OErrBrokerKey err), [])
      | Inr keyB64 \<Rightarrow>
     (case ParseKey keyB64 of
        Inl err \<Rightarrow> (Inl (OErrParseKey err), [])
      | Inr key \<Rightarrow>
     (let path = f_Credential_Broker f; file = be_db e path in
      case OpenSQLite (be_open_ok e path) (be_migrate e) ((df_creds file)\<lparr>sq_key := key\<rparr>) of
        Inl err \<Rightarrow> (Inl (OErrSqlite err), [])
      | Inr creds \<Rightarrow>
          (let sqlite = file\<lparr>df_creds := creds\<rparr>; ks = df_keys file; backend = TrimSpace (f_Credential_Backend f) in
           if backend = '''' \<or> backend = ''sqlite'' then (Inr (SqliteVault sqlite, ks), [Opened path])
           else (case openCredentialBackend e backend f sqlite of
                   Inl err \<Rightarrow> (Inl err, [Opened path, ClosedStore])
                 | Inr st \<Rightarrow> (Inr (st, ks), [Opened path]))))))"

text \<open>\<^verbatim>\<open>store.BrokerDB\<close>: \<open>None\<close> is the error, \<open>Some None\<close> a backend that hands out a nil handle.\<close>

definition BrokerDB :: "'b boot_env \<Rightarrow> 'b vault \<Rightarrow> (bool \<times> admin_row list) option option" where
  "BrokerDB e st = (case st of SqliteVault s \<Rightarrow> Some (Some (df_admin s)) | BackendVault b \<Rightarrow> be_broker_db e b)"

subsection \<open>The gateway\<close>

type_synonym 'm routes = "request \<Rightarrow> 'm option"

datatype 'm data_reply = ShuttingDown | DataRedirect | WireReply wire_reply wire_state | MountReply 'm

type_synonym 'm data_handler = "request \<Rightarrow> Catalog \<Rightarrow> 'm data_reply \<times> Catalog"

text \<open>\<^verbatim>\<open>DataMount\<close> registers routes beside the engine: the replies of the requests its patterns take.\<close>

record ('b, 'm) GatewayConfig =
  gc_ConfigFile :: string
  gc_Config :: "File option"
  gc_Catalog :: "Catalog option"
  gc_Store :: "'b vault option"
  gc_KeyStore :: "SQLStore option"
  gc_Adapters :: "Registry option"
  gc_AdminAuth :: "Middleware option"
  gc_AdminEnabled :: bool
  gc_DataListen :: string
  gc_AdminListen :: string
  gc_DataMount :: "'m routes option"
  gc_WrapDataHandler :: "('m data_handler \<Rightarrow> 'm data_handler) option"

datatype new_error = NErrCatalog | NErrStore | NErrKeystore | NErrAdapters | NErrAdminAuth

definition New_gateway :: "('b, 'm) GatewayConfig \<Rightarrow> (new_error, ('b, 'm) GatewayConfig) res" where
  "New_gateway cfg =
     (if gc_Catalog cfg = None then Inl NErrCatalog
      else if gc_Store cfg = None then Inl NErrStore
      else if gc_KeyStore cfg = None then Inl NErrKeystore
      else if gc_Adapters cfg = None then Inl NErrAdapters
      else if gc_AdminEnabled cfg \<and> gc_AdminAuth cfg = None then Inl NErrAdminAuth
      else Inr cfg)"

record 'm ServeOptions =
  so_ConfigPath :: string
  so_ServiceName :: string
  so_Registry :: "(File \<Rightarrow> (unit, Registry option) res) option"
  so_CatalogLoad :: "(string \<Rightarrow> (unit, Catalog option) res) option"
  so_DataMount :: "'m routes option"
  so_WrapDataHandler :: "('m data_handler \<Rightarrow> 'm data_handler) option"

datatype boot_error =
    BErrRegistryBuilder
  | BErrConfig config_error
  | BErrBrokerKey config_error
  | BErrCatalog
  | BErrStore open_error
  | BErrAdapters
  | BErrBrokerDB
  | BErrAdminAuth admin_error
  | BErrNew new_error

definition stock_catalog_load :: "'b boot_env \<Rightarrow> string \<Rightarrow> (unit, Catalog option) res" where
  "stock_catalog_load e path =
     (case Load_catalog (be_read e) (be_catalog_yaml e) path of Inl _ \<Rightarrow> Inl () | Inr c \<Rightarrow> Inr (Some c))"

text \<open>The second half of \<^verbatim>\<open>openGateway\<close>, from the opening of the store on.\<close>

definition openGateway_stores ::
  "'b boot_env \<Rightarrow> 'm ServeOptions \<Rightarrow> (File \<Rightarrow> (unit, Registry option) res) \<Rightarrow> string \<Rightarrow> File \<Rightarrow> Catalog option \<Rightarrow>
     (boot_error, ('b, 'm) GatewayConfig) res \<times> boot_event list" where
  "openGateway_stores e opts registry cfgPath cfgFile cat =
     (case OpenStore e cfgFile of
        (Inl err, evs) \<Rightarrow> (Inl (BErrStore err), evs)
      | (Inr (st, ks), evs) \<Rightarrow>
     (case registry cfgFile of
        Inl _ \<Rightarrow> (Inl BErrAdapters, evs @ [ClosedStore])
      | Inr reg \<Rightarrow>
     (case BrokerDB e st of
        None \<Rightarrow> (Inl BErrBrokerDB, evs @ [ClosedStore])
      | Some db \<Rightarrow>
     (case Load_admin (be_H e) (be_salt1 e) (be_salt2 e) (be_env e) db cfgFile of
        Inl err \<Rightarrow> (Inl (BErrAdminAuth err), evs @ [ClosedStore])
      | Inr auth \<Rightarrow>
     (case New_gateway
             \<lparr>gc_ConfigFile = cfgPath, gc_Config = Some cfgFile, gc_Catalog = cat, gc_Store = Some st, gc_KeyStore = Some ks,
              gc_Adapters = reg, gc_AdminAuth = auth, gc_AdminEnabled = AdminPlaneEnabled cfgFile,
              gc_DataListen = f_Serve_DataListen cfgFile, gc_AdminListen = f_Admin_Listen cfgFile,
              gc_DataMount = so_DataMount opts, gc_WrapDataHandler = so_WrapDataHandler opts\<rparr> of
        Inl err \<Rightarrow> (Inl (BErrNew err), evs)
      | Inr gw \<Rightarrow> (Inr gw, evs))))))"

definition openGateway ::
  "'b boot_env \<Rightarrow> 'm ServeOptions \<Rightarrow> (boot_error, ('b, 'm) GatewayConfig) res \<times> boot_event list" where
  "openGateway e opts =
     (case so_Registry opts of
        None \<Rightarrow> (Inl BErrRegistryBuilder, [])
      | Some registry \<Rightarrow>
     (let cfgPath = resolveConfigPath (be_stat e) (so_ConfigPath opts) in
      case Load_config (be_read e) (be_config_yaml e) cfgPath of
        Inl err \<Rightarrow> (Inl (BErrConfig err), [])
      | Inr cfgFile0 \<Rightarrow>
     (case BrokerKey (be_read e) (be_env e) cfgFile0 of
        Inl err \<Rightarrow> (Inl (BErrBrokerKey err), [])
      | Inr _ \<Rightarrow>
     (case (case so_CatalogLoad opts of None \<Rightarrow> stock_catalog_load e | Some f \<Rightarrow> f)
             (f_Serve_Catalog (resolvePaths cfgFile0 cfgPath)) of
        Inl _ \<Rightarrow> (Inl BErrCatalog, [])
      | Inr cat \<Rightarrow> openGateway_stores e opts registry cfgPath (resolvePaths cfgFile0 cfgPath) cat))))"


subsection \<open>The handlers\<close>

text \<open>
  Both planes put a mux around their handler; it redirects a path that is not clean before anything is tracked.
  What \<^verbatim>\<open>track\<close> does to one request, given the flag it reads under the mutex; theory \<^verbatim>\<open>Drain\<close> holds the
  steps of it that other requests can observe.
\<close>

definition track :: "bool \<Rightarrow> (request \<Rightarrow> 'c \<Rightarrow> 'r \<times> 'c) \<Rightarrow> 'r \<Rightarrow> request \<Rightarrow> 'c \<Rightarrow> 'r \<times> 'c" where
  "track draining next shutting_down r c = (if draining then (shutting_down, c) else next r c)"

text \<open>The engine over the stores; \<open>e\<close> holds what the configuration does not determine.\<close>

definition gateway_engine ::
  "(string \<Rightarrow> (key_error, Principal) res) \<Rightarrow> (wire_event list \<Rightarrow> string \<Rightarrow> (store_error, Material) res) \<Rightarrow> Registry \<Rightarrow>
     Engine \<Rightarrow> Engine" where
  "gateway_engine verify get reg e = e\<lparr>en_Verify := verify, en_Get := get, en_Adapters := reg\<rparr>"

definition engine_handler :: "Engine \<Rightarrow> 'm data_handler" where
  "engine_handler e r c = (case Wire_Handler e r c of (rep, st, c') \<Rightarrow> (WireReply rep st, c'))"

definition dataHandler :: "('b, 'm) GatewayConfig \<Rightarrow> Engine \<Rightarrow> bool \<Rightarrow> 'm data_handler" where
  "dataHandler cfg engine draining =
     (let mux = (\<lambda>r c.
            if mux_cleans (rq_method r) (rq_escaped r) then (DataRedirect, c)
            else case (case gc_DataMount cfg of None \<Rightarrow> None | Some m \<Rightarrow> m r) of
              Some x \<Rightarrow> (MountReply x, c)
            | None \<Rightarrow> track draining (engine_handler engine) ShuttingDown r c)
      in case gc_WrapDataHandler cfg of None \<Rightarrow> mux | Some wrap \<Rightarrow> wrap mux)"

datatype ('s, 'm) admin_reply = AdminShuttingDown | AdminRedirect | AdminReply "'s admin_result" | IssuerReply 'm

text \<open>A registered issuer driver turns an entry of the configuration into routes; its error is dropped.\<close>

definition RegisterAdminIssuer ::
  "string \<Rightarrow> (IssuerEntry \<Rightarrow> 'm routes) option \<Rightarrow> (string, (IssuerEntry \<Rightarrow> 'm routes) option) gomap \<Rightarrow>
     (string, (IssuerEntry \<Rightarrow> 'm routes) option) gomap" where
  "RegisterAdminIssuer driver mount m = gm_set driver mount m"

fun mountAdminIssuers ::
  "(string, (IssuerEntry \<Rightarrow> 'm routes) option) gomap \<Rightarrow> IssuerEntry list \<Rightarrow> 'm routes" where
  "mountAdminIssuers mounts [] r = None"
| "mountAdminIssuers mounts (entry # entries) r =
     (case gm_getd None mounts (ie_Driver entry) of
        None \<Rightarrow> mountAdminIssuers mounts entries r
      | Some mount \<Rightarrow> (case mount entry r of Some x \<Rightarrow> Some x | None \<Rightarrow> mountAdminIssuers mounts entries r))"

text \<open>
  \<open>None\<close> is the panic on a nil configuration. \<open>srv\<close> makes the server from the token table and the two mint
  policies. The policies read a nil configuration as the defaults; the list of issuers does not.
\<close>

definition adminHandler ::
  "'b boot_env \<Rightarrow> (string, (IssuerEntry \<Rightarrow> 'm routes) option) gomap \<Rightarrow> ('b, 'm) GatewayConfig \<Rightarrow>
     (Middleware \<Rightarrow> MintPolicy \<Rightarrow> MintPolicy \<Rightarrow> 's Server) \<Rightarrow> bool \<Rightarrow> bool \<Rightarrow> bool \<Rightarrow> stream_event list \<Rightarrow>
     (request \<Rightarrow> 's \<Rightarrow> ('s, 'm) admin_reply) option" where
  "adminHandler e mounts cfg srv draining flusher first_ok evs =
     (let server = srv (case gc_AdminAuth cfg of None \<Rightarrow> [] | Some m \<Rightarrow> m)
                     (KeysPolicyFromConfig (gc_Config cfg)) (ProvisionPolicyFromConfig (gc_Config cfg));
          tracked = (\<lambda>r s. if draining then AdminShuttingDown
                           else AdminReply (Admin_Handler (be_H e) server r flusher first_ok evs s));
          has_db = (case gc_Store cfg of None \<Rightarrow> False | Some st \<Rightarrow> BrokerDB e st \<noteq> None);
          cleaned = (\<lambda>next r s. if mux_cleans (rq_method r) (rq_escaped r) then AdminRedirect else next r s)
      in if \<not> has_db then Some (cleaned tracked)
         else case gc_Config cfg of
           None \<Rightarrow> None
         | Some f \<Rightarrow>
             Some (cleaned (\<lambda>r s. case mountAdminIssuers mounts (f_Ingress_Issuers f) r of
                                    Some x \<Rightarrow> IssuerReply x
                                  | None \<Rightarrow> tracked r s)))"

subsection \<open>What starting up guarantees\<close>

lemma resolvePaths_absolute:
  "filepath_IsAbs (f_Serve_Catalog f) \<Longrightarrow> filepath_IsAbs (f_Credential_Broker f) \<Longrightarrow> resolvePaths f p = f"
  by (simp add: resolvePaths_def)

lemma resolvePaths_frame [simp]:
  "f_Admin_Enable (resolvePaths f p) = f_Admin_Enable f" "f_Ingress_Issuers (resolvePaths f p) = f_Ingress_Issuers f"
  "f_Admin_Tokens_AdminEnv (resolvePaths f p) = f_Admin_Tokens_AdminEnv f"
  "f_Admin_Tokens_ProvisionEnv (resolvePaths f p) = f_Admin_Tokens_ProvisionEnv f"
  "f_Credential_Encryption_KeyFile (resolvePaths f p) = f_Credential_Encryption_KeyFile f"
  "f_Credential_Encryption_KeyEnv (resolvePaths f p) = f_Credential_Encryption_KeyEnv f"
  "f_Credential_Backend (resolvePaths f p) = f_Credential_Backend f"
  by (simp_all add: resolvePaths_def Let_def)

lemma New_gateway_Inr:
  "New_gateway cfg = Inr g \<longleftrightarrow>
     g = cfg \<and> gc_Catalog cfg \<noteq> None \<and> gc_Store cfg \<noteq> None \<and> gc_KeyStore cfg \<noteq> None \<and> gc_Adapters cfg \<noteq> None \<and>
     (gc_AdminEnabled cfg \<longrightarrow> gc_AdminAuth cfg \<noteq> None)"
  by (auto simp: New_gateway_def)

lemma Load_admin_disabled:
  "Load_admin H s1 s2 env db f = Inr auth \<Longrightarrow> auth = None \<longleftrightarrow> \<not> AdminPlaneEnabled f"
  by (auto simp: Load_admin_def res_bind_Inr_iff split: if_splits)

text \<open>A store that was opened is handed out, or closed again.\<close>

lemma OpenStore_events:
  "OpenStore e f = (r, evs) \<Longrightarrow>
     (case r of Inl _ \<Rightarrow> evs = [] \<or> evs = [Opened (f_Credential_Broker f), ClosedStore]
      | Inr _ \<Rightarrow> evs = [Opened (f_Credential_Broker f)])"
  by (auto simp: OpenStore_def Let_def split: sum.splits if_splits)

text \<open>The store that was opened last, after the events of a start.\<close>

fun still_open :: "boot_event list \<Rightarrow> string option \<Rightarrow> string option" where
  "still_open [] held = held"
| "still_open (Opened p # evs) held = still_open evs (Some p)"
| "still_open (ClosedStore # evs) held = still_open evs None"

lemma openGateway_stores_events:
  assumes "openGateway_stores e opts registry cfgPath f cat = (res, evs)"
  shows "case res of
      Inr gw \<Rightarrow> gc_Config gw = Some f \<and> still_open evs None = Some (f_Credential_Broker f) \<and> gc_Catalog gw = cat \<and> cat \<noteq> None \<and>
        gc_Store gw \<noteq> None \<and> gc_KeyStore gw \<noteq> None \<and> gc_Adapters gw \<noteq> None \<and> (gc_AdminAuth gw \<noteq> None \<longleftrightarrow> AdminPlaneEnabled f)
    | Inl err \<Rightarrow>
        (if err \<in> {BErrNew NErrCatalog, BErrNew NErrAdapters}
         then still_open evs None = Some (f_Credential_Broker f) \<and>
           (err = BErrNew NErrCatalog \<longrightarrow> cat = None) \<and> (err = BErrNew NErrAdapters \<longrightarrow> registry f = Inr None)
         else still_open evs None = None)"
proof -
  obtain r evs0 where opened: "OpenStore e f = (r, evs0)" by fastforce
  show ?thesis
  proof (cases r)
    case (Inl err)
    with opened OpenStore_events [OF opened] assms show ?thesis by (auto simp: openGateway_stores_def)
  next
    case (Inr sk)
    with OpenStore_events [OF opened] have evs0: "evs0 = [Opened (f_Credential_Broker f)]" by simp
    obtain st ks where sk: "sk = (st, ks)" by fastforce
    show ?thesis
      using assms
      by (auto simp: openGateway_stores_def opened Inr sk evs0 New_gateway_def
          dest: Load_admin_disabled split: sum.splits option.splits if_splits)
  qed
qed

lemma openGateway_cases:
  assumes "openGateway e opts = (res, evs)"
  obtains err where "res = Inl err" "evs = []" "\<forall>x. err \<noteq> BErrNew x"
  | registry f0 f cat where "so_Registry opts = Some registry"
      "Load_config (be_read e) (be_config_yaml e) (resolveConfigPath (be_stat e) (so_ConfigPath opts)) = Inr f0"
      "f = resolvePaths f0 (resolveConfigPath (be_stat e) (so_ConfigPath opts))"
      "(case so_CatalogLoad opts of None \<Rightarrow> stock_catalog_load e | Some g \<Rightarrow> g) (f_Serve_Catalog f) = Inr cat"
      "openGateway_stores e opts registry (resolveConfigPath (be_stat e) (so_ConfigPath opts)) f cat = (res, evs)"
  using assms unfolding openGateway_def Let_def by (auto split: option.splits sum.splits)

lemma stock_catalog_load_Some: "stock_catalog_load e path = Inr cat \<Longrightarrow> cat \<noteq> None"
  by (auto simp: stock_catalog_load_def split: sum.splits)


text \<open>
  (C000) What starting a gateway leaves open. When \<^verbatim>\<open>openGateway\<close> succeeds, the store at the resolved path of the configuration
  is open, and the gateway has a catalog, both stores, a registry and, exactly when the admin plane is on, its tokens. When it
  fails, no store is left open, except for exactly two errors, those with which \<^verbatim>\<open>New\<close> refuses a nil catalog or a nil registry after
  the store was opened: then the store at the resolved path stays open, and the catalog loader or the registry builder
  of the options had returned nil without an error.
\<close>

theorem start_store_accounted:
  assumes "openGateway e opts = (res, evs)"
  defines "path \<equiv> resolveConfigPath (be_stat e) (so_ConfigPath opts)"
  shows "case res of
      Inr gw \<Rightarrow> \<exists>f0 f. Load_config (be_read e) (be_config_yaml e) path = Inr f0 \<and> f = resolvePaths f0 path \<and>
        gc_Config gw = Some f \<and> still_open evs None = Some (f_Credential_Broker f) \<and>
        gc_Catalog gw \<noteq> None \<and> gc_Store gw \<noteq> None \<and> gc_KeyStore gw \<noteq> None \<and> gc_Adapters gw \<noteq> None \<and>
        (gc_AdminAuth gw \<noteq> None \<longleftrightarrow> AdminPlaneEnabled f)
    | Inl err \<Rightarrow>
        (if err \<in> {BErrNew NErrCatalog, BErrNew NErrAdapters}
         then \<exists>f0 f. Load_config (be_read e) (be_config_yaml e) path = Inr f0 \<and> f = resolvePaths f0 path \<and>
           still_open evs None = Some (f_Credential_Broker f) \<and>
           (err = BErrNew NErrCatalog \<longrightarrow> (\<exists>load. so_CatalogLoad opts = Some load \<and> load (f_Serve_Catalog f) = Inr None)) \<and>
           (err = BErrNew NErrAdapters \<longrightarrow> (\<exists>build. so_Registry opts = Some build \<and> build f = Inr None))
         else still_open evs None = None)"
  using assms(1)
proof (cases rule: openGateway_cases)
  case (2 registry f0 f cat)
  note stores = openGateway_stores_events [OF 2(5)]
  have cat: "so_CatalogLoad opts \<noteq> None" if "cat = None"
    using 2(4) that stock_catalog_load_Some [of e "f_Serve_Catalog f" cat] by (cases "so_CatalogLoad opts") auto
  show ?thesis
  proof (cases res)
    case (Inr gw)
    with stores 2(2,3) show ?thesis by (auto simp: path_def)
  next
    case (Inl err)
    with stores 2(1-4) cat show ?thesis by (fastforce simp: path_def split: if_splits option.splits)
  qed
qed auto

subsection \<open>A concrete start\<close>

definition demo_boot_at :: "SQLStore \<Rightarrow> admin_row list \<Rightarrow> unit boot_env" where
  "demo_boot_at ks rows =
     \<lparr>be_stat = (\<lambda>_. True), be_read = (\<lambda>p. if p \<in> {''daigate.yaml'', ''providers.yaml''} then Some '''' else None),
      be_env = (\<lambda>_. StdEncode demo_key), be_config_yaml = (\<lambda>_. Some (demo_file '''')), be_catalog_yaml = (\<lambda>_. Some demo_doc),
      be_db = (\<lambda>_. \<lparr>df_creds = empty_db '''', df_keys = ks, df_admin = (True, rows)\<rparr>), be_open_ok = (\<lambda>_. True),
      be_migrate = demo_migrate, be_backends = [], be_broker_db = (\<lambda>_. None), be_H = demo_H,
      be_salt1 = Some ''salt'', be_salt2 = Some ''salt''\<rparr>"

abbreviation demo_boot :: "unit boot_env" where
  "demo_boot \<equiv> demo_boot_at NewSQLStore []"

definition demo_opts :: "unit ServeOptions" where
  "demo_opts =
     \<lparr>so_ConfigPath = '''', so_ServiceName = '''',
      so_Registry = Some (\<lambda>f. case FromConfig demo_client (f_Adapters_Enable f) [] of Inl _ \<Rightarrow> Inl () | Inr r \<Rightarrow> Inr (Some r)),
      so_CatalogLoad = None, so_DataMount = None, so_WrapDataHandler = None\<rparr>"

lemma demo_encoded_key: "TrimSpace (StdEncode demo_key) = StdEncode demo_key" "StdEncode demo_key \<noteq> ''''"
proof -
  have key: "demo_key = ''kkkkkkkkkkkkkkkkkkkkkkkkkkkkkkkk''"
    by (simp add: demo_key_def numeral_eq_Suc)
  have "list_all graphic (StdEncode demo_key) \<and> StdEncode demo_key \<noteq> ''''"
    unfolding StdEncode_def key by (simp add: b64_char_def graphic_def)
  then show "TrimSpace (StdEncode demo_key) = StdEncode demo_key" "StdEncode demo_key \<noteq> ''''"
    by (simp_all add: TrimSpace_graphic)
qed

definition demo_resolved :: File where
  "demo_resolved = (config_defaults (demo_file ''''))\<lparr>f_Serve_Catalog := ''providers.yaml'', f_Credential_Broker := ''broker.db''\<rparr>"

lemma demo_paths: "resolvePaths (config_defaults (demo_file '''')) ''daigate.yaml'' = demo_resolved"
  by (simp add: resolvePaths_def demo_resolved_def config_defaults_def demo_file_def filepath_IsAbs_def filepath_Dir_def
      filepath_Join_def filepath_Clean_def Let_def)

lemma demo_OpenStore:
  "\<exists>st. OpenStore (demo_boot_at ks rows) demo_resolved = (Inr (SqliteVault st, ks), [Opened ''broker.db'']) \<and> df_admin st = (True, rows)"
proof -
  have "OpenSQLite True demo_migrate ((empty_db '''')\<lparr>sq_key := demo_key\<rparr>) = Inr demo_vault"
    using demo_open by (simp add: empty_db_def)
  then show ?thesis
    by (simp add: OpenStore_def BrokerKey_def demo_encoded_key demo_boot_at_def demo_resolved_def config_defaults_def demo_file_def
        BrokerKeyEnv_def ParseKey_def Let_def demo_good TrimSpace_graphic graphic_def)
qed

lemma demo_boot_steps:
  "resolveConfigPath (be_stat (demo_boot_at ks rows)) '''' = ''daigate.yaml''"
  "Load_config (be_read (demo_boot_at ks rows)) (be_config_yaml (demo_boot_at ks rows)) ''daigate.yaml'' = Inr (config_defaults (demo_file ''''))"
  "BrokerKey (be_read (demo_boot_at ks rows)) (be_env (demo_boot_at ks rows)) (config_defaults (demo_file '''')) = Inr (StdEncode demo_key)"
  "stock_catalog_load (demo_boot_at ks rows) (f_Serve_Catalog demo_resolved) = Inr (Some demo_catalog)"
  by (simp_all add: resolveConfigPath_def Load_config_def BrokerKey_def stock_catalog_load_def Load_catalog_def demo_boot_at_def
      demo_resolved_def config_defaults_def demo_file_def demo_encoded_key)

lemma demo_start: "\<exists>gw. openGateway (demo_boot_at ks rows) demo_opts = (Inr gw, [Opened ''broker.db''])"
proof -
  obtain st where st: "OpenStore (demo_boot_at ks rows) demo_resolved = (Inr (SqliteVault st, ks), [Opened ''broker.db''])"
    "df_admin st = (True, rows)"
    using demo_OpenStore by blast
  obtain m where m: "Load_admin (be_H (demo_boot_at ks rows)) (be_salt1 (demo_boot_at ks rows)) (be_salt2 (demo_boot_at ks rows)) (be_env (demo_boot_at ks rows)) (Some (True, rows)) demo_resolved =
    Inr (Some m)"
    by (simp add: Load_admin_def AdminPlaneEnabled_def demo_resolved_def config_defaults_def demo_file_def seal_entry_def demo_boot_at_def
        demo_encoded_key argon_Seal_def loadDBTokens_def)
  have reg: "FromConfig demo_client (f_Adapters_Enable demo_resolved) [] = Inr (en_Adapters demo_engine)"
    using demo_FromConfig by (simp add: demo_resolved_def config_defaults_def demo_file_def)
  show ?thesis
    by (simp add: openGateway_def demo_opts_def demo_boot_steps demo_paths openGateway_stores_def st reg BrokerDB_def m New_gateway_def)
qed

text \<open>A registry builder that fails, and a catalog loader that returns nil without an error.\<close>

lemma demo_failed_start:
  "openGateway demo_boot (demo_opts\<lparr>so_Registry := Some (\<lambda>_. Inl ())\<rparr>) = (Inl BErrAdapters, [Opened ''broker.db'', ClosedStore])"
proof -
  obtain st where "OpenStore demo_boot demo_resolved = (Inr (SqliteVault st, NewSQLStore), [Opened ''broker.db''])"
    using demo_OpenStore by blast
  then show ?thesis
    by (simp add: openGateway_def demo_opts_def demo_boot_steps demo_paths openGateway_stores_def)
qed

lemma demo_leaking_start:
  "openGateway demo_boot (demo_opts\<lparr>so_CatalogLoad := Some (\<lambda>_. Inr None)\<rparr>) = (Inl (BErrNew NErrCatalog), [Opened ''broker.db''])"
proof -
  obtain st where st: "OpenStore demo_boot demo_resolved = (Inr (SqliteVault st, NewSQLStore), [Opened ''broker.db''])"
    "df_admin st = (True, [])"
    using demo_OpenStore by blast
  have m: "\<exists>m. Load_admin (be_H demo_boot) (be_salt1 demo_boot) (be_salt2 demo_boot) (be_env demo_boot) (Some (True, [])) demo_resolved =
    Inr (Some m)"
    by (simp add: Load_admin_def AdminPlaneEnabled_def demo_resolved_def config_defaults_def demo_file_def seal_entry_def demo_boot_at_def
        demo_encoded_key argon_Seal_def loadDBTokens_def)
  have reg: "FromConfig demo_client (f_Adapters_Enable demo_resolved) [] = Inr (en_Adapters demo_engine)"
    using demo_FromConfig by (simp add: demo_resolved_def config_defaults_def demo_file_def)
  from m show ?thesis
    by (auto simp: openGateway_def demo_opts_def demo_boot_steps demo_paths openGateway_stores_def st reg BrokerDB_def New_gateway_def)
qed

theorem start_store_accounted_witness:
  "(\<exists>gw f. openGateway demo_boot demo_opts = (Inr gw, [Opened ''broker.db'']) \<and> gc_Config gw = Some f \<and>
     f_Credential_Broker f = ''broker.db'' \<and> gc_Adapters gw \<noteq> None) \<and>
   still_open (snd (openGateway demo_boot (demo_opts\<lparr>so_Registry := Some (\<lambda>_. Inl ())\<rparr>))) None = None \<and>
   still_open (snd (openGateway demo_boot (demo_opts\<lparr>so_CatalogLoad := Some (\<lambda>_. Inr None)\<rparr>))) None = Some ''broker.db''"
proof -
  obtain gw where gw: "openGateway demo_boot demo_opts = (Inr gw, [Opened ''broker.db''])"
    using demo_start by blast
  from start_store_accounted [OF gw] gw have "\<exists>gw f. openGateway demo_boot demo_opts = (Inr gw, [Opened ''broker.db'']) \<and>
      gc_Config gw = Some f \<and> f_Credential_Broker f = ''broker.db'' \<and> gc_Adapters gw \<noteq> None"
    by auto
  moreover from start_store_accounted [OF demo_failed_start]
  have "still_open [Opened ''broker.db'', ClosedStore] None = None" by simp
  moreover from start_store_accounted [OF demo_leaking_start]
  have "still_open [Opened ''broker.db''] None = Some ''broker.db''" by simp
  ultimately show ?thesis by (simp only: demo_failed_start demo_leaking_start snd_conv simp_thms)
qed

end
