(* ===== verification/Planes.thy ===== *)
theory Planes
  imports Gateway
begin

section \<open>The two planes together\<close>

text \<open>
  Both planes of a gateway work on one broker database: the admin plane mints and revokes keys and stores credentials, the
  data plane checks keys and reads credentials. Here requests to the admin plane change the database, and the
  data plane answers from the database they left.
\<close>

subsection \<open>A history of admin requests\<close>

text \<open>
  One request to the admin plane with what it meets: the clocks, random bytes and statement outcomes, and the client
  of an event stream.
\<close>

record admin_call =
  ac_request :: request
  ac_store :: store_env
  ac_create :: create_env
  ac_flusher :: bool
  ac_first_ok :: bool
  ac_events :: "stream_event list"

record admin_plane =
  ap_gcm :: gcm
  ap_H :: idkey
  ap_auth :: Middleware
  ap_keys :: MintPolicy
  ap_provision :: MintPolicy

definition admin_server :: "admin_plane \<Rightarrow> admin_call \<Rightarrow> broker Server" where
  "admin_server ap a = broker_Server (ap_gcm ap) (ap_H ap) (ac_store a) (ac_create a) (ap_auth ap) (ap_keys ap) (ap_provision ap)"

definition admin_answer :: "admin_plane \<Rightarrow> admin_call \<Rightarrow> broker \<Rightarrow> broker admin_result" where
  "admin_answer ap a b =
     Admin_Handler (ap_H ap) (admin_server ap a) (ac_request a) (ac_flusher a) (ac_first_ok a) (ac_events a) b"

definition admin_step :: "admin_plane \<Rightarrow> admin_call \<Rightarrow> broker \<Rightarrow> broker" where
  "admin_step ap a b = (case admin_answer ap a b of Reply rep b' \<Rightarrow> b' | Stream rep cs \<Rightarrow> b)"

definition admin_session :: "admin_plane \<Rightarrow> admin_call list \<Rightarrow> broker \<Rightarrow> broker" where
  "admin_session ap calls b = fold (admin_step ap) calls b"

text \<open>The data plane over the same database at one moment: the keys from it, credentials and upstream from \<open>e\<close>.\<close>

definition plane_engine :: "idkey \<Rightarrow> bool \<Rightarrow> instant \<Rightarrow> broker \<Rightarrow> Engine \<Rightarrow> Engine" where
  "plane_engine H db_ok now b e =
     gateway_engine (\<lambda>secret. SQL_Verify H db_ok now secret (br_keys b)) (en_Get e) (en_Adapters e) e"

lemma modelFromMultipart_env [simp]: "modelFromMultipart (e\<lparr>en_Verify := v\<rparr>) raw ct = modelFromMultipart e raw ct"
  by (simp add: modelFromMultipart_def split: option.split)

lemma plane_engine_simps [simp]:
  "en_Verify (plane_engine H db_ok now b e) secret = SQL_Verify H db_ok now secret (br_keys b)"
  "readIngress (plane_engine H db_ok now b e) r wireID = readIngress e r wireID"
  by (simp_all add: plane_engine_def gateway_engine_def readIngress_def readModel_def split: sum.split)

lemma SQL_Revoke_failed: "SQL_Revoke False kid s = (Inl ErrDatabase, s)"
  by (simp add: SQL_Revoke_def)

text \<open>To the stores, an admin request is an import, a mint, a revocation, or nothing.\<close>

lemma admin_step_cases:
  obtains (same) "admin_step ap a b = b"
  | (import) p k where "admin_step ap a b = b\<lparr>br_creds := snd (SQLite_PutAPIKey (ap_gcm ap) (ac_store a) p k (br_creds b))\<rparr>"
  | (mint) name kind ttl scopes where
      "admin_step ap a b = b\<lparr>br_keys := snd (SQL_Create (ap_H ap) (ac_create a) name kind ttl scopes (br_keys b))\<rparr>"
  | (revoke) kid where "admin_step ap a b = b\<lparr>br_keys := snd (SQL_Revoke True kid (br_keys b))\<rparr>"
proof (cases "admin_step ap a b = b")
  case False
  then obtain rep b' where b': "admin_answer ap a b = Reply rep b'" "b' \<noteq> b" "admin_step ap a b = b'"
    by (auto simp: admin_step_def split: admin_result.splits)
  obtain role where "admin_route (admin_server ap a) (Some role) (ac_request a) (ac_flusher a) (ac_first_ok a) (ac_events a) b = Reply rep b'"
    using Require_state [OF b'(1) [unfolded admin_answer_def] b'(2)] by blast

  from admin_route_state [OF this b'(2)] consider
    "importCredential (admin_server ap a) (rq_body (ac_request a)) b = (rep, b')"
    | "createKey (admin_server ap a) (Some role) (rq_body (ac_request a)) b = (rep, b')"
    | "revokeKey (admin_server ap a) (rq_path (ac_request a)) b = (rep, b')"
    by blast
  then show ?thesis
  proof cases
    case 1
    then show ?thesis by (cases rule: importCredential_state) (use b' import in \<open>auto simp: admin_server_def broker_Server_def with_keys_def with_creds_def\<close>)
  next
    case 2
    then show ?thesis by (cases rule: createKey_state) (use b' mint in \<open>auto simp: admin_server_def broker_Server_def with_keys_def with_creds_def\<close>)
  next
    case 3
    then show ?thesis
      by (cases rule: revokeKey_state; cases "ce_update_ok (ac_create a)")
        (use b' revoke in \<open>auto simp: admin_server_def broker_Server_def with_keys_def SQL_Revoke_failed\<close>)
  qed
qed

lemma one_key_op:
  "snd (sql_run H [KCreate e name kind ttl scopes] s) = snd (SQL_Create H e name kind ttl scopes s)"
  "snd (sql_run H [KRevoke kid] s) = snd (SQL_Revoke True kid s)"
  by (simp_all add: case_prod_beta key_exec_snd)

lemma no_key_op: "\<exists>ops. s = snd (sql_run H ops s)"
  by (rule exI [of _ "[]"]) simp

lemma admin_step_keys: "\<exists>ops. br_keys (admin_step ap a b) = snd (sql_run (ap_H ap) ops (br_keys b))"
  by (cases rule: admin_step_cases [of ap a b]) (simp_all add: no_key_op, (metis one_key_op)+)

lemma sql_run_append: "snd (sql_run H (ops @ ops') s) = snd (sql_run H ops' (snd (sql_run H ops s)))"
  by (induction ops arbitrary: s) (simp_all add: case_prod_beta)

lemma admin_session_keys: "\<exists>ops. br_keys (admin_session ap calls b) = snd (sql_run (ap_H ap) ops (br_keys b))"
proof (induction calls arbitrary: b)
  case Nil
  show ?case by (rule exI [of _ "[]"]) (simp add: admin_session_def)
next
  case (Cons a calls)
  obtain ops where ops: "br_keys (admin_step ap a b) = snd (sql_run (ap_H ap) ops (br_keys b))"
    using admin_step_keys by blast
  obtain ops' where "br_keys (admin_session ap calls (admin_step ap a b)) = snd (sql_run (ap_H ap) ops' (br_keys (admin_step ap a b)))"
    using Cons.IH by blast
  with ops show ?case by (intro exI [of _ "ops @ ops'"]) (simp add: admin_session_def sql_run_append)
qed

subsection \<open>The tables stay well-typed\<close>

text \<open>
  What a row of the key table may hold: a known kind, an expiry unless the key is static, a flag, scopes that decode, and
  a hash that is still empty or was sealed. A credential row holds a known type and a text that \<^verbatim>\<open>Encrypt\<close> made
  under the key of the vault. Ids grow along a table.
\<close>

definition key_row_typed :: "idkey \<Rightarrow> int \<Rightarrow> key_row \<Rightarrow> bool" where
  "key_row_typed H limit r \<longleftrightarrow>
     0 < kr_id r \<and> kr_id r \<le> limit \<and> kr_kind r \<in> {KindStatic, KindIssued} \<and>
     (kr_kind r \<noteq> KindStatic \<longrightarrow> kr_expires_at r \<noteq> None) \<and> kr_revoked r \<in> {0, 1} \<and>
     (\<exists>scopes. kr_scopes r = encodeScopes scopes) \<and>
     (kr_hash r = '''' \<or> (\<exists>salt secret. argon_Seal H (Some salt) secret = Some (kr_hash r)))"

definition key_table_typed :: "idkey \<Rightarrow> SQLStore \<Rightarrow> bool" where
  "key_table_typed H s \<longleftrightarrow>
     0 \<le> ks_seq s \<and> ks_seq s < 2 ^ 63 \<and> sorted_wrt (<) (map kr_id (ks_rows s)) \<and> (\<forall>r \<in> set (ks_rows s). key_row_typed H (ks_seq s) r)"

definition cred_row_typed :: "gcm \<Rightarrow> Key \<Rightarrow> int \<Rightarrow> cred_row \<Rightarrow> bool" where
  "cred_row_typed G key limit r \<longleftrightarrow>
     cr_id r \<le> limit \<and> cr_type r \<in> {''api_key'', ''oauth''} \<and>
     (\<exists>nonce payload. EncryptPayload G nonce key payload = Inr (cr_data r))"

definition vault_typed :: "gcm \<Rightarrow> SQLite \<Rightarrow> bool" where
  "vault_typed G s \<longleftrightarrow>
     sorted_wrt (<) (map cr_id (sq_rows s)) \<and> (\<forall>r \<in> set (sq_rows s). cred_row_typed G (sq_key s) (sq_seq s) r)"

definition broker_typed :: "gcm \<Rightarrow> idkey \<Rightarrow> broker \<Rightarrow> bool" where
  "broker_typed G H b \<longleftrightarrow> key_table_typed H (br_keys b) \<and> vault_typed G (br_creds b)"

lemma key_row_typed_mono: "key_row_typed H n r \<Longrightarrow> n \<le> m \<Longrightarrow> key_row_typed H m r"
  by (auto simp: key_row_typed_def)

lemma key_expiry_kind: "key_expiry e kind ttl = Inr ex \<Longrightarrow> kind \<noteq> KindStatic \<Longrightarrow> ex \<noteq> None"
  by (auto simp: key_expiry_def split: if_splits)

lemma SQL_insert_typed:
  assumes "SQL_insert e name kind ex (encodeScopes scopes) s = Some s'" "key_expiry e kind ttl = Inr ex" "key_table_typed H s"
  shows "key_table_typed H s'"
proof -
  let ?r = "\<lparr>kr_id = ks_seq s + 1, kr_name = name, kr_kind = kind, kr_hash = '''', kr_expires_at = ex,
        kr_scopes = encodeScopes scopes, kr_revoked = 0, kr_created_at = UnixMilli (ce_now1 e)\<rparr>"
  have s': "s' = \<lparr>ks_rows = ks_rows s @ [?r], ks_seq = ks_seq s + 1\<rparr>" and kind: "kind \<in> {KindStatic, KindIssued}"
    and room: "ks_seq s < 2 ^ 63 - 1"
    using assms(1) by (auto simp: SQL_insert_def KindStatic_def KindIssued_def split: if_splits)
  have "key_row_typed H (ks_seq s + 1) ?r"
    using assms(2,3) kind key_expiry_kind [OF assms(2)] by (auto simp: key_row_typed_def key_table_typed_def)
  moreover have "\<forall>r \<in> set (ks_rows s). key_row_typed H (ks_seq s + 1) r \<and> kr_id r < ks_seq s + 1"
    using assms(3) by (auto simp: key_table_typed_def key_row_typed_mono) (simp add: key_row_typed_def)
  ultimately show ?thesis
    using assms(3) room by (auto simp: key_table_typed_def s' sorted_wrt_append)
qed

lemma SQL_update_typed:
  assumes "key_table_typed H s" "\<And>r. key_row_typed H (ks_seq s) r \<Longrightarrow> key_row_typed H (ks_seq s) (f r)" "\<And>r. kr_id (f r) = kr_id r"
  shows "key_table_typed H (SQL_update kid f s)"
proof -
  have "map kr_id (ks_rows (SQL_update kid f s)) = map kr_id (ks_rows s)" "ks_seq (SQL_update kid f s) = ks_seq s"
    by (rule SQL_update_ids [OF assms(3)])+
  with assms(1,2) show ?thesis by (simp only: key_table_typed_def) (auto simp: SQL_update_def)
qed

lemma SQL_Create_typed:
  assumes "key_table_typed H s"
  shows "key_table_typed H (snd (SQL_Create H e name kind ttl scopes s))"
proof (cases "key_expiry e kind ttl")
  case (Inr ex)
  show ?thesis
  proof (cases "SQL_insert e name kind ex (encodeScopes scopes) s")
    case (Some s1)
    have t: "key_table_typed H s1" by (rule SQL_insert_typed [OF Some Inr assms])
    have "key_table_typed H (SQL_update kid (\<lambda>r. r\<lparr>kr_hash := sealed\<rparr>) s1)"
      if "argon_Seal H (ce_salt e) secret = Some sealed" for kid sealed secret
      by (rule SQL_update_typed [OF t])
        (use that in \<open>auto simp: key_row_typed_def argon_Seal_def split: option.splits\<close>)
    with t show ?thesis by (simp add: SQL_Create_def Inr Some Let_def split: option.split)
  qed (simp add: SQL_Create_def Inr assms)
qed (simp add: SQL_Create_def assms)

lemma SQL_Revoke_typed: "key_table_typed H s \<Longrightarrow> key_table_typed H (snd (SQL_Revoke ok kid s))"
  by (auto simp: SQL_Revoke_def key_row_typed_def intro!: SQL_update_typed)

lemma bump_rows [simp]:
  "sq_rows (snd (SQLite_BumpGeneration e s)) = sq_rows s" "sq_seq (snd (SQLite_BumpGeneration e s)) = sq_seq s"
  "sq_key (snd (SQLite_BumpGeneration e s)) = sq_key s"
  by (simp_all add: SQLite_BumpGeneration_def Let_def split: option.split)

lemma SQLite_PutAPIKey_typed:
  assumes "vault_typed G s"
  shows "vault_typed G (snd (SQLite_PutAPIKey G e p k s))"
proof (cases "EncryptPayload G (st_nonce e) (sq_key s) (json_api (apiKeyPayload k))")
  case (Inr enc)
  have "cred_row_typed G (sq_key s) (sq_seq s + 1) r \<and> cr_id r < sq_seq s + 1" if "r \<in> set (sq_rows s)" for r
    using assms that by (auto simp: vault_typed_def cred_row_typed_def)
  with assms Inr show ?thesis
    by (auto simp: SQLite_PutAPIKey_def SQLite_insert_def Let_def vault_typed_def sorted_wrt_append)
      (auto simp: cred_row_typed_def)
qed (simp add: SQLite_PutAPIKey_def assms)

lemma admin_step_typed:
  assumes "broker_typed (ap_gcm ap) (ap_H ap) b"
  shows "broker_typed (ap_gcm ap) (ap_H ap) (admin_step ap a b)"
  by (cases rule: admin_step_cases [of ap a b])
    (use assms in \<open>simp_all add: broker_typed_def SQLite_PutAPIKey_typed SQL_Create_typed SQL_Revoke_typed\<close>)

text \<open>
  (C31) The tables of the broker stay well-typed. Whatever requests the admin plane gets, in any order, with any bodies, from anyone, and
  whichever statements of the database fail: the ids of each table grow, every key row has a known kind, an expiry unless it
  is static, scopes that can be decoded and a hash that is empty or was sealed, and every credential row has a known type and
  data encrypted under the vault's key.
\<close>

theorem admin_session_typed:
  assumes "broker_typed (ap_gcm ap) (ap_H ap) b"
  shows "broker_typed (ap_gcm ap) (ap_H ap) (admin_session ap calls b)"
  using assms by (induction calls arbitrary: b) (simp_all add: admin_session_def admin_step_typed)

subsection \<open>Keys from the admin plane on the data plane\<close>

lemma plane_rejects:
  assumes "bearerToken (rq_header q) = Inr secret" "\<not> is_ok (en_Verify e secret)"
    "Wire_Handler e q c = (rep, st, c')"
  shows "(case wire_mux (rq_method q) (rq_escaped q) of
       ToWire w \<Rightarrow> rep = WError WUnauthorized StatusUnauthorized
     | ToModels \<Rightarrow> rep \<in> {WError WUnauthorized StatusUnauthorized, WError WMethodNotAllowed StatusMethodNotAllowed}
     | _ \<Rightarrow> True) \<and> ws_trace st = [] \<and> c' = c"
proof -
  obtain err where "en_Verify e secret = Inl err" using assms(2) by (cases "en_Verify e secret") auto
  with assms(1) have "Authenticate (en_Verify e) (rq_header q) = Inl err" by (simp add: Authenticate_def)
  with assms(3) show ?thesis
    by (auto simp: Wire_Handler_def wire_routes_def withAuth_def models_def wire_healthz_def Let_def split: wire_route.splits if_splits)
qed

text \<open>
  (C28) Revocation through the admin plane locks a key out of the data plane: once a request to the admin plane was
  answered with 204 for a key, whatever requests the admin plane serves afterwards, a request to the data plane that bears a
  secret with that key's id gets 401 on every wire and on the model list, reads no stored credential, calls no
  upstream and moves no round-robin counter.
\<close>

theorem revoked_key_locked_out:
  assumes "br_keys b = snd (sql_run (ap_H ap) ops NewSQLStore)"
    "admin_answer ap a b = Reply rep b'" "rep_status rep = StatusNoContent"
    "path_id (rq_path (ac_request a)) ''/v1/keys/'' = Some kid"
    "bearerToken (rq_header q) = Inr secret" "parseKeyID secret = Some kid"
    "Wire_Handler (plane_engine (ap_H ap) db_ok now (admin_session ap calls b') e) q c = (out, st, c')"
  shows "(case wire_mux (rq_method q) (rq_escaped q) of
       ToWire w \<Rightarrow> out = WError WUnauthorized StatusUnauthorized
     | ToModels \<Rightarrow> out \<in> {WError WUnauthorized StatusUnauthorized, WError WMethodNotAllowed StatusMethodNotAllowed}
     | _ \<Rightarrow> True) \<and> ws_trace st = [] \<and> c' = c"
proof -
  have "revokeKey (admin_server ap a) (rq_path (ac_request a)) b = (rep, b')"
    using Admin_Handler_no_content [where sv = "admin_server ap a" and r = "ac_request a" and s = b] assms(2,3) unfolding admin_answer_def no_content_by_def by blast
  then obtain x where x: "sv_Revoke (admin_server ap a) kid b = (x, b')" "is_ok x"
    by (cases rule: revokeKey_state) (use assms(3,4) in auto)
  then have revoked: "SQL_Revoke True kid (br_keys b) = (Inr (), br_keys b')"
    by (cases x; cases "ce_update_ok (ac_create a)")
      (auto simp: admin_server_def broker_Server_def with_keys_def SQL_Revoke_failed prod_eq_iff)
  obtain ops' where later: "br_keys (admin_session ap calls b') = snd (sql_run (ap_H ap) ops' (br_keys b'))"
    using admin_session_keys by blast
  have "SQL_Verify (ap_H ap) True now secret (br_keys (admin_session ap calls b')) = Inl ErrInvalidGatewayKey"
    unfolding later
    by (rule sql.revoked_stays_revoked [OF sql_run_inv [OF SQL_inv_new] _ sql_rooms _ assms(6)])
      (use revoked assms(1) in \<open>auto simp: prod_eq_iff\<close>)
  then have "\<not> is_ok (SQL_Verify (ap_H ap) db_ok now secret (br_keys (admin_session ap calls b')))"
    using assms(6) by (cases db_ok) (auto simp: SQL_Verify_def SQL_verifyByID_def)
  from plane_rejects [OF assms(5) _ assms(7)] this show ?thesis by simp
qed

text \<open>A mint under a provision token, down to the key table, and what its key is accepted for.\<close>

lemma provision_mint_stored:
  assumes "admin_answer ap a b = Reply rep b'" "rep_status rep = StatusOK"
    "rq_path (ac_request a) = ''/v1/keys''" "well_escaped (ac_request a)" "rq_method (ac_request a) = MethodPost"
    "Require (ap_H ap) (ap_auth ap) (ac_request a) = Pass RoleProvision"
    "ap_provision ap = ProvisionPolicyFromConfig f"
  obtains name ttl secret kid where "0 < ttl" "ttl \<le> max (mp_MaxTTL (ap_provision ap)) (24 * Hour)"
    "mp_Scopes (ap_provision ap) \<noteq> []"
    "SQL_Create (ap_H ap) (ac_create a) name KindIssued ttl (mp_Scopes (ap_provision ap)) (br_keys b) = (Inr (secret, kid), br_keys b')"
    "rep = json_reply (JObj [(''id'', JNum (show_int kid)), (''key'', JStr secret)])"
proof -
  have no_healthz: "path_segments (rq_escaped (ac_request a)) \<noteq> [''v1'', ''healthz'']"
    using path_segments_two [OF assms(4), of "''v1''" "''healthz''"] assms(3) by (auto simp: suffix_def)
  have "createKey (admin_server ap a) (Some RoleProvision) (rq_body (ac_request a)) b = (rep, b')"
    using Admin_Handler_ok_route [OF assms(1) [unfolded admin_answer_def] assms(2) no_healthz] assms(3,5,6)
    by (auto simp: admin_route_def admin_server_def broker_Server_def Let_def split: prod.splits)
  moreover have "sv_ProvisionPolicy (admin_server ap a) = ap_provision ap"
    by (simp add: admin_server_def broker_Server_def)
  ultimately obtain name ttl secret kid where k:
    "0 < ttl" "ttl \<le> max (mp_MaxTTL (ap_provision ap)) (24 * Hour)" "mp_Scopes (ap_provision ap) \<noteq> []"
    "sv_Create (admin_server ap a) name KindIssued ttl (mp_Scopes (ap_provision ap)) b = (Inr (secret, kid), b')"
    "rep = json_reply (JObj [(''id'', JNum (show_int kid)), (''key'', JStr secret)])"
    using provision_mint [of "admin_server ap a" "rq_body (ac_request a)" b rep b' f] assms(2,7) by auto
  have "SQL_Create (ap_H ap) (ac_create a) name KindIssued ttl (mp_Scopes (ap_provision ap)) (br_keys b) = (Inr (secret, kid), br_keys b')"
    using k(4) by (auto simp: admin_server_def broker_Server_def with_keys_def prod_eq_iff)
  from that [OF k(1-3) this k(5)] show ?thesis .
qed

lemma minted_accepts:
  assumes "SQL_inv s" "SQL_Create H e name kind ttl scopes s = (Inr (secret, kid), s')" "0 < ttl"
    "SQL_Verify H db_ok now secret' s' = Inr p" "parseKeyID secret' = Some kid"
  shows "prin_Scopes p = map to_utf8 scopes \<and> UnixMilli now \<le> UnixMilli (ce_now2 e + ttl)"
proof -
  from SQL_create_ok [OF assms(1,2)] obtain salt where live: "SQL_live s' kid = Some (live_of_grant H (map to_utf8)
       \<lparr>gr_secret = secret, gr_salt = salt, gr_name = name, gr_scopes = scopes, gr_expires = Some (UnixMilli (ce_now2 e + ttl))\<rparr>)"
    using assms(3) by auto
  have "db_ok" using assms(4,5) by (cases db_ok) (auto simp: SQL_Verify_def SQL_verifyByID_def)
  with assms(4,5) SQL_verify_live [of H now secret' s'] live show ?thesis
    by (auto simp: live_of_grant_def key_expired_def split: if_splits)
qed

text \<open>
  (C30) A key minted with a provision token can do on the data plane only what the operator allowed for provisioning: when a
  request to mint was accepted under a provision token, the key it returned expires within the larger of the
  configured limit and 24 hours, and a request to the data plane that bears it (or any secret with its id) reads a stored
  credential, calls an upstream or moves a round-robin counter only before it expires and for a model and a
  wire that a scope of the provision policy (as UTF-8) grants.
\<close>

theorem provisioned_key_confined:
  assumes "br_keys b = snd (sql_run (ap_H ap) ops NewSQLStore)"
    "admin_answer ap a b = Reply rep b'" "rep_status rep = StatusOK"
    "rq_path (ac_request a) = ''/v1/keys''" "well_escaped (ac_request a)" "rq_method (ac_request a) = MethodPost"
    "Require (ap_H ap) (ap_auth ap) (ac_request a) = Pass RoleProvision"
    "ap_provision ap = ProvisionPolicyFromConfig f"
  shows "\<exists>kid secret ttl. rep = json_reply (JObj [(''id'', JNum (show_int kid)), (''key'', JStr secret)]) \<and>
    0 < ttl \<and> ttl \<le> max (mp_MaxTTL (ap_provision ap)) (24 * Hour) \<and>
    (\<forall>q secret' e db_ok now c out st c'. bearerToken (rq_header q) = Inr secret' \<and> parseKeyID secret' = Some kid \<and>
       Wire_Handler (plane_engine (ap_H ap) db_ok now b' e) q c = (out, st, c') \<and> (ws_trace st \<noteq> [] \<or> c' \<noteq> c) \<longrightarrow>
       UnixMilli now \<le> UnixMilli (ce_now2 (ac_create a) + ttl) \<and>
       (\<exists>wireID model raw. wire_mux (rq_method q) (rq_escaped q) = ToWire wireID \<and> readIngress e q wireID = Inr (model, raw) \<and>
          (\<exists>s \<in> set (mp_Scopes (ap_provision ap)). scope_grants (to_utf8 s) model wireID)))"
proof -
  obtain name ttl secret kid where k: "0 < ttl" "ttl \<le> max (mp_MaxTTL (ap_provision ap)) (24 * Hour)"
    "mp_Scopes (ap_provision ap) \<noteq> []"
    "SQL_Create (ap_H ap) (ac_create a) name KindIssued ttl (mp_Scopes (ap_provision ap)) (br_keys b) = (Inr (secret, kid), br_keys b')"
    "rep = json_reply (JObj [(''id'', JNum (show_int kid)), (''key'', JStr secret)])"
    by (rule provision_mint_stored [OF assms(2-8)])
  have inv: "SQL_inv (br_keys b)" using assms(1) sql_run_inv [OF SQL_inv_new] by simp
  have "UnixMilli now \<le> UnixMilli (ce_now2 (ac_create a) + ttl) \<and>
       (\<exists>wireID model raw. wire_mux (rq_method q) (rq_escaped q) = ToWire wireID \<and> readIngress e q wireID = Inr (model, raw) \<and>
          (\<exists>s \<in> set (mp_Scopes (ap_provision ap)). scope_grants (to_utf8 s) model wireID))"
    if q: "bearerToken (rq_header q) = Inr secret'" "parseKeyID secret' = Some kid"
      "Wire_Handler (plane_engine (ap_H ap) db_ok now b' e) q cat = (out, st, c')" "ws_trace st \<noteq> [] \<or> c' \<noteq> cat"
    for q secret' e db_ok now cat out st c'
  proof (rule Wire_Handler_acts [OF q(3,4)])
    fix wireID p model raw
    assume act: "wire_mux (rq_method q) (rq_escaped q) = ToWire wireID"
      "Authenticate (en_Verify (plane_engine (ap_H ap) db_ok now b' e)) (rq_header q) = Inr p"
      "readIngress (plane_engine (ap_H ap) db_ok now b' e) q wireID = Inr (model, raw)"
      "Authorize (prin_Scopes p) model wireID = Inr ()"
    from act(2) q(1) have "SQL_Verify (ap_H ap) db_ok now secret' (br_keys b') = Inr p"
      by (simp add: Authenticate_def)
    from minted_accepts [OF inv k(4,1) this q(2)] act(1,3,4) k(3) show ?thesis
      by (auto simp: Authorize_iff)
  qed
  with k show ?thesis by blast
qed

subsection \<open>Witnesses\<close>

definition demo_plane :: admin_plane where
  "demo_plane = \<lparr>ap_gcm = demo_gcm, ap_H = demo_H, ap_auth = demo_auth, ap_keys = KeysPolicyFromConfig None, ap_provision = demo_policy\<rparr>"

definition demo_call :: "request \<Rightarrow> admin_call" where
  "demo_call r = \<lparr>ac_request = r, ac_store = demo_store_env, ac_create = demo_env, ac_flusher = True, ac_first_ok = True, ac_events = []\<rparr>"

definition demo_delete :: request where
  "demo_delete = demo_mint_request\<lparr>rq_method := MethodDelete, rq_path := ''/v1/keys/1'', rq_escaped := ''/v1/keys/1''\<rparr>"

definition demo_bearing :: request where
  "demo_bearing = demo_chat\<lparr>rq_header := [(''Authorization'', [''Bearer '' @ demo_secret])]\<rparr>"

lemma demo_admin_server: "admin_server demo_plane (demo_call r) = demo_Server"
  by (simp add: admin_server_def demo_plane_def demo_call_def demo_Server_def)

lemma demo_answer:
  "admin_answer demo_plane (demo_call r) b = Admin_Handler demo_H demo_Server r True True [] b"
  by (simp only: admin_answer_def demo_admin_server) (simp add: demo_plane_def demo_call_def)

lemma demo_admin_mint:
  "admin_answer demo_plane (demo_call demo_mint_request) demo_broker =
    Reply (json_reply (JObj [(''id'', JNum (show_int 1)), (''key'', JStr demo_secret)])) demo_minted"
proof -
  have "Require demo_H (sv_Auth demo_Server) demo_mint_request = Pass RoleProvision" by (rule demo_Require)
  moreover have "rq_path demo_mint_request = ''/v1/keys''" "rq_method demo_mint_request = MethodPost"
    "rq_body demo_mint_request = demo_mint_body"
    by (simp_all add: demo_mint_request_def)
  ultimately show ?thesis
    by (simp add: demo_answer Admin_Handler_admin_route [OF demo_mint_routed] admin_route_def demo_mint)
qed

lemma demo_history_keys:
  "br_keys demo_broker = snd (sql_run (ap_H demo_plane) [] NewSQLStore)"
  "br_keys demo_minted = snd (sql_run (ap_H demo_plane) [KCreate demo_env ''ci'' KindIssued (24 * Hour) [''model:m'']] NewSQLStore)"
  by (simp_all add: demo_broker_def demo_minted_def demo_plane_def one_key_op del: key_run.simps(2))

theorem provisioned_key_confined_witness:
  "\<exists>kid secret ttl. 0 < ttl \<and> ttl \<le> 24 * Hour \<and>
     json_reply (JObj [(''id'', JNum (show_int 1)), (''key'', JStr demo_secret)]) =
       json_reply (JObj [(''id'', JNum (show_int kid)), (''key'', JStr secret)]) \<and>
     (\<forall>q secret' e db_ok now c out st c'. bearerToken (rq_header q) = Inr secret' \<and> parseKeyID secret' = Some kid \<and>
        Wire_Handler (plane_engine (ap_H demo_plane) db_ok now demo_minted e) q c = (out, st, c') \<and> (ws_trace st \<noteq> [] \<or> c' \<noteq> c) \<longrightarrow>
        UnixMilli now \<le> UnixMilli (ce_now2 (ac_create (demo_call demo_mint_request)) + ttl) \<and>
        (\<exists>wireID model raw. wire_mux (rq_method q) (rq_escaped q) = ToWire wireID \<and> readIngress e q wireID = Inr (model, raw) \<and>
          (\<exists>s \<in> set (mp_Scopes (ap_provision demo_plane)). scope_grants (to_utf8 s) model wireID)))"
proof -
  have req: "Require (ap_H demo_plane) (ap_auth demo_plane) (ac_request (demo_call demo_mint_request)) = Pass RoleProvision"
    using demo_Require by (simp add: demo_plane_def demo_call_def demo_Server_def broker_Server_def)
  have pol: "ap_provision demo_plane = ProvisionPolicyFromConfig (Some (demo_file ''1h''))"
    by (simp add: demo_plane_def demo_policy_def)
  have r: "rep_status (json_reply j) = StatusOK" "rq_path (ac_request (demo_call demo_mint_request)) = ''/v1/keys''"
    "well_escaped (ac_request (demo_call demo_mint_request))" "rq_method (ac_request (demo_call demo_mint_request)) = MethodPost" for j
    by (simp_all add: json_reply_def demo_call_def demo_mint_request_def well_escaped_def)
  have "max (mp_MaxTTL (ap_provision demo_plane)) (24 * Hour) = 24 * Hour"
    using demo_policy by (simp add: demo_plane_def duration_defs)
  with provisioned_key_confined [OF demo_history_keys(1) demo_admin_mint r req pol] show ?thesis
    by (elim exE conjE, intro exI conjI) simp_all
qed

lemma demo_secret_graphic: "list_all graphic demo_secret"
  by (simp add: demo_secret_def graphic_def)

theorem revoked_key_locked_out_witness:
  "\<exists>b'. admin_answer demo_plane (demo_call demo_delete) demo_minted =
       Reply \<lparr>rep_status = StatusNoContent, rep_header = [], rep_body = BNone\<rparr> b' \<and>
     fst (Wire_Handler (plane_engine demo_H True 0 (admin_session demo_plane [demo_call demo_mint_request] b') demo_engine)
            demo_bearing demo_catalog) = WError WUnauthorized StatusUnauthorized"
proof -
  have fields: "rq_path demo_delete = ''/v1/keys/1''" "rq_method demo_delete = MethodDelete"
    "rq_header demo_delete = rq_header demo_mint_request"
    by (simp_all add: demo_delete_def)
  have routed: "\<not> mux_cleans (rq_method demo_delete) (rq_escaped demo_delete)"
    "path_segments (rq_escaped demo_delete) = [''v1'', ''keys'', ''1'']" "''keys'' \<noteq> ''healthz''"
    by (simp_all add: demo_delete_def path_eval)
  have kid: "path_id ''/v1/keys/1'' ''/v1/keys/'' = Some 1"
  proof -
    have "ParseInt (show_nat 1) = Some 1" by (simp add: ParseInt_show_nat del: show_nat.simps)
    moreover have "show_nat 1 = ''1''" by (subst show_nat.simps) (simp add: digit_char_def char_of_def bit_Suc_0_iff)
    ultimately show ?thesis by (simp add: path_id_def TrimPrefix_def)
  qed
  have "Require demo_H demo_auth demo_delete = Pass RoleProvision"
    using demo_Require fields by (simp add: Require_def demo_Server_def broker_Server_def demo_admin_bearer)
      (simp add: demo_mint_request_def provisionDeny_def gm_keys_def split: option.splits if_splits)
  moreover obtain b' where b': "revokeKey demo_Server ''/v1/keys/1'' demo_minted =
    (\<lparr>rep_status = StatusNoContent, rep_header = [], rep_body = BNone\<rparr>, b')"
    by (simp add: revokeKey_def kid demo_Server_def broker_Server_def with_keys_def demo_minted_def SQL_Create_def key_expiry_def
        KindIssued_def KindStatic_def SQL_insert_def demo_env_def NewSQLStore_def demo_format argon_Seal_def duration_defs
        SQL_update_def SQL_Revoke_def)
  ultimately have answer: "admin_answer demo_plane (demo_call demo_delete) demo_minted =
    Reply \<lparr>rep_status = StatusNoContent, rep_header = [], rep_body = BNone\<rparr> b'"
    by (simp add: demo_answer Admin_Handler_admin_route [OF routed] admin_route_def fields demo_Server_def broker_Server_def)
  have bearer: "bearerToken (rq_header demo_bearing) = Inr demo_secret"
    using TrimSpace_graphic [OF demo_secret_graphic]
    by (simp add: bearerToken_def demo_bearing_def h_Get_def h_values_def demo_CanonicalKey gm_getd_def Let_def TrimPrefix_def)
      (simp add: demo_secret_def)
  obtain out st c' where run: "Wire_Handler (plane_engine (ap_H demo_plane) True 0
      (admin_session demo_plane [demo_call demo_mint_request] b') demo_engine) demo_bearing demo_catalog = (out, st, c')"
    by (metis prod_cases3)
  have "path_id (rq_path (ac_request (demo_call demo_delete))) ''/v1/keys/'' = Some 1"
    using kid fields by (simp add: demo_call_def)
  from revoked_key_locked_out [OF demo_history_keys(2) answer _ this bearer demo_parse run] run answer
  show ?thesis
    using demo_mux by (auto simp: demo_bearing_def demo_plane_def)
qed

theorem admin_session_typed_witness:
  "admin_session demo_plane [demo_call demo_mint_request] demo_broker = demo_minted \<and>
     broker_typed (ap_gcm demo_plane) (ap_H demo_plane) demo_minted \<and> ks_rows (br_keys demo_minted) \<noteq> []"
proof -
  have "sq_rows demo_vault = []"
    using OpenSQLite_good [OF demo_good(2), of "empty_db demo_key"] demo_open by (auto simp: empty_db_def)
  then have "broker_typed (ap_gcm demo_plane) (ap_H demo_plane) demo_broker"
    by (simp add: broker_typed_def demo_broker_def key_table_typed_def vault_typed_def NewSQLStore_def)
  moreover have run: "admin_session demo_plane [demo_call demo_mint_request] demo_broker = demo_minted"
    using demo_admin_mint by (simp add: admin_session_def admin_step_def)
  moreover have "ks_rows (br_keys demo_minted) \<noteq> []"
  proof
    assume "ks_rows (br_keys demo_minted) = []"
    moreover have "SQL_Create demo_H demo_env ''ci'' KindIssued (24 * Hour) [''model:m''] NewSQLStore =
        (Inr (demo_secret, 1), br_keys demo_minted)"
      using demo_issue by (simp add: demo_minted_def prod_eq_iff)
    ultimately show False
      by (auto simp: SQL_Create_def SQL_insert_def SQL_update_def Let_def split: sum.splits option.splits if_splits
          dest!: arg_cong [where f = ks_rows and y = "br_keys demo_minted"])
  qed
  ultimately show ?thesis using admin_session_typed [of demo_plane demo_broker "[demo_call demo_mint_request]"] by simp
qed

end
