(* ===== verification/OAuth.thy ===== *)
theory OAuth
  imports Config StoreSqlite GoUrl
begin

section \<open>OAuth login and refresh\<close>

text \<open>
  \<^verbatim>\<open>credential/oauth/generic/oauth.go\<close>: the authorization code flow in a browser or by hand, the device flow, and the
  refresh of stored tokens. \<open>oauth_env\<close> holds what a login meets: random bytes, SHA-256, the listener, the
  event that ends the wait for the browser, what the operator types, the clock, and the token endpoint.
  \<open>oe_post n url form\<close> is the answer to the n-th request of a login, a status with the body that could be read;
  \<open>None\<close> is a request that failed. What the operator is shown is a list of \<open>AuthInfo\<close>.
\<close>

type_synonym Flow = string

definition FlowAuto :: Flow where "FlowAuto = ''auto''"
definition FlowBrowser :: Flow where "FlowBrowser = ''browser''"
definition FlowDevice :: Flow where "FlowDevice = ''device''"
definition FlowManual :: Flow where "FlowManual = ''manual''"

record AuthInfo =
  ai_URL :: string
  ai_UserCode :: string
  ai_Instructions :: string

datatype oauth_error =
    OUnknownFlow string
  | OEndpoints string
  | ORandom
  | OListen
  | OAuthorizeURL
  | OCancelled
  | OStateMismatch
  | OCallback string
  | OMissingCode
  | ONoManualInput
  | OManualInput
  | ONoCode
  | ONoDeviceURL string
  | ODeviceAuthorize int string
  | ORequest
  | ODecode
  | ODeviceToken int string
  | ODeviceTimeout
  | OExchange int string
  | ORefresh int string
  | OStore store_error
  | ONotOAuth string
  | ONoRefreshToken string
  | OWriteFailed "store_error option"
  | OEmptyToken string

text \<open>What ends the wait for the browser: the context, or a request to the callback with its query.\<close>

datatype wait_event = Cancelled | CallbackRequest url_values

record oauth_env =
  oe_env :: "string \<Rightarrow> string"
  oe_terminal :: bool
  oe_rand32 :: "string option"
  oe_rand16 :: "string option"
  oe_sha256 :: "string \<Rightarrow> string"
  oe_listen :: "string \<Rightarrow> string option"
  oe_url_parts :: "string \<Rightarrow> (string \<times> string) option"
  oe_event :: wait_event
  oe_manual :: "string option option"
  oe_post :: "nat \<Rightarrow> string \<Rightarrow> string \<Rightarrow> (int \<times> string) option"
  oe_now :: instant
  oe_start :: instant
  oe_clock :: "nat \<Rightarrow> instant"
  oe_cancelled :: "nat \<Rightarrow> bool"

subsection \<open>Tokens\<close>

record tokenResponse =
  tr_AccessToken :: string
  tr_RefreshToken :: string
  tr_ExpiresIn :: int
  tr_TokenType :: string
  tr_Scope :: string

definition token_of_members :: "(string \<times> json) list \<Rightarrow> tokenResponse option" where
  "token_of_members ms =
     (if list_all str_typed (field_vals ''access_token'' ms) \<and> list_all str_typed (field_vals ''refresh_token'' ms) \<and>
         list_all int_typed (field_vals ''expires_in'' ms) \<and> list_all str_typed (field_vals ''token_type'' ms) \<and>
         list_all str_typed (field_vals ''scope'' ms)
      then Some \<lparr>tr_AccessToken = field_str ''access_token'' ms, tr_RefreshToken = field_str ''refresh_token'' ms,
                 tr_ExpiresIn = field_int ''expires_in'' ms, tr_TokenType = field_str ''token_type'' ms,
                 tr_Scope = field_str ''scope'' ms\<rparr>
      else None)"

definition token_of_json :: "string \<Rightarrow> tokenResponse option" where
  "token_of_json body = (case struct_members body of None \<Rightarrow> None | Some ms \<Rightarrow> token_of_members ms)"

definition seconds :: "int \<Rightarrow> duration" where
  "seconds n = wrap64 (n * Second)"

definition tokenToMaterial :: "instant \<Rightarrow> string \<Rightarrow> tokenResponse \<Rightarrow> Material" where
  "tokenToMaterial now profile tok =
     \<lparr>mat_Profile = profile, mat_Kind = KindOAuth, mat_APIKey = '''', mat_AccessToken = tr_AccessToken tok,
      mat_RefreshToken = tr_RefreshToken tok,
      mat_ExpiresAt = (if tr_ExpiresIn tok > 0 then Some (now + seconds (tr_ExpiresIn tok)) else None),
      mat_Email = '''', mat_Extras = []\<rparr>"

subsection \<open>Requests\<close>

definition isInteractive :: "oauth_env \<Rightarrow> bool" where
  "isInteractive e =
     (if oe_env e ''DAIGATE_FORCE_DEVICE'' = ''1'' then False
      else if oe_terminal e then
        (if oe_env e ''DISPLAY'' \<noteq> '''' \<or> oe_env e ''WAYLAND_DISPLAY'' \<noteq> '''' then True
         else oe_env e ''SSH_CONNECTION'' = '''' \<and> oe_env e ''SSH_TTY'' = '''')
      else False)"

definition resolveFlow :: "oauth_env \<Rightarrow> Flow \<Rightarrow> (oauth_error, Flow) res" where
  "resolveFlow e flow =
     (if flow = FlowAuto then Inr (if isInteractive e then FlowBrowser else FlowDevice)
      else if flow = FlowBrowser \<or> flow = FlowDevice \<or> flow = FlowManual then Inr flow
      else Inl (OUnknownFlow flow))"

definition pkcePair :: "oauth_env \<Rightarrow> (oauth_error, string \<times> string) res" where
  "pkcePair e =
     (case oe_rand32 e of
        None \<Rightarrow> Inl ORandom
      | Some b \<Rightarrow> (let verifier = RawURLEncode b in Inr (verifier, RawURLEncode (oe_sha256 e verifier))))"

definition randomState :: "oauth_env \<Rightarrow> (oauth_error, string) res" where
  "randomState e = (case oe_rand16 e of None \<Rightarrow> Inl ORandom | Some b \<Rightarrow> Inr (RawURLEncode b))"

text \<open>\<open>oe_url_parts\<close>: what \<^verbatim>\<open>u.String()\<close> prints before and after the query of a URL that parses.\<close>

definition buildAuthorizeURL :: "oauth_env \<Rightarrow> OAuthProfile \<Rightarrow> string \<Rightarrow> string \<Rightarrow> string \<Rightarrow> (oauth_error, string) res" where
  "buildAuthorizeURL e prof redirectURI state challenge =
     (case oe_url_parts e (op_AuthorizeURL prof) of
        None \<Rightarrow> Inl OAuthorizeURL
      | Some (before, after) \<Rightarrow>
          (let q0 = ParseQuery (raw_query (op_AuthorizeURL prof));
               q1 = v_Set ''response_type'' ''code'' q0;
               q2 = (if op_ClientID prof \<noteq> '''' then v_Set ''client_id'' (op_ClientID prof) q1 else q1);
               q3 = v_Set ''state'' state (v_Set ''redirect_uri'' redirectURI q2);
               q4 = (if op_Scopes prof \<noteq> [] then v_Set ''scope'' (Join (op_Scopes prof) '' '') q3 else q3);
               q5 = (if op_PKCE prof \<or> challenge \<noteq> ''''
                     then v_Set ''code_challenge_method'' ''S256'' (v_Set ''code_challenge'' challenge q4) else q4)
           in Inr (before @ ''?'' @ Values_Encode q5 @ after)))"

definition with_client :: "OAuthProfile \<Rightarrow> url_values \<Rightarrow> url_values" where
  "with_client prof form = (if op_ClientID prof \<noteq> '''' then v_Set ''client_id'' (op_ClientID prof) form else form)"

definition post_form :: "oauth_env \<Rightarrow> nat \<Rightarrow> string \<Rightarrow> url_values \<Rightarrow> (oauth_error, int \<times> string) res" where
  "post_form e n url form = (case oe_post e n url (Values_Encode form) of None \<Rightarrow> Inl ORequest | Some r \<Rightarrow> Inr r)"

definition token_reply :: "(int \<Rightarrow> string \<Rightarrow> oauth_error) \<Rightarrow> int \<times> string \<Rightarrow> (oauth_error, tokenResponse) res" where
  "token_reply refused r =
     (case r of (status, body) \<Rightarrow>
        (if status \<ge> 400 then Inl (refused status (TrimSpace body))
         else case token_of_json body of None \<Rightarrow> Inl ODecode | Some tok \<Rightarrow> Inr tok))"

definition exchangeCode ::
  "oauth_env \<Rightarrow> OAuthProfile \<Rightarrow> string \<Rightarrow> string \<Rightarrow> string \<Rightarrow> (oauth_error, tokenResponse) res" where
  "exchangeCode e prof code redirectURI verifier =
     (let form = with_client prof
            [(''grant_type'', [''authorization_code'']), (''code'', [code]), (''redirect_uri'', [redirectURI])]
      in res_bind (post_form e 0 (op_TokenURL prof)
           (if verifier \<noteq> '''' then v_Set ''code_verifier'' verifier form else form)) (token_reply OExchange))"

definition Refresh_oauth :: "oauth_env \<Rightarrow> OAuthProfile \<Rightarrow> string \<Rightarrow> (oauth_error, Material) res" where
  "Refresh_oauth e prof refreshToken =
     res_bind (post_form e 0 (op_TokenURL prof)
       (with_client prof [(''grant_type'', [''refresh_token'']), (''refresh_token'', [refreshToken])])) (\<lambda>r.
     res_bind (token_reply ORefresh r) (\<lambda>tok.
       let mat = tokenToMaterial (oe_now e) '''' tok in
       Inr (if refreshToken \<noteq> '''' \<and> tr_RefreshToken tok = '''' then mat\<lparr>mat_RefreshToken := refreshToken\<rparr> else mat)))"

subsection \<open>The authorization code flows\<close>

text \<open>One request to \<^verbatim>\<open>/oauth/callback\<close>.\<close>

definition oauth_callback :: "string \<Rightarrow> url_values \<Rightarrow> (oauth_error, string) res" where
  "oauth_callback state q =
     (if v_Get q ''state'' \<noteq> state then Inl OStateMismatch
      else if v_Get q ''error'' \<noteq> '''' then Inl (OCallback (v_Get q ''error''))
      else if v_Get q ''code'' = '''' then Inl OMissingCode
      else Inr (v_Get q ''code''))"

definition finish_login ::
  "oauth_env \<Rightarrow> string \<Rightarrow> OAuthProfile \<Rightarrow> string \<Rightarrow> string \<Rightarrow> string \<Rightarrow> (oauth_error, Material) res" where
  "finish_login e profile prof code redirectURI verifier =
     res_bind (exchangeCode e prof code redirectURI verifier) (\<lambda>tok. Inr (tokenToMaterial (oe_now e) profile tok))"

definition loginBrowser ::
  "oauth_env \<Rightarrow> string \<Rightarrow> OAuthProfile \<Rightarrow> string \<Rightarrow> AuthInfo list \<times> (oauth_error, Material) res" where
  "loginBrowser e profile prof callbackAddr =
     (case res_bind (pkcePair e) (\<lambda>(verifier, challenge).
           res_bind (randomState e) (\<lambda>state.
           res_bind (case oe_listen e (if callbackAddr = '''' then ''127.0.0.1:0'' else callbackAddr) of
                       None \<Rightarrow> Inl OListen | Some addr \<Rightarrow> Inr (''http://'' @ addr @ ''/oauth/callback'')) (\<lambda>redirectURI.
           res_bind (buildAuthorizeURL e prof redirectURI state challenge) (\<lambda>authURL.
             Inr (verifier, state, redirectURI, authURL))))) of
        Inl err \<Rightarrow> ([], Inl err)
      | Inr (verifier, state, redirectURI, authURL) \<Rightarrow>
          ([\<lparr>ai_URL = authURL, ai_UserCode = '''', ai_Instructions = ''Complete login in your browser.''\<rparr>],
           case oe_event e of
             Cancelled \<Rightarrow> Inl OCancelled
           | CallbackRequest q \<Rightarrow>
               res_bind (oauth_callback state q) (\<lambda>code. finish_login e profile prof code redirectURI verifier)))"

definition extractCode :: "oauth_env \<Rightarrow> string \<Rightarrow> string" where
  "extractCode e input0 =
     (let input = TrimSpace input0 in
      if input = '''' then ''''
      else if \<not> Contains input ''://'' \<and> \<not> Contains input ''?'' then input
      else case oe_url_parts e input of
        None \<Rightarrow> input
      | Some _ \<Rightarrow>
          (let c = v_Get (ParseQuery (raw_query input)) ''code'' in if c \<noteq> '''' then c else input))"

definition loginManual :: "oauth_env \<Rightarrow> string \<Rightarrow> OAuthProfile \<Rightarrow> AuthInfo list \<times> (oauth_error, Material) res" where
  "loginManual e profile prof =
     (let redirectURI = ''http://127.0.0.1/oauth/callback'' in
      case res_bind (pkcePair e) (\<lambda>(verifier, challenge).
           res_bind (randomState e) (\<lambda>state.
           res_bind (buildAuthorizeURL e prof redirectURI state challenge) (\<lambda>authURL. Inr (verifier, authURL)))) of
        Inl err \<Rightarrow> ([], Inl err)
      | Inr (verifier, authURL) \<Rightarrow>
          ([\<lparr>ai_URL = authURL, ai_UserCode = '''', ai_Instructions = ''Open URL and paste redirect URL or code.''\<rparr>],
           case oe_manual e of
             None \<Rightarrow> Inl ONoManualInput
           | Some None \<Rightarrow> Inl OManualInput
           | Some (Some input) \<Rightarrow>
               (let code = extractCode e input in
                if code = '''' then Inl ONoCode else finish_login e profile prof code redirectURI verifier)))"

subsection \<open>The device flow\<close>

record deviceResponse =
  dr_DeviceCode :: string
  dr_UserCode :: string
  dr_VerificationURI :: string
  dr_VerificationURIComplete :: string
  dr_ExpiresIn :: int
  dr_Interval :: int

text \<open>\<^verbatim>\<open>json.Decoder.Decode\<close>: the first JSON value of the body.\<close>

definition device_of_json :: "string \<Rightarrow> deviceResponse option" where
  "device_of_json body =
     (case (case pval (json_fuel body) body of Some (JObj ms, _) \<Rightarrow> Some ms | Some (JNull, _) \<Rightarrow> Some [] | _ \<Rightarrow> None) of
        None \<Rightarrow> None
      | Some ms \<Rightarrow>
          (if list_all str_typed (field_vals ''device_code'' ms) \<and> list_all str_typed (field_vals ''user_code'' ms) \<and>
              list_all str_typed (field_vals ''verification_uri'' ms) \<and>
              list_all str_typed (field_vals ''verification_uri_complete'' ms) \<and>
              list_all int_typed (field_vals ''expires_in'' ms) \<and> list_all int_typed (field_vals ''interval'' ms)
           then Some \<lparr>dr_DeviceCode = field_str ''device_code'' ms, dr_UserCode = field_str ''user_code'' ms,
                      dr_VerificationURI = field_str ''verification_uri'' ms,
                      dr_VerificationURIComplete = field_str ''verification_uri_complete'' ms,
                      dr_ExpiresIn = field_int ''expires_in'' ms, dr_Interval = field_int ''interval'' ms\<rparr>
           else None))"

definition deviceAuthorizeURL :: "OAuthProfile \<Rightarrow> (oauth_error, string) res" where
  "deviceAuthorizeURL prof =
     (if TrimSpace (op_DeviceAuthorizeURL prof) \<noteq> '''' then Inr (TrimSpace (op_DeviceAuthorizeURL prof))
      else
        (let base = TrimSuffix (op_TokenURL prof) ''/token'' in
         if base \<noteq> op_TokenURL prof then Inr (base @ ''/device/code'')
         else Inl (ONoDeviceURL (op_TokenURL prof))))"

datatype poll = PollPending | PollFailed oauth_error | PollToken tokenResponse

definition pollDevice :: "oauth_env \<Rightarrow> nat \<Rightarrow> string \<Rightarrow> string \<Rightarrow> string \<Rightarrow> poll" where
  "pollDevice e n tokenURL clientID deviceCode =
     (let form0 = [(''grant_type'', [''urn:ietf:params:oauth:grant-type:device_code'']), (''device_code'', [deviceCode])];
          form = (if clientID \<noteq> '''' then v_Set ''client_id'' clientID form0 else form0)
      in case post_form e n tokenURL form of
           Inl err \<Rightarrow> PollFailed err
         | Inr (status, body) \<Rightarrow>
             (if status = 400 \<and> Contains body ''authorization_pending'' then PollPending
              else case token_reply ODeviceToken (status, body) of
                Inl err \<Rightarrow> PollFailed err
              | Inr tok \<Rightarrow> PollToken tok))"

text \<open>
  The loop may run for ever if the clock stands still, so it is an option: \<open>None\<close> for a loop that does not
  return. \<open>n\<close> counts the polls; the result comes with the number of polls made.
\<close>

partial_function (option) device_loop ::
  "oauth_env \<Rightarrow> string \<Rightarrow> string \<Rightarrow> string \<Rightarrow> string \<Rightarrow> instant \<Rightarrow> nat \<Rightarrow> (nat \<times> (oauth_error, Material) res) option" where
  "device_loop e profile tokenURL clientID deviceCode deadline n =
     (if \<not> oe_clock e n < deadline then Some (n, Inl ODeviceTimeout)
      else if oe_cancelled e n then Some (n, Inl OCancelled)
      else case pollDevice e (Suc n) tokenURL clientID deviceCode of
        PollPending \<Rightarrow> device_loop e profile tokenURL clientID deviceCode deadline (Suc n)
      | PollFailed err \<Rightarrow> Some (Suc n, Inl err)
      | PollToken tok \<Rightarrow> Some (Suc n, Inr (tokenToMaterial (oe_now e) profile tok)))"

text \<open>\<open>device_request\<close>: the request for a device code, up to the polling.\<close>

definition device_request :: "oauth_env \<Rightarrow> OAuthProfile \<Rightarrow> (oauth_error, deviceResponse) res" where
  "device_request e prof =
     res_bind (deviceAuthorizeURL prof) (\<lambda>url.
     res_bind (post_form e 0 url
       (let form = with_client prof [] in
        if op_Scopes prof \<noteq> [] then v_Set ''scope'' (Join (op_Scopes prof) '' '') form else form)) (\<lambda>(status, body).
       if status \<ge> 400 then Inl (ODeviceAuthorize status (TrimSpace body))
       else case device_of_json body of None \<Rightarrow> Inl ODecode | Some dev \<Rightarrow> Inr dev))"

definition device_interval :: "deviceResponse \<Rightarrow> int" where
  "device_interval dev = (if dr_Interval dev \<le> 0 then 5 else dr_Interval dev)"

definition loginDevice ::
  "oauth_env \<Rightarrow> string \<Rightarrow> OAuthProfile \<Rightarrow> AuthInfo list \<times> (nat \<times> (oauth_error, Material) res) option" where
  "loginDevice e profile prof =
     (case device_request e prof of
        Inl err \<Rightarrow> ([], Some (0, Inl err))
      | Inr dev \<Rightarrow>
          ([\<lparr>ai_URL = (if dr_VerificationURIComplete dev \<noteq> '''' then dr_VerificationURIComplete dev else dr_VerificationURI dev),
             ai_UserCode = dr_UserCode dev, ai_Instructions = ''Enter the code on the verification page.''\<rparr>],
           device_loop e profile (if op_DeviceTokenURL prof = '''' then op_TokenURL prof else op_DeviceTokenURL prof)
             (op_ClientID prof) (dr_DeviceCode dev) (oe_start e + seconds (dr_ExpiresIn dev)) 0))"

definition Login_oauth ::
  "oauth_env \<Rightarrow> string \<Rightarrow> Profile \<Rightarrow> Flow \<Rightarrow> string \<Rightarrow> AuthInfo list \<times> (oauth_error, Material) res option" where
  "Login_oauth e profile prof flow0 callbackAddr =
     (case resolveFlow e flow0 of
        Inl err \<Rightarrow> ([], Some (Inl err))
      | Inr flow \<Rightarrow>
          (let o' = prof_OAuth prof in
           if op_AuthorizeURL o' = '''' \<or> op_TokenURL o' = '''' then ([], Some (Inl (OEndpoints profile)))
           else if flow = FlowDevice then map_prod (\<lambda>x. x) (map_option snd) (loginDevice e profile o')
           else if flow = FlowManual then map_prod (\<lambda>x. x) Some (loginManual e profile o')
           else map_prod (\<lambda>x. x) Some (loginBrowser e profile o' callbackAddr)))"

subsection \<open>Refreshing a stored credential\<close>

text \<open>
  \<open>update n\<close> is \<^verbatim>\<open>UpdateOAuth\<close> at the n-th attempt, \<open>cancelled n\<close> says that the context ends during the pause
  that follows it.
\<close>

fun write_attempts ::
  "(nat \<Rightarrow> 's \<Rightarrow> (store_error, unit) res \<times> 's) \<Rightarrow> (nat \<Rightarrow> bool) \<Rightarrow> nat list \<Rightarrow> store_error option \<Rightarrow> 's \<Rightarrow>
     (oauth_error, unit) res \<times> 's" where
  "write_attempts update cancelled [] lastErr s = (Inl (OWriteFailed lastErr), s)"
| "write_attempts update cancelled (n # ns) lastErr s =
     (case update n s of
        (Inr _, s') \<Rightarrow> (Inr (), s')
      | (Inl err, s') \<Rightarrow>
          (if cancelled n then (Inl OCancelled, s') else write_attempts update cancelled ns (Some err) s'))"

definition RefreshProfile ::
  "(string \<Rightarrow> 's \<Rightarrow> (store_error, Material) res) \<Rightarrow> (nat \<Rightarrow> string \<Rightarrow> Material \<Rightarrow> 's \<Rightarrow> (store_error, unit) res \<times> 's) \<Rightarrow>
     oauth_env \<Rightarrow> string \<Rightarrow> OAuthProfile \<Rightarrow> 's \<Rightarrow> (oauth_error, unit) res \<times> 's" where
  "RefreshProfile get update e profile prof s =
     (case get profile s of
        Inl err \<Rightarrow> (Inl (OStore err), s)
      | Inr cur \<Rightarrow>
          (if mat_Kind cur \<noteq> KindOAuth then (Inl (ONotOAuth profile), s)
           else if TrimSpace (mat_RefreshToken cur) = '''' then (Inl (ONoRefreshToken profile), s)
           else case Refresh_oauth e prof (mat_RefreshToken cur) of
             Inl err \<Rightarrow> (Inl err, s)
           | Inr refreshed \<Rightarrow>
               write_attempts
                 (\<lambda>n. update n profile
                    (refreshed\<lparr>mat_Profile := profile, mat_Kind := KindOAuth,
                       mat_Email := (if mat_Email refreshed = '''' then mat_Email cur else mat_Email refreshed),
                       mat_Extras := MergeExtras (mat_Extras cur) (mat_Extras refreshed)\<rparr>))
                 (oe_cancelled e) [0..<3] None s))"

lemma Refresh_oauth_Inr:
  assumes "Refresh_oauth e prof rt = Inr mat" "rt \<noteq> ''''"
  obtains tok where
    "mat = (tokenToMaterial (oe_now e) '''' tok)
       \<lparr>mat_RefreshToken := (if tr_RefreshToken tok = '''' then rt else tr_RefreshToken tok)\<rparr>"
    "mat_RefreshToken mat \<noteq> ''''"
proof -
  obtain r tok where "token_reply ORefresh r = Inr tok"
    "mat = (let mat = tokenToMaterial (oe_now e) '''' tok in
       if rt \<noteq> '''' \<and> tr_RefreshToken tok = '''' then mat\<lparr>mat_RefreshToken := rt\<rparr> else mat)"
    using assms(1) by (auto simp: Refresh_oauth_def res_bind_Inr_iff Let_def)
  with assms(2) show ?thesis
    by (intro that [of tok]) (simp_all add: tokenToMaterial_def Let_def)
qed

lemma MergeExtras_nothing:
  assumes "gm_wf cur"
  shows "gm_wf (MergeExtras cur [])" "gm_get (MergeExtras cur []) = gm_get cur"
proof -
  have "gm_wf acc \<Longrightarrow> gm_wf (fold (\<lambda>(k, v) out. if gm_get out k = None then gm_set k v out else out) cur acc)" for acc
    by (induction cur arbitrary: acc) (auto split: prod.split)
  then show "gm_wf (MergeExtras cur [])" by (simp add: MergeExtras_def cloneExtras_wf)
  show "gm_get (MergeExtras cur []) = gm_get cur"
  proof (cases "cur = []")
    case False
    with MergeExtras_get [OF assms, of "[]"] show ?thesis by (simp add: fun_eq_iff cloneExtras_def)
  qed (simp add: MergeExtras_def)
qed

lemma MergeExtras_nothing_utf8: "extras_utf8 cur \<Longrightarrow> extras_utf8 (MergeExtras cur [])"
proof -
  have "extras_utf8 m \<Longrightarrow> extras_utf8 acc \<Longrightarrow>
    extras_utf8 (fold (\<lambda>(k, v) out. if gm_get out k = None then gm_set k v out else out) m acc)" for m acc
    by (induction m arbitrary: acc) (auto simp: extras_utf8_Cons extras_utf8_set)
  then show "extras_utf8 cur \<Longrightarrow> ?thesis" by (simp add: MergeExtras_def cloneExtras_def extras_utf8_def [of "[]"])
qed

lemma stored_extras:
  assumes "gm_wf (mat_Extras m)" "material_utf8 m"
  shows "Extra (stored_oauth p m) k = TrimSpace (gm_getd '''' (mat_Extras m) k)"
proof -
  have "gm_get (sort_extras (mat_Extras m)) = gm_get (mat_Extras m)"
    using assms by (intro gm_get_perm) (simp_all, simp add: sort_extras_def)
  then show ?thesis
    using assms by (auto simp: Extra_def stored_utf8 gm_getd_def cloneExtras_get split: option.split)
qed

lemma token_material_ok:
  assumes "0 \<le> now" "now < 2 ^ 63"
  shows "material_ok (tokenToMaterial now p tok)"
proof -
  have s: "- (2 ^ 63) \<le> seconds n" "seconds n < 2 ^ 63" for n
    using wrap64_range by (simp_all add: seconds_def)
  have "- (2 ^ 63) \<le> UnixMilli t \<and> UnixMilli t < 2 ^ 63" if "- (2 ^ 64) \<le> t" "t < 2 ^ 64" for t
    using that by (auto simp: UnixMilli_def)
  with s [of "tr_ExpiresIn tok"] assms show ?thesis
    by (auto simp: material_ok_def tokenToMaterial_def)
qed

subsection \<open>Polling ends\<close>

lemma device_loop_ends:
  assumes "\<forall>n. oe_clock e n + ival \<le> oe_clock e (Suc n)" "0 < ival"
  shows "\<exists>m r. device_loop e profile url cid code deadline n = Some (m, r) \<and> n \<le> m \<and>
    (n < m \<longrightarrow> oe_clock e (m - 1) < deadline) \<and> (\<forall>k. n < k \<and> k < m \<longrightarrow> pollDevice e k url cid code = PollPending) \<and>
    (\<forall>mat. r = Inr mat \<longrightarrow> n < m \<and> (\<exists>tok. pollDevice e m url cid code = PollToken tok \<and> mat = tokenToMaterial (oe_now e) profile tok))"
proof (induction "nat (deadline - oe_clock e n)" arbitrary: n rule: less_induct)
  case less
  show ?case
  proof (cases "oe_clock e n < deadline \<and> \<not> oe_cancelled e n")
    case False
    then show ?thesis by (subst device_loop.simps) auto
  next
    case True
    show ?thesis
    proof (cases "pollDevice e (Suc n) url cid code")
      case PollPending
      have "oe_clock e n < oe_clock e (Suc n)" using assms(1) [rule_format, of n] assms(2) by linarith
      with True have "nat (deadline - oe_clock e (Suc n)) < nat (deadline - oe_clock e n)" by linarith
      from less.hyps [OF this] obtain m r where m: "device_loop e profile url cid code deadline (Suc n) = Some (m, r)" "Suc n \<le> m"
        "Suc n < m \<longrightarrow> oe_clock e (m - 1) < deadline" "\<forall>k. Suc n < k \<and> k < m \<longrightarrow> pollDevice e k url cid code = PollPending"
        "\<forall>mat. r = Inr mat \<longrightarrow> Suc n < m \<and> (\<exists>tok. pollDevice e m url cid code = PollToken tok \<and> mat = tokenToMaterial (oe_now e) profile tok)"
        by blast
      have "oe_clock e (m - 1) < deadline" using m(2,3) True by (cases "m = Suc n") auto
      moreover have "pollDevice e k url cid code = PollPending" if "n < k" "k < m" for k
        using that m(4) PollPending by (cases "k = Suc n") auto
      moreover have "device_loop e profile url cid code deadline n = Some (m, r)"
        using True PollPending m(1) by (subst device_loop.simps) simp
      ultimately show ?thesis using m(2,5) by (intro exI [of _ m] exI [of _ r]) auto
    next
      case (PollFailed err)
      then show ?thesis using True by (subst device_loop.simps) auto
    next
      case (PollToken tok)
      then show ?thesis using True by (subst device_loop.simps) auto
    qed
  qed
qed

lemma clock_after:
  assumes "\<forall>n. oe_clock e n + ival \<le> oe_clock e (Suc n)"
  shows "oe_clock e 0 + int n * ival \<le> oe_clock e n"
proof (induction n)
  case (Suc n)
  then show ?case using assms [rule_format, of n] by (simp add: algebra_simps)
qed simp

text \<open>
  (C000) The device flow ends. If a pause takes at least the interval the provider asked for (five seconds when it asked for
  none), the polling returns, after at most as many polls as intervals fit in the lifetime of the device code, and one.
  Every poll but the last was answered \<^verbatim>\<open>authorization_pending\<close>, and material is returned only for a last poll that brought
  a token, with that token.
\<close>

theorem device_login_ends:
  assumes "device_request e prof = Inr dev" "oe_start e \<le> oe_clock e 0"
    "\<forall>n. oe_clock e n + device_interval dev * Second \<le> oe_clock e (Suc n)"
  shows "\<exists>polls r. snd (loginDevice e profile prof) = Some (polls, r) \<and>
    (polls = 0 \<or> (int polls - 1) * (device_interval dev * Second) < seconds (dr_ExpiresIn dev)) \<and>
    (\<forall>k. 0 < k \<and> k < polls \<longrightarrow>
       pollDevice e k (if op_DeviceTokenURL prof = '''' then op_TokenURL prof else op_DeviceTokenURL prof) (op_ClientID prof)
         (dr_DeviceCode dev) = PollPending) \<and>
    (\<forall>mat. r = Inr mat \<longrightarrow> 0 < polls \<and>
       (\<exists>tok. pollDevice e polls (if op_DeviceTokenURL prof = '''' then op_TokenURL prof else op_DeviceTokenURL prof) (op_ClientID prof)
          (dr_DeviceCode dev) = PollToken tok \<and> mat = tokenToMaterial (oe_now e) profile tok))"
proof -
  have ival: "0 < device_interval dev * Second" by (simp add: device_interval_def duration_defs)
  let ?url = "if op_DeviceTokenURL prof = '''' then op_TokenURL prof else op_DeviceTokenURL prof"
  let ?deadline = "oe_start e + seconds (dr_ExpiresIn dev)"
  obtain m r where m: "device_loop e profile ?url (op_ClientID prof) (dr_DeviceCode dev) ?deadline 0 = Some (m, r)"
    "0 < m \<longrightarrow> oe_clock e (m - 1) < ?deadline"
    "\<forall>k. 0 < k \<and> k < m \<longrightarrow> pollDevice e k ?url (op_ClientID prof) (dr_DeviceCode dev) = PollPending"
    "\<forall>mat. r = Inr mat \<longrightarrow> 0 < m \<and> (\<exists>tok. pollDevice e m ?url (op_ClientID prof) (dr_DeviceCode dev) = PollToken tok \<and>
       mat = tokenToMaterial (oe_now e) profile tok)"
    using device_loop_ends [OF assms(3) ival, of profile ?url "op_ClientID prof" "dr_DeviceCode dev" ?deadline 0] by blast
  have "(int m - 1) * (device_interval dev * Second) < seconds (dr_ExpiresIn dev)" if "0 < m"
    using clock_after [OF assms(3), of "m - 1"] m(2) that assms(2) by (simp add: of_nat_diff)
  with m show ?thesis by (auto simp: loginDevice_def assms(1))
qed

subsection \<open>Witnesses\<close>

definition demo_profile :: OAuthProfile where
  "demo_profile = \<lparr>op_AuthorizeURL = ''https://idp/authorize'', op_TokenURL = ''https://idp/token'', op_DeviceAuthorizeURL = '''',
     op_DeviceTokenURL = '''', op_ClientID = '''', op_Scopes = [], op_PKCE = False\<rparr>"

text \<open>A provider that answers the first request with \<open>body\<close> and keeps every later one waiting.\<close>

definition demo_oauth_env :: "string \<Rightarrow> oauth_env" where
  "demo_oauth_env body =
     \<lparr>oe_env = (\<lambda>_. ''''), oe_terminal = False, oe_rand32 = Some ''r'', oe_rand16 = Some ''s'', oe_sha256 = (\<lambda>x. x),
      oe_listen = (\<lambda>a. Some a), oe_url_parts = (\<lambda>u. Some (u, '''')), oe_event = Cancelled, oe_manual = None,
      oe_post = (\<lambda>n url form. Some (if n = 0 then (200, body) else (400, ''authorization_pending''))), oe_now = 0, oe_start = 0,
      oe_clock = (\<lambda>n. int n * (5 * Second)), oe_cancelled = (\<lambda>_. False)\<rparr>"

definition demo_device_body :: string where
  "demo_device_body = emit (JObj [(''device_code'', JStr ''d''), (''expires_in'', JNum (show_int 12))])"

definition demo_device :: deviceResponse where
  "demo_device = \<lparr>dr_DeviceCode = ''d'', dr_UserCode = '''', dr_VerificationURI = '''', dr_VerificationURIComplete = '''',
     dr_ExpiresIn = 12, dr_Interval = 0\<rparr>"

lemma device_names:
  "json_fold ''device_code'' = ''DEVICE_CODE''" "json_fold ''user_code'' = ''USER_CODE''"
  "json_fold ''verification_uri'' = ''VERIFICATION_URI''"
  "json_fold ''verification_uri_complete'' = ''VERIFICATION_URI_COMPLETE''"
  "json_fold ''expires_in'' = ''EXPIRES_IN''" "json_fold ''interval'' = ''INTERVAL''"
  by (simp_all add: bytes_def char_of_def bit_Suc_0_iff char_upper_def)

lemma demo_device_of_json: "device_of_json demo_device_body = Some demo_device"
proof -
  define ms where "ms = [(''device_code'', JStr ''d''), (''expires_in'', JNum (show_int 12))]"
  have "members_ok ms" and members_utf8_demo: "members_utf8 ms = ms" using num_ok_show_int by (simp_all add: ms_def)
  then have p: "pval (json_fuel demo_device_body) demo_device_body = Some (JObj ms, [])"
    using pval_emit [of "JObj ms" "[]" "json_fuel demo_device_body"]
    by (simp add: members_utf8_demo demo_device_body_def json_fuel_def delim_def flip: ms_def del: emit.simps)
  have vals: "field_vals ''device_code'' ms = [JStr ''d'']" "field_vals ''user_code'' ms = []"
    "field_vals ''verification_uri'' ms = []" "field_vals ''verification_uri_complete'' ms = []"
    "field_vals ''expires_in'' ms = [JNum (show_int 12)]" "field_vals ''interval'' ms = []"
    unfolding ms_def by (simp_all add: field_vals_Cons field_match_def device_names del: json_fold.simps)
  have "ParseInt (show_int 12) = Some 12" by (rule ParseInt_show_int) simp_all
  with p vals show ?thesis
    by (simp add: device_of_json_def field_str_def field_int_def set_str_def set_int_def str_typed_def int_typed_def demo_device_def)
qed

lemma demo_device_request: "device_request (demo_oauth_env demo_device_body) demo_profile = Inr demo_device"
proof -
  have "TrimSuffix ''https://idp/token'' ''/token'' = ''https://idp''" by (simp add: TrimSuffix_def suffix_def)
  then have "deviceAuthorizeURL demo_profile = Inr ''https://idp/device/code''"
    by (simp add: deviceAuthorizeURL_def demo_profile_def)
  then show ?thesis
    by (simp add: device_request_def post_form_def demo_oauth_env_def demo_device_of_json)
qed

theorem device_login_ends_witness:
  "\<exists>polls r. snd (loginDevice (demo_oauth_env demo_device_body) ''acct'' demo_profile) = Some (polls, r) \<and>
     (polls = 0 \<or> (int polls - 1) * (device_interval demo_device * Second) < seconds (dr_ExpiresIn demo_device))"
proof -
  have "oe_start (demo_oauth_env demo_device_body) \<le> oe_clock (demo_oauth_env demo_device_body) 0"
    "\<forall>n. oe_clock (demo_oauth_env demo_device_body) n + device_interval demo_device * Second
       \<le> oe_clock (demo_oauth_env demo_device_body) (Suc n)"
    by (simp_all add: demo_oauth_env_def device_interval_def demo_device_def duration_defs)
  from device_login_ends [OF demo_device_request this] show ?thesis by blast
qed

end
