(* ===== verification/Vendor.thy ===== *)
theory Vendor
  imports OAuth "HOL-Library.List_Lexorder" "HOL-Library.Char_ord"
begin

section \<open>Vendor modules for OAuth\<close>

text \<open>
  \<^verbatim>\<open>credential/oauth/vendor/vendor.go\<close>: the registry of vendor modules by profile, and login and refresh that fall back to the
  generic flows. A module is the record of its two methods.
\<close>

record Module =
  vm_Login :: "string \<Rightarrow> Flow \<Rightarrow> string \<Rightarrow> AuthInfo list \<times> (oauth_error, Material) res option"
  vm_Refresh :: "string \<Rightarrow> Material \<Rightarrow> (oauth_error, Material) res"

type_synonym modules = "(string, Module option) gomap"

definition Register_module :: "string \<Rightarrow> Module option \<Rightarrow> modules \<Rightarrow> modules" where
  "Register_module providerID m ms = gm_set providerID m ms"

text \<open>\<open>None\<close>: no entry. \<open>Some None\<close>: a nil module was registered.\<close>

definition ForProvider :: "modules \<Rightarrow> string \<Rightarrow> Module option option" where
  "ForProvider ms providerID = gm_get ms providerID"

text \<open>\<open>None\<close> is the panic of \<^verbatim>\<open>MustRegister\<close>.\<close>

definition MustRegister :: "string \<Rightarrow> Module option \<Rightarrow> modules \<Rightarrow> modules option" where
  "MustRegister providerID m ms = (if providerID = '''' \<or> m = None then None else Some (Register_module providerID m ms))"

datatype 'a vendor_result = NilModulePanic | Result 'a

definition Login_vendor ::
  "oauth_env \<Rightarrow> modules \<Rightarrow> string \<Rightarrow> Profile \<Rightarrow> Flow \<Rightarrow> string \<Rightarrow>
     (AuthInfo list \<times> (oauth_error, Material) res option) vendor_result" where
  "Login_vendor e ms profile prof flow callbackAddr =
     (case ForProvider ms profile of
        Some None \<Rightarrow> NilModulePanic
      | Some (Some m) \<Rightarrow> Result (vm_Login m profile flow callbackAddr)
      | None \<Rightarrow> Result (Login_oauth e profile prof flow callbackAddr))"

definition Refresh_vendor ::
  "oauth_env \<Rightarrow> modules \<Rightarrow> string \<Rightarrow> Profile \<Rightarrow> Material \<Rightarrow> ((oauth_error, Material) res) vendor_result" where
  "Refresh_vendor e ms profile prof cur =
     (case ForProvider ms profile of
        Some None \<Rightarrow> NilModulePanic
      | Some (Some m) \<Rightarrow> Result (vm_Refresh m profile cur)
      | None \<Rightarrow>
          Result (res_bind (Refresh_oauth e (prof_OAuth prof) (mat_RefreshToken cur)) (\<lambda>refreshed.
            Inr (refreshed\<lparr>mat_Profile := profile,
                   mat_Email := (if mat_Email refreshed = '''' then mat_Email cur else mat_Email refreshed),
                   mat_Extras := MergeExtras (mat_Extras cur) (mat_Extras refreshed)\<rparr>))))"

definition LoginOrErr ::
  "oauth_env \<Rightarrow> modules \<Rightarrow> string \<Rightarrow> Profile \<Rightarrow> Flow \<Rightarrow> string \<Rightarrow>
     (AuthInfo list \<times> (oauth_error, Material) res option) vendor_result" where
  "LoginOrErr e ms profile prof flow callbackAddr =
     (case Login_vendor e ms profile prof flow callbackAddr of
        NilModulePanic \<Rightarrow> NilModulePanic
      | Result (infos, out) \<Rightarrow>
          Result (infos, map_option (\<lambda>r. res_bind r (\<lambda>mat.
            if mat_AccessToken mat = '''' then Inl (OEmptyToken profile) else Inr mat)) out))"

subsection \<open>Sorting the provider names\<close>

text \<open>The inner loop sinks the element at position \<open>j\<close>, the outer one runs it for each position.\<close>

fun sink :: "nat \<Rightarrow> string list \<Rightarrow> string list" where
  "sink 0 s = s"
| "sink (Suc j) s = (if s ! j > s ! Suc j then sink j (s[j := s ! Suc j, Suc j := s ! j]) else s)"

definition sortStrings :: "string list \<Rightarrow> string list" where
  "sortStrings s = fold sink [1..<length s] s"

definition OAuthProviders :: "modules \<Rightarrow> string list" where
  "OAuthProviders ms = sortStrings (gm_keys ms)"

lemma insort_snoc: "x \<le> y \<Longrightarrow> insort x (xs @ [y]) = insort x xs @ [y]"
  for x :: "'a :: linorder"
  by (induction xs) auto

lemma insort_last: "sorted xs \<Longrightarrow> \<forall>z \<in> set xs. z \<le> x \<Longrightarrow> insort x xs = xs @ [x]"
  for x :: "'a :: linorder"
  using properties_for_sort [of "xs @ [x]" "x # xs"] by (simp add: sorted_append sorted_sort_id)

lemma sink_insort: "sorted xs \<Longrightarrow> sink (length xs) (xs @ x # ys) = insort x xs @ ys"
proof (induction xs arbitrary: ys rule: rev_induct)
  case (snoc y xs)
  have at: "(xs @ y # x # ys) ! length xs = y" "(xs @ y # x # ys) ! Suc (length xs) = x"
    by (simp_all add: nth_append)
  have swap: "(xs @ y # x # ys)[length xs := x, Suc (length xs) := y] = xs @ x # y # ys"
    by (simp add: list_update_append)
  show ?case
  proof (cases "x < y")
    case True
    with snoc.IH [of "y # ys"] snoc.prems at swap show ?thesis
      by (simp add: sorted_append insort_snoc)
  next
    case False
    then have "\<forall>z \<in> set (xs @ [y]). z \<le> x" using snoc.prems by (auto simp: sorted_append)
    from insort_last [OF snoc.prems this] False at show ?thesis by simp
  qed
qed simp

lemma sort_snoc: "sort (xs @ [x]) = insort x (sort xs)"
  by (rule properties_for_sort) (simp_all add: sorted_insort)

lemma sortStrings_prefix: "i < length s \<Longrightarrow> fold sink [1..<Suc i] s = sort (take (Suc i) s) @ drop (Suc i) s"
proof (induction i)
  case 0
  then show ?case by (cases s) simp_all
next
  case (Suc i)
  have "fold sink [1..<Suc (Suc i)] s = sink (Suc i) (fold sink [1..<Suc i] s)" by simp
  also have "\<dots> = sink (length (sort (take (Suc i) s))) (sort (take (Suc i) s) @ s ! Suc i # drop (Suc (Suc i)) s)"
    using Suc by (simp add: Cons_nth_drop_Suc)
  also have "\<dots> = insort (s ! Suc i) (sort (take (Suc i) s)) @ drop (Suc (Suc i)) s"
    by (rule sink_insort) simp
  also have "insort (s ! Suc i) (sort (take (Suc i) s)) = sort (take (Suc (Suc i)) s)"
    unfolding take_Suc_conv_app_nth [OF Suc.prems] by (rule sort_snoc [symmetric])
  finally show ?case .
qed

text \<open>The hand-written sort is the library's.\<close>

lemma sortStrings_sort: "sortStrings s = sort s"
proof (cases s)
  case (Cons a t)
  then show ?thesis
    using sortStrings_prefix [of "length s - 1" s] by (simp add: sortStrings_def)
qed (simp add: sortStrings_def)

lemma OAuthProviders_registered:
  "sorted (OAuthProviders ms)" "set (OAuthProviders ms) = {p. ForProvider ms p \<noteq> None}"
  "gm_wf ms \<Longrightarrow> distinct (OAuthProviders ms)"
proof -
  show "sorted (OAuthProviders ms)" by (simp add: OAuthProviders_def sortStrings_sort)
  have "set (OAuthProviders ms) = set (gm_keys ms)" by (simp add: OAuthProviders_def sortStrings_sort)
  then show "set (OAuthProviders ms) = {p. ForProvider ms p \<noteq> None}"
    by (simp add: ForProvider_def gm_get_None)
  show "gm_wf ms \<Longrightarrow> distinct (OAuthProviders ms)"
    by (simp add: OAuthProviders_def sortStrings_sort gm_wf_def gm_keys_def)
qed

text \<open>A refresh without a vendor module never loses the refresh token, the email or an extra.\<close>

lemma Refresh_vendor_keeps:
  assumes "ForProvider ms profile = None" "Refresh_vendor e ms profile prof cur = Result (Inr m)"
    "mat_RefreshToken cur \<noteq> ''''" "gm_wf (mat_Extras cur)"
  shows "mat_RefreshToken m \<noteq> '''' \<and> mat_Email m = mat_Email cur \<and> gm_get (mat_Extras m) = gm_get (mat_Extras cur) \<and>
    mat_Kind m = KindOAuth \<and> mat_Profile m = profile"
proof -
  obtain r where r: "Refresh_oauth e (prof_OAuth prof) (mat_RefreshToken cur) = Inr r"
    "m = r\<lparr>mat_Profile := profile, mat_Email := (if mat_Email r = '''' then mat_Email cur else mat_Email r),
       mat_Extras := MergeExtras (mat_Extras cur) (mat_Extras r)\<rparr>"
    using assms(1,2) by (auto simp: Refresh_vendor_def res_bind_Inr_iff)
  obtain tok where "r = (tokenToMaterial (oe_now e) '''' tok)
       \<lparr>mat_RefreshToken := (if tr_RefreshToken tok = '''' then mat_RefreshToken cur else tr_RefreshToken tok)\<rparr>"
    by (rule Refresh_oauth_Inr [OF r(1) assms(3)])
  with r(2) assms(3) MergeExtras_nothing [OF assms(4)] show ?thesis
    by (auto simp: tokenToMaterial_def)
qed

end
