(* ===== verification/Cli.thy ===== *)
theory Cli
  imports Vendor Planes
begin

section \<open>The command line\<close>

text \<open>
  \<^verbatim>\<open>cmd/daigate\<close>: the commands that look after a gateway's stores. A command takes its arguments and the environment of
  theory \<^verbatim>\<open>Gateway\<close>, and gives its exit code, what it prints on standard output, and the stores it leaves. Of
  standard error only the report of the doctor is kept; usage and error messages are left out. A JSON output is its value. \<open>None\<close> for a store: it was not opened.
\<close>

subsection \<open>Flags\<close>

text \<open>\<^verbatim>\<open>flag.FlagSet\<close> with \<^verbatim>\<open>ExitOnError\<close>, for flags that are strings or booleans.\<close>

datatype flag_kind = StringFlag | BoolFlag

datatype flag_arg = NotFlag | Terminator | BadFlag | NamedFlag string "string option"

definition bool_words :: "(string \<times> bool) list" where
  "bool_words =
     [(''1'', True), (''t'', True), (''T'', True), (''true'', True), (''TRUE'', True), (''True'', True),
      (''0'', False), (''f'', False), (''F'', False), (''false'', False), (''FALSE'', False), (''False'', False)]"

definition flag_arg_of :: "string \<Rightarrow> flag_arg" where
  "flag_arg_of a =
     (if length a < 2 \<or> \<not> HasPrefix a ''-'' then NotFlag
      else if a = ''--'' then Terminator
      else
        (let name = (if HasPrefix a ''--'' then drop 2 a else drop 1 a) in
         if name = '''' \<or> HasPrefix name ''-'' \<or> HasPrefix name ''='' then BadFlag
         else case Cut CHR ''='' name of
           None \<Rightarrow> NamedFlag name None
         | Some (n, v) \<Rightarrow> NamedFlag n (Some v)))"

datatype flags = FlagsExit int | Flags "(string, string) gomap" "string list"

fun parse_flags :: "(string \<times> flag_kind) list \<Rightarrow> string list \<Rightarrow> (string, string) gomap \<Rightarrow> flags" where
  "parse_flags defs [] vals = Flags vals []"
| "parse_flags defs (a # args) vals =
     (case flag_arg_of a of
        NotFlag \<Rightarrow> Flags vals (a # args)
      | Terminator \<Rightarrow> Flags vals args
      | BadFlag \<Rightarrow> FlagsExit 2
      | NamedFlag name value \<Rightarrow>
          (case map_of defs name of
             None \<Rightarrow> FlagsExit (if name \<in> {''help'', ''h''} then 0 else 2)
           | Some BoolFlag \<Rightarrow>
               (case map_of bool_words (case value of None \<Rightarrow> ''true'' | Some v \<Rightarrow> v) of
                  None \<Rightarrow> FlagsExit 2
                | Some b \<Rightarrow> parse_flags defs args (gm_set name (if b then ''true'' else ''false'') vals))
           | Some StringFlag \<Rightarrow>
               (case value of
                  Some v \<Rightarrow> parse_flags defs args (gm_set name v vals)
                | None \<Rightarrow>
                    (case args of
                       [] \<Rightarrow> FlagsExit 2
                     | v # rest \<Rightarrow> parse_flags defs rest (gm_set name v vals)))))"

definition takesValue :: "string \<Rightarrow> bool" where
  "takesValue arg =
     (if arg = ''-'' \<or> arg = ''--'' then False
      else if Contains arg ''='' then False
      else
        (let name = TrimLeft CHR ''-'' arg in
         if length name > 1 then True else \<not> (name = ''h'' \<or> name = ''v'')))"

fun flagsFirst_loop :: "string list \<Rightarrow> string list \<Rightarrow> string list \<Rightarrow> string list" where
  "flagsFirst_loop [] flag_args pos = flag_args @ pos"
| "flagsFirst_loop (a # args) flag_args pos =
     (if HasPrefix a ''-'' then
        (case args of
           [] \<Rightarrow> flagsFirst_loop args (flag_args @ [a]) pos
         | b # rest \<Rightarrow>
             (if takesValue a \<and> \<not> HasPrefix b ''-'' then flagsFirst_loop rest (flag_args @ [a, b]) pos
              else flagsFirst_loop args (flag_args @ [a]) pos))
      else flagsFirst_loop args flag_args (pos @ [a]))"

definition flagsFirst :: "string list \<Rightarrow> string list" where
  "flagsFirst args = flagsFirst_loop args [] []"

text \<open>Moving the flags to the front loses no argument and keeps both groups in order.\<close>

lemma flagsFirst_mset: "mset (flagsFirst_loop args fs ps) = mset args + mset fs + mset ps"
  by (induction args fs ps rule: flagsFirst_loop.induct) (auto split: list.split)

lemma flagsFirst_plain: "\<forall>a \<in> set args. \<not> HasPrefix a ''-'' \<Longrightarrow> flagsFirst_loop args fs ps = fs @ ps @ args"
  by (induction args arbitrary: ps) auto

subsection \<open>Opening the vault\<close>

text \<open>The operations of an open credential store, of sqlite and of a linked backend alike.\<close>

record 'v vault_ops =
  vo_ListSummaries :: "'v \<Rightarrow> (store_error, CredentialSummary list option) res"
  vo_GetSummary :: "int \<Rightarrow> 'v \<Rightarrow> (store_error, CredentialSummary) res"
  vo_Get :: "string \<Rightarrow> 'v \<Rightarrow> (store_error, Material) res"
  vo_PutAPIKey :: "string \<Rightarrow> string \<Rightarrow> 'v \<Rightarrow> (store_error, int) res \<times> 'v"
  vo_PutOAuth :: "string \<Rightarrow> Material \<Rightarrow> 'v \<Rightarrow> (store_error, int) res \<times> 'v"
  vo_UpdateOAuth :: "string \<Rightarrow> Material \<Rightarrow> 'v \<Rightarrow> (store_error, unit) res \<times> 'v"
  vo_Disable :: "int \<Rightarrow> string \<Rightarrow> 'v \<Rightarrow> (store_error, unit) res \<times> 'v"

datatype cli_text = NoText | Line string | Json json

record 'b cli_out =
  co_exit :: int
  co_stdout :: cli_text
  co_stderr :: "string list"
  co_vault :: "'b vault option"
  co_keys :: "SQLStore option"
  co_tokens :: "admin_row list option"

definition cli_fail :: "int \<Rightarrow> 'b cli_out" where
  "cli_fail code = \<lparr>co_exit = code, co_stdout = NoText, co_stderr = [], co_vault = None, co_keys = None, co_tokens = None\<rparr>"

definition cli_done :: "cli_text \<Rightarrow> 'b vault \<Rightarrow> 'b cli_out" where
  "cli_done t v = \<lparr>co_exit = 0, co_stdout = t, co_stderr = [], co_vault = Some v, co_keys = None, co_tokens = None\<rparr>"

definition cli_failed_with :: "'b vault \<Rightarrow> 'b cli_out" where
  "cli_failed_with v = \<lparr>co_exit = 1, co_stdout = NoText, co_stderr = [], co_vault = Some v, co_keys = None, co_tokens = None\<rparr>"

definition open_at :: "'b boot_env \<Rightarrow> string \<Rightarrow> (File \<times> 'b vault \<times> SQLStore) option" where
  "open_at e configPath =
     (case Load_config (be_read e) (be_config_yaml e) configPath of
        Inl _ \<Rightarrow> None
      | Inr cfg \<Rightarrow>
          (let base = filepath_Dir configPath;
               broker = f_Credential_Broker cfg;
               path = (if \<not> filepath_IsAbs broker then filepath_Join base broker else broker);
               cfg1 = cfg\<lparr>f_Credential_Broker := path\<rparr>
           in case fst (OpenStore e cfg1) of Inl _ \<Rightarrow> None | Inr (st, ks) \<Rightarrow> Some (cfg1, st, ks)))"

definition loadVault :: "'b boot_env \<Rightarrow> string \<Rightarrow> (File \<times> 'b vault) option" where
  "loadVault e configPath = map_option (\<lambda>(cfg, st, _). (cfg, st)) (open_at e configPath)"

definition config_flag :: "(string \<times> flag_kind) list" where
  "config_flag = [(''config'', StringFlag)]"

definition config_path :: "(string, string) gomap \<Rightarrow> string" where
  "config_path vals = gm_getd ''daigate.yaml'' vals ''config''"

subsection \<open>Credentials\<close>

definition credentialListCmd :: "'b vault vault_ops \<Rightarrow> 'b boot_env \<Rightarrow> string list \<Rightarrow> 'b cli_out" where
  "credentialListCmd ops e args =
     (case parse_flags config_flag args [] of
        FlagsExit n \<Rightarrow> cli_fail n
      | Flags vals _ \<Rightarrow>
          (case loadVault e (config_path vals) of
             None \<Rightarrow> cli_fail 1
           | Some (_, st) \<Rightarrow>
               (case vo_ListSummaries ops st of
                  Inl _ \<Rightarrow> cli_failed_with st
                | Inr xs \<Rightarrow> cli_done (Json (case xs of None \<Rightarrow> JNull | Some cs \<Rightarrow> JArr (map summary_json cs))) st)))"

definition credentialShowCmd :: "'b vault vault_ops \<Rightarrow> 'b boot_env \<Rightarrow> string list \<Rightarrow> 'b cli_out" where
  "credentialShowCmd ops e args =
     (case parse_flags config_flag args [] of
        FlagsExit n \<Rightarrow> cli_fail n
      | Flags vals [a] \<Rightarrow>
          (case ParseInt a of
             None \<Rightarrow> cli_fail 2
           | Some i \<Rightarrow>
               (case loadVault e (config_path vals) of
                  None \<Rightarrow> cli_fail 1
                | Some (_, st) \<Rightarrow>
                    (case vo_GetSummary ops i st of Inl _ \<Rightarrow> cli_failed_with st | Inr cs \<Rightarrow> cli_done (Json (summary_json cs)) st)))
      | Flags vals _ \<Rightarrow> cli_fail 2)"

definition credentialImportCmd :: "'b vault vault_ops \<Rightarrow> 'b boot_env \<Rightarrow> string list \<Rightarrow> 'b cli_out" where
  "credentialImportCmd ops e args =
     (case parse_flags (config_flag @ [(''api-key'', StringFlag)]) (flagsFirst args) [] of
        FlagsExit n \<Rightarrow> cli_fail n
      | Flags vals [profile] \<Rightarrow>
          (let apiKey = gm_getd '''' vals ''api-key'' in
           if apiKey = '''' then cli_fail 2
           else case loadVault e (config_path vals) of
             None \<Rightarrow> cli_fail 1
           | Some (_, st) \<Rightarrow>
               (case vo_PutAPIKey ops profile apiKey st of
                  (Inl _, st') \<Rightarrow> cli_failed_with st'
                | (Inr i, st') \<Rightarrow> cli_done (Line (''imported id='' @ show_int i @ '' profile='' @ profile)) st'))
      | Flags vals _ \<Rightarrow> cli_fail 2)"

text \<open>
  \<open>login\<close> is what \<^verbatim>\<open>vendor.Login\<close> gives; only the manual flow offers to read a line from the operator.
  \<open>NoReturn\<close>: the login does not return, or a nil module panics.
\<close>

datatype 'a cli_run = NoReturn | Returned_cli 'a

definition credentialLoginCmd ::
  "'b vault vault_ops \<Rightarrow> 'b boot_env \<Rightarrow> oauth_env \<Rightarrow> modules \<Rightarrow> string list \<Rightarrow> 'b cli_out cli_run" where
  "credentialLoginCmd ops e oe ms args =
     (case parse_flags (config_flag @ [(''flow'', StringFlag), (''callback-listen'', StringFlag)]) (flagsFirst args) [] of
        FlagsExit n \<Rightarrow> Returned_cli (cli_fail n)
      | Flags vals [profile] \<Rightarrow>
          (case loadVault e (config_path vals) of
             None \<Rightarrow> Returned_cli (cli_fail 1)
           | Some (cfg, st) \<Rightarrow>
               (case gm_get (f_CredentialProfiles cfg) profile of
                  None \<Rightarrow> Returned_cli (cli_failed_with st)
                | Some prof \<Rightarrow>
                    (if prof_Kind prof \<noteq> ''oauth'' then Returned_cli (cli_failed_with st)
                     else
                       (let flow = ToLower (gm_getd ''auto'' vals ''flow'');
                            oe1 = (if flow = FlowManual then oe else oe\<lparr>oe_manual := None\<rparr>)
                        in case Login_vendor oe1 ms profile prof flow (gm_getd ''127.0.0.1:0'' vals ''callback-listen'') of
                             NilModulePanic \<Rightarrow> NoReturn
                           | Result (_, None) \<Rightarrow> NoReturn
                           | Result (_, Some (Inl _)) \<Rightarrow> Returned_cli (cli_failed_with st)
                           | Result (_, Some (Inr mat)) \<Rightarrow>
                               (case vo_PutOAuth ops profile mat st of
                                  (Inl _, st') \<Rightarrow> Returned_cli (cli_failed_with st')
                                | (Inr i, st') \<Rightarrow>
                                    Returned_cli (cli_done
                                      (Line (''logged in id='' @ show_int i @ '' profile='' @ profile @ '' flow='' @ flow)) st'))))))
      | Flags vals _ \<Rightarrow> Returned_cli (cli_fail 2))"

definition credentialRefreshCmd ::
  "'b vault vault_ops \<Rightarrow> 'b boot_env \<Rightarrow> oauth_env \<Rightarrow> modules \<Rightarrow> string list \<Rightarrow> 'b cli_out cli_run" where
  "credentialRefreshCmd ops e oe ms args =
     (case parse_flags config_flag (flagsFirst args) [] of
        FlagsExit n \<Rightarrow> Returned_cli (cli_fail n)
      | Flags vals [profile] \<Rightarrow>
          (case loadVault e (config_path vals) of
             None \<Rightarrow> Returned_cli (cli_fail 1)
           | Some (cfg, st) \<Rightarrow>
               (case gm_get (f_CredentialProfiles cfg) profile of
                  None \<Rightarrow> Returned_cli (cli_failed_with st)
                | Some prof \<Rightarrow>
                    (if prof_Kind prof \<noteq> ''oauth'' then Returned_cli (cli_failed_with st)
                     else case vo_Get ops profile st of
                       Inl _ \<Rightarrow> Returned_cli (cli_failed_with st)
                     | Inr cur \<Rightarrow>
                         (case Refresh_vendor oe ms profile prof cur of
                            NilModulePanic \<Rightarrow> NoReturn
                          | Result (Inl _) \<Rightarrow> Returned_cli (cli_failed_with st)
                          | Result (Inr mat) \<Rightarrow>
                              (case vo_UpdateOAuth ops profile mat st of
                                 (Inl _, st') \<Rightarrow> Returned_cli (cli_failed_with st')
                               | (Inr _, st') \<Rightarrow> Returned_cli (cli_done (Line (''refreshed profile='' @ profile)) st'))))))
      | Flags vals _ \<Rightarrow> Returned_cli (cli_fail 2))"

definition credentialDisableCmd :: "'b vault vault_ops \<Rightarrow> 'b boot_env \<Rightarrow> string list \<Rightarrow> 'b cli_out" where
  "credentialDisableCmd ops e args =
     (case parse_flags (config_flag @ [(''cause'', StringFlag)]) (flagsFirst args) [] of
        FlagsExit n \<Rightarrow> cli_fail n
      | Flags vals [a] \<Rightarrow>
          (case ParseInt a of
             None \<Rightarrow> cli_fail 2
           | Some i \<Rightarrow>
               (case loadVault e (config_path vals) of
                  None \<Rightarrow> cli_fail 1
                | Some (_, st) \<Rightarrow>
                    (case vo_Disable ops i (gm_getd ''disabled by operator'' vals ''cause'') st of
                       (Inl _, st') \<Rightarrow> cli_failed_with st'
                     | (Inr _, st') \<Rightarrow> cli_done (Line (''disabled id='' @ show_int i)) st')))
      | Flags vals _ \<Rightarrow> cli_fail 2)"

definition credentialCmd ::
  "'b vault vault_ops \<Rightarrow> 'b boot_env \<Rightarrow> oauth_env \<Rightarrow> modules \<Rightarrow> string list \<Rightarrow> 'b cli_out cli_run" where
  "credentialCmd ops e oe ms args =
     (case args of
        [] \<Rightarrow> Returned_cli (cli_fail 2)
      | a # rest \<Rightarrow>
          (if a = ''list'' then Returned_cli (credentialListCmd ops e rest)
           else if a = ''show'' then Returned_cli (credentialShowCmd ops e rest)
           else if a = ''import'' then Returned_cli (credentialImportCmd ops e rest)
           else if a = ''login'' then credentialLoginCmd ops e oe ms rest
           else if a = ''disable'' then Returned_cli (credentialDisableCmd ops e rest)
           else if a = ''refresh'' then credentialRefreshCmd ops e oe ms rest
           else Returned_cli (cli_fail 2)))"

subsection \<open>Keys and admin tokens\<close>

definition split_scopes :: "string \<Rightarrow> string list" where
  "split_scopes s = (if s = '''' then [] else filter (\<lambda>t. t \<noteq> '''') (map TrimSpace (Split CHR '','' s)))"

definition keys_flags :: "(string \<times> flag_kind) list" where
  "keys_flags = config_flag @ [(''name'', StringFlag), (''static'', BoolFlag), (''ttl'', StringFlag), (''scopes'', StringFlag)]"

definition keysCreateCmd :: "create_env \<Rightarrow> 'b boot_env \<Rightarrow> string list \<Rightarrow> 'b cli_out" where
  "keysCreateCmd ce e args =
     (case parse_flags keys_flags args [] of
        FlagsExit n \<Rightarrow> cli_fail n
      | Flags vals _ \<Rightarrow>
          (case open_at e (config_path vals) of
             None \<Rightarrow> cli_fail 1
           | Some (cfg, st, ks) \<Rightarrow>
               (let name = gm_getd ''default'' vals ''name''; static = gm_getd ''false'' vals ''static'' = ''true'';
                    ttl = (if static then Some 0 else time_ParseDuration (gm_getd ''720h'' vals ''ttl''));
                    kind = (if static then KindStatic else KindIssued)
                in case ttl of
                     None \<Rightarrow> cli_failed_with st
                   | Some d \<Rightarrow>
                       (case SQL_Create (be_H e) ce name kind d (split_scopes (gm_getd '''' vals ''scopes'')) ks of
                          (Inl _, ks') \<Rightarrow> (cli_failed_with st)\<lparr>co_keys := Some ks'\<rparr>
                        | (Inr (secret, kid), ks') \<Rightarrow>
                            (cli_done (Line (''id='' @ show_int kid @ '' name='' @ name @ '' kind='' @ kind @ '' key='' @ secret)) st)
                              \<lparr>co_keys := Some ks'\<rparr>))))"

definition keysCmd :: "create_env \<Rightarrow> 'b boot_env \<Rightarrow> string list \<Rightarrow> 'b cli_out" where
  "keysCmd ce e args =
     (case args of [] \<Rightarrow> cli_fail 2 | a # rest \<Rightarrow> (if a = ''create'' then keysCreateCmd ce e rest else cli_fail 2))"

definition hex_encode :: "string \<Rightarrow> string" where
  "hex_encode s = concat (map (\<lambda>c. [hex_digit (of_char c div 16), hex_digit (of_char c mod 16)]) s)"

definition randomToken :: "string option \<Rightarrow> string option" where
  "randomToken rnd = map_option hex_encode rnd"

definition envForRole :: "File \<Rightarrow> Role \<Rightarrow> string" where
  "envForRole f r = (if r = RoleAdmin then f_Admin_Tokens_AdminEnv f else f_Admin_Tokens_ProvisionEnv f)"

definition token_flags :: "(string \<times> flag_kind) list" where
  "token_flags = config_flag @ [(''role'', StringFlag), (''name'', StringFlag)]"

definition adminTokenCmd :: "string option \<Rightarrow> instant \<Rightarrow> 'b boot_env \<Rightarrow> string list \<Rightarrow> 'b cli_out" where
  "adminTokenCmd rnd now e args =
     (case args of
        [] \<Rightarrow> cli_fail 2
      | a # rest \<Rightarrow>
          (if a \<noteq> ''create'' then cli_fail 2
           else case parse_flags token_flags rest [] of
             FlagsExit n \<Rightarrow> cli_fail n
           | Flags vals _ \<Rightarrow>
               (case open_at e (config_path vals) of
                  None \<Rightarrow> cli_fail 1
                | Some (cfg, st, _) \<Rightarrow>
                    (case randomToken rnd of
                       None \<Rightarrow> cli_failed_with st
                     | Some tok \<Rightarrow>
                         (let r = gm_getd ''provision'' vals ''role''; name = gm_getd ''cli'' vals ''name'' in
                          if r \<noteq> RoleAdmin \<and> r \<noteq> RoleProvision then (cli_failed_with st)\<lparr>co_exit := 2\<rparr>
                          else case BrokerDB e st of
                            Some (Some (db_ok, rows)) \<Rightarrow>
                              (case Insert_token (be_H e) now (be_salt1 e) db_ok name r tok rows of
                                 (Inl _, rows') \<Rightarrow> (cli_failed_with st)\<lparr>co_tokens := Some rows'\<rparr>
                               | (Inr _, rows') \<Rightarrow>
                                   (cli_done (Line (''name='' @ name @ '' role='' @ r @ '' token='' @ tok)) st)
                                     \<lparr>co_tokens := Some rows'\<rparr>)
                          | _ \<Rightarrow> cli_failed_with st)))))"

definition adminCmd :: "string option \<Rightarrow> instant \<Rightarrow> 'b boot_env \<Rightarrow> string list \<Rightarrow> 'b cli_out" where
  "adminCmd rnd now e args =
     (case args of [] \<Rightarrow> cli_fail 2 | a # rest \<Rightarrow> (if a = ''token'' then adminTokenCmd rnd now e rest else cli_fail 2))"

end
