(* ===== verification/Serving.thy ===== *)
theory Serving
  imports Gateway
begin

section \<open>Running a gateway\<close>

text \<open>
  \<^verbatim>\<open>gateway/gateway.go\<close> (\<^verbatim>\<open>ListenAndServe\<close>) and \<^verbatim>\<open>gateway/serve.go\<close> (\<^verbatim>\<open>Serve\<close>, \<^verbatim>\<open>EmbedServe\<close>): the life of a
  process around the handlers. The listeners and the signals are the operating system's; what the \<^verbatim>\<open>select\<close> of
  \<^verbatim>\<open>ListenAndServe\<close> receives first is an argument. \<^verbatim>\<open>Shutdown\<close> always returns nil; its steps are theory \<^verbatim>\<open>Drain\<close>.
  The result is an error, if any, and what the process did, in order.
\<close>

datatype server_error = ErrServerClosed | ListenFailed plane | ServeFailed plane string

datatype stop_cause = ContextDone | SignalReceived string | ServerStopped server_error

datatype run_event =
    Boot_stores boot_event
  | ObservabilityBoot string
  | ObservabilityHook string
  | Listening plane string
  | GatewayShutdown
  | ObservabilityShutdown

datatype serve_error = SErrBoot boot_error | SErrServer server_error

text \<open>Each plane starts a listener; one that fails is the first error of the channel.\<close>

definition listens :: "('b, 'm) GatewayConfig \<Rightarrow> run_event list" where
  "listens gw =
     Listening DataPlane (gc_DataListen gw) # (if gc_AdminEnabled gw then [Listening AdminPlane (gc_AdminListen gw)] else [])"

definition ListenAndServe :: "('b, 'm) GatewayConfig \<Rightarrow> stop_cause \<Rightarrow> server_error option \<times> run_event list" where
  "ListenAndServe gw cause =
     (case cause of
        ContextDone \<Rightarrow> (None, listens gw @ [GatewayShutdown])
      | SignalReceived _ \<Rightarrow> (None, listens gw @ [GatewayShutdown])
      | ServerStopped err \<Rightarrow>
          (if err = ErrServerClosed then (None, listens gw)
           else (Some err, listens gw @ [GatewayShutdown])))"

text \<open>The deferred calls run in the order of the source: telemetry is flushed before the store is closed.\<close>

definition Serve_gateway ::
  "'b boot_env \<Rightarrow> 'm ServeOptions \<Rightarrow> stop_cause \<Rightarrow> serve_error option \<times> run_event list" where
  "Serve_gateway e opts cause =
     (case openGateway e opts of
        (Inl err, evs) \<Rightarrow> (Some (SErrBoot err), map Boot_stores evs)
      | (Inr gw, evs) \<Rightarrow>
          (case ListenAndServe gw cause of
             (err, run) \<Rightarrow>
               (map_option SErrServer err,
                map Boot_stores evs @ [ObservabilityBoot (serviceName (so_ServiceName opts))] @ run @
                [ObservabilityShutdown, Boot_stores ClosedStore])))"

definition EmbedServe ::
  "'b boot_env \<Rightarrow> 'm ServeOptions \<Rightarrow> stop_cause \<Rightarrow> serve_error option \<times> run_event list" where
  "EmbedServe e opts cause =
     (case openGateway e opts of
        (Inl err, evs) \<Rightarrow> (Some (SErrBoot err), map Boot_stores evs)
      | (Inr gw, evs) \<Rightarrow>
          (case ListenAndServe gw cause of
             (err, run) \<Rightarrow>
               (map_option SErrServer err,
                map Boot_stores evs @ [ObservabilityHook (serviceName (so_ServiceName opts))] @ run @ [Boot_stores ClosedStore])))"

subsection \<open>The stores at the end of a run\<close>

fun stores_of :: "run_event list \<Rightarrow> boot_event list" where
  "stores_of [] = []"
| "stores_of (Boot_stores ev # evs) = ev # stores_of evs"
| "stores_of (_ # evs) = stores_of evs"

lemma stores_of_append [simp]: "stores_of (xs @ ys) = stores_of xs @ stores_of ys"
  by (induction xs rule: stores_of.induct) auto

lemma stores_of_boot [simp]: "stores_of (map Boot_stores evs) = evs"
  by (induction evs) auto

lemma stores_of_run: "ListenAndServe gw cause = (err, run) \<Longrightarrow> stores_of run = []"
  by (auto simp: ListenAndServe_def listens_def split: stop_cause.splits if_splits)

lemma still_open_append: "still_open (xs @ ys) h = still_open ys (still_open xs h)"
  by (induction xs h rule: still_open.induct) auto

text \<open>Options as \<^verbatim>\<open>daigate serve\<close> gives them: the stock catalog loader, and a builder that returns no nil registry.\<close>

definition no_nil_builders :: "'m ServeOptions \<Rightarrow> bool" where
  "no_nil_builders opts \<longleftrightarrow>
     so_CatalogLoad opts = None \<and> (\<forall>build f. so_Registry opts = Some build \<longrightarrow> build f \<noteq> Inr None)"

lemma openGateway_failed:
  assumes "openGateway e opts = (Inl err, evs)" "no_nil_builders opts"
  shows "still_open evs None = None"
proof -
  from assms(1) show ?thesis
  proof (cases rule: openGateway_cases)
    case (2 registry f0 f cat)
    from openGateway_stores_events [OF 2(5)] 2(1,4) assms(2) stock_catalog_load_Some [of e "f_Serve_Catalog f" cat]
    show ?thesis by (auto simp: no_nil_builders_def split: if_splits)
  qed simp
qed

lemma Serve_closes:
  assumes "no_nil_builders opts"
  shows "still_open (stores_of (snd (Serve_gateway e opts cause))) None = None"
    and "still_open (stores_of (snd (EmbedServe e opts cause))) None = None"
proof -
  obtain r evs where o: "openGateway e opts = (r, evs)" by fastforce
  show "still_open (stores_of (snd (Serve_gateway e opts cause))) None = None"
    "still_open (stores_of (snd (EmbedServe e opts cause))) None = None"
    using o assms openGateway_failed [of e opts _ evs]
    by (cases r; auto simp: Serve_gateway_def EmbedServe_def still_open_append stores_of_run split: prod.split)+
qed

text \<open>A gateway that a signal or its context stops is drained and reports no error.\<close>

lemma Serve_stopped:
  assumes "cause \<notin> range ServerStopped" "openGateway e opts = (Inr gw, evs)"
  shows "fst (Serve_gateway e opts cause) = None" "GatewayShutdown \<in> set (snd (Serve_gateway e opts cause))"
  using assms by (cases cause; simp add: Serve_gateway_def ListenAndServe_def)+

end
