(* ===== verification/CliRun.thy ===== *)
theory CliRun
  imports Cli Serving
begin

section \<open>Adapters, serving and the command\<close>

text \<open>
  \<^verbatim>\<open>cmd/daigate/adapters.go\<close>, \<^verbatim>\<open>cmd/daigate/serve.go\<close> and \<^verbatim>\<open>cmd/daigate/main.go\<close>: the commands that look at the
  configuration only, the command that serves, and the choice of the command. The adapters linked are the stock ones.
\<close>

subsection \<open>Listing adapters\<close>

datatype adapter_entry = AdapterEntry (en_Name: string) (en_Kind: string)

text \<open>The order of the listing: by kind, then by name.\<close>

definition entry_less :: "adapter_entry \<Rightarrow> adapter_entry \<Rightarrow> bool" where
  "entry_less a b \<longleftrightarrow> (if en_Kind a = en_Kind b then en_Name a < en_Name b else en_Kind a < en_Kind b)"

instantiation adapter_entry :: linorder
begin

definition less_adapter_entry :: "adapter_entry \<Rightarrow> adapter_entry \<Rightarrow> bool" where
  "less_adapter_entry = entry_less"

definition less_eq_adapter_entry :: "adapter_entry \<Rightarrow> adapter_entry \<Rightarrow> bool" where
  "less_eq_adapter_entry a b \<longleftrightarrow> \<not> entry_less b a"

instance
proof
  fix a b c :: adapter_entry
  show "a < b \<longleftrightarrow> a \<le> b \<and> \<not> b \<le> a" "a \<le> a" "a \<le> b \<or> b \<le> a"
    by (auto simp: less_eq_adapter_entry_def less_adapter_entry_def entry_less_def)
  show "a \<le> b \<Longrightarrow> b \<le> c \<Longrightarrow> a \<le> c"
    by (auto simp: less_eq_adapter_entry_def entry_less_def split: if_splits)
  show "a \<le> b \<Longrightarrow> b \<le> a \<Longrightarrow> a = b"
    by (cases a; cases b) (auto simp: less_eq_adapter_entry_def entry_less_def split: if_splits)
qed

end

definition entries_of :: "string \<Rightarrow> (string, 'h) gomap \<Rightarrow> adapter_entry list" where
  "entries_of kind m = map (\<lambda>p. AdapterEntry p kind) (gm_keys m)"

definition adapter_entries :: "Registry \<Rightarrow> adapter_entry list" where
  "adapter_entries reg =
     sort
       (entries_of ''chat-protocol'' (ChatHandlers reg) @ entries_of ''embed-protocol'' (EmbedHandlers reg) @
        entries_of ''image-protocol'' (ImageHandlers reg) @ entries_of ''speech-protocol'' (SpeechHandlers reg) @
        entries_of ''video-protocol'' (VideoHandlers reg) @ entries_of ''image-adapter'' (ImageAdapters reg) @
        entries_of ''speech-adapter'' (SpeechAdapters reg) @ entries_of ''embed-adapter'' (EmbedAdapters reg) @
        entries_of ''video-adapter'' (VideoAdapters reg) @ entries_of ''chat-adapter'' (ChatAdapters reg))"

definition entry_json :: "adapter_entry \<Rightarrow> json" where
  "entry_json x = JObj [(''name'', JStr (en_Name x)), (''kind'', JStr (en_Kind x))]"

definition cli_print :: "int \<Rightarrow> cli_text \<Rightarrow> string list \<Rightarrow> 'b cli_out" where
  "cli_print code t err = \<lparr>co_exit = code, co_stdout = t, co_stderr = err, co_vault = None, co_keys = None, co_tokens = None\<rparr>"

text \<open>A nil slice is encoded as null.\<close>

definition adaptersListCmd :: "client \<Rightarrow> 'b boot_env \<Rightarrow> string list \<Rightarrow> 'b cli_out" where
  "adaptersListCmd cl e args =
     (case parse_flags config_flag args [] of
        FlagsExit n \<Rightarrow> cli_fail n
      | Flags vals _ \<Rightarrow>
          (case Load_config (be_read e) (be_config_yaml e) (config_path vals) of
             Inl _ \<Rightarrow> cli_fail 1
           | Inr f \<Rightarrow>
               (case FromConfig cl (f_Adapters_Enable f) (DefaultAdapters cl) of
                  Inl _ \<Rightarrow> cli_fail 1
                | Inr reg \<Rightarrow>
                    (let out = adapter_entries reg in
                     cli_print 0 (Json (if out = [] then JNull else JArr (map entry_json out))) []))))"

subsection \<open>The doctor\<close>

definition add_keys :: "(string, 'h) gomap \<Rightarrow> (string, bool) gomap \<Rightarrow> (string, bool) gomap" where
  "add_keys m seen = fold (\<lambda>p. gm_set p True) (gm_keys m) seen"

definition doctor_protocols :: "Registry \<Rightarrow> (string, bool) gomap" where
  "doctor_protocols reg =
     add_keys (VideoHandlers reg) (add_keys (SpeechHandlers reg) (add_keys (ImageHandlers reg)
       (add_keys (EmbedHandlers reg) (add_keys (ChatHandlers reg) []))))"

definition doctor_adapters :: "Registry \<Rightarrow> (string, bool) gomap" where
  "doctor_adapters reg =
     add_keys (ChatAdapters reg) (add_keys (VideoAdapters reg) (add_keys (EmbedAdapters reg)
       (add_keys (SpeechAdapters reg) (add_keys (ImageAdapters reg) []))))"

definition adaptersDoctorCmd :: "client \<Rightarrow> 'b boot_env \<Rightarrow> string list \<Rightarrow> 'b cli_out" where
  "adaptersDoctorCmd cl e args =
     (case parse_flags config_flag args [] of
        FlagsExit n \<Rightarrow> cli_fail n
      | Flags vals _ \<Rightarrow>
          (case Load_config (be_read e) (be_config_yaml e) (config_path vals) of
             Inl _ \<Rightarrow> cli_fail 1
           | Inr f \<Rightarrow>
               (let base = filepath_Dir (config_path vals);
                    path = (if \<not> filepath_IsAbs (f_Serve_Catalog f) then filepath_Join base (f_Serve_Catalog f) else f_Serve_Catalog f)
                in case Load_catalog (be_read e) (be_catalog_yaml e) path of
                     Inl _ \<Rightarrow> cli_fail 1
                   | Inr cat \<Rightarrow>
                       (case FromConfig cl (f_Adapters_Enable f) (DefaultAdapters cl) of
                          Inl _ \<Rightarrow> cli_fail 1
                        | Inr reg \<Rightarrow>
                            (let missing = Doctor cat (doctor_protocols reg) (doctor_adapters reg) in
                             if missing \<noteq> [] then cli_print 1 NoText (map (\<lambda>p. ''missing handler for '' @ p) (sort missing))
                             else cli_print 0 (Line ''ok'') [])))))"

definition adaptersCmd :: "client \<Rightarrow> 'b boot_env \<Rightarrow> string list \<Rightarrow> 'b cli_out" where
  "adaptersCmd cl e args =
     (case args of
        [] \<Rightarrow> cli_fail 2
      | a # rest \<Rightarrow>
          (if a = ''list'' then adaptersListCmd cl e rest
           else if a = ''doctor'' then adaptersDoctorCmd cl e rest
           else cli_fail 2))"

subsection \<open>Serving\<close>

definition stock_builder :: "client \<Rightarrow> File \<Rightarrow> (unit, Registry option) res" where
  "stock_builder cl f =
     (case FromConfig cl (f_Adapters_Enable f) (DefaultAdapters cl) of Inl _ \<Rightarrow> Inl () | Inr reg \<Rightarrow> Inr (Some reg))"

definition serve_options :: "client \<Rightarrow> string \<Rightarrow> 'm ServeOptions" where
  "serve_options cl path =
     \<lparr>so_ConfigPath = path, so_ServiceName = '''', so_Registry = Some (stock_builder cl), so_CatalogLoad = None,
      so_DataMount = None, so_WrapDataHandler = None\<rparr>"

definition serveCmd :: "client \<Rightarrow> 'b boot_env \<Rightarrow> stop_cause \<Rightarrow> string list \<Rightarrow> int \<times> run_event list" where
  "serveCmd cl e cause args =
     (case parse_flags config_flag args [] of
        FlagsExit n \<Rightarrow> (n, [])
      | Flags vals _ \<Rightarrow>
          (case Serve_gateway e (serve_options cl (config_path vals) :: unit ServeOptions) cause of
             (err, evs) \<Rightarrow> (if err \<noteq> None then 1 else 0, evs)))"

subsection \<open>The command\<close>

text \<open>Everything the commands take from outside, and what a command is: one that prints, or one that serves.\<close>

record 'b cli_env =
  ce_boot :: "'b boot_env"
  ce_client :: client
  ce_vault :: "'b vault vault_ops"
  ce_oauth :: oauth_env
  ce_modules :: modules
  ce_create :: create_env
  ce_random :: "string option"
  ce_now :: instant
  ce_stop :: stop_cause

datatype 'b cli_result = Printed "'b cli_out cli_run" | Served int "run_event list"

definition run_cli :: "'b cli_env \<Rightarrow> string list \<Rightarrow> 'b cli_result" where
  "run_cli ce args =
     (let e = ce_boot ce in
      case args of
        [] \<Rightarrow> Printed (Returned_cli (cli_fail 0))
      | a # rest \<Rightarrow>
          (if a = ''serve'' then (case serveCmd (ce_client ce) e (ce_stop ce) rest of (code, evs) \<Rightarrow> Served code evs)
           else if a = ''credential'' then Printed (credentialCmd (ce_vault ce) e (ce_oauth ce) (ce_modules ce) rest)
           else if a = ''keys'' then Printed (Returned_cli (keysCmd (ce_create ce) e rest))
           else if a = ''adapters'' then Printed (Returned_cli (adaptersCmd (ce_client ce) e rest))
           else if a = ''admin'' then Printed (Returned_cli (adminCmd (ce_random ce) (ce_now ce) e rest))
           else if a \<in> {''help'', ''-h'', ''--help''} then Printed (Returned_cli (cli_fail 0))
           else Printed (Returned_cli (cli_fail 2))))"

subsection \<open>What the doctor reports\<close>

lemma gm_getd_False_Nil [simp]: "\<not> gm_getd False [] p"
  by (simp add: gm_getd_def)

lemma fold_gm_set_True: "gm_getd False (fold (\<lambda>p. gm_set p True) ks seen) p \<longleftrightarrow> p \<in> set ks \<or> gm_getd False seen p"
  by (induction ks arbitrary: seen) (auto simp: gm_getd_def)

lemma add_keys_getd: "gm_getd False (add_keys m seen) p \<longleftrightarrow> p \<in> set (gm_keys m) \<or> gm_getd False seen p"
  by (simp add: add_keys_def fold_gm_set_True)

lemmas stock_doctor_simps = doctor_protocols_def doctor_adapters_def add_keys_getd stock_registry_simps

text \<open>The protocols the doctor believes to be handled. \<^verbatim>\<open>openai-transcriptions\<close> is not among them.\<close>

definition doctor_known :: "string set" where
  "doctor_known =
     {''openai-chat-completions'', ''anthropic-messages'', ''openai-responses'', ''openai-embeddings'', ''openai-images'',
      ''openai-tts'', ''openai-videos''}"

lemma stock_doctor_protocols: "gm_getd False (doctor_protocols (stock_registry cl)) p \<longleftrightarrow> p \<in> doctor_known"
  unfolding doctor_known_def doctor_protocols_def add_keys_getd stock_registry_simps gm_keys_Cons gm_keys_Nil list.set insert_iff
  by (simp only: gm_getd_False_Nil empty_iff) metis

lemma stock_doctor_adapters: "\<not> gm_getd False (doctor_adapters (stock_registry cl)) a"
  by (simp add: stock_doctor_simps)

lemma Doctor_set:
  "set (Doctor c protos adapters) =
     (\<lambda>p. ''protocol:'' @ p) ` {p \<in> doc_protocols (cat_doc c). \<not> gm_getd False protos p} \<union>
     (\<lambda>a. ''adapter:'' @ a) ` {a \<in> doc_adapters (cat_doc c). \<not> gm_getd False adapters a}"
proof -
  obtain ps as where r: "RegisteredRoutes c = (ps, as)" by fastforce
  show ?thesis unfolding Doctor_def r using RegisteredRoutes_set [OF r] by simp
qed

lemma Doctor_stock:
  "set (Doctor c (doctor_protocols (stock_registry cl)) (doctor_adapters (stock_registry cl))) =
     (\<lambda>p. ''protocol:'' @ p) ` (doc_protocols (cat_doc c) - doctor_known) \<union> (\<lambda>a. ''adapter:'' @ a) ` doc_adapters (cat_doc c)"
  by (simp add: Doctor_set stock_doctor_protocols stock_doctor_adapters set_diff_eq)

lemma surface_routes_wf:
  "gm_wf (fst seen) \<Longrightarrow> gm_wf (snd seen) \<Longrightarrow>
     gm_wf (fst (fold (\<lambda>(_, s). surface_routes s) ss seen)) \<and> gm_wf (snd (fold (\<lambda>(_, s). surface_routes s) ss seen))"
  by (induction ss arbitrary: seen) (auto simp: surface_routes_def split: prod.split)

lemma provider_routes_wf:
  "gm_wf (fst seen) \<Longrightarrow> gm_wf (snd seen) \<Longrightarrow>
     gm_wf (fst (fold (\<lambda>(_, p). provider_routes p) ps seen)) \<and> gm_wf (snd (fold (\<lambda>(_, p). provider_routes p) ps seen))"
proof (induction ps arbitrary: seen)
  case (Cons np ps)
  have "gm_wf (fst (provider_routes p seen)) \<and> gm_wf (snd (provider_routes p seen))" for p
    using surface_routes_wf [OF Cons.prems, of "pr_Surfaces p"] by (auto simp: provider_routes_def split: prod.splits)
  then show ?case using Cons.IH by (auto split: prod.split)
qed simp

lemma Doctor_distinct: "distinct (Doctor c protos adapters)"
proof -
  obtain seenP seenA where r: "fold (\<lambda>(_, p). provider_routes p) (doc_Providers (cat_doc c)) ([], []) = (seenP, seenA)"
    by fastforce
  then have d: "distinct (gm_keys seenP)" "distinct (gm_keys seenA)"
    using provider_routes_wf [of "([], [])" "doc_Providers (cat_doc c)"] by (auto simp: gm_wf_def gm_keys_def)
  have "''protocol:'' @ p \<noteq> ''adapter:'' @ a" for p a by simp
  then have "set (map (\<lambda>p. ''protocol:'' @ p) xs) \<inter> set (map (\<lambda>a. ''adapter:'' @ a) ys) = {}" for xs ys
    by fastforce
  then show ?thesis
    unfolding Doctor_def RegisteredRoutes_def r prod.case distinct_append
    using d by (simp only: distinct_map distinct_filter simp_thms) (simp add: inj_on_def)
qed

lemma FromConfig_default: "FromConfig cl enable (DefaultAdapters cl) = FromConfig cl enable []"
  by (simp add: FromConfig_def DefaultAdapters_def)

definition doctor_catalog_path :: "string \<Rightarrow> File \<Rightarrow> string" where
  "doctor_catalog_path p f =
     (if \<not> filepath_IsAbs (f_Serve_Catalog f) then filepath_Join (filepath_Dir p) (f_Serve_Catalog f) else f_Serve_Catalog f)"

text \<open>
  (C000) What \<^verbatim>\<open>daigate adapters doctor\<close> reports. With a configuration and a catalog that load and the stock adapters
  enabled, the command prints \<^verbatim>\<open>ok\<close> and exits with 0 exactly when no surface names an adapter and every protocol of the
  catalog is one of seven; otherwise it exits with 1 and prints, in sorted order, one line for each other
  protocol and for each adapter. The protocol \<^verbatim>\<open>openai-transcriptions\<close>, which the same registry serves, is reported as missing.
\<close>

theorem doctor_verdict:
  assumes "parse_flags config_flag args [] = Flags vals rest"
    and "Load_config (be_read e) (be_config_yaml e) (config_path vals) = Inr f"
    and "Load_catalog (be_read e) (be_catalog_yaml e) (doctor_catalog_path (config_path vals) f) = Inr c"
    and "FromConfig cl (f_Adapters_Enable f) (DefaultAdapters cl) = Inr reg"
  shows "(if doc_adapters (cat_doc c) = {} \<and> doc_protocols (cat_doc c) \<subseteq> doctor_known
          then adaptersDoctorCmd cl e args = cli_print 0 (Line ''ok'') []
          else (\<exists>report. adaptersDoctorCmd cl e args = cli_print 1 NoText report \<and> sorted report \<and> distinct report \<and>
                 set report =
                   (\<lambda>p. ''missing handler for protocol:'' @ p) ` (doc_protocols (cat_doc c) - doctor_known) \<union>
                   (\<lambda>a. ''missing handler for adapter:'' @ a) ` doc_adapters (cat_doc c))) \<and>
         gm_get (TranscriptionHandlers reg) ''openai-transcriptions'' \<noteq> None \<and> ''openai-transcriptions'' \<notin> doctor_known"
proof -
  have reg: "reg = stock_registry cl" using assms(4) FromConfig_stock by (simp add: FromConfig_default)
  let ?missing = "Doctor c (doctor_protocols reg) (doctor_adapters reg)"
  have out: "adaptersDoctorCmd cl e args =
      (if ?missing \<noteq> [] then cli_print 1 NoText (map (\<lambda>p. ''missing handler for '' @ p) (sort ?missing))
       else cli_print 0 (Line ''ok'') [])"
    using assms(3) unfolding doctor_catalog_path_def adaptersDoctorCmd_def Let_def assms(1,2) flags.case sum.case
    by (simp only: sum.case assms(4))
  have m: "set ?missing = (\<lambda>p. ''protocol:'' @ p) ` (doc_protocols (cat_doc c) - doctor_known) \<union>
      (\<lambda>a. ''adapter:'' @ a) ` doc_adapters (cat_doc c)"
    unfolding reg by (rule Doctor_stock)
  then have nil: "?missing = [] \<longleftrightarrow> doc_adapters (cat_doc c) = {} \<and> doc_protocols (cat_doc c) \<subseteq> doctor_known"
    by (simp flip: set_empty) blast
  have "set (map (\<lambda>p. ''missing handler for '' @ p) (sort ?missing)) =
      (\<lambda>p. ''missing handler for protocol:'' @ p) ` (doc_protocols (cat_doc c) - doctor_known) \<union>
      (\<lambda>a. ''missing handler for adapter:'' @ a) ` doc_adapters (cat_doc c)"
    by (simp add: m image_Un image_image)
  moreover have "sorted (map (\<lambda>p. ''missing handler for '' @ p) (sort ?missing))"
    by (simp add: sorted_map)
  moreover have "distinct (map (\<lambda>p. ''missing handler for '' @ p) (sort ?missing))"
    by (simp add: distinct_map Doctor_distinct inj_on_def)
  moreover have "gm_get (TranscriptionHandlers reg) ''openai-transcriptions'' \<noteq> None \<and> ''openai-transcriptions'' \<notin> doctor_known"
    by (simp add: reg stock_registry_simps doctor_known_def)
  ultimately show ?thesis
    unfolding out nil [symmetric] by (cases "?missing = []") (simp_all only: if_True if_False not_True_eq_False not_False_eq_True simp_thms, blast)
qed

definition demo_transcribing :: "unit boot_env" where
  "demo_transcribing = demo_boot
     \<lparr>be_catalog_yaml := (\<lambda>_. Some
        \<lparr>doc_Providers = [(''p'', demo_provider ''openai-transcriptions'' ''https://p/v1'')], doc_Models = []\<rparr>)\<rparr>"

theorem doctor_verdict_witness:
  "adaptersDoctorCmd demo_client demo_transcribing [] =
     cli_print 1 NoText [''missing handler for protocol:openai-transcriptions'']"
proof -
  let ?f = "config_defaults (demo_file '''')"
  let ?c = "NewFromDocument \<lparr>doc_Providers = [(''p'', demo_provider ''openai-transcriptions'' ''https://p/v1'')], doc_Models = []\<rparr>"
  have path: "doctor_catalog_path (config_path []) ?f = ''providers.yaml''"
    by (simp add: doctor_catalog_path_def config_path_def gm_getd_def config_defaults_def demo_file_def filepath_IsAbs_def
        filepath_Dir_def filepath_Join_def filepath_Clean_def Let_def)
  have flags: "parse_flags config_flag [] [] = Flags [] []" by simp
  have cfg: "Load_config (be_read demo_transcribing) (be_config_yaml demo_transcribing) (config_path []) = Inr ?f"
    by (simp add: Load_config_def demo_transcribing_def demo_boot_at_def config_path_def gm_getd_def)
  have cat: "Load_catalog (be_read demo_transcribing) (be_catalog_yaml demo_transcribing) (doctor_catalog_path (config_path []) ?f) = Inr ?c"
    by (simp add: path Load_catalog_def demo_transcribing_def demo_boot_at_def)
  have reg: "FromConfig demo_client (f_Adapters_Enable ?f) (DefaultAdapters demo_client) = Inr (en_Adapters demo_engine)"
    using demo_FromConfig by (simp add: FromConfig_default config_defaults_def demo_file_def)
  have "doc_Providers (cat_doc ?c) =
      [(''p'', (demo_provider ''openai-transcriptions'' ''https://p/v1'')
        \<lparr>pr_Surfaces := [(''default'', \<lparr>su_Protocol = ''openai-transcriptions'', su_Adapter = '''', su_BaseURL = ''https://p/v1''\<rparr>)]\<rparr>)]"
    by (simp add: demo_simps)
  then have docs: "doc_protocols (cat_doc ?c) = {''openai-transcriptions''}" "doc_adapters (cat_doc ?c) = {}"
    by (auto simp: doc_protocols_def doc_adapters_def demo_provider_def)
  have miss: "{''openai-transcriptions''} - doctor_known = {''openai-transcriptions''}" by (simp add: doctor_known_def)
  have not_known: "\<not> {''openai-transcriptions''} \<subseteq> doctor_known" by (simp add: doctor_known_def)
  obtain report where r: "adaptersDoctorCmd demo_client demo_transcribing [] = cli_print 1 NoText report" "distinct report"
    "set report = {''missing handler for protocol:openai-transcriptions''}"
    using doctor_verdict [OF flags cfg cat reg] by (auto simp: docs not_known miss)
  then have "report = [''missing handler for protocol:openai-transcriptions'']"
    by (cases report rule: remdups_adj.cases) auto
  with r(1) show ?thesis by simp
qed

end
