(* ===== verification/CliPlanes.thy ===== *)
theory CliPlanes
  imports CliRun
begin

section \<open>From the command line to the planes\<close>

text \<open>
  What the operator creates with \<^verbatim>\<open>daigate keys create\<close> and \<^verbatim>\<open>daigate admin token create\<close>, used on a gateway that is started later
  with the same configuration: the command and the gateway resolve the path of the database alike, and the gateway accepts
  the printed secret. The later environment may differ in everything but the files, and the database has gone on from
  what the command left.
\<close>

subsection \<open>Both open the same database\<close>

lemma OpenStore_Inr:
  assumes "OpenStore e f = (Inr (st, ks), evs)"
  shows "ks = df_keys (be_db e (f_Credential_Broker f)) \<and> evs = [Opened (f_Credential_Broker f)] \<and>
    (TrimSpace (f_Credential_Backend f) \<in> {'''', ''sqlite''} \<longrightarrow>
       (\<exists>s. st = SqliteVault s \<and> df_admin s = df_admin (be_db e (f_Credential_Broker f))))"
  using assms by (auto simp: OpenStore_def Let_def split: sum.splits if_splits)

lemma resolved_broker:
  "f_Credential_Broker (resolvePaths f path) =
     (if \<not> filepath_IsAbs (f_Credential_Broker f) then filepath_Join (filepath_Dir path) (f_Credential_Broker f) else f_Credential_Broker f)"
  by (simp add: resolvePaths_def Let_def)

lemma open_at_Some:
  assumes "open_at e path = Some (cfg, st, ks)"
  obtains f where "Load_config (be_read e) (be_config_yaml e) path = Inr f"
    "f_Credential_Broker (resolvePaths f path) = f_Credential_Broker cfg" "f_Credential_Backend f = f_Credential_Backend cfg"
    "AdminPlaneEnabled (resolvePaths f path) = AdminPlaneEnabled cfg" "OpenStore e cfg = (Inr (st, ks), [Opened (f_Credential_Broker cfg)])"
proof -
  obtain f where f: "Load_config (be_read e) (be_config_yaml e) path = Inr f"
    "cfg = f\<lparr>f_Credential_Broker := f_Credential_Broker (resolvePaths f path)\<rparr>" "fst (OpenStore e cfg) = Inr (st, ks)"
    using assms by (auto simp: open_at_def resolved_broker Let_def split: sum.splits prod.splits)
  have "OpenStore e cfg = (Inr (st, ks), [Opened (f_Credential_Broker cfg)])"
    using f(3) OpenStore_Inr [of e cfg st ks] by (metis prod.collapse)
  then show ?thesis
    by (intro that [OF f(1)]) (simp_all add: f(2) AdminPlaneEnabled_def)
qed

text \<open>A gateway started with the configuration that a command used has the store the command opened.\<close>

lemma same_store:
  assumes "open_at e path = Some (cfg, st, ks)" "openGateway e' opts = (Inr gw, evs)"
    "be_read e' = be_read e" "be_config_yaml e' = be_config_yaml e" "resolveConfigPath (be_stat e') (so_ConfigPath opts) = path"
  shows "evs = [Opened (f_Credential_Broker cfg)]"
    "gc_KeyStore gw = Some (df_keys (be_db e' (f_Credential_Broker cfg)))"
    "TrimSpace (f_Credential_Backend cfg) \<in> {'''', ''sqlite''} \<Longrightarrow> AdminPlaneEnabled cfg \<Longrightarrow>
       \<exists>f m. Load_admin (be_H e') (be_salt1 e') (be_salt2 e') (be_env e') (Some (df_admin (be_db e' (f_Credential_Broker cfg)))) f = Inr (Some m) \<and>
         gc_AdminAuth gw = Some m"
proof -
  obtain f where f: "Load_config (be_read e) (be_config_yaml e) path = Inr f"
    "f_Credential_Broker (resolvePaths f path) = f_Credential_Broker cfg" "f_Credential_Backend f = f_Credential_Backend cfg"
    "AdminPlaneEnabled (resolvePaths f path) = AdminPlaneEnabled cfg"
    using open_at_Some [OF assms(1)] by metis
  let ?f = "resolvePaths f path"
  obtain registry cat where g: "openGateway_stores e' opts registry path ?f cat = (Inr gw, evs)"
    using assms(2-5) f(1) by (auto simp: openGateway_def Let_def split: option.splits sum.splits)
  then obtain st' ks' evs' where o: "OpenStore e' ?f = (Inr (st', ks'), evs')"
    by (auto simp: openGateway_stores_def split: prod.splits sum.splits)
  note i = OpenStore_Inr [OF o, unfolded f(2)]
  obtain auth db where gw: "BrokerDB e' st' = Some db" "Load_admin (be_H e') (be_salt1 e') (be_salt2 e') (be_env e') db ?f = Inr auth"
    "gc_KeyStore gw = Some ks'" "gc_AdminAuth gw = auth" "evs = evs'"
    using g by (auto simp: openGateway_stores_def o New_gateway_Inr split: sum.splits option.splits)
  show "evs = [Opened (f_Credential_Broker cfg)]" "gc_KeyStore gw = Some (df_keys (be_db e' (f_Credential_Broker cfg)))"
    using i gw(3,5) by simp_all
  assume c: "TrimSpace (f_Credential_Backend cfg) \<in> {'''', ''sqlite''}" "AdminPlaneEnabled cfg"
  with i f(3) obtain s where s: "st' = SqliteVault s" "df_admin s = df_admin (be_db e' (f_Credential_Broker cfg))" by auto
  moreover have "auth \<noteq> None" using gw(2) c(2) f(4) Load_admin_disabled by metis
  ultimately show "\<exists>f m. Load_admin (be_H e') (be_salt1 e') (be_salt2 e') (be_env e')
      (Some (df_admin (be_db e' (f_Credential_Broker cfg)))) f = Inr (Some m) \<and> gc_AdminAuth gw = Some m"
    using gw(1,2,4) by (auto simp: BrokerDB_def)
qed

subsection \<open>Keys\<close>

lemma target_loop_authenticated: "fst (target_loop e w path raw hdr fo ts st) \<noteq> WError WUnauthorized code"
  by (induction ts arbitrary: fo st) (simp_all add: target_loop.simps Let_def split: sum.split option.split prod.split)

lemma handleWire_authenticated: "handleWire e r p w st c = (rep, st', c') \<Longrightarrow> rep \<noteq> WError WUnauthorized code"
  using target_loop_authenticated [of e w "rq_path r"]
  by (auto simp: handleWire_def Let_def split: sum.splits prod.splits if_splits) (metis fst_conv)+

text \<open>
  What the data plane owes a request of a key: it is authenticated as the key's principal, no wire answers it with 401, and the
  model list is the one for the scopes.
\<close>

definition key_served :: "(string \<Rightarrow> (key_error, Principal) res) \<Rightarrow> Principal \<Rightarrow> request \<Rightarrow> bool" where
  "key_served verify p q \<longleftrightarrow>
     Authenticate verify (rq_header q) = Inr p \<and>
     (\<forall>get reg eng c rep st c'. Wire_Handler (gateway_engine verify get reg eng) q c = (rep, st, c') \<longrightarrow>
        (case wire_mux (rq_method q) (rq_escaped q) of
           ToWire w \<Rightarrow> \<forall>code. rep \<noteq> WError WUnauthorized code
         | ToModels \<Rightarrow> rq_method q = MethodGet \<longrightarrow>
             rep = WJson (JObj [(''object'', JStr ''list''), (''data'', JArr (map list_item_json (ListModelsFor c (Some (prin_Scopes p)))))])
         | _ \<Rightarrow> True))"

lemma accepted_served:
  assumes "bearerToken (rq_header q) = Inr secret" "verify secret = Inr p"
  shows "key_served verify p q"
proof -
  have auth: "Authenticate verify (rq_header q) = Inr p" using assms by (simp add: Authenticate_def)
  have "en_Verify (behind_statusWriter (gateway_engine verify get reg eng)) = verify" for get reg eng
    by (simp add: gateway_engine_def)
  with auth show ?thesis
    by (auto simp: key_served_def Wire_Handler_def wire_routes_def withAuth_def models_def Let_def
        dest: handleWire_authenticated split: wire_route.splits prod.splits)
qed

text \<open>A list of scopes that names none is no list: the key is not restricted.\<close>

lemma split_scopes_blank: "split_scopes '','' = []" "Authorize (split_scopes '','') model wire = Inr ()"
  by (simp_all add: split_scopes_def Authorize_iff TrimSpace_def)

lemma keysCreateCmd_ok:
  assumes "parse_flags keys_flags args [] = Flags vals rest" "open_at e (config_path vals) = Some (cfg, st, ks)"
    "co_exit (keysCreateCmd ce e args) = 0" "co_keys (keysCreateCmd ce e args) = Some ks'"
  defines "static \<equiv> gm_getd ''false'' vals ''static'' = ''true''"
  obtains d secret kid where
    "if static then d = 0 else time_ParseDuration (gm_getd ''720h'' vals ''ttl'') = Some d"
    "SQL_Create (be_H e) ce (gm_getd ''default'' vals ''name'') (if static then KindStatic else KindIssued) d
       (split_scopes (gm_getd '''' vals ''scopes'')) ks = (Inr (secret, kid), ks')"
    "co_stdout (keysCreateCmd ce e args) = Line (''id='' @ show_int kid @ '' name='' @ gm_getd ''default'' vals ''name'' @
       '' kind='' @ (if static then KindStatic else KindIssued) @ '' key='' @ secret)"
proof -
  have "co_exit (cli_failed_with st) = 1" by (simp add: cli_failed_with_def)
  with assms(1-4) that show ?thesis
    unfolding static_def keysCreateCmd_def
    by (auto simp: Let_def cli_done_def split: option.splits prod.splits sum.splits if_splits)
qed

text \<open>
  (C000) A key made on the command line works on the gateway. When \<^verbatim>\<open>daigate keys create\<close> exits with 0, it prints a secret;
  a gateway started later with the same configuration opens the same database, and as long as the key was not
  revoked and (unless it is static) its ttl has not passed, a request that bears the secret is authenticated under the
  name, the id and the scopes that the flags gave (as UTF-8): no wire answers it with 401, and the model list is the one for these
  scopes. (A \<^verbatim>\<open>-scopes\<close> flag that lists only blanks gives no scopes, and then every model.)
\<close>

theorem created_key_serves:
  fixes e :: "'b boot_env" and opts :: "'m ServeOptions"
  assumes "parse_flags keys_flags args [] = Flags vals rest"
    and "open_at e (config_path vals) = Some (cfg, st, snd (sql_run (be_H e) ops0 NewSQLStore))"
    and "co_exit (keysCreateCmd ce e args) = 0" "co_keys (keysCreateCmd ce e args) = Some ks"
    and "ce_tail ce = Some tail" "length tail = 24"
    and "openGateway e' opts = (Inr gw, evs)" "be_read e' = be_read e" "be_config_yaml e' = be_config_yaml e"
      "resolveConfigPath (be_stat e') (so_ConfigPath opts) = config_path vals"
    and "df_keys (be_db e' (f_Credential_Broker cfg)) = snd (sql_run (be_H e) ops ks)"
  defines "static \<equiv> gm_getd ''false'' vals ''static'' = ''true''" and "name \<equiv> gm_getd ''default'' vals ''name''"
    and "scopes \<equiv> split_scopes (gm_getd '''' vals ''scopes'')"
  shows "evs = [Opened (f_Credential_Broker cfg)] \<and>
    (\<exists>secret kid keys. gc_KeyStore gw = Some keys \<and>
       co_stdout (keysCreateCmd ce e args) = Line (''id='' @ show_int kid @ '' name='' @ name @
         '' kind='' @ (if static then KindStatic else KindIssued) @ '' key='' @ secret) \<and>
       (\<forall>now q. KRevoke kid \<notin> set ops \<and> bearerToken (rq_header q) = Inr secret \<and>
          (\<forall>d. \<not> static \<and> time_ParseDuration (gm_getd ''720h'' vals ''ttl'') = Some d \<longrightarrow> UnixMilli now \<le> UnixMilli (ce_now2 ce + d)) \<longrightarrow>
          key_served (\<lambda>s. SQL_Verify (be_H e) True now s keys) \<lparr>prin_ID = name, prin_KeyID = kid, prin_Scopes = map to_utf8 scopes\<rparr> q))"
proof -
  obtain d secret kid where k: "if static then d = 0 else time_ParseDuration (gm_getd ''720h'' vals ''ttl'') = Some d"
    "SQL_Create (be_H e) ce name (if static then KindStatic else KindIssued) d scopes (snd (sql_run (be_H e) ops0 NewSQLStore)) =
       (Inr (secret, kid), ks)"
    "co_stdout (keysCreateCmd ce e args) = Line (''id='' @ show_int kid @ '' name='' @ name @
       '' kind='' @ (if static then KindStatic else KindIssued) @ '' key='' @ secret)"
    by (rule keysCreateCmd_ok [OF assms(1-4), folded static_def name_def scopes_def])
  note store = same_store(1,2) [OF assms(2,7-10)]
  let ?keys = "snd (sql_run (be_H e) ops ks)"
  have verify: "SQL_Verify (be_H e) True now secret ?keys = Inr \<lparr>prin_ID = name, prin_KeyID = kid, prin_Scopes = map to_utf8 scopes\<rparr>"
    if "KRevoke kid \<notin> set ops"
      "\<forall>d. \<not> static \<and> time_ParseDuration (gm_getd ''720h'' vals ''ttl'') = Some d \<longrightarrow> UnixMilli now \<le> UnixMilli (ce_now2 ce + d)" for now
    by (rule sql.minted_key_verifies [OF sql_run_inv [OF SQL_inv_new] _ k(2) assms(5) _ _ sql_rooms that(1)])
      (use assms(6) k(1) that(2) in \<open>auto split: if_splits\<close>)
  have "gc_KeyStore gw = Some ?keys" using store(2) assms(11) by simp
  with store(1) k(3) verify accepted_served [where verify = "\<lambda>s. SQL_Verify (be_H e) True now s ?keys" for now]
  show ?thesis by blast
qed

subsection \<open>Admin tokens\<close>

lemma adminTokenCmd_ok:
  assumes "parse_flags token_flags args [] = Flags vals rest" "open_at e (config_path vals) = Some (cfg, st, ks)"
    "co_exit (adminTokenCmd rnd now e (''create'' # args)) = 0"
    "co_tokens (adminTokenCmd rnd now e (''create'' # args)) = Some rows'"
  obtains tok salt db_ok rows where
    "Insert_token (be_H e) now (Some salt) db_ok (gm_getd ''cli'' vals ''name'') (gm_getd ''provision'' vals ''role'') tok rows = (Inr (), rows')"
    "co_stdout (adminTokenCmd rnd now e (''create'' # args)) =
       Line (''name='' @ gm_getd ''cli'' vals ''name'' @ '' role='' @ gm_getd ''provision'' vals ''role'' @ '' token='' @ tok)"
proof -
  let ?out = "adminTokenCmd rnd now e (''create'' # args)" and ?r = "gm_getd ''provision'' vals ''role''"
  have fail: "co_exit (cli_failed_with st) = 1" by (simp add: cli_failed_with_def)
  note cmd = adminTokenCmd_def [of rnd now e "''create'' # args"] assms(1,2)
  obtain tok where tok: "randomToken rnd = Some tok"
    using assms(3) by (cases "randomToken rnd") (simp_all add: cmd fail)
  have role: "?r = RoleAdmin \<or> ?r = RoleProvision"
    using assms(3) by (rule contrapos_pp) (simp add: cmd tok Let_def)
  obtain db_ok rows where db: "BrokerDB e st = Some (Some (db_ok, rows))"
    using assms(3) role by (cases "BrokerDB e st" rule: option.exhaust; cases "the (BrokerDB e st)") (auto simp: cmd tok fail Let_def)
  let ?ins = "Insert_token (be_H e) now (be_salt1 e) db_ok (gm_getd ''cli'' vals ''name'') ?r tok rows"
  obtain x rows1 where ins: "?ins = (x, rows1)" by fastforce
  with assms(3) role obtain u where x: "x = Inr u" by (cases x) (auto simp: cmd tok db fail Let_def)
  with assms(4) role ins have "rows1 = rows'" by (auto simp: cmd tok db Let_def)
  moreover obtain salt where "be_salt1 e = Some salt"
    using ins x by (cases "be_salt1 e") (simp_all add: Insert_token_def argon_Seal_def)
  ultimately show ?thesis
    using that [of salt db_ok tok rows] ins x role by (auto simp: cmd tok db cli_done_def Let_def)
qed

text \<open>
  (C000) A token made on the command line works on the admin plane. When \<^verbatim>\<open>daigate admin token create\<close> exits with 0, it prints a
  token; a gateway started later with the same configuration, on the database file and with the admin plane on, answers every
  request that bears the token as one role: the role the flag gave, or the role of the first earlier entry of
  its table that accepts the same token. It passes the request to the handler under that role, except that the role
  \<^verbatim>\<open>provision\<close> is refused on exactly the paths that start with \<^verbatim>\<open>/v1/credentials\<close> or \<^verbatim>\<open>/v1/snapshot\<close>.
\<close>

theorem created_token_works:
  fixes e :: "'b boot_env" and opts :: "'m ServeOptions"
  assumes "parse_flags token_flags args [] = Flags vals rest" "open_at e (config_path vals) = Some (cfg, st, ks)"
    and "TrimSpace (f_Credential_Backend cfg) \<in> {'''', ''sqlite''}" "AdminPlaneEnabled cfg"
    and "co_exit (adminTokenCmd rnd now e (''create'' # args)) = 0"
      "co_tokens (adminTokenCmd rnd now e (''create'' # args)) = Some rows"
    and "openGateway e' opts = (Inr gw, evs)" "be_read e' = be_read e" "be_config_yaml e' = be_config_yaml e"
      "resolveConfigPath (be_stat e') (so_ConfigPath opts) = config_path vals" "be_H e' = be_H e"
    and "df_admin (be_db e' (f_Credential_Broker cfg)) = (True, rows)"
  defines "role \<equiv> gm_getd ''provision'' vals ''role''"
  shows "\<exists>tok m. gc_AdminAuth gw = Some m \<and>
    co_stdout (adminTokenCmd rnd now e (''create'' # args)) =
      Line (''name='' @ gm_getd ''cli'' vals ''name'' @ '' role='' @ role @ '' token='' @ tok) \<and>
    (\<forall>r. admin_bearer (rq_header r) = Some tok \<longrightarrow>
       Require (be_H e) m r =
         (let role' = (case find (\<lambda>e1. argon_Verify (be_H e) tok (te_sealed e1)) (butlast m) of None \<Rightarrow> role | Some e1 \<Rightarrow> te_role e1) in
          if role' = RoleProvision \<and> (HasPrefix (rq_path r) ''/v1/credentials'' \<or> HasPrefix (rq_path r) ''/v1/snapshot'')
          then Forbidden else Pass role'))"
proof -
  obtain tok salt db_ok rows0 where t:
    "Insert_token (be_H e) now (Some salt) db_ok (gm_getd ''cli'' vals ''name'') role tok rows0 = (Inr (), rows)"
    "co_stdout (adminTokenCmd rnd now e (''create'' # args)) =
      Line (''name='' @ gm_getd ''cli'' vals ''name'' @ '' role='' @ role @ '' token='' @ tok)"
    by (rule adminTokenCmd_ok [OF assms(1,2,5,6), folded role_def])
  obtain f m where m: "Load_admin (be_H e) (be_salt1 e') (be_salt2 e') (be_env e') (Some (True, rows)) f = Inr (Some m)"
    "gc_AdminAuth gw = Some m"
    using same_store(3) [OF assms(2,7-10,3,4)] assms(11,12) by auto
  with t inserted_token_works [OF t(1) m(1)] show ?thesis unfolding role_of_bearer_def by blast
qed

subsection \<open>Witnesses\<close>

lemma demo_open_at: "\<exists>st. open_at (demo_boot_at ks rows) ''daigate.yaml'' = Some (demo_resolved, st, ks)"
proof -
  obtain st where st: "OpenStore (demo_boot_at ks rows) demo_resolved = (Inr (SqliteVault st, ks), [Opened ''broker.db''])"
    using demo_OpenStore by blast
  have "(config_defaults (demo_file ''''))\<lparr>f_Credential_Broker := ''broker.db''\<rparr> = demo_resolved"
    by (simp add: demo_resolved_def config_defaults_def demo_file_def)
  moreover have "Load_config (be_read (demo_boot_at ks rows)) (be_config_yaml (demo_boot_at ks rows)) ''daigate.yaml'' =
      Inr (config_defaults (demo_file ''''))"
    by (simp add: Load_config_def demo_boot_at_def)
  moreover have "f_Credential_Broker (resolvePaths (config_defaults (demo_file '''')) ''daigate.yaml'') = ''broker.db''"
    by (simp add: demo_paths) (simp add: demo_resolved_def)
  ultimately show ?thesis
    using st by (simp add: open_at_def Let_def resolved_broker split: if_splits)
qed

definition demo_keys_args :: "string list" where
  "demo_keys_args = [''-static'', ''-name=ci'', ''-scopes=model:m'']"

definition demo_keys_vals :: "(string, string) gomap" where
  "demo_keys_vals = [(''static'', ''true''), (''name'', ''ci''), (''scopes'', ''model:m'')]"

lemma demo_keys_flags: "parse_flags keys_flags demo_keys_args [] = Flags demo_keys_vals []"
  by (simp add: keys_flags_def config_flag_def demo_keys_args_def demo_keys_vals_def flag_arg_of_def bool_words_def Let_def Cut_def
      gm_set_def)

lemma demo_keys_vals:
  "config_path demo_keys_vals = ''daigate.yaml''" "gm_getd ''false'' demo_keys_vals ''static'' = ''true''"
  "gm_getd ''default'' demo_keys_vals ''name'' = ''ci''" "split_scopes (gm_getd '''' demo_keys_vals ''scopes'') = [''model:m'']"
  by (simp_all add: demo_keys_vals_def config_path_def gm_getd_def split_scopes_def TrimSpace_graphic graphic_def)

lemma demo_keysCreate:
  "\<exists>st. open_at demo_boot ''daigate.yaml'' = Some (demo_resolved, st, NewSQLStore) \<and>
     co_exit (keysCreateCmd demo_env demo_boot demo_keys_args) = 0 \<and>
     co_keys (keysCreateCmd demo_env demo_boot demo_keys_args) =
       Some (snd (SQL_Create demo_H demo_env ''ci'' ''static'' 0 [''model:m''] NewSQLStore))"
proof -
  obtain st where st: "open_at demo_boot ''daigate.yaml'' = Some (demo_resolved, st, NewSQLStore)"
    using demo_open_at by blast
  obtain ks where ks: "SQL_Create demo_H demo_env ''ci'' ''static'' 0 [''model:m''] NewSQLStore = (Inr (demo_secret, 1), ks)"
    using demo_create by blast
  have "be_H demo_boot = demo_H" by (simp add: demo_boot_at_def)
  with st ks show ?thesis
    by (simp add: keysCreateCmd_def demo_keys_flags demo_keys_vals Let_def KindStatic_def cli_done_def)
qed

theorem created_key_serves_witness:
  "\<exists>gw secret kid keys. openGateway (demo_boot_at (snd (SQL_Create demo_H demo_env ''ci'' ''static'' 0 [''model:m''] NewSQLStore)) [])
       demo_opts = (Inr gw, [Opened ''broker.db'']) \<and> gc_KeyStore gw = Some keys \<and>
     co_stdout (keysCreateCmd demo_env demo_boot demo_keys_args) =
       Line (''id='' @ show_int kid @ '' name=ci kind=static key='' @ secret) \<and>
     (\<forall>now q. bearerToken (rq_header q) = Inr secret \<longrightarrow>
        key_served (\<lambda>s. SQL_Verify demo_H True now s keys) \<lparr>prin_ID = ''ci'', prin_KeyID = kid, prin_Scopes = map to_utf8 [''model:m'']\<rparr> q)"
proof -
  let ?ks = "snd (SQL_Create demo_H demo_env ''ci'' ''static'' 0 [''model:m''] NewSQLStore)"
  obtain st where st: "open_at demo_boot ''daigate.yaml'' = Some (demo_resolved, st, NewSQLStore)"
    "co_exit (keysCreateCmd demo_env demo_boot demo_keys_args) = 0"
    "co_keys (keysCreateCmd demo_env demo_boot demo_keys_args) = Some ?ks"
    using demo_keysCreate by blast
  obtain gw where gw: "openGateway (demo_boot_at ?ks []) demo_opts = (Inr gw, [Opened ''broker.db''])"
    using demo_start by blast
  have o: "open_at demo_boot (config_path demo_keys_vals) =
      Some (demo_resolved, st, snd (sql_run (be_H demo_boot) [] NewSQLStore))"
    by (simp add: demo_keys_vals st)
  have same: "be_read (demo_boot_at ?ks []) = be_read demo_boot" "be_config_yaml (demo_boot_at ?ks []) = be_config_yaml demo_boot"
    "resolveConfigPath (be_stat (demo_boot_at ?ks [])) (so_ConfigPath demo_opts) = config_path demo_keys_vals"
    by (simp_all add: demo_boot_at_def demo_opts_def resolveConfigPath_def demo_keys_vals)
  have tail: "ce_tail demo_env = Some ''abcdefghijklmnopqrstuvwx''" "length ''abcdefghijklmnopqrstuvwx'' = 24"
    by (simp_all add: demo_env_def)
  have db: "df_keys (be_db (demo_boot_at ?ks []) (f_Credential_Broker demo_resolved)) = snd (sql_run (be_H demo_boot) [] ?ks)"
    by (simp add: demo_boot_at_def)
  have H: "be_H demo_boot = demo_H" by (simp add: demo_boot_at_def)
  obtain secret kid keys where k: "gc_KeyStore gw = Some keys"
    "co_stdout (keysCreateCmd demo_env demo_boot demo_keys_args) =
       Line (''id='' @ show_int kid @ '' name='' @ ''ci'' @ '' kind='' @ KindStatic @ '' key='' @ secret)"
    "\<And>now q. bearerToken (rq_header q) = Inr secret \<Longrightarrow>
       key_served (\<lambda>s. SQL_Verify demo_H True now s keys) \<lparr>prin_ID = ''ci'', prin_KeyID = kid, prin_Scopes = map to_utf8 [''model:m'']\<rparr> q"
    using created_key_serves [OF demo_keys_flags o st(2,3) tail gw same db]
    by (simp only: demo_keys_vals H simp_thms if_True list.set empty_iff) (elim conjE exE, rule that, assumption, assumption, blast)
  with gw show ?thesis by (auto simp: KindStatic_def)
qed

definition demo_token_args :: "string list" where
  "demo_token_args = [''-role=admin'', ''-name=ops'']"

definition demo_token_vals :: "(string, string) gomap" where
  "demo_token_vals = [(''role'', ''admin''), (''name'', ''ops'')]"

lemma demo_token_flags: "parse_flags token_flags demo_token_args [] = Flags demo_token_vals []"
  by (simp add: token_flags_def config_flag_def demo_token_args_def demo_token_vals_def flag_arg_of_def Let_def Cut_def gm_set_def)

lemma demo_token_vals:
  "config_path demo_token_vals = ''daigate.yaml''" "gm_getd ''provision'' demo_token_vals ''role'' = ''admin''"
  "gm_getd ''cli'' demo_token_vals ''name'' = ''ops''"
  by (simp_all add: demo_token_vals_def config_path_def gm_getd_def)

definition demo_token_rows :: "admin_row list" where
  "demo_token_rows = snd (Insert_token demo_H 0 (Some ''salt'') True ''ops'' RoleAdmin (hex_encode ''token'') [])"

lemma demo_adminToken:
  "\<exists>st. open_at demo_boot ''daigate.yaml'' = Some (demo_resolved, st, NewSQLStore) \<and>
     co_exit (adminTokenCmd (Some ''token'') 0 demo_boot (''create'' # demo_token_args)) = 0 \<and>
     co_tokens (adminTokenCmd (Some ''token'') 0 demo_boot (''create'' # demo_token_args)) = Some demo_token_rows"
proof -
  obtain st where st: "OpenStore demo_boot demo_resolved = (Inr (SqliteVault st, NewSQLStore), [Opened ''broker.db''])"
    "df_admin st = (True, [])"
    using demo_OpenStore by blast
  obtain st' where o: "open_at demo_boot ''daigate.yaml'' = Some (demo_resolved, st', NewSQLStore)"
    using demo_open_at by blast
  then have "st' = SqliteVault st" using st(1) by (metis Pair_inject open_at_Some sum.inject(2))
  moreover have "be_H demo_boot = demo_H" "be_salt1 demo_boot = Some ''salt''" by (simp_all add: demo_boot_at_def)
  ultimately show ?thesis
    using o st(2)
    by (simp add: adminTokenCmd_def demo_token_flags demo_token_vals randomToken_def BrokerDB_def demo_token_rows_def Insert_token_def
        argon_Seal_def RoleAdmin_def cli_done_def Let_def)
qed

theorem created_token_works_witness:
  "\<exists>gw tok m. openGateway (demo_boot_at NewSQLStore demo_token_rows) demo_opts = (Inr gw, [Opened ''broker.db'']) \<and>
     gc_AdminAuth gw = Some m \<and>
     co_stdout (adminTokenCmd (Some ''token'') 0 demo_boot (''create'' # demo_token_args)) = Line (''name=ops role=admin token='' @ tok) \<and>
     (\<forall>r. admin_bearer (rq_header r) = Some tok \<longrightarrow> Require demo_H m r = Pass ''admin'')"
proof -
  obtain st where st: "open_at demo_boot (config_path demo_token_vals) = Some (demo_resolved, st, NewSQLStore)"
    "co_exit (adminTokenCmd (Some ''token'') 0 demo_boot (''create'' # demo_token_args)) = 0"
    "co_tokens (adminTokenCmd (Some ''token'') 0 demo_boot (''create'' # demo_token_args)) = Some demo_token_rows"
    using demo_adminToken by (auto simp: demo_token_vals)
  obtain gw where gw: "openGateway (demo_boot_at NewSQLStore demo_token_rows) demo_opts = (Inr gw, [Opened ''broker.db''])"
    using demo_start by blast
  have f: "TrimSpace (f_Credential_Backend demo_resolved) \<in> {'''', ''sqlite''}" "AdminPlaneEnabled demo_resolved"
    by (simp_all add: demo_resolved_def config_defaults_def demo_file_def AdminPlaneEnabled_def TrimSpace_graphic graphic_def)
  have same: "be_read (demo_boot_at NewSQLStore demo_token_rows) = be_read demo_boot"
    "be_config_yaml (demo_boot_at NewSQLStore demo_token_rows) = be_config_yaml demo_boot"
    "resolveConfigPath (be_stat (demo_boot_at NewSQLStore demo_token_rows)) (so_ConfigPath demo_opts) = config_path demo_token_vals"
    "be_H (demo_boot_at NewSQLStore demo_token_rows) = be_H demo_boot"
    "df_admin (be_db (demo_boot_at NewSQLStore demo_token_rows) (f_Credential_Broker demo_resolved)) = (True, demo_token_rows)"
    by (simp_all add: demo_boot_at_def demo_opts_def resolveConfigPath_def demo_token_vals)
  have H: "be_H demo_boot = demo_H" by (simp add: demo_boot_at_def)
  obtain m f where m: "gc_AdminAuth gw = Some m"
    "Load_admin demo_H (Some ''salt'') (Some ''salt'') (\<lambda>_. StdEncode demo_key) (Some (True, demo_token_rows)) f = Inr (Some m)"
    using same_store(3) [OF st(1) gw same(1-3) f] same(5) by (auto simp: demo_boot_at_def)
  then have role: "(case find P (butlast m) of None \<Rightarrow> ''admin'' | Some e1 \<Rightarrow> te_role e1) = ''admin''"
    if "P = (\<lambda>e1. argon_Verify demo_H tok (te_sealed e1))" for P tok
    by (auto simp: that Load_admin_def seal_entry_def demo_encoded_key argon_Seal_def loadDBTokens_def demo_token_rows_def
        Insert_token_def RoleAdmin_def split: if_splits)
  from created_token_works [OF demo_token_flags st(1) f st(2,3) gw same] gw m(1) show ?thesis
    unfolding demo_token_vals H by (elim exE conjE) (intro exI conjI, assumption+, simp, simp add: role RoleProvision_def)
qed

end
