(* ===== verification/Observability.thy ===== *)
theory Observability
  imports WireLaws
begin

section \<open>Logs, metrics and telemetry\<close>

text \<open>
  \<^verbatim>\<open>observability\<close>: the export settings read from the environment, the process-wide provider with its exporters, the
  correlation id, the slog handlers, the writer that remembers the status, and the record of each ingress request.
  Exporters, spans, instruments and sinks are OpenTelemetry's: starting an exporter is an event, an outcome of it
  is an argument, and what is recorded is a value.
\<close>

subsection \<open>Settings\<close>

record obs_config =
  oc_Enabled :: bool
  oc_ServiceName :: string
  oc_Endpoint :: string
  oc_Headers :: "(string, string) gomap"

definition truthy :: "string \<Rightarrow> bool" where
  "truthy s \<longleftrightarrow> ToLower (TrimSpace s) \<in> {''1'', ''true'', ''yes'', ''on''}"

definition header_part :: "string \<Rightarrow> (string, string) gomap \<Rightarrow> (string, string) gomap" where
  "header_part part0 out =
     (let part = TrimSpace part0 in
      if part = '''' then out
      else case Cut CHR ''='' part of
        None \<Rightarrow> out
      | Some (k, v) \<Rightarrow> (if TrimSpace k \<noteq> '''' then gm_set (TrimSpace k) (TrimSpace v) out else out))"

definition parseHeaderKV :: "string \<Rightarrow> (string, string) gomap" where
  "parseHeaderKV raw0 =
     (let raw = TrimSpace raw0 in if raw = '''' then [] else fold header_part (Split CHR '','' raw) [])"

definition otlpHeaders :: "(string \<Rightarrow> string) \<Rightarrow> (string, string) gomap" where
  "otlpHeaders env =
     (let out = parseHeaderKV (env ''OTEL_EXPORTER_OTLP_HEADERS''); token = TrimSpace (env ''OTEL_EXPORTER_AUTH_TOKEN'') in
      if token \<noteq> '''' \<and> gm_get out ''Authorization'' = None then gm_set ''Authorization'' (''Bearer '' @ token) out else out)"

definition LoadConfig :: "(string \<Rightarrow> string) \<Rightarrow> string \<Rightarrow> obs_config" where
  "LoadConfig env serviceName =
     (if truthy (env ''OTEL_SDK_DISABLED'')
      then \<lparr>oc_Enabled = False, oc_ServiceName = serviceName, oc_Endpoint = '''', oc_Headers = []\<rparr>
      else
        (let endpoint = TrimSpace (env ''OTEL_EXPORTER_OTLP_ENDPOINT'') in
         if endpoint = ''''
         then \<lparr>oc_Enabled = False, oc_ServiceName = TrimSpace serviceName, oc_Endpoint = '''', oc_Headers = []\<rparr>
         else
           (let name = TrimSpace (env ''OTEL_SERVICE_NAME'') in
            \<lparr>oc_Enabled = True, oc_ServiceName = TrimSpace (if name \<noteq> '''' then name else serviceName), oc_Endpoint = endpoint,
             oc_Headers = otlpHeaders env\<rparr>)))"

definition normalizeOTLPEndpoint :: "string \<Rightarrow> string \<Rightarrow> string" where
  "normalizeOTLPEndpoint endpoint0 path =
     (let endpoint = TrimSpace endpoint0 in
      if endpoint = '''' then endpoint
      else
        (let base = TrimRight CHR ''/'' endpoint in if HasSuffix base path then base else base @ path))"

text \<open>The configured header beats the token.\<close>

lemma otlpHeaders_explicit:
  "gm_get (parseHeaderKV (env ''OTEL_EXPORTER_OTLP_HEADERS'')) ''Authorization'' = Some v \<Longrightarrow>
     otlpHeaders env = parseHeaderKV (env ''OTEL_EXPORTER_OTLP_HEADERS'')"
  by (simp add: otlpHeaders_def Let_def)

lemma LoadConfig_off: "\<not> oc_Enabled (LoadConfig env n) \<longleftrightarrow>
    truthy (env ''OTEL_SDK_DISABLED'') \<or> TrimSpace (env ''OTEL_EXPORTER_OTLP_ENDPOINT'') = ''''"
  by (simp add: LoadConfig_def Let_def)

subsection \<open>The provider of the process\<close>

text \<open>
  An exporter is a signal with the number of the \<^verbatim>\<open>Init\<close> that made it. \<open>tl_running\<close> holds those that were started
  and not shut down. OpenTelemetry keeps one provider of each signal for the process: \<open>tl_installed\<close> is the current
  one, \<open>tl_first\<close> the first that was ever installed, by an \<^verbatim>\<open>Init\<close> (\<open>Ours\<close>) or by the program around the gateway
  (\<open>Host\<close>). A meter or tracer that is taken from the process before any provider was installed is \<open>Delegate\<close>: it belongs to the
  first one from then on; any other is bound to the provider it was taken from.
  \<open>tl_fanout\<close>: the ingress log also goes to the log exporter; \<open>tl_slog\<close> is the exporter that \<^verbatim>\<open>slog\<close>'s default logger writes to.
\<close>

datatype signal = Traces | Metrics | Logs

datatype otel_provider = Ours nat | Host nat

datatype otel_handle = Bound otel_provider | Delegate

text \<open>The four instruments, each with the meter it was made by.\<close>

record instrument =
  in_meter :: otel_handle
  in_name :: string
  in_unit :: string

record InstrumentSet =
  is_ingressTotal :: instrument
  is_ingressDuration :: instrument
  is_upstreamTotal :: instrument
  is_upstreamDuration :: instrument

definition newMetrics :: "otel_handle \<Rightarrow> InstrumentSet" where
  "newMetrics meter =
     \<lparr>is_ingressTotal = \<lparr>in_meter = meter, in_name = ''daigate.ingress.requests'', in_unit = ''''\<rparr>,
      is_ingressDuration = \<lparr>in_meter = meter, in_name = ''daigate.ingress.duration_ms'', in_unit = ''ms''\<rparr>,
      is_upstreamTotal = \<lparr>in_meter = meter, in_name = ''daigate.upstream.requests'', in_unit = ''''\<rparr>,
      is_upstreamDuration = \<lparr>in_meter = meter, in_name = ''daigate.upstream.duration_ms'', in_unit = ''ms''\<rparr>\<rparr>"

text \<open>Made when the package is initialised, before anything can be installed.\<close>

definition noopInst :: InstrumentSet where
  "noopInst = newMetrics Delegate"

record obs_provider =
  ob_cfg :: obs_config
  ob_attached :: bool
  ob_exports :: "nat option"
  ob_Metrics :: InstrumentSet
  ob_tracer :: otel_handle

record telemetry =
  tl_global :: "obs_provider option"
  tl_fanout :: bool
  tl_slog :: "nat option"
  tl_inits :: nat
  tl_running :: "(signal \<times> nat) list"
  tl_installed :: "signal \<Rightarrow> otel_provider option"
  tl_first :: "signal \<Rightarrow> otel_provider option"

definition process_handle :: "telemetry \<Rightarrow> signal \<Rightarrow> otel_handle" where
  "process_handle s sg = (case tl_installed s sg of None \<Rightarrow> Delegate | Some p \<Rightarrow> Bound p)"

definition install :: "signal \<Rightarrow> otel_provider \<Rightarrow> telemetry \<Rightarrow> telemetry" where
  "install sg p s =
     s\<lparr>tl_installed := (tl_installed s)(sg := Some p),
       tl_first := (if tl_first s sg = None then (tl_first s)(sg := Some p) else tl_first s)\<rparr>"

lemma install_frame [simp]:
  "tl_global (install sg p s) = tl_global s" "tl_fanout (install sg p s) = tl_fanout s" "tl_slog (install sg p s) = tl_slog s"
  "tl_inits (install sg p s) = tl_inits s" "tl_running (install sg p s) = tl_running s"
  by (simp_all add: install_def)

text \<open>The provider that what a handle records goes to, if any.\<close>

definition goes_to :: "telemetry \<Rightarrow> signal \<Rightarrow> otel_handle \<Rightarrow> otel_provider option" where
  "goes_to s sg h = (case h of Bound p \<Rightarrow> Some p | Delegate \<Rightarrow> tl_first s sg)"

text \<open>What an \<^verbatim>\<open>Init\<close> meets: the environment and the outcomes of the resource and of the three exporters.\<close>

record init_env =
  ie_env :: "string \<Rightarrow> string"
  ie_resource_ok :: bool
  ie_exporter_ok :: "signal \<Rightarrow> string \<Rightarrow> (string, string) gomap \<Rightarrow> bool"

datatype obs_error = ObsResource | ObsExporter signal

definition start_exporter :: "signal \<Rightarrow> telemetry \<Rightarrow> telemetry" where
  "start_exporter sg s = install sg (Ours (tl_inits s)) (s\<lparr>tl_running := (sg, tl_inits s) # tl_running s\<rparr>)"

definition stop_exporter :: "signal \<Rightarrow> nat \<Rightarrow> telemetry \<Rightarrow> telemetry" where
  "stop_exporter sg n s = s\<lparr>tl_running := filter (\<lambda>x. x \<noteq> (sg, n)) (tl_running s)\<rparr>"

definition exporter_starts :: "init_env \<Rightarrow> obs_config \<Rightarrow> signal \<Rightarrow> bool" where
  "exporter_starts ie cfg sg =
     ie_exporter_ok ie sg
       (normalizeOTLPEndpoint (oc_Endpoint cfg) (case sg of Traces \<Rightarrow> ''/v1/traces'' | Metrics \<Rightarrow> ''/v1/metrics'' | Logs \<Rightarrow> ''/v1/logs''))
       (oc_Headers cfg)"

definition Init :: "init_env \<Rightarrow> string \<Rightarrow> telemetry \<Rightarrow> (obs_error, obs_provider) res \<times> telemetry" where
  "Init ie serviceName s =
     (case tl_global s of
        Some p \<Rightarrow> (Inr p, s)
      | None \<Rightarrow>
          (let cfg = LoadConfig (ie_env ie) serviceName in
           if \<not> oc_Enabled cfg then
             (let p = \<lparr>ob_cfg = cfg, ob_attached = False, ob_exports = None, ob_Metrics = noopInst,
                       ob_tracer = process_handle s Traces\<rparr>
              in (Inr p, s\<lparr>tl_global := Some p\<rparr>))
           else if \<not> ie_resource_ok ie then (Inl ObsResource, s)
           else
             (let s0 = s\<lparr>tl_inits := Suc (tl_inits s)\<rparr>; n = tl_inits s0 in
              if \<not> exporter_starts ie cfg Traces then (Inl (ObsExporter Traces), s0)
              else
                (let s1 = start_exporter Traces s0 in
                 if \<not> exporter_starts ie cfg Metrics then (Inl (ObsExporter Metrics), stop_exporter Traces n s1)
                 else
                   (let s2 = start_exporter Metrics s1 in
                    if \<not> exporter_starts ie cfg Logs
                    then (Inl (ObsExporter Logs), stop_exporter Traces n (stop_exporter Metrics n s2))
                    else
                      (let s3 = start_exporter Logs s2;
                           p = \<lparr>ob_cfg = cfg, ob_attached = False, ob_exports = Some n, ob_Metrics = newMetrics (Bound (Ours n)),
                                ob_tracer = Bound (Ours n)\<rparr>
                       in (Inr p, s3\<lparr>tl_global := Some p, tl_fanout := True, tl_slog := Some n\<rparr>)))))))"

definition Hook :: "string \<Rightarrow> telemetry \<Rightarrow> telemetry" where
  "Hook serviceName s =
     (case tl_global s of
        Some _ \<Rightarrow> s
      | None \<Rightarrow>
          (let name = (if TrimSpace serviceName = '''' then ''daigate'' else TrimSpace serviceName) in
           s\<lparr>tl_global := Some
               \<lparr>ob_cfg = \<lparr>oc_Enabled = True, oc_ServiceName = name, oc_Endpoint = '''', oc_Headers = []\<rparr>,
                ob_attached = True, ob_exports = None, ob_Metrics = newMetrics (process_handle s Metrics),
                ob_tracer = process_handle s Traces\<rparr>\<rparr>))"

definition Hooked :: "telemetry \<Rightarrow> bool" where
  "Hooked s = (case tl_global s of None \<Rightarrow> False | Some p \<Rightarrow> ob_attached p)"

definition Enabled :: "telemetry \<Rightarrow> bool" where
  "Enabled s = (case tl_global s of None \<Rightarrow> False | Some p \<Rightarrow> oc_Enabled (ob_cfg p) \<or> ob_attached p)"

text \<open>What the callers get: the instruments and the tracer of the provider, or those for no provider.\<close>

definition Metrics_of :: "telemetry \<Rightarrow> InstrumentSet" where
  "Metrics_of s = (case tl_global s of None \<Rightarrow> noopInst | Some p \<Rightarrow> ob_Metrics p)"

definition Tracer :: "telemetry \<Rightarrow> otel_handle" where
  "Tracer s = (case tl_global s of None \<Rightarrow> process_handle s Traces | Some p \<Rightarrow> ob_tracer p)"

text \<open>The exporters are shut down logs first; \<open>fails\<close> says whose shutdown reports an error, and the first one is returned.\<close>

definition Shutdown_obs :: "(signal \<Rightarrow> bool) \<Rightarrow> telemetry \<Rightarrow> signal option \<times> telemetry" where
  "Shutdown_obs fails s =
     (let s1 = s\<lparr>tl_global := None, tl_fanout := False\<rparr> in
      case tl_global s of
        None \<Rightarrow> (None, s1)
      | Some p \<Rightarrow>
          (if ob_attached p then (None, s1)
           else case ob_exports p of
             None \<Rightarrow> (None, s1)
           | Some n \<Rightarrow>
               (find fails [Logs, Metrics, Traces], stop_exporter Traces n (stop_exporter Metrics n (stop_exporter Logs n s1)))))"

definition Boot :: "init_env \<Rightarrow> string \<Rightarrow> telemetry \<Rightarrow> telemetry" where
  "Boot ie serviceName s = snd (Init ie serviceName s)"

definition ShutdownGraceful :: "(signal \<Rightarrow> bool) \<Rightarrow> telemetry \<Rightarrow> telemetry" where
  "ShutdownGraceful fails s = (if Hooked s then s else snd (Shutdown_obs fails s))"

subsection \<open>Exporters are accounted for\<close>

definition telemetry_start :: telemetry where
  "telemetry_start = \<lparr>tl_global = None, tl_fanout = False, tl_slog = None, tl_inits = 0, tl_running = [],
     tl_installed = (\<lambda>_. None), tl_first = (\<lambda>_. None)\<rparr>"

text \<open>Any call of the package, and the program around the gateway installing a provider of its own.\<close>

inductive telemetry_step :: "telemetry \<Rightarrow> telemetry \<Rightarrow> bool" where
  step_boot: "telemetry_step s (Boot ie name s)"
| step_init: "Init ie name s = (r, s') \<Longrightarrow> telemetry_step s s'"
| step_hook: "telemetry_step s (Hook name s)"
| step_shutdown: "Shutdown_obs fails s = (err, s') \<Longrightarrow> telemetry_step s s'"
| step_graceful: "telemetry_step s (ShutdownGraceful fails s)"
| step_host: "telemetry_step s (install sg (Host k) s)"

definition exporters_of :: "obs_provider option \<Rightarrow> (signal \<times> nat) set" where
  "exporters_of g =
     (case g of
        None \<Rightarrow> {}
      | Some p \<Rightarrow>
          (case ob_exports p of None \<Rightarrow> {} | Some n \<Rightarrow> (if ob_attached p then {} else {(Traces, n), (Metrics, n), (Logs, n)})))"

definition accounted :: "telemetry \<Rightarrow> bool" where
  "accounted s \<longleftrightarrow>
     set (tl_running s) = exporters_of (tl_global s) \<and> distinct (tl_running s) \<and>
     (\<forall>(sg, n) \<in> set (tl_running s). n \<le> tl_inits s) \<and> (tl_fanout s \<longleftrightarrow> exporters_of (tl_global s) \<noteq> {}) \<and>
     (\<forall>p. tl_global s = Some p \<longrightarrow>
        (ob_exports p \<noteq> None \<longleftrightarrow> oc_Enabled (ob_cfg p) \<and> \<not> ob_attached p) \<and>
        (\<forall>n. ob_exports p = Some n \<longrightarrow> ob_Metrics p = newMetrics (Bound (Ours n)) \<and> ob_tracer p = Bound (Ours n)) \<and>
        (\<not> oc_Enabled (ob_cfg p) \<longrightarrow> ob_Metrics p = noopInst))"

lemma accounted_start: "accounted telemetry_start"
  by (simp add: accounted_def telemetry_start_def exporters_of_def)

lemma accounted_install: "accounted s \<Longrightarrow> accounted (install sg p s)"
  by (simp add: accounted_def)

lemma accounted_Init: "accounted s \<Longrightarrow> Init ie name s = (r, s') \<Longrightarrow> accounted s'"
  by (cases "tl_global s")
    (auto simp: Init_def accounted_def exporters_of_def start_exporter_def stop_exporter_def Let_def split: if_splits)

lemma accounted_Hook: "accounted s \<Longrightarrow> accounted (Hook name s)"
  by (cases "tl_global s") (auto simp: Hook_def accounted_def exporters_of_def Let_def)

lemma Shutdown_obs_clears:
  assumes "accounted s" "Shutdown_obs fails s = (err, s')"
  shows "tl_running s' = [] \<and> tl_global s' = None \<and> \<not> tl_fanout s'"
proof (cases "exporters_of (tl_global s) = {}")
  case True
  then have "tl_running s = []" using assms(1) by (simp add: accounted_def)
  with assms(2) show ?thesis
    by (auto simp: Shutdown_obs_def stop_exporter_def Let_def split: option.splits if_splits)
next
  case False
  then obtain p n where p: "tl_global s = Some p" "ob_exports p = Some n" "\<not> ob_attached p"
    by (auto simp: exporters_of_def split: option.splits if_splits)
  then have "set (tl_running s) = {(Traces, n), (Metrics, n), (Logs, n)}"
    using assms(1) by (simp add: accounted_def exporters_of_def)
  then have "filter (\<lambda>x. x \<noteq> (Traces, n)) (filter (\<lambda>x. x \<noteq> (Metrics, n)) (filter (\<lambda>x. x \<noteq> (Logs, n)) (tl_running s))) = []"
    by (auto simp: filter_empty_conv)
  with assms(2) p show ?thesis
    by (auto simp: Shutdown_obs_def stop_exporter_def Let_def simp del: filter_filter)
qed

lemma accounted_Shutdown: "accounted s \<Longrightarrow> Shutdown_obs fails s = (err, s') \<Longrightarrow> accounted s'"
  using Shutdown_obs_clears [of s fails err s'] by (simp add: accounted_def exporters_of_def)

lemma accounted_step: "telemetry_step s s' \<Longrightarrow> accounted s \<Longrightarrow> accounted s'"
proof (induction rule: telemetry_step.induct)
  case (step_boot s ie name)
  then show ?case using accounted_Init [of s ie name] by (simp add: Boot_def prod_eq_iff)
next
  case (step_graceful s fails)
  then show ?case using accounted_Shutdown [of s fails] by (simp add: ShutdownGraceful_def prod_eq_iff)
next
  case (step_host s sg k)
  then show ?case by (rule accounted_install)
next
  case (step_init ie name s r s')
  then show ?case using accounted_Init by blast
next
  case (step_shutdown s fails err s')
  then show ?case using accounted_Shutdown by blast
qed (rule accounted_Hook)

text \<open>A step on any state: what single calls keep, every sequence of calls keeps.\<close>

abbreviation telemetry_steps :: "telemetry \<Rightarrow> telemetry \<Rightarrow> bool" where
  "telemetry_steps \<equiv> telemetry_step\<^sup>*\<^sup>*"

lemma telemetry_steps_invariant:
  assumes "telemetry_steps s s'" "P s" "\<And>s s'. telemetry_step s s' \<Longrightarrow> P s \<Longrightarrow> P s'"
  shows "P s'"
  using assms(1,2) by (induction rule: rtranclp_induct) (auto intro: assms(3))

lemma accounted_reachable: "telemetry_steps telemetry_start s \<Longrightarrow> accounted s"
  by (erule telemetry_steps_invariant [where P = accounted]) (auto intro: accounted_start accounted_step)

lemma Shutdown_obs_running: "accounted s \<Longrightarrow> tl_running (snd (Shutdown_obs fails s)) = []"
  using Shutdown_obs_clears [of s fails] by (cases "Shutdown_obs fails s") simp

lemma ShutdownGraceful_running:
  assumes "accounted s"
  shows "tl_running (ShutdownGraceful fails s) = []"
proof (cases "Hooked s")
  case True
  then have "exporters_of (tl_global s) = {}" by (auto simp: Hooked_def exporters_of_def split: option.splits)
  with True assms show ?thesis by (simp add: ShutdownGraceful_def accounted_def)
qed (simp add: ShutdownGraceful_def Shutdown_obs_running assms)

lemma accounted_running:
  assumes "accounted s" "(sg, n) \<in> set (tl_running s)"
  shows "Metrics_of s = newMetrics (Bound (Ours n)) \<and> Tracer s = Bound (Ours n)"
proof -
  obtain p where "tl_global s = Some p" "ob_exports p = Some n"
    using assms by (auto simp: accounted_def exporters_of_def split: option.splits if_splits)
  with assms(1) show ?thesis by (simp add: accounted_def Metrics_of_def Tracer_def)
qed

lemma accounted_off: "accounted s \<Longrightarrow> \<not> Enabled s \<Longrightarrow> Metrics_of s = noopInst"
  by (simp add: accounted_def Enabled_def Metrics_of_def split: option.splits)

lemma Init_failed: "Init ie name s = (Inl err, s') \<Longrightarrow> tl_global s' = None \<and> tl_global s = None"
  by (cases "tl_global s") (auto simp: Init_def start_exporter_def stop_exporter_def Let_def split: if_splits)

text \<open>
  (C000) No exporter is leaked. After any calls of \<^verbatim>\<open>Boot\<close>, \<^verbatim>\<open>Init\<close>, \<^verbatim>\<open>Hook\<close>, \<^verbatim>\<open>Shutdown\<close> and
  \<^verbatim>\<open>ShutdownGraceful\<close> in any order, one after the other, the running exporters are exactly the three of the current provider, or none
  when there is no provider, export is off, or the provider belongs to the embedder; the ingress log goes to the log exporter
  exactly then. So an \<^verbatim>\<open>Init\<close> that fails halfway leaves nothing running, and after \<^verbatim>\<open>Shutdown\<close> or
  \<^verbatim>\<open>ShutdownGraceful\<close> nothing runs. While exporters run, metrics and spans go to them, whatever the program
  around the gateway installs. While the gateway's telemetry is off, its instruments are the ones made at start, and these are not
  without effect: what they record goes to the first meter provider that anyone installed in the process.
\<close>

theorem exporters_accounted:
  assumes "telemetry_steps telemetry_start s"
  shows "set (tl_running s) = exporters_of (tl_global s) \<and> distinct (tl_running s) \<and>
    (tl_fanout s \<longleftrightarrow> tl_running s \<noteq> []) \<and>
    (\<forall>p. tl_global s = Some p \<longrightarrow> (tl_running s \<noteq> [] \<longleftrightarrow> oc_Enabled (ob_cfg p) \<and> \<not> ob_attached p)) \<and>
    (\<forall>ie name err s'. Init ie name s = (Inl err, s') \<longrightarrow> tl_running s' = []) \<and>
    (\<forall>fails. tl_running (snd (Shutdown_obs fails s)) = [] \<and> tl_running (ShutdownGraceful fails s) = []) \<and>
    (\<forall>sg n. (sg, n) \<in> set (tl_running s) \<longrightarrow> Metrics_of s = newMetrics (Bound (Ours n)) \<and> Tracer s = Bound (Ours n)) \<and>
    (\<not> Enabled s \<longrightarrow> Metrics_of s = noopInst \<and>
       goes_to s Metrics (in_meter (is_ingressTotal (Metrics_of s))) = tl_first s Metrics)"
proof -
  have a: "accounted s" by (rule accounted_reachable [OF assms])
  then have run: "tl_running s = [] \<longleftrightarrow> exporters_of (tl_global s) = {}" by (simp add: accounted_def flip: set_empty)
  have "tl_running s' = []" if "Init ie name s = (Inl err, s')" for ie name err s'
    using accounted_Init [OF a that] Init_failed [OF that] by (simp add: accounted_def exporters_of_def)
  moreover have "tl_running s \<noteq> [] \<longleftrightarrow> oc_Enabled (ob_cfg p) \<and> \<not> ob_attached p" if "tl_global s = Some p" for p
    using a that by (auto simp: run) (auto simp: accounted_def exporters_of_def split: option.splits if_splits)
  moreover have "Metrics_of s = newMetrics (Bound (Ours n)) \<and> Tracer s = Bound (Ours n)" if "(sg, n) \<in> set (tl_running s)" for sg n
    using accounted_running [OF a that] .
  moreover have "Metrics_of s = noopInst" if "\<not> Enabled s"
    by (rule accounted_off [OF a that])
  moreover have "goes_to s Metrics (in_meter (is_ingressTotal noopInst)) = tl_first s Metrics"
    by (simp add: goes_to_def noopInst_def newMetrics_def)
  ultimately show ?thesis using a run Shutdown_obs_running [OF a] ShutdownGraceful_running [OF a] by (simp add: accounted_def)
qed

subsection \<open>Correlation and the log handlers\<close>

text \<open>The parts of a context that are read here: the span, and the correlation id if one was stored.\<close>

record span_context =
  sc_valid :: bool
  sc_trace_id :: string
  sc_span_id :: string

record obs_ctx =
  cx_span :: span_context
  cx_correlation :: "string option"

definition WithCorrelationID :: "obs_ctx \<Rightarrow> string \<Rightarrow> obs_ctx" where
  "WithCorrelationID ctx correlationID =
     (if TrimSpace correlationID = '''' then ctx else ctx\<lparr>cx_correlation := Some (TrimSpace correlationID)\<rparr>)"

definition CorrelationIDFromContext :: "obs_ctx option \<Rightarrow> string" where
  "CorrelationIDFromContext ctx =
     (case ctx of
        None \<Rightarrow> ''''
      | Some c \<Rightarrow> TrimSpace (case cx_correlation c of None \<Rightarrow> '''' | Some v \<Rightarrow> v))"

lemma correlation_kept: "TrimSpace v \<noteq> '''' \<Longrightarrow> CorrelationIDFromContext (Some (WithCorrelationID ctx v)) = TrimSpace v"
  by (simp add: WithCorrelationID_def CorrelationIDFromContext_def)

datatype attr_val = AStr string | AInt int

type_synonym attrs = "(string \<times> attr_val) list"

record slog_record =
  sr_level :: int
  sr_msg :: string
  sr_attrs :: attrs

text \<open>
  The interface \<^verbatim>\<open>slog.Handler\<close>. A handler acts on the state \<open>'s\<close> of its sinks; \<open>True\<close> is an error. \<^verbatim>\<open>WithAttrs\<close> and
  \<^verbatim>\<open>WithGroup\<close> give a handler again, so handlers are a codatatype.
\<close>

codatatype 's slog_handler = SlogHandler
  (sh_Enabled: "int \<Rightarrow> bool")
  (sh_Handle: "obs_ctx \<Rightarrow> slog_record \<Rightarrow> 's \<Rightarrow> bool \<times> 's")
  (sh_WithAttrs: "attrs \<Rightarrow> 's slog_handler")
  (sh_WithGroup: "string \<Rightarrow> 's slog_handler")

definition trace_attrs :: "obs_ctx \<Rightarrow> attrs" where
  "trace_attrs ctx =
     (if sc_valid (cx_span ctx)
      then [(''trace_id'', AStr (sc_trace_id (cx_span ctx))), (''span_id'', AStr (sc_span_id (cx_span ctx)))] else []) @
     (if CorrelationIDFromContext (Some ctx) \<noteq> '''' then [(''correlation_id'', AStr (CorrelationIDFromContext (Some ctx)))] else [])"

primcorec newTraceContextHandler :: "'s slog_handler \<Rightarrow> 's slog_handler" where
  "sh_Enabled (newTraceContextHandler inner) = sh_Enabled inner"
| "sh_Handle (newTraceContextHandler inner) =
     (\<lambda>ctx r. sh_Handle inner ctx (r\<lparr>sr_attrs := sr_attrs r @ trace_attrs ctx\<rparr>))"
| "sh_WithAttrs (newTraceContextHandler inner) = (\<lambda>attrs. newTraceContextHandler (sh_WithAttrs inner attrs))"
| "sh_WithGroup (newTraceContextHandler inner) = (\<lambda>name. newTraceContextHandler (sh_WithGroup inner name))"

fun fanout_handle :: "'s slog_handler list \<Rightarrow> obs_ctx \<Rightarrow> slog_record \<Rightarrow> 's \<Rightarrow> bool \<times> 's" where
  "fanout_handle [] ctx r s = (False, s)"
| "fanout_handle (h # hs) ctx r s =
     (if sh_Enabled h (sr_level r) then
        (case sh_Handle h ctx r s of (err, s') \<Rightarrow> (if err then (True, s') else fanout_handle hs ctx r s'))
      else fanout_handle hs ctx r s)"

primcorec newFanoutHandler :: "'s slog_handler list \<Rightarrow> 's slog_handler" where
  "sh_Enabled (newFanoutHandler hs) = (\<lambda>l. list_ex (\<lambda>h. sh_Enabled h l) hs)"
| "sh_Handle (newFanoutHandler hs) = fanout_handle hs"
| "sh_WithAttrs (newFanoutHandler hs) = (\<lambda>attrs. newFanoutHandler (map (\<lambda>h. sh_WithAttrs h attrs) hs))"
| "sh_WithGroup (newFanoutHandler hs) = (\<lambda>name. newFanoutHandler (map (\<lambda>h. sh_WithGroup h name) hs))"

text \<open>Without an error every enabled handler sees the record, in order; a handler that is not enabled sees nothing.\<close>

lemma fanout_all:
  assumes "\<And>h s. h \<in> set hs \<Longrightarrow> sh_Enabled h (sr_level r) \<Longrightarrow> \<not> fst (sh_Handle h ctx r s)"
  shows "fanout_handle hs ctx r s =
    (False, fold (\<lambda>h s. snd (sh_Handle h ctx r s)) (filter (\<lambda>h. sh_Enabled h (sr_level r)) hs) s)"
  using assms
proof (induction hs arbitrary: s)
  case (Cons h hs)
  obtain err s' where h: "sh_Handle h ctx r s = (err, s')" by fastforce
  have "\<not> err" if "sh_Enabled h (sr_level r)" using Cons.prems [of h s] that h by simp
  moreover have "fanout_handle hs ctx r t =
      (False, fold (\<lambda>h s. snd (sh_Handle h ctx r s)) (filter (\<lambda>h. sh_Enabled h (sr_level r)) hs) t)" for t
    by (rule Cons.IH) (use Cons.prems in auto)
  ultimately show ?case using h by simp
qed simp

text \<open>
  The ingress log of a process that exports: the trace ids are added in front of each of the two sinks. Adding them once in front of
  the fan-out is the same, also after any attributes and groups.
\<close>

definition ingress_handler :: "'s slog_handler \<Rightarrow> 's slog_handler \<Rightarrow> 's slog_handler" where
  "ingress_handler stderr otel = newFanoutHandler [newTraceContextHandler stderr, newTraceContextHandler otel]"

lemma fanout_handle_trace:
  "fanout_handle (map newTraceContextHandler hs) ctx r s = fanout_handle hs ctx (r\<lparr>sr_attrs := sr_attrs r @ trace_attrs ctx\<rparr>) s"
  by (induction hs arbitrary: s) (auto split: prod.split)

lemma trace_of_fanout: "newTraceContextHandler (newFanoutHandler hs) = newFanoutHandler (map newTraceContextHandler hs)"
proof (coinduction arbitrary: hs)
  case Eq_slog_handler
  have "sh_Enabled (newTraceContextHandler (newFanoutHandler hs)) = sh_Enabled (newFanoutHandler (map newTraceContextHandler hs))"
    by (auto simp: list_ex_iff)
  moreover have "sh_Handle (newTraceContextHandler (newFanoutHandler hs)) = sh_Handle (newFanoutHandler (map newTraceContextHandler hs))"
    by (auto simp: fanout_handle_trace fun_eq_iff)
  moreover have "\<exists>hs'. sh_WithAttrs (newTraceContextHandler (newFanoutHandler hs)) a = newTraceContextHandler (newFanoutHandler hs') \<and>
      sh_WithAttrs (newFanoutHandler (map newTraceContextHandler hs)) a = newFanoutHandler (map newTraceContextHandler hs')" for a
    by (rule exI [of _ "map (\<lambda>h. sh_WithAttrs h a) hs"]) (simp add: comp_def)
  moreover have "\<exists>hs'. sh_WithGroup (newTraceContextHandler (newFanoutHandler hs)) a = newTraceContextHandler (newFanoutHandler hs') \<and>
      sh_WithGroup (newFanoutHandler (map newTraceContextHandler hs)) a = newFanoutHandler (map newTraceContextHandler hs')" for a
    by (rule exI [of _ "map (\<lambda>h. sh_WithGroup h a) hs"]) (simp add: comp_def)
  ultimately show ?case by (auto simp: rel_fun_def simp del: newTraceContextHandler.sel newFanoutHandler.sel)
qed

lemma ingress_handler_trace: "ingress_handler stderr otel = newTraceContextHandler (newFanoutHandler [stderr, otel])"
  by (simp add: ingress_handler_def trace_of_fanout)

text \<open>\<open>h\<close> is the handler of the default logger; the logger drops a handler's error.\<close>

definition LogInfo :: "'s slog_handler \<Rightarrow> obs_ctx \<Rightarrow> string \<Rightarrow> attrs \<Rightarrow> 's \<Rightarrow> 's" where
  "LogInfo h ctx msg args s =
     (if sh_Enabled h 0 then snd (sh_Handle h ctx \<lparr>sr_level = 0, sr_msg = msg, sr_attrs = args\<rparr> s) else s)"

text \<open>Between other attributes the ids come last in the record that a sink sees, and both sinks see the record while none fails.\<close>

lemma ingress_handler_both:
  assumes "\<And>h s r. h \<in> {stderr, otel} \<Longrightarrow> sh_Enabled h (sr_level r) \<and> \<not> fst (sh_Handle h ctx r s)"
  shows "sh_Handle (ingress_handler stderr otel) ctx r s =
    (False, snd (sh_Handle otel ctx (r\<lparr>sr_attrs := sr_attrs r @ trace_attrs ctx\<rparr>)
              (snd (sh_Handle stderr ctx (r\<lparr>sr_attrs := sr_attrs r @ trace_attrs ctx\<rparr>) s))))"
proof -
  let ?r = "r\<lparr>sr_attrs := sr_attrs r @ trace_attrs ctx\<rparr>"
  have "sh_Enabled h (sr_level ?r)" "\<not> fst (sh_Handle h ctx ?r s)" if "h \<in> {stderr, otel}" for h s
    using assms [OF that] by blast+
  then show ?thesis
    by (simp add: ingress_handler_trace case_prod_beta)
qed

subsection \<open>What is recorded of a request\<close>

definition Milliseconds :: "duration \<Rightarrow> int" where
  "Milliseconds d = (if d < 0 then - ((- d) div 1000000) else d div 1000000)"

definition statusClass :: "int \<Rightarrow> string" where
  "statusClass status = (if status \<le> 0 then ''unknown'' else show_int (status div 100) @ ''xx'')"

definition opt_attr :: "string \<Rightarrow> string \<Rightarrow> attrs" where
  "opt_attr k v = (if v \<noteq> '''' then [(k, AStr v)] else [])"

text \<open>The attributes both instruments get; the counter adds one, the histogram the milliseconds. \<open>m\<close> are the instruments of \<^verbatim>\<open>Metrics()\<close>.\<close>

type_synonym measurement = "instrument \<times> int \<times> attrs"

definition ingress_metrics :: "Recorder \<Rightarrow> int \<Rightarrow> attrs" where
  "ingress_metrics rc status =
     [(''wire'', AStr (rec_Wire rc)), (''status_class'', AStr (statusClass status)), (''status'', AInt status)] @
     opt_attr ''provider_ref'' (rec_ProviderRef rc) @ opt_attr ''protocol'' (rec_Protocol rc) @ opt_attr ''model'' (rec_Model rc)"

definition upstream_metrics :: "string \<Rightarrow> int \<Rightarrow> attrs" where
  "upstream_metrics host status =
     [(''host'', AStr host), (''status_class'', AStr (statusClass status)), (''status'', AInt status)]"

definition metrics_RecordIngress :: "InstrumentSet \<Rightarrow> Recorder \<Rightarrow> int \<Rightarrow> int \<Rightarrow> measurement list" where
  "metrics_RecordIngress m rc status ms =
     [(is_ingressTotal m, 1, ingress_metrics rc status), (is_ingressDuration m, ms, ingress_metrics rc status)]"

definition metrics_RecordUpstream :: "InstrumentSet \<Rightarrow> string \<Rightarrow> int \<Rightarrow> int \<Rightarrow> measurement list" where
  "metrics_RecordUpstream m host status ms =
     [(is_upstreamTotal m, 1, upstream_metrics host status), (is_upstreamDuration m, ms, upstream_metrics host status)]"

text \<open>
  What \<^verbatim>\<open>HTTPDo\<close> records of an outbound call (the call itself is in theory \<^verbatim>\<open>Upstream\<close>). \<open>resp\<close> is the status of a response
  and \<open>err\<close> the text of an error, of which the client may return both; \<open>status_text\<close> is \<^verbatim>\<open>http.StatusText\<close>.
\<close>

record upstream_record =
  ur_start :: attrs
  ur_attrs :: attrs
  ur_metrics :: "measurement list"
  ur_error :: "string option"
  ur_status :: "string option"

definition HTTPDo_record ::
  "(int \<Rightarrow> string) \<Rightarrow> InstrumentSet \<Rightarrow> string \<Rightarrow> string \<Rightarrow> int option \<Rightarrow> string option \<Rightarrow> duration \<Rightarrow> upstream_record" where
  "HTTPDo_record status_text m meth host resp err latency =
     (let status = (case resp of None \<Rightarrow> 0 | Some code \<Rightarrow> code) in
      \<lparr>ur_start = [(''http.method'', AStr meth), (''server.address'', AStr host)],
       ur_attrs = (case resp of None \<Rightarrow> [] | Some code \<Rightarrow> [(''http.status_code'', AInt code)]),
       ur_metrics = metrics_RecordUpstream m host status (Milliseconds latency),
       ur_error = err,
       ur_status = (case err of Some e \<Rightarrow> Some e | None \<Rightarrow> if status \<ge> 500 then Some (status_text status) else None)\<rparr>)"

record RequestLog =
  rl_Wire :: string
  rl_Model :: string
  rl_ProviderRef :: string
  rl_Protocol :: string
  rl_Status :: int
  rl_LatencyMs :: int
  rl_PrincipalID :: string

definition log_json :: "RequestLog \<Rightarrow> json" where
  "log_json l = JObj
     [(''wire'', JStr (rl_Wire l)), (''model'', JStr (rl_Model l)), (''provider_ref'', JStr (rl_ProviderRef l)),
      (''protocol'', JStr (rl_Protocol l)), (''status'', JNum (show_int (rl_Status l))),
      (''latency_ms'', JNum (show_int (rl_LatencyMs l))), (''principal_id'', JStr (rl_PrincipalID l))]"

text \<open>One call of \<^verbatim>\<open>RecordIngress\<close>: the line, the metrics, and for a valid span its attributes and its error status.\<close>

record ingress_record =
  ir_log :: RequestLog
  ir_metrics :: "measurement list"
  ir_span :: "(attrs \<times> string option) option"

definition span_attrs :: "obs_ctx option \<Rightarrow> Recorder \<Rightarrow> int \<Rightarrow> int \<Rightarrow> attrs" where
  "span_attrs ctx rc status ms =
     [(''daigate.wire'', AStr (rec_Wire rc)), (''http.status_code'', AInt status), (''latency_ms'', AInt ms)] @
     opt_attr ''daigate.model'' (rec_Model rc) @ opt_attr ''daigate.provider_ref'' (rec_ProviderRef rc) @
     opt_attr ''daigate.protocol'' (rec_Protocol rc) @ opt_attr ''daigate.principal_id'' (rec_PrincipalID rc) @
     opt_attr ''daigate.correlation_id'' (CorrelationIDFromContext ctx)"

definition RecordIngress :: "InstrumentSet \<Rightarrow> obs_ctx option \<Rightarrow> Recorder option \<Rightarrow> int \<Rightarrow> duration \<Rightarrow> ingress_record" where
  "RecordIngress m ctx rec0 status latency =
     (let rc = (case rec0 of None \<Rightarrow> zero_Recorder | Some x \<Rightarrow> x); ms = Milliseconds latency in
      \<lparr>ir_log = \<lparr>rl_Wire = rec_Wire rc, rl_Model = rec_Model rc, rl_ProviderRef = rec_ProviderRef rc, rl_Protocol = rec_Protocol rc,
                 rl_Status = status, rl_LatencyMs = ms, rl_PrincipalID = rec_PrincipalID rc\<rparr>,
       ir_metrics = metrics_RecordIngress m rc status ms,
       ir_span = (case ctx of
          None \<Rightarrow> None
        | Some c \<Rightarrow>
            (if \<not> sc_valid (cx_span c) then None
             else Some (span_attrs ctx rc status ms, if status \<ge> 500 then Some (''http '' @ show_int status) else None)))\<rparr>)"

definition LogRequest :: "InstrumentSet \<Rightarrow> string \<Rightarrow> string \<Rightarrow> string \<Rightarrow> string \<Rightarrow> int \<Rightarrow> duration \<Rightarrow> string \<Rightarrow> ingress_record" where
  "LogRequest m wire model providerRef protocol status latency principalID =
     RecordIngress m None
       (Some \<lparr>rec_Wire = wire, rec_Model = model, rec_ProviderRef = providerRef, rec_Protocol = protocol, rec_PrincipalID = principalID\<rparr>)
       status latency"

subsection \<open>The writer that remembers the status\<close>

datatype write_op = OpWriteHeader int | OpWrite string

record statusWriter =
  sw_code :: int
  sw_header :: bool
  sw_inner :: "write_op list"

definition sw_WriteHeader :: "int \<Rightarrow> statusWriter \<Rightarrow> statusWriter" where
  "sw_WriteHeader code w = w\<lparr>sw_code := code, sw_header := True, sw_inner := sw_inner w @ [OpWriteHeader code]\<rparr>"

definition sw_Write :: "string \<Rightarrow> statusWriter \<Rightarrow> statusWriter" where
  "sw_Write b w =
     (let w1 = (if \<not> sw_header w then w\<lparr>sw_code := StatusOK, sw_header := True\<rparr> else w)
      in w1\<lparr>sw_inner := sw_inner w1 @ [OpWrite b]\<rparr>)"

fun sw_op :: "write_op \<Rightarrow> statusWriter \<Rightarrow> statusWriter" where
  "sw_op (OpWriteHeader code) w = sw_WriteHeader code w"
| "sw_op (OpWrite b) w = sw_Write b w"

definition new_statusWriter :: statusWriter where
  "new_statusWriter = \<lparr>sw_code = StatusNotFound, sw_header = False, sw_inner = []\<rparr>"

text \<open>What \<^verbatim>\<open>net/http\<close> sends for these calls: the first header counts, and 200 when there is none before the first byte.\<close>

fun client_status :: "write_op list \<Rightarrow> int" where
  "client_status (OpWriteHeader code # ops) = code"
| "client_status _ = StatusOK"

definition one_header :: "write_op list \<Rightarrow> bool" where
  "one_header ops \<longleftrightarrow> ops \<noteq> [] \<and> (\<forall>op \<in> set (tl ops). \<exists>b. op = OpWrite b)"

lemma fold_sw_writes:
  assumes "\<forall>op \<in> set ops. \<exists>b. op = OpWrite b" "sw_header w"
  shows "sw_code (fold sw_op ops w) = sw_code w \<and> sw_inner (fold sw_op ops w) = sw_inner w @ ops"
  using assms
proof (induction ops arbitrary: w)
  case (Cons op ops)
  then obtain b where b: "op = OpWrite b" by auto
  have "sw_header (sw_op op w)" "sw_code (sw_op op w) = sw_code w" "sw_inner (sw_op op w) = sw_inner w @ [op]"
    using Cons.prems(2) by (simp_all add: b sw_Write_def Let_def)
  with Cons.IH [of "sw_op op w"] Cons.prems(1) show ?case by simp
qed simp

text \<open>The wrapped writer passes every call on, and remembers the status that is sent when the header is written once.\<close>

lemma statusWriter_code:
  assumes "one_header ops"
  shows "sw_code (fold sw_op ops new_statusWriter) = client_status ops"
    "sw_inner (fold sw_op ops new_statusWriter) = ops"
proof -
  obtain op rest where ops: "ops = op # rest" "\<forall>x \<in> set rest. \<exists>b. x = OpWrite b"
    using assms by (cases ops) (auto simp: one_header_def)
  have "sw_header (sw_op op new_statusWriter) \<and> sw_code (sw_op op new_statusWriter) = client_status ops \<and>
    sw_inner (sw_op op new_statusWriter) = [op]"
    by (cases op) (simp_all add: ops sw_WriteHeader_def sw_Write_def new_statusWriter_def Let_def)
  with fold_sw_writes [OF ops(2), of "sw_op op new_statusWriter"]
  show "sw_code (fold sw_op ops new_statusWriter) = client_status ops" "sw_inner (fold sw_op ops new_statusWriter) = ops"
    by (simp_all add: ops)
qed

subsection \<open>One record for each ingress request\<close>

text \<open>
  What the middleware gets from outside: the context of the connection, the propagator, how a tracer starts a span, the telemetry of
  the process when the request begins and when it ends, and the clock. A handler is given the context and the
  record it may fill in, and returns the record with its calls on the writer; \<open>None\<close> is a panic, which passes through
  without a record.
\<close>

record ingress_env =
  ig_ctx :: obs_ctx
  ig_extract :: "obs_ctx \<Rightarrow> header \<Rightarrow> obs_ctx"
  ig_start_span :: "otel_handle \<Rightarrow> string \<Rightarrow> attrs \<Rightarrow> obs_ctx \<Rightarrow> obs_ctx"
  ig_at_start :: telemetry
  ig_at_end :: telemetry
  ig_latency :: duration

definition background_ctx :: obs_ctx where
  "background_ctx = \<lparr>cx_span = \<lparr>sc_valid = False, sc_trace_id = '''', sc_span_id = ''''\<rparr>, cx_correlation = None\<rparr>"

definition ExtractHTTP :: "(obs_ctx \<Rightarrow> header \<Rightarrow> obs_ctx) \<Rightarrow> obs_ctx option \<Rightarrow> header option \<Rightarrow> obs_ctx" where
  "ExtractHTTP extract ctx0 h =
     (let ctx = (case ctx0 of None \<Rightarrow> background_ctx | Some c \<Rightarrow> c) in
      case h of None \<Rightarrow> ctx | Some hdr \<Rightarrow> extract ctx hdr)"

text \<open>The header map of a request that is sent; a nil map stays nil.\<close>

definition InjectHTTP :: "(obs_ctx \<Rightarrow> header \<Rightarrow> header) \<Rightarrow> obs_ctx \<Rightarrow> header option \<Rightarrow> header option" where
  "InjectHTTP inject ctx h = (case h of None \<Rightarrow> None | Some hdr \<Rightarrow> Some (inject ctx hdr))"

definition StartSpan ::
  "(otel_handle \<Rightarrow> string \<Rightarrow> attrs \<Rightarrow> obs_ctx \<Rightarrow> obs_ctx) \<Rightarrow> telemetry \<Rightarrow> obs_ctx \<Rightarrow> string \<Rightarrow> attrs \<Rightarrow> obs_ctx" where
  "StartSpan start s ctx name attrs = start (Tracer s) name attrs ctx"

definition headerCorrelationID :: string where
  "headerCorrelationID = ''X-Correlation-Id''"

definition IngressLog ::
  "string \<Rightarrow> (obs_ctx \<Rightarrow> Recorder \<Rightarrow> (Recorder \<times> write_op list) option) \<Rightarrow> ingress_env \<Rightarrow> header \<Rightarrow> string \<Rightarrow>
     (ingress_record \<times> write_op list) option" where
  "IngressLog defaultWire h ie hdr path =
     (let ctx0 = WithCorrelationID (ExtractHTTP (ig_extract ie) (Some (ig_ctx ie)) (Some hdr)) (h_Get hdr headerCorrelationID);
          route = (if defaultWire = '''' then path else defaultWire);
          ctx = StartSpan (ig_start_span ie) (ig_at_start ie) ctx0 ''ingress.forward'' [(''daigate.route'', AStr route)];
          rec0 = (if defaultWire \<noteq> '''' then zero_Recorder\<lparr>rec_Wire := defaultWire\<rparr> else zero_Recorder)
      in case h ctx rec0 of
           None \<Rightarrow> None
         | Some (rec1, ops) \<Rightarrow>
             (let sw = fold sw_op ops new_statusWriter;
                  rec2 = (if rec_Wire rec1 = '''' then rec1\<lparr>rec_Wire := defaultWire\<rparr> else rec1);
                  rec3 = (if rec_Wire rec2 = '''' then rec2\<lparr>rec_Wire := path\<rparr> else rec2)
              in Some (RecordIngress (Metrics_of (ig_at_end ie)) (Some ctx) (Some rec3) (sw_code sw) (ig_latency ie), sw_inner sw)))"

text \<open>
  The calls on the writer behind a reply of the data plane; \<open>msg\<close> is the text of an error, \<open>redirect\<close> the status of the
  mux's redirect, whose body is left out.
\<close>

fun wire_ops :: "(wire_error \<Rightarrow> string) \<Rightarrow> int \<Rightarrow> wire_reply \<Rightarrow> write_op list" where
  "wire_ops msg redirect (WError err code) = [OpWriteHeader code, OpWrite (msg err)]"
| "wire_ops msg redirect (WJson j) = [OpWriteHeader StatusOK, OpWrite (emit j @ [CHR 0x0A])]"
| "wire_ops msg redirect (WRelay cr) = OpWriteHeader (cr_status cr) # map (\<lambda>p. OpWrite (fst p)) (cr_body cr)"
| "wire_ops msg redirect WNotFound = [OpWriteHeader StatusNotFound, OpWrite (''404 page not found'' @ [CHR 0x0A])]"
| "wire_ops msg redirect WRedirect = [OpWriteHeader redirect]"
| "wire_ops msg redirect WNothing = []"
| "wire_ops msg redirect WPanic = []"

definition logged_request ::
  "(wire_error \<Rightarrow> string) \<Rightarrow> int \<Rightarrow> ingress_env \<Rightarrow> Engine \<Rightarrow> request \<Rightarrow> Catalog \<Rightarrow> (ingress_record \<times> write_op list) option" where
  "logged_request msg redirect ie e r c =
     IngressLog ''''
       (\<lambda>ctx rec0. case Wire_Handler e r c of
          (rep, st, c') \<Rightarrow> (if rep = WPanic then None else Some (ws_rec st, wire_ops msg redirect rep)))
       ie (rq_header r) (rq_path r)"

lemma wire_ops_one_header: "rep \<notin> {WPanic, WNothing} \<Longrightarrow> one_header (wire_ops msg redirect rep)"
  by (cases rep) (auto simp: one_header_def)

lemma recordTarget_frame [simp]:
  "rec_Wire (recordTarget t rc) = rec_Wire rc" "rec_Model (recordTarget t rc) = rec_Model rc"
  "rec_PrincipalID (recordTarget t rc) = rec_PrincipalID rc"
  by (simp_all add: recordTarget_def)

lemma attempt_target_rec: "ws_rec (snd (attempt_target e wireID path raw outHdr t st)) = recordTarget t (ws_rec st)"
  by (simp add: attempt_target_def Let_def split: sum.split option.split prod.split)

lemma target_loop_rec:
  "rec_Wire (ws_rec (snd (target_loop e wireID path raw outHdr fo ts st))) = rec_Wire (ws_rec st) \<and>
   rec_Model (ws_rec (snd (target_loop e wireID path raw outHdr fo ts st))) = rec_Model (ws_rec st) \<and>
   rec_PrincipalID (ws_rec (snd (target_loop e wireID path raw outHdr fo ts st))) = rec_PrincipalID (ws_rec st)"
proof (induction ts arbitrary: st)
  case (Cons t ts)
  obtain a st' where a: "attempt_target e wireID path raw outHdr t st = (a, st')" by fastforce
  from attempt_target_rec [of e wireID path raw outHdr t st] Cons.IH [of st'] show ?case
    by (cases fo) (simp_all add: target_loop_attempt a)
qed simp

lemma target_loop_recD:
  "target_loop e wireID path raw outHdr fo ts st = (rep, st') \<Longrightarrow>
     rec_Wire (ws_rec st') = rec_Wire (ws_rec st) \<and> rec_Model (ws_rec st') = rec_Model (ws_rec st) \<and>
     rec_PrincipalID (ws_rec st') = rec_PrincipalID (ws_rec st)"
  using target_loop_rec [of e wireID path raw outHdr fo ts st] by simp

text \<open>
  What \<^verbatim>\<open>handleWire\<close> adds to the record, for a request whose record has no model yet: the model it read,
  when the method is allowed and the body can be read, and then the target it tried.
\<close>

definition model_read :: "Engine \<Rightarrow> request \<Rightarrow> string \<Rightarrow> string" where
  "model_read e r wireID =
     (if validateWireMethod r wireID then (case readIngress e r wireID of Inl _ \<Rightarrow> '''' | Inr (model, raw) \<Rightarrow> model) else '''')"

lemma handleWire_rec:
  assumes "handleWire e r p wireID st c = (rep, st', c')" "rec_Model (ws_rec st) = ''''"
  shows "rec_Wire (ws_rec st') = rec_Wire (ws_rec st)" "rec_PrincipalID (ws_rec st') = rec_PrincipalID (ws_rec st)"
    "rec_Model (ws_rec st') = model_read e r wireID"
  using assms
  by (auto simp: handleWire_def model_read_def Let_def dest!: target_loop_recD split: if_splits sum.splits prod.splits)

text \<open>The wire a request is logged under, and the model and the principal, which are empty when no handler came to know them.\<close>

definition logged_wire :: "request \<Rightarrow> string" where
  "logged_wire r =
     (case wire_mux (rq_method r) (rq_escaped r) of
        ToHealthz \<Rightarrow> ''healthz'' | ToModels \<Rightarrow> ''models'' | ToWire wireID \<Rightarrow> wireID | _ \<Rightarrow> rq_path r)"

definition known_principal :: "Engine \<Rightarrow> request \<Rightarrow> string" where
  "known_principal e r = (case Authenticate (en_Verify e) (rq_header r) of Inl _ \<Rightarrow> '''' | Inr p \<Rightarrow> prin_ID p)"

definition logged_principal :: "Engine \<Rightarrow> request \<Rightarrow> string" where
  "logged_principal e r =
     (case wire_mux (rq_method r) (rq_escaped r) of
        ToModels \<Rightarrow> (if rq_method r = MethodGet then known_principal e r else '''')
      | ToWire wireID \<Rightarrow> known_principal e r
      | _ \<Rightarrow> '''')"

definition logged_model :: "Engine \<Rightarrow> request \<Rightarrow> string" where
  "logged_model e r =
     (case wire_mux (rq_method r) (rq_escaped r) of
        ToWire wireID \<Rightarrow> (case Authenticate (en_Verify e) (rq_header r) of Inl _ \<Rightarrow> '''' | Inr p \<Rightarrow> model_read e r wireID)
      | _ \<Rightarrow> '''')"

lemma withAuth_rec:
  assumes "withAuth e wireID r st c = (rep, st', c')" "ws_rec st = zero_Recorder"
  shows "rec_Wire (ws_rec st') = wireID" "rec_PrincipalID (ws_rec st') = known_principal e r"
    "rec_Model (ws_rec st') =
       (case Authenticate (en_Verify e) (rq_header r) of Inl _ \<Rightarrow> '''' | Inr p \<Rightarrow> model_read e r wireID)"
proof -
  have "rec_Wire (ws_rec st') = wireID \<and> rec_PrincipalID (ws_rec st') = known_principal e r \<and>
    rec_Model (ws_rec st') = (case Authenticate (en_Verify e) (rq_header r) of Inl _ \<Rightarrow> '''' | Inr p \<Rightarrow> model_read e r wireID)"
  proof (cases "Authenticate (en_Verify e) (rq_header r)")
    case (Inl err)
    with assms show ?thesis by (auto simp: withAuth_def known_principal_def zero_Recorder_def Let_def)
  next
    case (Inr p)
    with assms(1) have "handleWire e r p wireID (st\<lparr>ws_rec := (ws_rec st)\<lparr>rec_Wire := wireID, rec_PrincipalID := prin_ID p\<rparr>\<rparr>) c = (rep, st', c')"
      by (simp add: withAuth_def Let_def)
    from handleWire_rec [OF this] Inr show ?thesis by (simp add: assms(2) zero_Recorder_def known_principal_def)
  qed
  then show "rec_Wire (ws_rec st') = wireID" "rec_PrincipalID (ws_rec st') = known_principal e r"
    "rec_Model (ws_rec st') = (case Authenticate (en_Verify e) (rq_header r) of Inl _ \<Rightarrow> '''' | Inr p \<Rightarrow> model_read e r wireID)"
    by blast+
qed

lemma wire_mux_named: "wire_mux m path = ToWire wireID \<Longrightarrow> wireID \<noteq> ''''"
  by (auto simp: wire_mux_def any_method_routes_def post_routes_def wire_defs Let_def split: if_splits option.splits dest!: route_of_mem)

lemma models_rec:
  assumes "models e r st c = (rep, st')" "ws_rec st = zero_Recorder"
  shows "rec_Wire (ws_rec st') = ''models'' \<and> rec_Model (ws_rec st') = '''' \<and>
    rec_PrincipalID (ws_rec st') = (if rq_method r = MethodGet then known_principal e r else '''')"
  using assms by (auto simp: models_def known_principal_def zero_Recorder_def Let_def split: if_splits sum.splits)

text \<open>What a request leaves in its record.\<close>

definition recorded :: "Engine \<Rightarrow> request \<Rightarrow> Recorder \<Rightarrow> bool" where
  "recorded e r rc \<longleftrightarrow>
     (if rec_Wire rc = '''' then rq_path r else rec_Wire rc) = logged_wire r \<and>
     rec_Model rc = logged_model e r \<and> rec_PrincipalID rc = logged_principal e r"

lemma behind_statusWriter_reads [simp]:
  "model_read (behind_statusWriter e) r wireID = model_read e r wireID"
  "known_principal (behind_statusWriter e) r = known_principal e r"
  by (simp_all add: model_read_def known_principal_def)

lemma Wire_Handler_recorded:
  assumes "Wire_Handler e r c = (rep, st, c')"
  shows "recorded e r (ws_rec st)"
proof -
  let ?st = "\<lparr>ws_rec = zero_Recorder, ws_hdr = rq_header r, ws_trace = []\<rparr>"
  note defs = recorded_def logged_wire_def logged_model_def logged_principal_def
  show ?thesis
  proof (cases "wire_mux (rq_method r) (rq_escaped r)")
    case (ToWire wireID)
    with assms have "withAuth (behind_statusWriter e) wireID r ?st c = (rep, st, c')"
      by (simp add: Wire_Handler_def wire_routes_def)
    from withAuth_rec [OF this] wire_mux_named [OF ToWire] show ?thesis by (simp add: defs ToWire split: sum.split)
  next
    case ToModels
    with assms obtain st' where "models (behind_statusWriter e) r ?st c = (rep, st')" "st = st'"
      by (auto simp: Wire_Handler_def wire_routes_def split: prod.splits)
    from models_rec [OF this(1)] this(2) show ?thesis by (simp add: defs ToModels)
  qed (use assms in \<open>auto simp: defs Wire_Handler_def wire_routes_def wire_healthz_def zero_Recorder_def\<close>)
qed

text \<open>
  (C000) Every request that reaches the handler of the data plane leaves exactly one record, whose status is the one the client is
  sent and whose wire is the route the request took (or its path). Its principal is exactly the name the key store gives the key
  of the request, on the wire routes and on a \<^verbatim>\<open>GET\<close> of the model list, and empty when there is no valid
  key; its model is exactly the one the request asks for, on a wire route with a valid key, an allowed method and a body that can
  be read, and empty otherwise, whatever is answered then. Nothing the middleware does changes what the handler writes. (The
  hypothesis on multipart bodies is the one under which no handler panics. Requests that the draining gateway refuses or that the
  outer mux redirects do not reach this handler and leave no record.)
\<close>

theorem ingress_logged:
  assumes "\<And>b body n x. Part n x \<in> set (en_parts e b body) \<Longrightarrow> Contains body (''--'' @ b)"
  shows "\<exists>rep st c' line. Wire_Handler e r c = (rep, st, c') \<and>
    logged_request msg redirect ie e r c = Some (line, wire_ops msg redirect rep) \<and>
    rl_Status (ir_log line) = client_status (wire_ops msg redirect rep) \<and>
    rl_Wire (ir_log line) = logged_wire r \<and>
    rl_Model (ir_log line) = logged_model e r \<and>
    rl_PrincipalID (ir_log line) = logged_principal e r"
proof -
  obtain rep st c' where run: "Wire_Handler e r c = (rep, st, c')" using prod_cases3 by blast
  have ok: "rep \<notin> {WPanic, WNothing}" using Wire_Handler_replies [of e r c] assms by (simp add: run)
  note sw = statusWriter_code [OF wire_ops_one_header [OF ok, of msg redirect]]
  obtain line where line: "logged_request msg redirect ie e r c = Some (line, wire_ops msg redirect rep)"
    "rl_Status (ir_log line) = client_status (wire_ops msg redirect rep)"
    "rl_Wire (ir_log line) = (if rec_Wire (ws_rec st) = '''' then rq_path r else rec_Wire (ws_rec st))"
    "rl_Model (ir_log line) = rec_Model (ws_rec st)" "rl_PrincipalID (ir_log line) = rec_PrincipalID (ws_rec st)"
    using ok by (simp add: logged_request_def run IngressLog_def RecordIngress_def Let_def sw)
  have "recorded e r (ws_rec st)" by (rule Wire_Handler_recorded [OF run])
  with run line show ?thesis by (simp add: recorded_def)
qed

definition demo_ingress :: ingress_env where
  "demo_ingress = \<lparr>ig_ctx = background_ctx, ig_extract = (\<lambda>ctx _. ctx), ig_start_span = (\<lambda>_ _ _ ctx. ctx),
     ig_at_start = telemetry_start, ig_at_end = telemetry_start, ig_latency = 5000000\<rparr>"

theorem ingress_logged_witness:
  "\<exists>line ops. logged_request (\<lambda>_. ''error'') 307 demo_ingress demo_engine demo_chat demo_catalog = Some (line, ops) \<and>
     rl_Status (ir_log line) = 200 \<and> rl_Wire (ir_log line) = WireOpenAIChat \<and>
     rl_Model (ir_log line) = ''f'' \<and> rl_PrincipalID (ir_log line) = ''ci''"
proof -
  obtain st c' where r: "Wire_Handler demo_engine demo_chat demo_catalog =
      (WRelay (CopyResponse (en_copy demo_engine) [] demo_response), st, c')"
    using demo_relayed by blast
  have "\<exists>rep st c' line. Wire_Handler demo_engine demo_chat demo_catalog = (rep, st, c') \<and>
      logged_request (\<lambda>_. ''error'') 307 demo_ingress demo_engine demo_chat demo_catalog = Some (line, wire_ops (\<lambda>_. ''error'') 307 rep) \<and>
      rl_Status (ir_log line) = client_status (wire_ops (\<lambda>_. ''error'') 307 rep) \<and> rl_Wire (ir_log line) = logged_wire demo_chat \<and>
      rl_Model (ir_log line) = logged_model demo_engine demo_chat \<and> rl_PrincipalID (ir_log line) = logged_principal demo_engine demo_chat"
    using ingress_logged [of demo_engine demo_chat demo_catalog "\<lambda>_. ''error''" 307 demo_ingress] by (simp add: demo_engine_def)
  moreover have "Authenticate (en_Verify demo_engine) (rq_header demo_chat) =
      Inr \<lparr>prin_ID = ''ci'', prin_KeyID = 1, prin_Scopes = [''model:f'']\<rparr>"
    by (simp add: Authenticate_def demo_bearer demo_engine_def)
  then have "logged_model demo_engine demo_chat = ''f''" "logged_principal demo_engine demo_chat = ''ci''"
    by (simp_all add: logged_model_def logged_principal_def known_principal_def model_read_def demo_mux demo_method demo_read)
  ultimately show ?thesis
    by (auto simp: r logged_wire_def demo_mux CopyResponse_def Let_def demo_response_def)
qed

theorem exporters_accounted_witness:
  "tl_running (ShutdownGraceful (\<lambda>_. False) (Hook ''daigate'' telemetry_start)) = [] \<and> Hooked (Hook ''daigate'' telemetry_start) \<and>
   \<not> Enabled (install Metrics (Host 7) telemetry_start) \<and>
   goes_to (install Metrics (Host 7) telemetry_start) Metrics
     (in_meter (is_ingressTotal (Metrics_of (install Metrics (Host 7) telemetry_start)))) = Some (Host 7)"
proof -
  have steps: "telemetry_steps telemetry_start (Hook ''daigate'' telemetry_start)"
    "telemetry_steps telemetry_start (install Metrics (Host 7) telemetry_start)"
    by (intro r_into_rtranclp telemetry_step.intros)+
  have "\<not> Enabled (install Metrics (Host 7) telemetry_start)" "tl_first (install Metrics (Host 7) telemetry_start) Metrics = Some (Host 7)"
    by (simp_all add: Enabled_def telemetry_start_def install_def)
  moreover have "Hooked (Hook ''daigate'' telemetry_start)" by (simp add: Hooked_def Hook_def telemetry_start_def Let_def)
  ultimately show ?thesis using exporters_accounted [OF steps(1)] exporters_accounted [OF steps(2)] by auto
qed

end
