(* ===== verification/WirePaths.thy ===== *)
theory WirePaths
  imports WireLaws
begin

section \<open>The path of a video poll\<close>

text \<open>
  \<^verbatim>\<open>GET /v1/videos/{id}\<close> is the one route of the data plane whose path the client completes. The mux matches the escaped path, and
  \<^verbatim>\<open>VideoUpstreamPath\<close> (\<^verbatim>\<open>upstream/url.go\<close>) goes on with the unescaped one: what this theory shows is the URL
  that is called.
\<close>

text \<open>The URL of a target that ids are put behind.\<close>

definition video_base :: "string \<Rightarrow> string" where
  "video_base baseURL =
     (let base = TrimRight (CHR ''/'') baseURL in
      if HasSuffix base ''/videos'' then base @ ''/''
      else if HasSuffix base ''/v1'' then base @ ''/videos/''
      else base @ ''/v1/videos/'')"

definition absolute_url :: "string \<Rightarrow> bool" where
  "absolute_url u \<longleftrightarrow> HasPrefix (TrimRight (CHR ''/'') u) ''http://'' \<or> HasPrefix (TrimRight (CHR ''/'') u) ''https://''"

definition polls :: "string \<Rightarrow> Target \<Rightarrow> out_request \<Rightarrow> bool" where
  "polls x t q \<longleftrightarrow> or_method q = MethodGet \<and> or_body q = None \<and>
     (absolute_url (tg_BaseURL t) \<longrightarrow> or_url q = video_base (tg_BaseURL t) @ x)"

lemma VideoUpstreamPath_id: "VideoUpstreamPath b (''/v1/videos/'' @ x) = video_base b @ x"
proof -
  define base where "base = TrimRight (CHR ''/'') b"
  have "JoinURL b (''/v1/videos/'' @ x) =
    (if HasSuffix base ''/v1'' then base @ ''/videos/'' @ x else base @ ''/v1/videos/'' @ x)"
    by (simp add: JoinURL_def Let_def TrimPrefix_def base_def)
  moreover have "VideoUpstreamPath b (''/v1/videos/'' @ x) =
    (if HasSuffix base ''/videos'' then base @ ''/'' @ x else JoinURL b (''/v1/videos/'' @ x))"
    by (simp add: VideoUpstreamPath_def Let_def TrimPrefix_def flip: base_def)
  ultimately show ?thesis by (simp add: video_base_def Let_def flip: base_def)
qed

lemma relay_get_polls:
  assumes "path = video_base (tg_BaseURL (ht_Target ht)) @ x"
  shows "fwd_all (polls x (ht_Target ht)) (relay cl ht MethodGet path None hdr)"
proof -
  have abs: "HasPrefix path ''http://'' \<or> HasPrefix path ''https://''" if "absolute_url (tg_BaseURL (ht_Target ht))"
    using that assms by (auto simp: absolute_url_def video_base_def Let_def prefix_def)
  have "or_method r = or_method q \<and> or_url r = or_url q \<and> or_body r = or_body q"
    if "ApplyRoute m q rt ad = Inr r" for m q rt ad r
    using that by (auto simp: ApplyRoute_sets map_sum_Inr_iff assign_fields StripClient_fields)
  then show ?thesis
    using abs assms
    by (auto simp: relay_def Let_def NewRequest_def HTTPDo_def CopyHeaders_def polls_def split: option.splits sum.splits)
qed

lemma forward_video_polls:
  "fwd_all (polls x t) (forward (stock_registry cl) WireOpenAIVideos (''/v1/videos/'' @ x) (toHandlerTarget t mat) None hdr)"
proof (cases "lookupVideo (stock_registry cl) t")
  case None
  then show ?thesis by (simp add: forward_def wire_defs toHandlerTarget_def with_handler_def)
next
  case (Some h)
  then have "h = VideoHandler cl ''openai-videos''"
    by (auto simp: lookupVideo_def lookupHandler_def stock_registry_simps split: if_splits)
  with Some show ?thesis
    using relay_get_polls [of _ "toHandlerTarget t mat" x cl hdr]
    by (simp add: forward_def wire_defs toHandlerTarget_def with_handler_def VideoHandler_def VideoUpstreamPath_id del: append.simps)
qed

text \<open>The calls of a request without a body: what holds of the handler at every target holds of all that is sent.\<close>

lemma attempt_bodiless:
  assumes "\<And>mat. fwd_all P (forward (en_Adapters e) wireID path (toHandlerTarget t mat) None outHdr)"
    "attempt_target e wireID path None outHdr t st = (a, st')"
  shows "\<exists>qs. sent (ws_trace st') = sent (ws_trace st) @ qs \<and> list_all P qs"
proof (cases "en_Get e (ws_trace st) (tg_CredentialProfile t)")
  case (Inr mat)
  obtain res tr where run: "fwd_run (forward (en_Adapters e) wireID path (toHandlerTarget t mat) None outHdr) (en_Do e)
      (ws_trace st @ [GotMaterial (tg_CredentialProfile t)]) = (res, tr)" by fastforce
  moreover from run Inr assms(2) have "ws_trace st' = tr"
    by (auto simp: attempt_target_def requestBody_def Let_def)
  ultimately show ?thesis using fwd_run_sent [OF assms(1) run] by auto
qed (use assms(2) in \<open>auto simp: attempt_target_def\<close>)

lemma target_loop_bodiless:
  assumes "\<And>t mat. fwd_all (P t) (forward (en_Adapters e) wireID path (toHandlerTarget t mat) None outHdr)"
  shows "\<exists>qs. sent (ws_trace (snd (target_loop e wireID path None outHdr fo ts st))) = sent (ws_trace st) @ qs \<and>
    list_all (\<lambda>q. \<exists>t \<in> set ts. P t q) qs"
proof (induction ts arbitrary: st)
  case Nil
  show ?case by (rule exI [of _ "[]"]) simp
next
  case (Cons t ts)
  obtain a st' where a: "attempt_target e wireID path None outHdr t st = (a, st')" by fastforce
  obtain qs where qs: "sent (ws_trace st') = sent (ws_trace st) @ qs" "list_all (P t) qs"
    using attempt_bodiless [OF assms a] by blast
  obtain qs' where qs': "sent (ws_trace (snd (target_loop e wireID path None outHdr fo ts st'))) = sent (ws_trace st') @ qs'"
    "list_all (\<lambda>q. \<exists>t \<in> set ts. P t q) qs'"
    using Cons.IH [of st'] by blast
  from qs(2) qs'(2) have "list_all (\<lambda>q. \<exists>t \<in> set (t # ts). P t q) qs" "list_all (\<lambda>q. \<exists>t \<in> set (t # ts). P t q) (qs @ qs')"
    by (auto simp: list_all_iff)
  with qs(1) qs'(1) show ?case by (auto simp: target_loop_attempt a simp del: list.set)
qed

lemma Split_videos: "Split (CHR ''/'') (''/v1/videos/'' @ pct_escape x) = ['''', ''v1'', ''videos'', pct_escape x]"
  by (simp add: Split_notin pct_escape_no_slash)

lemma wire_mux_videos:
  assumes "wire_mux MethodGet (''/v1/videos/'' @ pct_escape x) = ToWire wireID"
  shows "wireID = WireOpenAIVideos \<and> x \<noteq> ''''"
proof -
  have segs: "path_segments (''/v1/videos/'' @ pct_escape x) = [''v1'', ''videos'', if x = '''' then ''/'' else x]"
    using pct_escape_dots [of x] segment_text_pct [of x]
    by (simp add: path_segments_def Split_videos segment_text_def del: append.simps)
  then have "route_of any_method_routes (path_segments (''/v1/videos/'' @ pct_escape x)) = None"
    by (simp add: route_of_def any_method_routes_def path_segments_def segment_text_def del: append.simps)
  with assms segs show ?thesis
    by (auto simp: wire_mux_def Let_def video_id_def simp del: append.simps split: if_splits)
qed

text \<open>
  (C24) A client that may poll videos chooses the path, the query and the fragment of the upstream call. Whatever text it
  escapes into the one segment that the route takes as the id, slashes, dot segments and question marks included, is
  sent upstream unescaped behind the base URL of the target, with the target's credential: nothing checks that it is an id.
\<close>

theorem video_id_chooses_path:
  assumes "FromConfig cl enable [] = Inr (en_Adapters e)" "Wire_Handler e r c = (rep, st, c')" "rq_method r = MethodGet"
    "rq_escaped r = ''/v1/videos/'' @ pct_escape x" "well_escaped r" "q \<in> set (sent (ws_trace st))"
  shows "\<exists>plan. fst (ResolveWithModality c (TrimSpace (query_get (rq_query r) ''model'')) WireOpenAIVideos '''') = Inr plan \<and>
    (\<exists>t \<in> set (rp_Targets plan). polls x t q)"
proof -
  have reg: "en_Adapters (behind_statusWriter e) = stock_registry cl" by (simp add: FromConfig_stock [OF assms(1)])
  have path: "rq_path r = ''/v1/videos/'' @ x"
    using assms(4,5) PathUnescape_pct [of x] by (simp add: well_escaped_def)
  have acted: "ws_trace st \<noteq> []" using assms(6) by auto
  then obtain wireID model raw plan st1 where w: "wire_mux MethodGet (''/v1/videos/'' @ pct_escape x) = ToWire wireID"
    "readIngress e r wireID = Inr (model, raw)" "ws_trace st1 = []"
    "fst (ResolveWithModality c model wireID (ModalityHintFromRequest (Some r) wireID)) = Inr plan"
    "target_loop (behind_statusWriter e) wireID (rq_path r) raw (StripIngressControlHeaders (rq_header r))
       (rp_Strategy plan = StrategyFailover) (rp_Targets plan) st1 = (rep, st)"
    using Wire_Handler_acts [OF assms(2)] by (metis assms(3,4))
  have video: "wireID = WireOpenAIVideos" using wire_mux_videos [OF w(1)] by simp
  with w(2) have read: "raw = None" "model = TrimSpace (query_get (rq_query r) ''model'')"
    by (simp_all add: readIngress_def assms(3))
  with w(3,5) video path have loop: "target_loop (behind_statusWriter e) WireOpenAIVideos (''/v1/videos/'' @ x) None
      (StripIngressControlHeaders (rq_header r)) (rp_Strategy plan = StrategyFailover) (rp_Targets plan) st1 = (rep, st)" by simp
  have "fwd_all (polls x t) (forward (en_Adapters (behind_statusWriter e)) WireOpenAIVideos (''/v1/videos/'' @ x)
      (toHandlerTarget t mat) None (StripIngressControlHeaders (rq_header r)))" for t mat
    unfolding reg by (rule forward_video_polls)
  from target_loop_bodiless [OF this, of "rp_Strategy plan = StrategyFailover" "rp_Targets plan" st1] loop w(3) assms(6)
  have "\<exists>t \<in> set (rp_Targets plan). polls x t q" by (auto simp: list_all_iff)
  with w(4) video read(2) show ?thesis by (auto simp: ModalityHintFromRequest_def wire_defs)
qed

subsection \<open>An instance\<close>

text \<open>The id \<^verbatim>\<open>../files?limit=9\<close>, at a provider whose API starts at \<^verbatim>\<open>https://v/v1\<close>.\<close>

definition demo_id :: string where
  "demo_id = ''../files?limit=9''"

definition demo_poll :: request where
  "demo_poll = \<lparr>rq_method = MethodGet, rq_path = ''/v1/videos/'' @ demo_id, rq_escaped = ''/v1/videos/'' @ pct_escape demo_id,
     rq_query = [(''model'', [''f''])], rq_header = [(''Authorization'', [''Bearer k1''])], rq_body = ''''\<rparr>"

definition demo_video_catalog :: Catalog where
  "demo_video_catalog = NewFromDocument
     \<lparr>doc_Providers = [(''v'', demo_provider ''openai-videos'' ''https://v/v1'')],
      doc_Models = [(''f'', \<lparr>mod_Modalities = [(''video'', \<lparr>mo_Wire = WireOpenAIVideos, mo_Strategy = '''',
         mo_Providers = [\<lparr>pe_ProviderRef = ''v'', pe_Model = '''', pe_Surface = ''''\<rparr>]\<rparr>)]\<rparr>)]\<rparr>"

definition demo_video_target :: Target where
  "demo_video_target =
     \<lparr>tg_Model = ''f'', tg_ProviderRef = ''v'', tg_Protocol = ''openai-videos'', tg_Adapter = '''',
      tg_BaseURL = ''https://v/v1'', tg_CredentialProfile = ''acct'', tg_UpstreamModel = ''f'',
      tg_Inject = [(''Authorization'', ''Bearer ${key}'')], tg_InjectPreset = ''''\<rparr>"

lemma demo_video_resolve:
  "ResolveWithModality demo_video_catalog ''f'' WireOpenAIVideos '''' =
     (Inr \<lparr>rp_Strategy = ''failover'', rp_Targets = [demo_video_target]\<rparr>, demo_video_catalog)"
  by (simp add: ResolveWithModality_def targetFromEntry_def surfaceFor_def pickEntries_def gm_keys_def demo_video_catalog_def
      demo_video_target_def protocolMatchesWire_def demo_simps TrimSpace_graphic graphic_def)

lemma demo_video_sets:
  "route_sets demo_key_material (target_route demo_video_target) \<lparr>ad_Spec = [], ad_Preset = ''''\<rparr> = Inr [(''Authorization'', ''Bearer sk-up'')]"
proof -
  have "target_route demo_video_target = target_route (hd (rp_Targets demo_plan))"
    by (simp add: target_route_def demo_video_target_def demo_plan_def)
  with demo_sets [of "hd (rp_Targets demo_plan)"] show ?thesis by (simp add: demo_plan_def)
qed

lemma demo_poll_path: "wire_mux (rq_method demo_poll) (rq_escaped demo_poll) = ToWire WireOpenAIVideos" "well_escaped demo_poll"
proof -
  let ?p = "''/v1/videos/'' @ pct_escape demo_id"
  have segs: "path_segments ?p = [''v1'', ''videos'', demo_id]"
    using segment_text_pct [of demo_id] pct_escape_dots [of demo_id]
    by (simp add: path_segments_def Split_videos segment_text_def demo_id_def del: append.simps)
  moreover have "path_clean ?p"
    using pct_escape_dots [of demo_id] by (simp add: path_clean_def Split_videos demo_id_def del: append.simps)
  ultimately show "wire_mux (rq_method demo_poll) (rq_escaped demo_poll) = ToWire WireOpenAIVideos"
    by (simp add: wire_mux_def Let_def mux_cleans_def video_id_def demo_poll_def route_of_def any_method_routes_def demo_id_def
        path_segments_def [of "CHR ''/'' # _"] segment_text_def del: append.simps)
  show "well_escaped demo_poll" using PathUnescape_pct [of demo_id] by (simp add: well_escaped_def demo_poll_def)
qed

lemma demo_poll_calls:
  "\<exists>q st c'. Wire_Handler demo_engine demo_poll demo_video_catalog = (fst (Wire_Handler demo_engine demo_poll demo_video_catalog), st, c') \<and>
     q \<in> set (sent (ws_trace st))"
proof -
  define st0 where "st0 = \<lparr>ws_rec = \<lparr>rec_Wire = WireOpenAIVideos, rec_Model = ''f'', rec_ProviderRef = '''', rec_Protocol = '''', rec_PrincipalID = ''ci''\<rparr>,
     ws_hdr = rq_header demo_poll, ws_trace = []\<rparr>"
  have "rq_header demo_poll = rq_header demo_chat" by (simp add: demo_poll_def demo_chat_def)
  then have auth: "Authenticate (en_Verify demo_engine) (rq_header demo_poll) =
    Inr \<lparr>prin_ID = ''ci'', prin_KeyID = 1, prin_Scopes = [''model:f'']\<rparr>"
    by (simp add: Authenticate_def demo_bearer demo_engine_def)
  have "readIngress demo_engine demo_poll WireOpenAIVideos = Inr (''f'', None)"
    by (simp add: readIngress_def demo_poll_def query_get_def gm_getd_def TrimSpace_graphic graphic_def)
  moreover have "validateWireMethod demo_poll WireOpenAIVideos"
    by (simp add: validateWireMethod_def wire_defs demo_poll_def demo_id_def)
  moreover have "Authorize [''model:f''] ''f'' WireOpenAIVideos = Inr ()"
    by (simp add: Authorize_def TrimSpace_graphic graphic_def)
  moreover have "ModalityHintFromRequest (Some demo_poll) WireOpenAIVideos = ''''"
    by (simp add: ModalityHintFromRequest_def wire_defs)
  ultimately have run: "Wire_Handler demo_engine demo_poll demo_video_catalog =
    (case target_loop demo_engine WireOpenAIVideos (rq_path demo_poll) None (StripIngressControlHeaders (rq_header demo_poll)) True
        [demo_video_target] st0 of (rep, st) \<Rightarrow> (rep, st, demo_video_catalog))"
    by (simp add: Wire_Handler_def demo_behind wire_routes_def demo_poll_path(1) withAuth_def auth handleWire_def
        demo_video_resolve st0_def zero_Recorder_def Let_def strategy_defs)
  have "\<exists>q k. relay demo_client (toHandlerTarget demo_video_target demo_key_material) MethodGet p None hdr = Do q k" for p hdr
    using demo_video_sets
    by (auto simp: relay_def Let_def NewRequest_def demo_client_def toHandlerTarget_def ApplyRoute_sets target_route_def HTTPDo_def)
  moreover have "lookupVideo (stock_registry demo_client) demo_video_target = Some (VideoHandler demo_client ''openai-videos'')"
    by (simp add: demo_video_target_def lookupVideo_def lookupHandler_def stock_registry_simps)
  ultimately obtain q k where "forward (stock_registry demo_client) WireOpenAIVideos (rq_path demo_poll)
      (toHandlerTarget demo_video_target demo_key_material) None (StripIngressControlHeaders (rq_header demo_poll)) = Do q k"
    by (fastforce simp: forward_def toHandlerTarget_def wire_defs with_handler_def VideoHandler_def Let_def)
  moreover have "ws_trace (snd (attempt_target demo_engine WireOpenAIVideos path None hdr demo_video_target st0)) =
      snd (fwd_run (forward (stock_registry demo_client) WireOpenAIVideos path (toHandlerTarget demo_video_target demo_key_material) None hdr)
        (en_Do demo_engine) [GotMaterial ''acct''])" for path hdr
    by (simp add: attempt_target_def Let_def requestBody_def demo_engine_def st0_def demo_video_target_def split: prod.split)
  ultimately have "prefix [GotMaterial ''acct'', Sent q] (ws_trace (snd (attempt_target demo_engine WireOpenAIVideos (rq_path demo_poll)
      None (StripIngressControlHeaders (rq_header demo_poll)) demo_video_target st0)))"
    using fwd_run_prefix [of "[GotMaterial ''acct'', Sent q]"] by simp
  then have "q \<in> set (sent (ws_trace (snd (attempt_target demo_engine WireOpenAIVideos (rq_path demo_poll)
      None (StripIngressControlHeaders (rq_header demo_poll)) demo_video_target st0))))"
    by (auto simp: prefix_def)
  with run show ?thesis by (auto simp: target_loop_attempt split: prod.splits)
qed

lemma demo_video_url: "video_base ''https://v/v1'' @ demo_id = ''https://v/v1/videos/../files?limit=9''"
  by (simp add: video_base_def Let_def suffix_to_prefix demo_id_def TrimRight_id)

theorem video_id_chooses_path_witness:
  "\<exists>q. q \<in> set (sent (ws_trace (fst (snd (Wire_Handler demo_engine demo_poll demo_video_catalog))))) \<and>
     or_url q = ''https://v/v1/videos/../files?limit=9''"
proof -
  obtain q st c' where run: "Wire_Handler demo_engine demo_poll demo_video_catalog =
      (fst (Wire_Handler demo_engine demo_poll demo_video_catalog), st, c')" "q \<in> set (sent (ws_trace st))"
    using demo_poll_calls by blast
  have "rq_method demo_poll = MethodGet" "rq_escaped demo_poll = ''/v1/videos/'' @ pct_escape demo_id"
    by (simp_all add: demo_poll_def)
  from video_id_chooses_path [OF demo_FromConfig run(1) this demo_poll_path(2) run(2)]
  have "polls demo_id demo_video_target q"
    by (auto simp: demo_poll_def query_get_def gm_getd_def TrimSpace_graphic graphic_def demo_video_resolve)
  then have "or_url q = video_base ''https://v/v1'' @ demo_id"
    by (simp add: polls_def absolute_url_def demo_video_target_def TrimRight_def)
  with run(1,2) show ?thesis by (metis demo_video_url fst_conv snd_conv)
qed

end
