(* ===== verification/WireCalls.thy ===== *)
theory WireCalls
  imports WireLaws
begin

section \<open>The upstream calls of a request\<close>

text \<open>
  What the gateway sends upstream while it serves one request: which targets of the request's own plan are called, in which order and
  how often, at which URL, with which body and with which credential. \<open>adapter_contract\<close> is what \<^verbatim>\<open>handleWire\<close> relies on: what a
  handler of the registry sends for a target is \<open>vouched\<close> for, given the wire, the ingress path, the target with its
  material, the body and the headers. \<open>single_shot_contract\<close> adds that a handler sends at most one request. The stock registry
  interprets both.
\<close>

subsection \<open>The contract of the adapters\<close>

definition reads :: "wire_event list \<Rightarrow> string list" where
  "reads tr = List.map_filter (\<lambda>ev. case ev of Sent q \<Rightarrow> None | GotMaterial p \<Rightarrow> Some p) tr"

lemma reads_simps [simp]:
  "reads [] = []" "reads (xs @ ys) = reads xs @ reads ys" "reads (Sent q # xs) = reads xs" "reads (GotMaterial p # xs) = p # reads xs"
  by (simp_all add: reads_def map_filter_def)

text \<open>The body of the call to a target: the client's, with the model replaced.\<close>

definition target_body :: "string option \<Rightarrow> Target \<Rightarrow> string option" where
  "target_body raw t = (case raw of None \<Rightarrow> None | Some b \<Rightarrow> rewriteModelBody b (tg_UpstreamModel t))"

lemma requestBody_target: "requestBody raw (tg_UpstreamModel t) h = Some (body, h') \<Longrightarrow> body = target_body raw t"
  by (auto simp: requestBody_def target_body_def split: option.splits)

lemma fwd_run_single:
  assumes "fwd_once p" "fwd_all P p" "fwd_run p up tr = (r, tr')"
  shows "tr' = tr \<or> (\<exists>q. tr' = tr @ [Sent q] \<and> P q)"
proof (cases p)
  case (Do q k)
  with assms(1) obtain x where "k (up tr q) = Done x" by (auto simp: fwd_once_def)
  with Do assms(2,3) show ?thesis by auto
qed (use assms in simp)

locale adapter_contract =
  fixes reg :: Registry
    and vouched :: "string \<Rightarrow> string \<Rightarrow> HandlerTarget \<Rightarrow> string option \<Rightarrow> header \<Rightarrow> out_request \<Rightarrow> bool"
  assumes vouches: "fwd_all (vouched wireID ingressPath ht body hdr) (forward reg wireID ingressPath ht body hdr)"
begin

text \<open>A call in a trace: right after the read of the target's credential, with that credential.\<close>

definition called ::
  "Engine \<Rightarrow> string \<Rightarrow> string \<Rightarrow> string option \<Rightarrow> header \<Rightarrow> wire_event list \<Rightarrow> Target \<Rightarrow> out_request \<Rightarrow> bool" where
  "called e wireID path raw outHdr trace t q \<longleftrightarrow>
     (\<exists>tr mat. prefix (tr @ [GotMaterial (tg_CredentialProfile t), Sent q]) trace \<and>
        en_Get e tr (tg_CredentialProfile t) = Inr mat \<and>
        vouched wireID path (toHandlerTarget t mat) (target_body raw t) outHdr q)"

lemma called_later: "called e wireID path raw outHdr trace t q \<Longrightarrow> prefix trace trace' \<Longrightarrow> called e wireID path raw outHdr trace' t q"
  unfolding called_def using prefix_order.trans by blast

end

locale single_shot_contract = adapter_contract +
  assumes once: "fwd_once (forward reg wireID ingressPath ht body hdr)"
begin

lemma attempt_called:
  assumes "en_Adapters e = reg" "attempt_target e wireID path raw outHdr t st = (a, st')"
  shows "ws_trace st' = ws_trace st @ [GotMaterial (tg_CredentialProfile t)] \<or>
    (\<exists>q. ws_trace st' = ws_trace st @ [GotMaterial (tg_CredentialProfile t), Sent q] \<and>
       called e wireID path raw outHdr (ws_trace st') t q)"
proof (cases "en_Get e (ws_trace st) (tg_CredentialProfile t)")
  case (Inr mat)
  show ?thesis
  proof (cases "requestBody raw (tg_UpstreamModel t) (ws_hdr st)")
    case (Some bh)
    obtain body hdr where bh: "bh = (body, hdr)" by (cases bh)
    have body: "body = target_body raw t" using Some bh requestBody_target by blast
    obtain res tr where run: "fwd_run (forward reg wireID path (toHandlerTarget t mat) body outHdr) (en_Do e)
        (ws_trace st @ [GotMaterial (tg_CredentialProfile t)]) = (res, tr)" by fastforce
    have "ws_trace st' = tr" using Inr Some bh run assms by (auto simp: attempt_target_def Let_def)
    moreover have "called e wireID path raw outHdr (ws_trace st @ [GotMaterial (tg_CredentialProfile t), Sent q]) t q"
      if "vouched wireID path (toHandlerTarget t mat) body outHdr q" for q
      unfolding called_def using that Inr body by (intro exI [of _ "ws_trace st"] exI [of _ mat]) simp
    ultimately show ?thesis using fwd_run_single [OF once vouches run] by auto
  qed (use Inr assms(2) in \<open>auto simp: attempt_target_def Let_def\<close>)
qed (use assms(2) in \<open>auto simp: attempt_target_def Let_def\<close>)

text \<open>The loop: the first targets are tried in order, each once, and the calls go to some of these, in this order.\<close>

lemma target_loop_called:
  assumes "en_Adapters e = reg"
  shows "\<exists>n ts' tr. ws_trace (snd (target_loop e wireID path raw outHdr fo ts st)) = ws_trace st @ tr \<and>
    reads tr = map tg_CredentialProfile (take n ts) \<and> (\<not> fo \<longrightarrow> n \<le> 1) \<and> subseq ts' (take n ts) \<and>
    list_all2 (called e wireID path raw outHdr (ws_trace st @ tr)) ts' (sent tr)"
proof (induction ts arbitrary: st)
  case Nil
  show ?case by (intro exI [of _ 0] exI [of _ "[]"]) simp
next
  case (Cons t ts)
  obtain a st1 where a: "attempt_target e wireID path raw outHdr t st = (a, st1)" by fastforce
  obtain tr1 ts1 where 1: "ws_trace st1 = ws_trace st @ tr1" "reads tr1 = [tg_CredentialProfile t]" "subseq ts1 [t]"
    "list_all2 (called e wireID path raw outHdr (ws_trace st1)) ts1 (sent tr1)"
    using attempt_called [OF assms a] that [of "[GotMaterial (tg_CredentialProfile t)]" "[]"]
      that [of "[GotMaterial (tg_CredentialProfile t), Sent q]" "[t]" for q] by auto
  show ?case
  proof (cases "fo \<and> ts \<noteq> [] \<and> may_retry a")
    case False
    then have "target_loop e wireID path raw outHdr fo (t # ts) st = (attempt_reply e a, st1)"
      by (auto simp: target_loop_attempt a)
    with 1 show ?thesis by (intro exI [of _ 1] exI [of _ ts1] exI [of _ tr1]) simp
  next
    case True
    then have loop: "target_loop e wireID path raw outHdr fo (t # ts) st = target_loop e wireID path raw outHdr fo ts st1"
      by (simp add: target_loop_attempt a)
    obtain n ts2 tr2 where 2: "ws_trace (snd (target_loop e wireID path raw outHdr fo ts st1)) = ws_trace st1 @ tr2"
      "reads tr2 = map tg_CredentialProfile (take n ts)" "subseq ts2 (take n ts)"
      "list_all2 (called e wireID path raw outHdr (ws_trace st1 @ tr2)) ts2 (sent tr2)"
      using Cons.IH [of st1] by blast
    have "list_all2 (called e wireID path raw outHdr (ws_trace st1 @ tr2)) ts1 (sent tr1)"
      by (rule list_all2_mono [OF 1(4)]) (erule called_later, simp)
    then have "list_all2 (called e wireID path raw outHdr (ws_trace st @ (tr1 @ tr2))) (ts1 @ ts2) (sent (tr1 @ tr2))"
      using 2(4) 1(1) by (simp add: list_all2_appendI)
    moreover have "subseq (ts1 @ ts2) (take (Suc n) (t # ts))"
      using list_emb_append_mono [OF 1(3) 2(3)] by simp
    ultimately show ?thesis
      unfolding loop using True 1(1,2) 2(1,2) by (intro exI [of _ "Suc n"] exI [of _ "ts1 @ ts2"] exI [of _ "tr1 @ tr2"]) simp
  qed
qed

text \<open>A whole request: the calls go to targets of the plan that the request itself was resolved to.\<close>

lemma Wire_Handler_called:
  assumes "en_Adapters e = reg" "Wire_Handler e r c = (rep, st, c')" "ws_trace st \<noteq> []"
  shows "\<exists>wireID model raw plan n ts. wire_mux (rq_method r) (rq_escaped r) = ToWire wireID \<and>
    readIngress e r wireID = Inr (model, raw) \<and>
    fst (ResolveWithModality c model wireID (ModalityHintFromRequest (Some r) wireID)) = Inr plan \<and>
    reads (ws_trace st) = map tg_CredentialProfile (take n (rp_Targets plan)) \<and>
    (rp_Strategy plan \<noteq> StrategyFailover \<longrightarrow> n \<le> 1) \<and> subseq ts (take n (rp_Targets plan)) \<and>
    list_all2 (called e wireID (rq_path r) raw (StripIngressControlHeaders (rq_header r)) (ws_trace st)) ts (sent (ws_trace st))"
proof -
  obtain wireID p model raw where w: "wire_mux (rq_method r) (rq_escaped r) = ToWire wireID" "readIngress e r wireID = Inr (model, raw)"
    "ws_trace st \<noteq> [] \<Longrightarrow> \<exists>plan st1. ws_trace st1 = [] \<and>
       fst (ResolveWithModality c model wireID (ModalityHintFromRequest (Some r) wireID)) = Inr plan \<and>
       target_loop (behind_statusWriter e) wireID (rq_path r) raw (StripIngressControlHeaders (rq_header r))
         (rp_Strategy plan = StrategyFailover) (rp_Targets plan) st1 = (rep, st)"
    using Wire_Handler_acts [OF assms(2) disjI1 [OF assms(3)]] by metis
  then obtain plan st1 where l: "ws_trace st1 = []"
    "fst (ResolveWithModality c model wireID (ModalityHintFromRequest (Some r) wireID)) = Inr plan"
    "target_loop (behind_statusWriter e) wireID (rq_path r) raw (StripIngressControlHeaders (rq_header r))
       (rp_Strategy plan = StrategyFailover) (rp_Targets plan) st1 = (rep, st)"
    using assms(3) by blast
  have "called (behind_statusWriter e) = called e" by (intro ext) (simp add: called_def)
  with target_loop_called [of "behind_statusWriter e" wireID "rq_path r" raw "StripIngressControlHeaders (rq_header r)"
      "rp_Strategy plan = StrategyFailover" "rp_Targets plan" st1] assms(1) l
  have "\<exists>n ts. reads (ws_trace st) = map tg_CredentialProfile (take n (rp_Targets plan)) \<and>
      (rp_Strategy plan \<noteq> StrategyFailover \<longrightarrow> n \<le> 1) \<and> subseq ts (take n (rp_Targets plan)) \<and>
      list_all2 (called e wireID (rq_path r) raw (StripIngressControlHeaders (rq_header r)) (ws_trace st)) ts (sent (ws_trace st))"
    by auto
  with w(1,2) l(2) show ?thesis by blast
qed

end

subsection \<open>The stock adapters\<close>

text \<open>The path each stock handler asks for, by wire and, for the chat wires, by protocol; and the URL it makes with the target's base.\<close>

definition stock_path :: "string \<Rightarrow> string \<Rightarrow> Target \<Rightarrow> string" where
  "stock_path wireID ingressPath t =
     (if wireID = WireOpenAIEmbed then ''/v1/embeddings''
      else if wireID = WireOpenAIImagesGen then ImageUpstreamPath (tg_BaseURL t) ingressPath
      else if wireID = WireOpenAIAudioSpeech then ''/v1/audio/speech''
      else if wireID = WireOpenAIAudioTranscriptions then ''/v1/audio/transcriptions''
      else if wireID = WireOpenAIVideos then VideoUpstreamPath (tg_BaseURL t) ingressPath
      else if tg_Protocol t = ''openai-responses'' then ''/v1/responses''
      else if tg_Protocol t = ''anthropic-messages'' then ''/v1/messages''
      else ''/v1/chat/completions'')"

definition target_url :: "string \<Rightarrow> string \<Rightarrow> Target \<Rightarrow> string" where
  "target_url wireID ingressPath t =
     (let path = stock_path wireID ingressPath t in
      if HasPrefix path ''http://'' \<or> HasPrefix path ''https://'' then path else JoinURL (tg_BaseURL t) path)"

text \<open>The credentials a call carries: what the target's route assigns from the material, and nothing of the client's.\<close>

definition carries :: "client \<Rightarrow> Target \<Rightarrow> Material \<Rightarrow> out_request \<Rightarrow> bool" where
  "carries cl t mat q \<longleftrightarrow>
     (\<exists>sets h. route_sets mat (target_route t) \<lparr>ad_Spec = [], ad_Preset = ''''\<rparr> = Inr sets \<and> or_header q = cl_trace cl h \<and>
        (\<forall>k. CanonicalKey k \<in> {''Authorization'', ''X-Api-Key''} \<longrightarrow>
           h_values h k = (case assigned sets k of Some v \<Rightarrow> [v] | None \<Rightarrow> [])))"

definition stock_vouched :: "client \<Rightarrow> string \<Rightarrow> string \<Rightarrow> HandlerTarget \<Rightarrow> string option \<Rightarrow> header \<Rightarrow> out_request \<Rightarrow> bool" where
  "stock_vouched cl wireID ingressPath ht body hdr q \<longleftrightarrow>
     or_url q = target_url wireID ingressPath (ht_Target ht) \<and> or_body q = body \<and> carries cl (ht_Target ht) (ht_Material ht) q"

lemma relay_carries:
  "fwd_all (\<lambda>q. or_url q = (if HasPrefix path ''http://'' \<or> HasPrefix path ''https://'' then path else JoinURL (tg_BaseURL (ht_Target ht)) path) \<and>
     or_body q = body \<and> carries cl (ht_Target ht) (ht_Material ht) q) (relay cl ht meth path body hdr)"
proof -
  have "carries cl (ht_Target ht) (ht_Material ht) (r'\<lparr>or_header := cl_trace cl (or_header r')\<rparr>) \<and> or_url r' = u \<and> or_body r' = body"
    if applied: "ApplyRoute (ht_Material ht) (CopyHeaders \<lparr>or_method = m, or_url = u, or_header = [], or_body = body\<rparr> hdr)
      (target_route (ht_Target ht)) \<lparr>ad_Spec = [], ad_Preset = ''''\<rparr> = Inr r'" for m u r'
  proof -
    obtain sets where sets: "route_sets (ht_Material ht) (target_route (ht_Target ht)) \<lparr>ad_Spec = [], ad_Preset = ''''\<rparr> = Inr sets"
      "r' = assign sets (StripClient (CopyHeaders \<lparr>or_method = m, or_url = u, or_header = [], or_body = body\<rparr> hdr))"
      using applied by (auto simp: ApplyRoute_sets map_sum_Inr_iff)
    have "carries cl (ht_Target ht) (ht_Material ht) (r'\<lparr>or_header := cl_trace cl (or_header r')\<rparr>)"
      unfolding carries_def
      by (rule exI [of _ sets], rule exI [of _ "or_header r'"])
        (simp add: sets assign_values StripClient_values split: option.split)
    then show ?thesis by (simp add: sets(2) assign_fields StripClient_fields CopyHeaders_def)
  qed
  then show ?thesis
    by (auto simp: relay_def Let_def NewRequest_def HTTPDo_def target_route_def split: option.splits sum.splits)
qed

lemma relay_once: "fwd_once (relay cl ht meth path body hdr)"
  by (simp add: relay_def Let_def NewRequest_def HTTPDo_def fwd_once_def split: option.splits sum.splits)

lemma stock_lookups:
  "lookupEmbed (stock_registry cl) t = None \<or> lookupEmbed (stock_registry cl) t = Some (EmbedHandler cl ''openai-embeddings'')"
  "lookupImage (stock_registry cl) t = None \<or> lookupImage (stock_registry cl) t = Some (ImageHandler cl ''openai-images'')"
  "lookupSpeech (stock_registry cl) t = None \<or> lookupSpeech (stock_registry cl) t = Some (SpeechHandler cl ''openai-tts'')"
  "lookupTranscription (stock_registry cl) t = None \<or>
     lookupTranscription (stock_registry cl) t = Some (TranscriptionHandler cl ''openai-transcriptions'')"
  "lookupVideo (stock_registry cl) t = None \<or> lookupVideo (stock_registry cl) t = Some (VideoHandler cl ''openai-videos'')"
  by (auto simp: lookupHandler_def lookupEmbed_def lookupImage_def lookupSpeech_def lookupTranscription_def
      lookupVideo_def stock_registry_simps)

lemma stock_lookupChat:
  "lookupChat (stock_registry cl) t = None \<or>
     (\<exists>h. lookupChat (stock_registry cl) t = Some (ChatHandler_of cl h) \<and> UpstreamPath h =
        (if tg_Protocol t = ''openai-responses'' then ''/v1/responses''
         else if tg_Protocol t = ''anthropic-messages'' then ''/v1/messages'' else ''/v1/chat/completions''))"
proof (cases "tg_Adapter t = ''''")
  case True
  note lk = True lookupHandler_def lookupChat_def stock_registry_simps UpstreamPath_def wire_defs
  consider "tg_Protocol t = ''openai-responses''" | "tg_Protocol t = ''anthropic-messages''" | "tg_Protocol t = ''openai-chat-completions''"
    | "tg_Protocol t \<notin> {''openai-responses'', ''anthropic-messages'', ''openai-chat-completions''}" by auto
  then show ?thesis
  proof cases
    case 1 then show ?thesis
      by (intro disjI2 exI [of _ "\<lparr>ch_ProtocolName = ''openai-responses'', ch_WireID = WireOpenAIResponses, ch_Path = ''/v1/responses''\<rparr>"])
        (simp add: lk)
  next
    case 2 then show ?thesis
      by (intro disjI2 exI [of _ "\<lparr>ch_ProtocolName = ''anthropic-messages'', ch_WireID = WireAnthropicMsg, ch_Path = ''''\<rparr>"])
        (simp add: lk)
  next
    case 3 then show ?thesis
      by (intro disjI2 exI [of _ "\<lparr>ch_ProtocolName = ''openai-chat-completions'', ch_WireID = WireOpenAIChat, ch_Path = ''''\<rparr>"])
        (simp add: lk)
  qed (auto simp: lk)
qed (simp add: lookupHandler_def lookupChat_def stock_registry_simps)

lemma forward_stock:
  obtains "forward (stock_registry cl) wireID ingressPath ht body hdr = Done (Inl ErrRouteNotRegistered)"
  | meth where "forward (stock_registry cl) wireID ingressPath ht body hdr =
      relay cl ht meth (stock_path wireID ingressPath (ht_Target ht)) body hdr"
proof -
  let ?f = "forward (stock_registry cl) wireID ingressPath ht body hdr" and ?t = "ht_Target ht"
  let ?P = "\<lambda>f. f = Done (Inl ErrRouteNotRegistered) \<or> (\<exists>meth. f = relay cl ht meth (stock_path wireID ingressPath ?t) body hdr)"
  note hd = with_handler_def EmbedHandler_def ImageHandler_def SpeechHandler_def TranscriptionHandler_def VideoHandler_def
    passthrough_forward_def
  have chat: "?P ?f" if "wireID \<notin> {WireOpenAIEmbed, WireOpenAIImagesGen, WireOpenAIAudioSpeech, WireOpenAIAudioTranscriptions, WireOpenAIVideos}"
  proof -
    have "?f = with_handler (lookupChat (stock_registry cl) ?t) (\<lambda>h. ha_Forward h ht body hdr)"
      using that by (simp add: forward_def Let_def)
    moreover have "stock_path wireID ingressPath ?t = (if tg_Protocol ?t = ''openai-responses'' then ''/v1/responses''
         else if tg_Protocol ?t = ''anthropic-messages'' then ''/v1/messages'' else ''/v1/chat/completions'')"
      using that by (simp add: stock_path_def)
    ultimately show ?thesis
      using stock_lookupChat [of cl ?t] by (elim disjE exE conjE) (auto simp: with_handler_def ChatHandler_of_def passthrough_forward_def)
  qed
  consider "wireID = WireOpenAIEmbed" | "wireID = WireOpenAIImagesGen" | "wireID = WireOpenAIAudioSpeech"
    | "wireID = WireOpenAIAudioTranscriptions" | "wireID = WireOpenAIVideos"
    | "wireID \<notin> {WireOpenAIEmbed, WireOpenAIImagesGen, WireOpenAIAudioSpeech, WireOpenAIAudioTranscriptions, WireOpenAIVideos}"
    by auto
  then have "?P ?f"
  proof cases
    case 1 then show ?thesis using stock_lookups(1) [of cl ?t] by (auto simp: forward_def Let_def stock_path_def hd)
  next
    case 2 then show ?thesis using stock_lookups(2) [of cl ?t] by (auto simp: forward_def Let_def stock_path_def wire_defs hd)
  next
    case 3 then show ?thesis using stock_lookups(3) [of cl ?t] by (auto simp: forward_def Let_def stock_path_def wire_defs hd)
  next
    case 4 then show ?thesis using stock_lookups(4) [of cl ?t] by (auto simp: forward_def Let_def stock_path_def wire_defs hd)
  next
    case 5 then show ?thesis using stock_lookups(5) [of cl ?t] by (auto simp: forward_def Let_def stock_path_def wire_defs hd)
  qed (rule chat)
  with that show ?thesis by blast
qed

interpretation stock: single_shot_contract "stock_registry cl" "stock_vouched cl"
proof (unfold_locales)
  fix wireID ingressPath ht body hdr
  show "fwd_all (stock_vouched cl wireID ingressPath ht body hdr) (forward (stock_registry cl) wireID ingressPath ht body hdr)"
  proof (rule forward_stock [of cl wireID ingressPath ht body hdr])
    fix meth assume f: "forward (stock_registry cl) wireID ingressPath ht body hdr =
      relay cl ht meth (stock_path wireID ingressPath (ht_Target ht)) body hdr"
    show ?thesis
      unfolding f stock_vouched_def target_url_def Let_def by (rule relay_carries)
  qed simp
  show "fwd_once (forward (stock_registry cl) wireID ingressPath ht body hdr)"
    by (rule forward_stock [of cl wireID ingressPath ht body hdr]) (simp_all add: relay_once, simp add: fwd_once_def)
qed

lemma called_credentials:
  assumes "stock.called cl e wireID path raw hdr trace t q"
    "\<And>h k. CanonicalKey k \<in> {''Authorization'', ''X-Api-Key''} \<Longrightarrow> h_values (cl_trace cl h) k = h_values h k"
  shows "or_url q = target_url wireID path t \<and>
    (\<exists>tr mat sets. prefix (tr @ [GotMaterial (tg_CredentialProfile t), Sent q]) trace \<and> en_Get e tr (tg_CredentialProfile t) = Inr mat \<and>
       route_sets mat (target_route t) \<lparr>ad_Spec = [], ad_Preset = ''''\<rparr> = Inr sets \<and>
       (\<forall>k. CanonicalKey k \<in> {''Authorization'', ''X-Api-Key''} \<longrightarrow>
          h_values (or_header q) k = (case assigned sets k of Some v \<Rightarrow> [v] | None \<Rightarrow> [])))"
proof -
  obtain tr mat where c: "prefix (tr @ [GotMaterial (tg_CredentialProfile t), Sent q]) trace" "en_Get e tr (tg_CredentialProfile t) = Inr mat"
    "or_url q = target_url wireID path t" "carries cl t mat q"
    using assms(1) by (auto simp: stock.called_def stock_vouched_def toHandlerTarget_def)
  obtain sets h where s: "route_sets mat (target_route t) \<lparr>ad_Spec = [], ad_Preset = ''''\<rparr> = Inr sets" "or_header q = cl_trace cl h"
    "\<forall>k. CanonicalKey k \<in> {''Authorization'', ''X-Api-Key''} \<longrightarrow> h_values h k = (case assigned sets k of Some v \<Rightarrow> [v] | None \<Rightarrow> [])"
    using c(4) unfolding carries_def by blast
  have "h_values (or_header q) k = (case assigned sets k of Some v \<Rightarrow> [v] | None \<Rightarrow> [])"
    if "CanonicalKey k \<in> {''Authorization'', ''X-Api-Key''}" for k
    using s(3) [rule_format, OF that] assms(2) [OF that, of h] by (simp add: s(2))
  with c(1-3) s(1) show ?thesis by blast
qed

text \<open>
  (C000) Every upstream call carries the credential of the target it goes to, and only that. While the gateway serves a client with the
  stock adapters, its calls pair off, in order, with some of the targets of the plan that the request's own model, wire and hint
  resolved to: each call goes to the URL of its target, right after the credential of that target's profile was read, and its
  \<open>Authorization\<close> and \<open>X-Api-Key\<close> are exactly what the target's route assigns from the material just read. No value of these
  headers that the client sent is among them. (The propagator of trace headers leaves the two headers alone.)
\<close>

theorem upstream_credentials_only:
  assumes "FromConfig cl enable [] = Inr (en_Adapters e)" "Wire_Handler e r c = (rep, st, c')" "ws_trace st \<noteq> []"
    "\<And>h k. CanonicalKey k \<in> {''Authorization'', ''X-Api-Key''} \<Longrightarrow> h_values (cl_trace cl h) k = h_values h k"
  shows "\<exists>wireID model raw plan ts. wire_mux (rq_method r) (rq_escaped r) = ToWire wireID \<and>
    readIngress e r wireID = Inr (model, raw) \<and>
    fst (ResolveWithModality c model wireID (ModalityHintFromRequest (Some r) wireID)) = Inr plan \<and> subseq ts (rp_Targets plan) \<and>
    list_all2 (\<lambda>t q. or_url q = target_url wireID (rq_path r) t \<and>
      (\<exists>tr mat sets. prefix (tr @ [GotMaterial (tg_CredentialProfile t), Sent q]) (ws_trace st) \<and>
         en_Get e tr (tg_CredentialProfile t) = Inr mat \<and>
         route_sets mat (target_route t) \<lparr>ad_Spec = [], ad_Preset = ''''\<rparr> = Inr sets \<and>
         (\<forall>k. CanonicalKey k \<in> {''Authorization'', ''X-Api-Key''} \<longrightarrow>
            h_values (or_header q) k = (case assigned sets k of Some v \<Rightarrow> [v] | None \<Rightarrow> []))))
      ts (sent (ws_trace st))"
proof -
  have reg: "en_Adapters e = stock_registry cl" by (rule FromConfig_stock [OF assms(1)])
  obtain wireID model raw plan n ts where w: "wire_mux (rq_method r) (rq_escaped r) = ToWire wireID"
    "readIngress e r wireID = Inr (model, raw)"
    "fst (ResolveWithModality c model wireID (ModalityHintFromRequest (Some r) wireID)) = Inr plan" "subseq ts (take n (rp_Targets plan))"
    "list_all2 (stock.called cl e wireID (rq_path r) raw (StripIngressControlHeaders (rq_header r)) (ws_trace st)) ts (sent (ws_trace st))"
    using stock.Wire_Handler_called [OF reg assms(2,3)] by blast
  have "subseq ts (rp_Targets plan)" using w(4) take_is_prefix prefix_imp_subseq subseq_order.trans by metis
  moreover have "list_all2 (\<lambda>t q. or_url q = target_url wireID (rq_path r) t \<and>
      (\<exists>tr mat sets. prefix (tr @ [GotMaterial (tg_CredentialProfile t), Sent q]) (ws_trace st) \<and>
         en_Get e tr (tg_CredentialProfile t) = Inr mat \<and>
         route_sets mat (target_route t) \<lparr>ad_Spec = [], ad_Preset = ''''\<rparr> = Inr sets \<and>
         (\<forall>k. CanonicalKey k \<in> {''Authorization'', ''X-Api-Key''} \<longrightarrow>
            h_values (or_header q) k = (case assigned sets k of Some v \<Rightarrow> [v] | None \<Rightarrow> []))))
      ts (sent (ws_trace st))"
    by (rule list_all2_mono [OF w(5)])
      (erule called_credentials [OF _ assms(4)])
  ultimately show ?thesis using w(1-3) by blast
qed

text \<open>
  (C000) A request costs at most one upstream call per pool member. With the stock adapters, the gateway goes through the first \<open>n\<close>
  targets of the plan that the request's own model, wire and hint resolved to, reading the credential of each exactly once and in order
  (only of the first one unless the plan is one for failover), and the calls pair off with some of these targets, in order: each member is
  called at most once, at its own URL and with the client's body in which the model is the one of that member.
\<close>

theorem upstream_calls_bounded:
  assumes "FromConfig cl enable [] = Inr (en_Adapters e)" "Wire_Handler e r c = (rep, st, c')" "ws_trace st \<noteq> []"
  shows "\<exists>wireID model raw plan n ts. wire_mux (rq_method r) (rq_escaped r) = ToWire wireID \<and>
    readIngress e r wireID = Inr (model, raw) \<and>
    fst (ResolveWithModality c model wireID (ModalityHintFromRequest (Some r) wireID)) = Inr plan \<and>
    reads (ws_trace st) = map tg_CredentialProfile (take n (rp_Targets plan)) \<and> (rp_Strategy plan \<noteq> StrategyFailover \<longrightarrow> n \<le> 1) \<and>
    subseq ts (take n (rp_Targets plan)) \<and>
    list_all2 (\<lambda>t q. or_url q = target_url wireID (rq_path r) t \<and> or_body q = target_body raw t) ts (sent (ws_trace st)) \<and>
    length (sent (ws_trace st)) \<le> length (rp_Targets plan)"
proof -
  have reg: "en_Adapters e = stock_registry cl" by (rule FromConfig_stock [OF assms(1)])
  obtain wireID model raw plan n ts where w: "wire_mux (rq_method r) (rq_escaped r) = ToWire wireID"
    "readIngress e r wireID = Inr (model, raw)"
    "fst (ResolveWithModality c model wireID (ModalityHintFromRequest (Some r) wireID)) = Inr plan"
    "reads (ws_trace st) = map tg_CredentialProfile (take n (rp_Targets plan))" "rp_Strategy plan \<noteq> StrategyFailover \<longrightarrow> n \<le> 1"
    "subseq ts (take n (rp_Targets plan))"
    "list_all2 (stock.called cl e wireID (rq_path r) raw (StripIngressControlHeaders (rq_header r)) (ws_trace st)) ts (sent (ws_trace st))"
    using stock.Wire_Handler_called [OF reg assms(2,3)] by blast
  have "list_all2 (\<lambda>t q. or_url q = target_url wireID (rq_path r) t \<and> or_body q = target_body raw t) ts (sent (ws_trace st))"
    by (rule list_all2_mono [OF w(7)]) (auto simp: stock.called_def stock_vouched_def toHandlerTarget_def)
  moreover from this have "length (sent (ws_trace st)) \<le> length (rp_Targets plan)"
    using list_emb_length [OF w(6)] by (auto dest: list_all2_lengthD)
  ultimately show ?thesis using w(1-6) by blast
qed

subsection \<open>Instances\<close>

lemma demo_calls:
  obtains rep st c' where "Wire_Handler demo_engine demo_chat demo_catalog = (rep, st, c')" "length (sent (ws_trace st)) = 2"
    "ws_trace st \<noteq> []"
proof -
  obtain rep st c' where r: "Wire_Handler demo_engine demo_chat demo_catalog = (rep, st, c')"
    by (cases "Wire_Handler demo_engine demo_chat demo_catalog")
  have "length (sent (ws_trace st)) = 2" using demo_sent r by (simp add: demo_result_def)
  moreover from this have "ws_trace st \<noteq> []" by auto
  ultimately show ?thesis using that r by blast
qed

theorem upstream_credentials_only_witness:
  "\<exists>st t q tr mat sets. st = fst (snd (Wire_Handler demo_engine demo_chat demo_catalog)) \<and> q \<in> set (sent (ws_trace st)) \<and>
    or_url q = target_url WireOpenAIChat ''/v1/chat/completions'' t \<and>
    prefix (tr @ [GotMaterial (tg_CredentialProfile t), Sent q]) (ws_trace st) \<and>
    en_Get demo_engine tr (tg_CredentialProfile t) = Inr mat \<and>
    route_sets mat (target_route t) \<lparr>ad_Spec = [], ad_Preset = ''''\<rparr> = Inr sets \<and>
    h_values (or_header q) ''Authorization'' = (case assigned sets ''Authorization'' of Some v \<Rightarrow> [v] | None \<Rightarrow> [])"
proof (rule demo_calls)
  fix rep st c' assume r: "Wire_Handler demo_engine demo_chat demo_catalog = (rep, st, c')" and two: "length (sent (ws_trace st)) = 2"
    and acted: "ws_trace st \<noteq> []"
  have trace: "h_values (cl_trace demo_client h) k = h_values h k" for h k by (simp add: demo_client_def)
  from upstream_credentials_only [OF demo_FromConfig r acted trace] obtain wireID ts where w:
    "wire_mux (rq_method demo_chat) (rq_escaped demo_chat) = ToWire wireID"
    "list_all2 (\<lambda>t q. or_url q = target_url wireID (rq_path demo_chat) t \<and>
      (\<exists>tr mat sets. prefix (tr @ [GotMaterial (tg_CredentialProfile t), Sent q]) (ws_trace st) \<and>
         en_Get demo_engine tr (tg_CredentialProfile t) = Inr mat \<and>
         route_sets mat (target_route t) \<lparr>ad_Spec = [], ad_Preset = ''''\<rparr> = Inr sets \<and>
         (\<forall>k. CanonicalKey k \<in> {''Authorization'', ''X-Api-Key''} \<longrightarrow>
            h_values (or_header q) k = (case assigned sets k of Some v \<Rightarrow> [v] | None \<Rightarrow> []))))
      ts (sent (ws_trace st))" by blast
  have wire: "wireID = WireOpenAIChat" "rq_path demo_chat = ''/v1/chat/completions''"
    using w(1) demo_mux by (simp_all add: demo_chat_def)
  obtain q where q: "sent (ws_trace st) ! 0 = q" "q \<in> set (sent (ws_trace st))" using two by (metis nth_mem zero_less_numeral)
  have "length ts = 2" using w(2) two by (auto dest: list_all2_lengthD)
  with list_all2_nthD [OF w(2), of 0] q(1) obtain tr mat sets where c: "or_url q = target_url wireID (rq_path demo_chat) (ts ! 0)"
    "prefix (tr @ [GotMaterial (tg_CredentialProfile (ts ! 0)), Sent q]) (ws_trace st)"
    "en_Get demo_engine tr (tg_CredentialProfile (ts ! 0)) = Inr mat"
    "route_sets mat (target_route (ts ! 0)) \<lparr>ad_Spec = [], ad_Preset = ''''\<rparr> = Inr sets"
    "\<forall>k. CanonicalKey k \<in> {''Authorization'', ''X-Api-Key''} \<longrightarrow>
       h_values (or_header q) k = (case assigned sets k of Some v \<Rightarrow> [v] | None \<Rightarrow> [])" by auto
  have "CanonicalKey ''Authorization'' \<in> {''Authorization'', ''X-Api-Key''}" by simp
  with c(5) have "h_values (or_header q) ''Authorization'' = (case assigned sets ''Authorization'' of Some v \<Rightarrow> [v] | None \<Rightarrow> [])" by blast
  with c(1-4) q(2) r wire show ?thesis by (metis fst_conv snd_conv)
qed

theorem upstream_calls_bounded_witness:
  "\<exists>plan. fst (ResolveWithModality demo_catalog ''f'' WireOpenAIChat '''') = Inr plan \<and> length (rp_Targets plan) = 2 \<and>
     reads (ws_trace (fst (snd (Wire_Handler demo_engine demo_chat demo_catalog)))) = map tg_CredentialProfile (rp_Targets plan)"
proof (rule demo_calls)
  fix rep st c' assume r: "Wire_Handler demo_engine demo_chat demo_catalog = (rep, st, c')" and two: "length (sent (ws_trace st)) = 2"
    and acted: "ws_trace st \<noteq> []"
  from upstream_calls_bounded [OF demo_FromConfig r acted] obtain wireID model raw plan n ts where w:
    "wire_mux (rq_method demo_chat) (rq_escaped demo_chat) = ToWire wireID" "readIngress demo_engine demo_chat wireID = Inr (model, raw)"
    "fst (ResolveWithModality demo_catalog model wireID (ModalityHintFromRequest (Some demo_chat) wireID)) = Inr plan"
    "reads (ws_trace st) = map tg_CredentialProfile (take n (rp_Targets plan))" "subseq ts (take n (rp_Targets plan))"
    "list_all2 (\<lambda>t q. or_url q = target_url wireID (rq_path demo_chat) t \<and> or_body q = target_body raw t) ts (sent (ws_trace st))"
    by blast
  have m: "wireID = WireOpenAIChat" using w(1) demo_mux by simp
  with w(2) demo_read have "model = ''f''" by simp
  with w(3) m demo_hint demo_resolve have p: "plan = demo_plan" "fst (ResolveWithModality demo_catalog ''f'' WireOpenAIChat '''') = Inr plan"
    by simp_all
  have "length ts = 2" using w(6) two by (auto dest: list_all2_lengthD)
  then have "2 \<le> length (take n (rp_Targets plan))" using list_emb_length [OF w(5)] by simp
  moreover have "length (rp_Targets plan) = 2" using p(1) by (simp add: demo_plan_def)
  ultimately have "take n (rp_Targets plan) = rp_Targets plan" by simp
  with w(4) p(2) r \<open>length (rp_Targets plan) = 2\<close> show ?thesis by simp
qed

end
