(* ===== verification/StoreHistory.thy ===== *)
theory StoreHistory
  imports StoreSqlite
begin

section \<open>Histories of the credential store\<close>

text \<open>
  A reference model of a credential store: a ledger of every credential that was put, oldest first, none of
  which is ever removed. \<open>ledger_step\<close> says for each operation of \<^verbatim>\<open>credential/store\<close> what it answers and what it
  does to the ledger, for every outcome of the random source and of the database statements. The two stores of
  \<^verbatim>\<open>memory.go\<close> and \<^verbatim>\<open>sqlite.go\<close> implement it, with one difference: \<open>pick\<close>, the entry an OAuth update goes to. The locale
  \<open>store_history\<close> lifts the simulation of one operation to any history.
\<close>

subsection \<open>The ledger\<close>

record entry =
  en_id :: int
  en_mat :: Material
  en_cause :: string

record ledger =
  ld_entries :: "entry list"
  ld_next :: int
  ld_gen :: int

datatype store_op =
    PutAPI string string
  | PutOA string Material
  | UpdateOA string Material
  | DisableID int string

definition empty_ledger :: ledger where
  "empty_ledger = \<lparr>ld_entries = [], ld_next = 0, ld_gen = 1\<rparr>"

definition newest :: "(Material \<Rightarrow> bool) \<Rightarrow> ledger \<Rightarrow> entry option" where
  "newest P v = find (\<lambda>x. P (en_mat x)) (rev (ld_entries v))"

text \<open>A reader gets the newest credential of a profile; when that one is disabled, none, whatever older ones there are.\<close>

definition ledger_get :: "string \<Rightarrow> ledger \<Rightarrow> (store_error, Material) res" where
  "ledger_get p v =
     (case newest (\<lambda>m. mat_Profile m = p) v of
        None \<Rightarrow> Inl (ErrProfileNotFound p)
      | Some x \<Rightarrow> (if en_cause x \<noteq> '''' then Inl (ErrDisabled (en_id x) (en_cause x)) else Inr (en_mat x)))"

definition ledger_bump :: "store_env \<Rightarrow> ledger \<Rightarrow> ledger" where
  "ledger_bump e v = (if st_bump_ok e then v\<lparr>ld_gen := ld_gen v + 1\<rparr> else v)"

definition ledger_add :: "store_env \<Rightarrow> Material \<Rightarrow> ledger \<Rightarrow> (store_error, int) res \<times> ledger" where
  "ledger_add e m v =
     (if st_nonce e = None then (Inl (ErrSeal ErrNonce), v)
      else if \<not> st_ok1 e then (Inl ErrStoreDatabase, v)
      else (Inr (ld_next v + 1),
            ledger_bump e (v\<lparr>ld_entries := ld_entries v @ [\<lparr>en_id = ld_next v + 1, en_mat = m, en_cause = ''''\<rparr>],
                             ld_next := ld_next v + 1\<rparr>)))"

definition ledger_set :: "store_env \<Rightarrow> int \<Rightarrow> (entry \<Rightarrow> entry) \<Rightarrow> ledger \<Rightarrow> (store_error, int) res \<times> ledger" where
  "ledger_set e i f v =
     (if st_bump_ok e then Inr 0 else Inl ErrStoreDatabase,
      ledger_bump e (v\<lparr>ld_entries := map (\<lambda>x. if en_id x = i then f x else x) (ld_entries v)\<rparr>))"

fun ledger_step ::
  "(string \<Rightarrow> ledger \<Rightarrow> (store_error, int) res) \<Rightarrow> store_env \<Rightarrow> store_op \<Rightarrow> ledger \<Rightarrow> (store_error, int) res \<times> ledger" where
  "ledger_step pick e (PutAPI p k) v = ledger_add e (stored_api p k) v"
| "ledger_step pick e (PutOA p m) v = ledger_add e (stored_oauth p m) v"
| "ledger_step pick e (UpdateOA p m) v =
     (if \<not> st_ok1 e then (Inl ErrStoreDatabase, v)
      else case pick p v of
        Inl err \<Rightarrow> (Inl err, v)
      | Inr i \<Rightarrow>
          (if st_nonce e = None then (Inl (ErrSeal ErrNonce), v)
           else if \<not> st_ok2 e then (Inl ErrStoreDatabase, v)
           else ledger_set e i (\<lambda>x. x\<lparr>en_mat := stored_oauth p m, en_cause := ''''\<rparr>) v))"
| "ledger_step pick e (DisableID i cause) v =
     (if \<not> st_ok1 e then (Inl ErrStoreDatabase, v)
      else if \<forall>x \<in> set (ld_entries v). en_id x \<noteq> i then (Inl (ErrCredentialNotFound i), v)
      else ledger_set e i (\<lambda>x. x\<lparr>en_cause := cause\<rparr>) v)"

text \<open>The database updates the newest OAuth entry of the profile, the memory store its newest entry, if that is OAuth.\<close>

definition vault_pick :: "string \<Rightarrow> ledger \<Rightarrow> (store_error, int) res" where
  "vault_pick p v =
     (case newest (\<lambda>m. mat_Profile m = p \<and> mat_Kind m = KindOAuth) v of
        None \<Rightarrow> Inl (ErrOAuthNotFound p)
      | Some x \<Rightarrow> Inr (en_id x))"

definition memory_pick :: "string \<Rightarrow> ledger \<Rightarrow> (store_error, int) res" where
  "memory_pick p v =
     (case newest (\<lambda>m. mat_Profile m = p) v of
        None \<Rightarrow> Inl (ErrOAuthNotFound p)
      | Some x \<Rightarrow> (if mat_Kind (en_mat x) \<noteq> KindOAuth then Inl (ErrNotOAuth p) else Inr (en_id x)))"

text \<open>A history: every operation with its environment. The results come back in order.\<close>

fun run_store ::
  "(store_env \<Rightarrow> store_op \<Rightarrow> 's \<Rightarrow> 'r \<times> 's) \<Rightarrow> (store_env \<times> store_op) list \<Rightarrow> 's \<Rightarrow> 'r list \<times> 's" where
  "run_store exec [] s = ([], s)"
| "run_store exec ((e, oper) # ops) s =
     (case exec e oper s of (r, s1) \<Rightarrow> (case run_store exec ops s1 of (rs, s2) \<Rightarrow> (r # rs, s2)))"

text \<open>
  What is asked of an environment is only that the random source gives 12 bytes or fails, as \<^verbatim>\<open>io.ReadFull\<close> does; of an
  operation, that its material is a value the program can hold.
\<close>

definition nonce_ok :: "store_env \<Rightarrow> bool" where
  "nonce_ok e \<longleftrightarrow> (case st_nonce e of None \<Rightarrow> True | Some n \<Rightarrow> length n = 12)"

fun op_ok :: "store_op \<Rightarrow> bool" where
  "op_ok (PutOA p m) = material_ok m"
| "op_ok (UpdateOA p m) = material_ok m"
| "op_ok _ = True"

definition history_ok :: "(store_env \<times> store_op) list \<Rightarrow> bool" where
  "history_ok ops \<longleftrightarrow> list_all (\<lambda>(e, oper). nonce_ok e \<and> op_ok oper) ops"

lemma history_ok_simps [simp]:
  "history_ok []" "history_ok ((e, oper) # ops) \<longleftrightarrow> nonce_ok e \<and> op_ok oper \<and> history_ok ops"
  by (auto simp: history_ok_def)

locale store_history =
  fixes exec :: "store_env \<Rightarrow> store_op \<Rightarrow> 's \<Rightarrow> (store_error, int) res \<times> 's"
    and get :: "string \<Rightarrow> 's \<Rightarrow> (store_error, Material) res"
    and ledger_of :: "'s \<Rightarrow> ledger"
    and inv :: "'s \<Rightarrow> bool"
    and pick :: "string \<Rightarrow> ledger \<Rightarrow> (store_error, int) res"
    and view :: "store_env \<Rightarrow> store_env"
  assumes exec_ok: "inv s \<Longrightarrow> nonce_ok e \<Longrightarrow> op_ok oper \<Longrightarrow> exec e oper s = (r, s') \<Longrightarrow>
      inv s' \<and> ledger_step pick (view e) oper (ledger_of s) = (r, ledger_of s')"
    and get_ok: "inv s \<Longrightarrow> get p s = ledger_get p (ledger_of s)"
begin

lemma run_ok:
  "inv s \<Longrightarrow> history_ok ops \<Longrightarrow> run_store exec ops s = (rs, s') \<Longrightarrow>
     inv s' \<and> run_store (\<lambda>e. ledger_step pick (view e)) ops (ledger_of s) = (rs, ledger_of s')"
proof (induction ops arbitrary: s rs s')
  case (Cons eo ops)
  obtain e oper where eo: "eo = (e, oper)" by (cases eo)
  obtain r s1 where x: "exec e oper s = (r, s1)" by fastforce
  obtain rs' s2 where y: "run_store exec ops s1 = (rs', s2)" by fastforce
  have r: "rs = r # rs'" "s' = s2" using Cons.prems(3) by (simp_all add: eo x y)
  have h: "nonce_ok e" "op_ok oper" "history_ok ops" using Cons.prems(2) by (simp_all add: eo)
  note 1 = exec_ok [OF Cons.prems(1) h(1,2) x]
  note 2 = Cons.IH [OF conjunct1 [OF 1] h(3) y]
  show ?case using 1 2 by (simp add: eo r)
qed simp

end

subsection \<open>The broker database implements the ledger\<close>

definition SQLite_exec :: "gcm \<Rightarrow> store_env \<Rightarrow> store_op \<Rightarrow> SQLite \<Rightarrow> (store_error, int) res \<times> SQLite" where
  "SQLite_exec G e oper s =
     (case oper of
        PutAPI p k \<Rightarrow> SQLite_PutAPIKey G e p k s
      | PutOA p m \<Rightarrow> SQLite_PutOAuth G e p m s
      | UpdateOA p m \<Rightarrow> apfst (map_sum id (\<lambda>_. 0)) (SQLite_UpdateOAuth G e p m s)
      | DisableID i cause \<Rightarrow> apfst (map_sum id (\<lambda>_. 0)) (SQLite_Disable e i cause s))"

definition entry_of_row :: "gcm \<Rightarrow> SQLite \<Rightarrow> cred_row \<Rightarrow> entry" where
  "entry_of_row G s r =
     \<lparr>en_id = cr_id r, en_mat = projr (materialFromRow G s (cr_provider r) (cr_type r) (cr_data r)),
      en_cause = null_str (cr_disabled_cause r)\<rparr>"

definition SQLite_ledger :: "gcm \<Rightarrow> SQLite \<Rightarrow> ledger" where
  "SQLite_ledger G s =
     \<lparr>ld_entries = map (entry_of_row G s) (sq_rows s), ld_next = sq_seq s, ld_gen = SQLite_gen s\<rparr>"

lemma entry_of_row_id [simp]: "en_id (entry_of_row G s r) = cr_id r"
  by (simp add: entry_of_row_def)

lemma entry_of_row_key: "sq_key s = sq_key s' \<Longrightarrow> entry_of_row G s = entry_of_row G s'"
  by (intro ext) (simp add: entry_of_row_def materialFromRow_key [of s s' G])

lemma entry_of_row_mat:
  assumes "SQLite_inv G s" "r \<in> set (sq_rows s)"
  obtains m where "materialFromRow G s (cr_provider r) (cr_type r) (cr_data r) = Inr m" "en_mat (entry_of_row G s r) = m"
    "mat_Profile m = cr_provider r" "mat_Kind m = cr_type r"
proof -
  obtain m where m: "materialFromRow G s (cr_provider r) (cr_type r) (cr_data r) = Inr m"
    using assms by (auto simp: SQLite_inv_def readable_def)
  then have "mat_Kind m = cr_type r \<and> mat_Profile m = cr_provider r"
    using MaterialFromDecrypted_kind by (auto simp: materialFromRow_def res_bind_Inr_iff)
  with m that show ?thesis by (simp add: entry_of_row_def)
qed

lemma find_cong_set: "(\<And>x. x \<in> set xs \<Longrightarrow> P x = Q x) \<Longrightarrow> find P xs = find Q xs"
  by (induction xs) auto

lemma newest_row:
  assumes "SQLite_inv G s" "\<And>m r. mat_Profile m = cr_provider r \<Longrightarrow> mat_Kind m = cr_type r \<Longrightarrow> P m = Q r"
  shows "newest P (SQLite_ledger G s) = map_option (entry_of_row G s) (latest_row Q s)"
proof -
  have "sorted_wrt (<) (map cr_id (sq_rows s))" using assms(1) by (simp add: SQLite_inv_def)
  moreover have rows: "P (en_mat (entry_of_row G s r)) = Q r" if "r \<in> set (sq_rows s)" for r
    by (rule entry_of_row_mat [OF assms(1) that]) (simp add: assms(2))
  ultimately show ?thesis
    using latest_row_sorted [of s Q] unfolding newest_def SQLite_ledger_def
    by (simp add: rev_map find_map) (intro arg_cong [where f = "map_option (entry_of_row G s)"] find_cong_set, simp)
qed

lemma SQLite_ledger_get:
  assumes "SQLite_inv G s"
  shows "SQLite_Get G True p s = ledger_get p (SQLite_ledger G s)"
proof -
  have n: "newest (\<lambda>m. mat_Profile m = p) (SQLite_ledger G s) =
      map_option (entry_of_row G s) (latest_row (\<lambda>r. cr_provider r = p) s)"
    by (rule newest_row [OF assms]) simp
  show ?thesis
  proof (cases "latest_row (\<lambda>r. cr_provider r = p) s")
    case (Some r)
    note x = latest_row_Some [OF Some]
    obtain m where "materialFromRow G s (cr_provider r) (cr_type r) (cr_data r) = Inr m" "en_mat (entry_of_row G s r) = m"
      by (rule entry_of_row_mat [OF assms conjunct1 [OF x]])
    with Some x show ?thesis by (simp add: SQLite_Get_def ledger_get_def n entry_of_row_def)
  qed (simp add: SQLite_Get_def ledger_get_def n)
qed

lemma SQLite_bump_ledger:
  assumes "SQLite_inv G t" "SQLite_BumpGeneration e t = (r, t')"
  shows "SQLite_inv G t' \<and> r = (if st_bump_ok e then Inr () else Inl ErrStoreDatabase) \<and>
    SQLite_ledger G t' = ledger_bump e (SQLite_ledger G t)"
proof (cases "st_bump_ok e")
  case True
  have "sq_meta t \<noteq> None" using assms(1) by (simp add: SQLite_inv_def)
  moreover have t': "t' = t\<lparr>sq_meta := map_option (\<lambda>(g, x). (g + 1, UnixMilli (st_now2 e))) (sq_meta t)\<rparr>"
    "r = Inr ()" using assms(2) True by (auto simp: SQLite_BumpGeneration_def)
  ultimately have "SQLite_gen t' = SQLite_gen t + 1" by (auto simp: SQLite_gen_def)
  moreover have "SQLite_inv G t'" unfolding t' by (rule inv_meta_set [OF assms(1)])
  moreover have "entry_of_row G t' = entry_of_row G t" by (rule entry_of_row_key) (simp add: t')
  ultimately show ?thesis using True by (simp add: t' SQLite_ledger_def ledger_bump_def)
next
  case False
  with assms show ?thesis by (auto simp: SQLite_BumpGeneration_def ledger_bump_def)
qed

lemma nonce_good: "nonce_ok e \<Longrightarrow> st_nonce e \<noteq> None \<Longrightarrow> env_good (e\<lparr>st_ok1 := True, st_ok2 := True, st_bump_ok := True\<rparr>)"
  by (auto simp: nonce_ok_def env_good_def split: option.splits)

lemma EncryptPayload_cases:
  assumes "length key = 32" "nonce_ok e"
  obtains "st_nonce e = None" "EncryptPayload G (st_nonce e) key v = Inl (ErrSeal ErrNonce)"
  | enc where "st_nonce e \<noteq> None" "EncryptPayload G (st_nonce e) key v = Inr enc"
proof (cases "st_nonce e")
  case None
  with that(1) assms(1) show ?thesis by (simp add: EncryptPayload_def Encrypt_def)
next
  case (Some n)
  with that(2) assms(1) show ?thesis by (simp add: EncryptPayload_def Encrypt_def)
qed

lemma materialFromRow_sealed:
  assumes "SQLite_inv G s" "nonce_ok e" "EncryptPayload G (st_nonce e) (sq_key s) v = Inr enc"
  shows "materialFromRow G s p k enc = MaterialFromDecrypted p k (emit v)"
proof -
  have k: "length (sq_key s) = 32" "gcm_inverse G" using assms(1) by (simp_all add: SQLite_inv_def)
  have "st_nonce e \<noteq> None" using assms(3) k(1) by (auto simp: EncryptPayload_def Encrypt_def split: option.splits)
  from materialFromRow_Encrypt [OF k(2,1) nonce_good [OF assms(2) this]] assms(3) show ?thesis by simp
qed

lemma SQLite_insert_ledger:
  assumes inv: "SQLite_inv G s" and e: "st_nonce e \<noteq> None"
    and enc: "materialFromRow G s p kind enc = Inr m" and run: "SQLite_insert e p kind enc ident s = (r, s')"
  shows "SQLite_inv G s' \<and> ledger_add e m (SQLite_ledger G s) = (r, SQLite_ledger G s')"
proof (cases "st_ok1 e")
  case True
  let ?r = "\<lparr>cr_id = sq_seq s + 1, cr_provider = p, cr_type = kind, cr_data = enc, cr_identity_key = ident,
    cr_disabled_cause = None, cr_created_at = UnixMilli (st_now e), cr_updated_at = UnixMilli (st_now e)\<rparr>"
  let ?s = "s\<lparr>sq_rows := sq_rows s @ [?r], sq_seq := sq_seq s + 1\<rparr>"
  note key = materialFromRow_key [of ?s s G, simplified] entry_of_row_key [of ?s s G, simplified]
  have inv': "SQLite_inv G ?s"
    using inv enc by (auto simp: SQLite_inv_def readable_def key sorted_wrt_append intro: le_less_trans)
  have r: "r = Inr (sq_seq s + 1)" "s' = snd (SQLite_BumpGeneration e ?s)"
    using run True by (auto simp: SQLite_insert_def Let_def)
  have "SQLite_inv G s' \<and> SQLite_ledger G s' = ledger_bump e (SQLite_ledger G ?s)"
    using SQLite_bump_ledger [OF inv', of e] by (metis prod.collapse r(2))
  moreover have "SQLite_ledger G ?s =
      (SQLite_ledger G s)\<lparr>ld_entries := ld_entries (SQLite_ledger G s) @ [\<lparr>en_id = sq_seq s + 1, en_mat = m, en_cause = ''''\<rparr>],
        ld_next := sq_seq s + 1\<rparr>"
    using enc by (simp add: SQLite_ledger_def key entry_of_row_def null_str_def SQLite_gen_def)
  ultimately show ?thesis
    using True e r(1) by (simp add: ledger_add_def) (simp add: SQLite_ledger_def)
next
  case False
  with run e inv show ?thesis by (auto simp: SQLite_insert_def ledger_add_def)
qed

lemma SQLite_set_ledger:
  assumes inv: "SQLite_inv G s" and r: "r \<in> set (sq_rows s)"
    and same: "\<And>x. cr_id (f x) = cr_id x" "\<And>x. cr_provider (f x) = cr_provider x"
    and m: "materialFromRow G s (cr_provider r) (cr_type (f r)) (cr_data (f r)) = Inr m"
    and g: "g (entry_of_row G s r) = \<lparr>en_id = cr_id r, en_mat = m, en_cause = null_str (cr_disabled_cause (f r))\<rparr>"
    and run: "SQLite_BumpGeneration e (set_rows (cr_id r) f s) = (x, s')"
  shows "SQLite_inv G s' \<and> ledger_set e (cr_id r) g (SQLite_ledger G s) = (map_sum id (\<lambda>_. 0) x, SQLite_ledger G s')"
proof -
  let ?s = "set_rows (cr_id r) f s"
  note upd = set_rows_ok [OF inv r same m]
  have uniq: "y = r" if "y \<in> set (sq_rows s)" "cr_id y = cr_id r" for y
  proof -
    have "distinct (map cr_id (sq_rows s))" using inv strict_sorted_iff unfolding SQLite_inv_def by blast
    with that r show ?thesis by (auto simp: distinct_map dest: inj_onD)
  qed
  have key: "entry_of_row G ?s = entry_of_row G s" by (rule entry_of_row_key) (simp add: set_rows_def)
  have fr: "entry_of_row G s (f r) = g (entry_of_row G s r)" by (simp add: g) (simp add: entry_of_row_def m same)
  have "SQLite_ledger G ?s =
      (SQLite_ledger G s)\<lparr>ld_entries := map (\<lambda>y. if en_id y = cr_id r then g y else y) (ld_entries (SQLite_ledger G s))\<rparr>"
    using uniq fr upd(3) by (auto simp: SQLite_ledger_def key SQLite_gen_def) (auto simp: set_rows_def)
  with SQLite_bump_ledger [OF upd(1) run] show ?thesis by (auto simp: ledger_set_def)
qed

lemma SQLite_put_ledger:
  assumes inv: "SQLite_inv G s" and e: "nonce_ok e" and enc: "EncryptPayload G (st_nonce e) (sq_key s) v = Inr enc"
    and m: "MaterialFromDecrypted p kind (emit v) = Inr m" and run: "SQLite_insert e p kind enc ident s = (r, s')"
  shows "SQLite_inv G s' \<and> ledger_add e m (SQLite_ledger G s) = (r, SQLite_ledger G s')"
proof -
  have "length (sq_key s) = 32" using inv by (simp add: SQLite_inv_def)
  then have "st_nonce e \<noteq> None" using enc by (auto simp: EncryptPayload_def Encrypt_def split: option.splits)
  from SQLite_insert_ledger [OF inv this _ run] materialFromRow_sealed [OF inv e enc] m show ?thesis by simp
qed

lemma SQLite_row_updated:
  assumes inv: "SQLite_inv G s" and e: "nonce_ok e" and m: "material_ok m" and ok: "st_ok1 e" "st_ok2 e"
    and row: "latest_row (\<lambda>r. cr_provider r = p \<and> cr_type r = ''oauth'') s = Some row"
    and enc: "EncryptPayload G (st_nonce e) (sq_key s) (json_oauth (oauthMaterialPayload m)) = Inr enc"
    and u: "SQLite_UpdateOAuth G e p m s = (x, s')"
  shows "SQLite_inv G s' \<and>
    ledger_set e (cr_id row) (\<lambda>x. x\<lparr>en_mat := stored_oauth p m, en_cause := ''''\<rparr>) (SQLite_ledger G s) =
      (map_sum id (\<lambda>_. 0) x, SQLite_ledger G s')"
proof -
  note r = latest_row_Some [OF row]
  let ?f = "\<lambda>r. r\<lparr>cr_data := enc, cr_identity_key := identity_of m, cr_updated_at := UnixMilli (st_now e), cr_disabled_cause := None\<rparr>"
  have mat: "materialFromRow G s (cr_provider row) (cr_type (?f row)) (cr_data (?f row)) = Inr (stored_oauth p m)"
    using materialFromRow_sealed [OF inv e enc, of p KindOAuth] MaterialFromDecrypted_oauth [OF m, of p] r by (simp add: KindOAuth_def)
  have x: "SQLite_BumpGeneration e (set_rows (cr_id row) ?f s) = (x, s')"
    using u ok row enc SQLite_row_nonempty [OF conjunct1 [OF r]] by (simp add: SQLite_UpdateOAuth_def)
  show ?thesis
    by (rule SQLite_set_ledger [where f = "?f", OF inv conjunct1 [OF r] _ _ mat _ x]) (simp_all add: entry_of_row_def null_str_def)
qed

lemma SQLite_update_ledger:
  assumes inv: "SQLite_inv G s" and e: "nonce_ok e" and m: "material_ok m" and u: "SQLite_UpdateOAuth G e p m s = (x, s')"
  shows "SQLite_inv G s' \<and>
    ledger_step vault_pick e (UpdateOA p m) (SQLite_ledger G s) = (map_sum id (\<lambda>_. 0) x, SQLite_ledger G s')"
proof -
  have k: "length (sq_key s) = 32" using inv by (simp add: SQLite_inv_def)
  have n: "newest (\<lambda>m. mat_Profile m = p \<and> mat_Kind m = KindOAuth) (SQLite_ledger G s) =
      map_option (entry_of_row G s) (latest_row (\<lambda>r. cr_provider r = p \<and> cr_type r = ''oauth'') s)"
    by (rule newest_row [OF inv]) (simp add: KindOAuth_def)
  show ?thesis
  proof (cases "st_ok1 e \<and> latest_row (\<lambda>r. cr_provider r = p \<and> cr_type r = ''oauth'') s \<noteq> None")
    case True
    then obtain row where row: "latest_row (\<lambda>r. cr_provider r = p \<and> cr_type r = ''oauth'') s = Some row" and ok1: "st_ok1 e" by auto
    show ?thesis
    proof (rule EncryptPayload_cases [OF k e, of G "json_oauth (oauthMaterialPayload m)"])
      fix enc assume nn: "st_nonce e \<noteq> None" and enc: "EncryptPayload G (st_nonce e) (sq_key s) (json_oauth (oauthMaterialPayload m)) = Inr enc"
      show ?thesis
      proof (cases "st_ok2 e")
        case True
        from SQLite_row_updated [OF inv e m ok1 True row enc u] True ok1 nn n row show ?thesis by (auto simp: vault_pick_def)
      next
        case False
        with ok1 nn enc row u inv n show ?thesis by (auto simp: SQLite_UpdateOAuth_def vault_pick_def)
      qed
    qed (use ok1 row u inv n in \<open>auto simp: SQLite_UpdateOAuth_def vault_pick_def\<close>)
  next
    case False
    with u inv n show ?thesis by (auto simp: SQLite_UpdateOAuth_def vault_pick_def)
  qed
qed

lemma SQLite_disable_ledger:
  assumes inv: "SQLite_inv G s" and u: "SQLite_Disable e i cause s = (x, s')"
  shows "SQLite_inv G s' \<and>
    ledger_step vault_pick e (DisableID i cause) (SQLite_ledger G s) = (map_sum id (\<lambda>_. 0) x, SQLite_ledger G s')"
proof -
  have none: "(\<forall>x \<in> set (ld_entries (SQLite_ledger G s)). en_id x \<noteq> i) \<longleftrightarrow> filter (\<lambda>r. cr_id r = i) (sq_rows s) = []"
    by (auto simp: SQLite_ledger_def filter_empty_conv)
  show ?thesis
  proof (cases "st_ok1 e \<and> filter (\<lambda>r. cr_id r = i) (sq_rows s) \<noteq> []")
    case True
    then obtain row where row: "row \<in> set (sq_rows s)" "cr_id row = i" by (auto simp: filter_empty_conv)
    let ?f = "\<lambda>r. r\<lparr>cr_disabled_cause := Some cause, cr_updated_at := UnixMilli (st_now e)\<rparr>"
    obtain m where m: "materialFromRow G s (cr_provider row) (cr_type row) (cr_data row) = Inr m" "en_mat (entry_of_row G s row) = m"
      by (rule entry_of_row_mat [OF inv row(1)])
    have x: "SQLite_BumpGeneration e (set_rows (cr_id row) ?f s) = (x, s')"
      using u True row by (simp add: SQLite_Disable_def)
    have "SQLite_inv G s' \<and> ledger_set e (cr_id row) (\<lambda>x. x\<lparr>en_cause := cause\<rparr>) (SQLite_ledger G s) =
        (map_sum id (\<lambda>_. 0) x, SQLite_ledger G s')"
      by (rule SQLite_set_ledger [where f = "?f" and m = m, OF inv row(1) _ _ _ _ x])
        (use m in \<open>simp_all add: entry_of_row_def null_str_def\<close>)
    with True none row show ?thesis by auto
  next
    case False
    with u inv none show ?thesis by (auto simp: SQLite_Disable_def)
  qed
qed

lemma SQLite_exec_ledger:
  assumes inv: "SQLite_inv G s" and e: "nonce_ok e" and oper: "op_ok oper" and run: "SQLite_exec G e oper s = (r, s')"
  shows "SQLite_inv G s' \<and> ledger_step vault_pick e oper (SQLite_ledger G s) = (r, SQLite_ledger G s')"
proof -
  have k: "length (sq_key s) = 32" using inv by (simp add: SQLite_inv_def)
  show ?thesis
  proof (cases oper)
    case (PutAPI p key)
    show ?thesis
      by (rule EncryptPayload_cases [OF k e, of G "json_api (apiKeyPayload key)"])
        (use run inv PutAPI SQLite_put_ledger [OF inv e _ MaterialFromDecrypted_api] in
          \<open>auto simp: SQLite_exec_def SQLite_PutAPIKey_def ledger_add_def KindAPIKey_def\<close>)
  next
    case (PutOA p m)
    then have "material_ok m" using oper by simp
    show ?thesis
      by (rule EncryptPayload_cases [OF k e, of G "json_oauth (oauthMaterialPayload m)"])
        (use run inv PutOA SQLite_put_ledger [OF inv e _ MaterialFromDecrypted_oauth [OF \<open>material_ok m\<close>]] in
          \<open>auto simp: SQLite_exec_def SQLite_PutOAuth_def ledger_add_def KindOAuth_def\<close>)
  next
    case (UpdateOA p m)
    with run SQLite_update_ledger [OF inv e, of m p] oper show ?thesis
      by (cases "SQLite_UpdateOAuth G e p m s") (auto simp: SQLite_exec_def)
  next
    case (DisableID i cause)
    with run SQLite_disable_ledger [OF inv, of e i cause] show ?thesis
      by (cases "SQLite_Disable e i cause s") (auto simp: SQLite_exec_def)
  qed
qed

interpretation vault_history: store_history "SQLite_exec G" "SQLite_Get G True" "SQLite_ledger G" "SQLite_inv G" vault_pick
  "\<lambda>e. e" for G
  by unfold_locales (erule (3) SQLite_exec_ledger, erule SQLite_ledger_get)

subsection \<open>The memory store implements the ledger\<close>

definition Memory_exec :: "gcm \<Rightarrow> store_env \<Rightarrow> store_op \<Rightarrow> Memory \<Rightarrow> (store_error, int) res \<times> Memory" where
  "Memory_exec G e oper s =
     (case oper of
        PutAPI p k \<Rightarrow> Memory_PutAPIKey G e p k s
      | PutOA p m \<Rightarrow> Memory_PutOAuth G e p m s
      | UpdateOA p m \<Rightarrow> apfst (map_sum id (\<lambda>_. 0)) (Memory_UpdateOAuth G e p m s)
      | DisableID i cause \<Rightarrow> apfst (map_sum id (\<lambda>_. 0)) (Memory_Disable e i cause s))"

text \<open>The memory store runs no statements that could fail.\<close>

definition no_database :: "store_env \<Rightarrow> store_env" where
  "no_database e = e\<lparr>st_ok1 := True, st_ok2 := True, st_bump_ok := True\<rparr>"

lemma no_database_simps [simp]:
  "st_ok1 (no_database e)" "st_ok2 (no_database e)" "st_bump_ok (no_database e)" "st_nonce (no_database e) = st_nonce e"
  by (simp_all add: no_database_def)

text \<open>Ids are given out in order and rows are never removed, so the rows are those of the ids up to the last one.\<close>

definition Memory_entry :: "gcm \<Rightarrow> Memory \<Rightarrow> int \<Rightarrow> entry" where
  "Memory_entry G s i =
     (let r = gm_getd zero_row (mem_rows s) i in
      \<lparr>en_id = i, en_mat = projr (decryptRow G s r), en_cause = row_disabledCause r\<rparr>)"

definition Memory_ledger :: "gcm \<Rightarrow> Memory \<Rightarrow> ledger" where
  "Memory_ledger G s =
     \<lparr>ld_entries = map (Memory_entry G s) [1..mem_nextID s], ld_next = mem_nextID s, ld_gen = mem_gen s\<rparr>"

definition Memory_full :: "gcm \<Rightarrow> Memory \<Rightarrow> bool" where
  "Memory_full G s \<longleftrightarrow> Memory_inv G s \<and> (\<forall>i. 0 < i \<and> i \<le> mem_nextID s \<longrightarrow> gm_get (mem_rows s) i \<noteq> None) \<and>
     (\<forall>p. gm_get (mem_byProf s) p = map_option en_id (newest (\<lambda>m. mat_Profile m = p) (Memory_ledger G s)))"

lemma Memory_entry_id [simp]: "en_id (Memory_entry G s i) = i"
  by (simp add: Memory_entry_def Let_def)

lemma Memory_row:
  assumes "Memory_full G s" "0 < i" "i \<le> mem_nextID s"
  obtains r m where "gm_get (mem_rows s) i = Some r" "decryptRow G s r = Inr m"
    "Memory_entry G s i = \<lparr>en_id = i, en_mat = m, en_cause = row_disabledCause r\<rparr>"
    "mat_Profile m = row_profile r" "mat_Kind m = row_kind r" "row_ok G (mem_key s) i r"
proof -
  obtain r where r: "gm_get (mem_rows s) i = Some r" using assms unfolding Memory_full_def by blast
  then have ok: "row_ok G (mem_key s) i r" using assms(1) unfolding Memory_full_def Memory_inv_def by blast
  obtain m where "decryptRow G s r = Inr m" "mat_Kind m = row_kind r" "mat_Profile m = row_profile r"
    by (rule decryptRow_ok [OF ok])
  with r ok that show ?thesis by (simp add: Memory_entry_def gm_getd_def)
qed

lemma newest_mem: "newest P v = Some x \<Longrightarrow> x \<in> set (ld_entries v) \<and> P (en_mat x)"
  by (auto simp: newest_def find_Some_iff) (metis length_rev nth_mem set_rev)

lemma Memory_newest:
  assumes "Memory_full G s" "newest P (Memory_ledger G s) = Some x"
  shows "0 < en_id x \<and> en_id x \<le> mem_nextID s \<and> x = Memory_entry G s (en_id x) \<and> P (en_mat x)"
  using newest_mem [OF assms(2)] by (auto simp: Memory_ledger_def)

lemma Memory_ledger_get:
  assumes "Memory_full G s"
  shows "Memory_Get G p s = ledger_get p (Memory_ledger G s)"
proof (cases "newest (\<lambda>m. mat_Profile m = p) (Memory_ledger G s)")
  case None
  with assms show ?thesis by (simp add: Memory_full_def Memory_Get_def ledger_get_def)
next
  case (Some x)
  note x = Memory_newest [OF assms Some]
  then have b: "0 < en_id x" "en_id x \<le> mem_nextID s" by simp_all
  obtain r m where "gm_get (mem_rows s) (en_id x) = Some r" "decryptRow G s r = Inr m"
    "Memory_entry G s (en_id x) = \<lparr>en_id = en_id x, en_mat = m, en_cause = row_disabledCause r\<rparr>"
    by (rule Memory_row [OF assms b])
  moreover from this x have "en_mat x = m" "en_cause x = row_disabledCause r" by (metis entry.select_convs)+
  moreover have "gm_get (mem_byProf s) p = Some (en_id x)" using assms Some by (simp add: Memory_full_def)
  ultimately show ?thesis by (simp add: Memory_Get_def ledger_get_def Some gm_getd_def)
qed

lemma newest_gen [simp]: "newest P (v\<lparr>ld_gen := g\<rparr>) = newest P v" "newest P (ledger_bump e v) = newest P v"
  by (simp_all add: newest_def ledger_bump_def)

lemma Memory_put_ledger:
  assumes full: "Memory_full G s" and e: "st_nonce e \<noteq> None"
    and dec: "Decrypt G (mem_key s) enc = Inr raw" "MaterialFromDecrypted p kind raw = Inr m"
    and run: "Memory_put e p kind identity enc s = (r, s')"
  shows "Memory_full G s' \<and> ledger_add (no_database e) m (Memory_ledger G s) = (r, Memory_ledger G s')"
proof -
  let ?i = "mem_nextID s + 1"
  have inv: "Memory_inv G s" "0 \<le> mem_nextID s" using full by (simp_all add: Memory_full_def Memory_inv_def)
  have inv': "Memory_inv G s'" using Memory_put_ok [OF inv(1) dec, of e identity] by (auto simp: run)
  define row where "row = \<lparr>row_id = ?i, row_profile = p, row_kind = kind, row_identity = identity, row_disabledCause = '''',
      row_createdAt = UnixMilli (st_now e), row_updatedAt = UnixMilli (st_now e), row_dataEnc = enc\<rparr>"
  have s': "r = Inr ?i" "mem_nextID s' = ?i" "mem_rows s' = gm_set ?i row (mem_rows s)" "mem_gen s' = mem_gen s + 1"
    "mem_byProf s' = gm_set p ?i (mem_byProf s)" "mem_key s' = mem_key s"
    using run by (auto simp: Memory_put_def Let_def row_def)
  have key: "decryptRow G s' = decryptRow G s" by (intro ext) (simp add: decryptRow_def s')
  have old: "Memory_entry G s' j = Memory_entry G s j" if "j \<le> mem_nextID s" for j
    using that by (simp add: Memory_entry_def key s' gm_getd_def)
  have new: "Memory_entry G s' ?i = \<lparr>en_id = ?i, en_mat = m, en_cause = ''''\<rparr>"
    using dec by (simp add: Memory_entry_def key s' gm_getd_def decryptRow_def row_def)
  have "[1..?i] = [1..mem_nextID s] @ [?i]" using upto_rec2 [of 1 ?i] inv(2) by simp
  then have entries: "ld_entries (Memory_ledger G s') = ld_entries (Memory_ledger G s) @ [\<lparr>en_id = ?i, en_mat = m, en_cause = ''''\<rparr>]"
    using old new by (simp add: Memory_ledger_def s')
  have profile: "mat_Profile m = p" using MaterialFromDecrypted_kind [OF dec(2)] by simp
  have "newest P (Memory_ledger G s') = (if P m then Some \<lparr>en_id = ?i, en_mat = m, en_cause = ''''\<rparr> else newest P (Memory_ledger G s))" for P
    by (simp add: newest_def entries)
  with full inv' profile have "Memory_full G s'" by (auto simp: Memory_full_def s')
  moreover have "Memory_ledger G s' = ledger_bump (no_database e) ((Memory_ledger G s)
      \<lparr>ld_entries := ld_entries (Memory_ledger G s) @ [\<lparr>en_id = ?i, en_mat = m, en_cause = ''''\<rparr>], ld_next := ?i\<rparr>)"
    using entries by (simp add: ledger_bump_def s'(2,4)) (simp add: Memory_ledger_def s'(2,4))
  moreover have "ld_next (Memory_ledger G s) = mem_nextID s" by (simp add: Memory_ledger_def)
  ultimately show ?thesis using e s'(1) by (simp add: ledger_add_def)
qed

text \<open>Replacing entries in place leaves the newest one of a profile where it is.\<close>

lemma newest_map:
  assumes "\<And>x. x \<in> set (ld_entries v) \<Longrightarrow> P (en_mat (g x)) = P (en_mat x)" "ld_entries v' = map g (ld_entries v)"
  shows "newest P v' = map_option g (newest P v)"
  unfolding newest_def assms(2) using assms(1)
  by (simp add: rev_map find_map) (intro arg_cong [where f = "map_option g"] find_cong_set, simp)

lemma Memory_set_ledger:
  assumes full: "Memory_full G s" and r: "gm_get (mem_rows s) i = Some r" "0 < i" "i \<le> mem_nextID s"
    and r': "row_ok G (mem_key s) i r'" "row_profile r' = row_profile r" "decryptRow G s r' = Inr m"
    and g: "g (Memory_entry G s i) = \<lparr>en_id = i, en_mat = m, en_cause = row_disabledCause r'\<rparr>"
    and s': "s' = s\<lparr>mem_rows := gm_set i r' (mem_rows s), mem_gen := mem_gen s + 1, mem_genAt := t\<rparr>"
  shows "Memory_full G s' \<and> ledger_set (no_database e) i g (Memory_ledger G s) = (Inr 0, Memory_ledger G s')"
proof -
  let ?g = "\<lambda>x. if en_id x = i then g x else x"
  have inv: "Memory_inv G s" using full by (simp add: Memory_full_def)
  have inv': "Memory_inv G s'" unfolding s' by (rule Memory_row_set(1) [OF inv r(1) r'(1,2)])
  have key: "decryptRow G s' = decryptRow G s" by (intro ext) (simp add: decryptRow_def s')
  have entry: "Memory_entry G s' j = ?g (Memory_entry G s j)" for j
    using r'(3) by (auto simp: Memory_entry_def [of G s'] Let_def key g) (auto simp: s' gm_getd_def Memory_entry_def Let_def)
  then have entries: "ld_entries (Memory_ledger G s') = map ?g (ld_entries (Memory_ledger G s))"
    by (simp add: Memory_ledger_def s')
  obtain m0 where m0: "decryptRow G s r = Inr m0" "Memory_entry G s i = \<lparr>en_id = i, en_mat = m0, en_cause = row_disabledCause r\<rparr>"
    "mat_Profile m0 = row_profile r"
    using Memory_row [OF full r(2,3)] r(1) by (metis option.inject)
  have "mat_Profile m = row_profile r'"
    using r'(3) MaterialFromDecrypted_kind by (auto simp: decryptRow_def split: sum.splits)
  then have same: "mat_Profile (en_mat (?g x)) = mat_Profile (en_mat x)" if "x \<in> set (ld_entries (Memory_ledger G s))" for x
    using that m0(2,3) g r'(2) by (auto simp: Memory_ledger_def)
  have id: "en_id (?g x) = en_id x" if "x \<in> set (ld_entries (Memory_ledger G s))" for x
    using that g by (auto simp: Memory_ledger_def)
  have "map_option en_id (newest (\<lambda>m. mat_Profile m = p) (Memory_ledger G s')) =
      map_option en_id (newest (\<lambda>m. mat_Profile m = p) (Memory_ledger G s))" for p
  proof -
    have n: "newest (\<lambda>m. mat_Profile m = p) (Memory_ledger G s') = map_option ?g (newest (\<lambda>m. mat_Profile m = p) (Memory_ledger G s))"
      by (rule newest_map [OF _ entries]) (simp add: same)
    show ?thesis
      using newest_mem [of "\<lambda>m. mat_Profile m = p" "Memory_ledger G s"] id unfolding n
      by (cases "newest (\<lambda>m. mat_Profile m = p) (Memory_ledger G s)") auto
  qed
  with full inv' have "Memory_full G s'" by (auto simp: Memory_full_def s')
  moreover have "Memory_ledger G s' = ledger_bump (no_database e) ((Memory_ledger G s)\<lparr>ld_entries := map ?g (ld_entries (Memory_ledger G s))\<rparr>)"
    using entries by (simp add: ledger_bump_def Memory_ledger_def s')
  ultimately show ?thesis by (simp add: ledger_set_def)
qed

lemma sealed_reads:
  assumes "Memory_inv G s" "nonce_ok e" "EncryptPayload G (st_nonce e) (mem_key s) v = Inr enc"
  shows "Decrypt G (mem_key s) enc = Inr (emit v)"
proof -
  have k: "gcm_inverse G" "length (mem_key s) = 32" using assms(1) by (simp_all add: Memory_inv_def)
  have "st_nonce e \<noteq> None" using assms(3) k(2) by (auto simp: EncryptPayload_def Encrypt_def split: option.splits)
  from Encrypt_payload_reads [OF k nonce_good [OF assms(2) this]] assms(3) show ?thesis by simp
qed

lemma Memory_sealed_put:
  assumes full: "Memory_full G s" and e: "nonce_ok e" and enc: "EncryptPayload G (st_nonce e) (mem_key s) v = Inr enc"
    and m: "MaterialFromDecrypted p kind (emit v) = Inr m" and run: "Memory_put e p kind identity enc s = (r, s')"
  shows "Memory_full G s' \<and> ledger_add (no_database e) m (Memory_ledger G s) = (r, Memory_ledger G s')"
proof -
  have inv: "Memory_inv G s" and "length (mem_key s) = 32" using full by (simp_all add: Memory_full_def Memory_inv_def)
  then have "st_nonce e \<noteq> None" using enc by (auto simp: EncryptPayload_def Encrypt_def split: option.splits)
  from Memory_put_ledger [OF full this sealed_reads [OF inv e enc] m run] show ?thesis .
qed

lemma Memory_row_updated:
  assumes full: "Memory_full G s" and e: "nonce_ok e" and m: "material_ok m"
    and row: "gm_get (mem_rows s) i = Some row" "0 < i" "i \<le> mem_nextID s" "row_ok G (mem_key s) i row"
      "row_profile row = p" "row_kind row = KindOAuth"
      "Memory_entry G s i = \<lparr>en_id = i, en_mat = m0, en_cause = row_disabledCause row\<rparr>"
    and by_prof: "gm_get (mem_byProf s) p = Some i"
    and enc: "EncryptPayload G (st_nonce e) (mem_key s) (json_oauth (oauthMaterialPayload m)) = Inr enc"
    and u: "Memory_UpdateOAuth G e p m s = (x, s')"
  shows "x = Inr () \<and> Memory_full G s' \<and>
    ledger_set (no_database e) i (\<lambda>x. x\<lparr>en_mat := stored_oauth p m, en_cause := ''''\<rparr>) (Memory_ledger G s) = (Inr 0, Memory_ledger G s')"
proof -
  let ?r = "row\<lparr>row_dataEnc := enc, row_updatedAt := UnixMilli (st_now e),
    row_identity := (if mat_Email m \<noteq> '''' then mat_Email m else row_identity row), row_disabledCause := ''''\<rparr>"
  have inv: "Memory_inv G s" using full by (simp add: Memory_full_def)
  have dec: "decryptRow G s ?r = Inr (stored_oauth p m)" and ok: "row_ok G (mem_key s) i ?r"
    using sealed_reads [OF inv e enc] MaterialFromDecrypted_oauth [OF m, of p] row(4-6) by (simp_all add: decryptRow_def row_ok_def)
  have x: "x = Inr ()" "s' = s\<lparr>mem_rows := gm_set i ?r (mem_rows s), mem_gen := mem_gen s + 1, mem_genAt := UnixMilli (st_now e)\<rparr>"
    using u by_prof row(1,6) enc by (simp_all add: Memory_UpdateOAuth_def gm_getd_def Let_def)
  have "Memory_full G s' \<and>
      ledger_set (no_database e) i (\<lambda>x. x\<lparr>en_mat := stored_oauth p m, en_cause := ''''\<rparr>) (Memory_ledger G s) = (Inr 0, Memory_ledger G s')"
    by (rule Memory_set_ledger [OF full row(1-3) ok _ dec _ x(2)]) (simp_all add: row(7))
  with x(1) show ?thesis by simp
qed

lemma Memory_update_ledger:
  assumes full: "Memory_full G s" and e: "nonce_ok e" and m: "material_ok m" and u: "Memory_UpdateOAuth G e p m s = (x, s')"
  shows "Memory_full G s' \<and>
    ledger_step memory_pick (no_database e) (UpdateOA p m) (Memory_ledger G s) = (map_sum id (\<lambda>_. 0) x, Memory_ledger G s')"
proof -
  have k: "length (mem_key s) = 32" using full by (simp add: Memory_full_def Memory_inv_def)
  have by_prof: "gm_get (mem_byProf s) p = map_option en_id (newest (\<lambda>m. mat_Profile m = p) (Memory_ledger G s))"
    using full by (simp add: Memory_full_def)
  show ?thesis
  proof (cases "newest (\<lambda>m. mat_Profile m = p) (Memory_ledger G s)")
    case None
    with u by_prof full show ?thesis by (auto simp: Memory_UpdateOAuth_def memory_pick_def)
  next
    case (Some y)
    note y = Memory_newest [OF full Some]
    then have b: "0 < en_id y" "en_id y \<le> mem_nextID s" by simp_all
    obtain row m0 where row: "gm_get (mem_rows s) (en_id y) = Some row" "decryptRow G s row = Inr m0"
      "Memory_entry G s (en_id y) = \<lparr>en_id = en_id y, en_mat = m0, en_cause = row_disabledCause row\<rparr>"
      "mat_Profile m0 = row_profile row" "mat_Kind m0 = row_kind row" "row_ok G (mem_key s) (en_id y) row"
      by (rule Memory_row [OF full b])
    have ym: "en_mat y = m0" using y row(3) by (metis entry.select_convs(2))
    then have prof: "row_profile row = p" "gm_get (mem_byProf s) p = Some (en_id y)" using y row(4) by_prof Some by simp_all
    show ?thesis
    proof (cases "row_kind row = KindOAuth")
      case True
      show ?thesis
      proof (rule EncryptPayload_cases [OF k e, of G "json_oauth (oauthMaterialPayload m)"])
        fix enc assume nn: "st_nonce e \<noteq> None" and enc: "EncryptPayload G (st_nonce e) (mem_key s) (json_oauth (oauthMaterialPayload m)) = Inr enc"
        from Memory_row_updated [OF full e m row(1) b row(6) prof(1) True row(3) prof(2) enc u] nn True Some ym row(5)
        show ?thesis by (auto simp: memory_pick_def)
      qed (use u prof Some row True full ym in \<open>auto simp: Memory_UpdateOAuth_def memory_pick_def gm_getd_def Let_def\<close>)
    next
      case False
      with u prof Some row full ym show ?thesis by (auto simp: Memory_UpdateOAuth_def memory_pick_def gm_getd_def Let_def)
    qed
  qed
qed

lemma Memory_disable_ledger:
  assumes full: "Memory_full G s" and u: "Memory_Disable e i cause s = (x, s')"
  shows "Memory_full G s' \<and>
    ledger_step memory_pick (no_database e) (DisableID i cause) (Memory_ledger G s) = (map_sum id (\<lambda>_. 0) x, Memory_ledger G s')"
proof -
  have ids: "(\<forall>x \<in> set (ld_entries (Memory_ledger G s)). en_id x \<noteq> i) \<longleftrightarrow> \<not> (0 < i \<and> i \<le> mem_nextID s)"
    by (auto simp: Memory_ledger_def)
  show ?thesis
  proof (cases "0 < i \<and> i \<le> mem_nextID s")
    case True
    then have b: "0 < i" "i \<le> mem_nextID s" by simp_all
    obtain row m0 where row: "gm_get (mem_rows s) i = Some row" "decryptRow G s row = Inr m0"
      "Memory_entry G s i = \<lparr>en_id = i, en_mat = m0, en_cause = row_disabledCause row\<rparr>" "row_ok G (mem_key s) i row"
      by (rule Memory_row [OF full b])
    let ?r = "row\<lparr>row_disabledCause := cause, row_updatedAt := UnixMilli (st_now e)\<rparr>"
    have ok: "row_ok G (mem_key s) i ?r" "decryptRow G s ?r = Inr m0"
      using row(2,4) by (auto simp: row_ok_def decryptRow_def split: sum.splits)
    have x: "x = Inr ()" "s' = s\<lparr>mem_rows := gm_set i ?r (mem_rows s), mem_gen := mem_gen s + 1, mem_genAt := UnixMilli (st_now e)\<rparr>"
      using u row(1) by (simp_all add: Memory_Disable_def Let_def)
    have "Memory_full G s' \<and>
        ledger_set (no_database e) i (\<lambda>x. x\<lparr>en_cause := cause\<rparr>) (Memory_ledger G s) = (Inr 0, Memory_ledger G s')"
      by (rule Memory_set_ledger [OF full row(1) b ok(1) _ ok(2) _ x(2)]) (simp_all add: row(3))
    with True ids x(1) show ?thesis by auto
  next
    case False
    have "gm_get (mem_rows s) i = None"
    proof (rule ccontr)
      assume "gm_get (mem_rows s) i \<noteq> None"
      then obtain r where "gm_get (mem_rows s) i = Some r" by auto
      with full False show False unfolding Memory_full_def Memory_inv_def by blast
    qed
    with u full ids False show ?thesis by (auto simp: Memory_Disable_def)
  qed
qed

lemma Memory_exec_ledger:
  assumes full: "Memory_full G s" and e: "nonce_ok e" and oper: "op_ok oper" and run: "Memory_exec G e oper s = (r, s')"
  shows "Memory_full G s' \<and> ledger_step memory_pick (no_database e) oper (Memory_ledger G s) = (r, Memory_ledger G s')"
proof -
  have k: "length (mem_key s) = 32" using full by (simp add: Memory_full_def Memory_inv_def)
  show ?thesis
  proof (cases oper)
    case (PutAPI p key)
    show ?thesis
      by (rule EncryptPayload_cases [OF k e, of G "json_api (apiKeyPayload key)"])
        (use run full PutAPI Memory_sealed_put [OF full e _ MaterialFromDecrypted_api] in
          \<open>auto simp: Memory_exec_def Memory_PutAPIKey_def ledger_add_def\<close>)
  next
    case (PutOA p m)
    then have "material_ok m" using oper by simp
    show ?thesis
      by (rule EncryptPayload_cases [OF k e, of G "json_oauth (oauthMaterialPayload m)"])
        (use run full PutOA Memory_sealed_put [OF full e _ MaterialFromDecrypted_oauth [OF \<open>material_ok m\<close>]] in
          \<open>auto simp: Memory_exec_def Memory_PutOAuth_def ledger_add_def\<close>)
  next
    case (UpdateOA p m)
    with run Memory_update_ledger [OF full e, of m p] oper show ?thesis
      by (cases "Memory_UpdateOAuth G e p m s") (auto simp: Memory_exec_def simp del: ledger_step.simps)
  next
    case (DisableID i cause)
    with run Memory_disable_ledger [OF full, of e i cause] show ?thesis
      by (cases "Memory_Disable e i cause s") (auto simp: Memory_exec_def simp del: ledger_step.simps)
  qed
qed

interpretation memory_history: store_history "Memory_exec G" "Memory_Get G" "Memory_ledger G" "Memory_full G" memory_pick no_database
  for G
  by unfold_locales (erule (3) Memory_exec_ledger, erule Memory_ledger_get)

subsection \<open>The two ledgers\<close>

text \<open>
  After the same history the two ledgers hold the same credentials under the same ids, and the same newest one of each profile. They
  differ only behind newer API keys, where an update of the database goes and one of the memory store does not.
\<close>

definition ledgers_agree :: "ledger \<Rightarrow> ledger \<Rightarrow> bool" where
  "ledgers_agree v w \<longleftrightarrow> ld_next v = ld_next w \<and> distinct (map en_id (ld_entries v)) \<and> (\<forall>x \<in> set (ld_entries v). en_id x \<le> ld_next v) \<and>
     list_all2 (\<lambda>x y. en_id x = en_id y \<and> mat_Profile (en_mat x) = mat_Profile (en_mat y) \<and> mat_Kind (en_mat x) = mat_Kind (en_mat y))
       (ld_entries v) (ld_entries w) \<and>
     (\<forall>p. newest (\<lambda>m. mat_Profile m = p) v = newest (\<lambda>m. mat_Profile m = p) w)"

lemma agree_ids: "ledgers_agree v w \<Longrightarrow> map en_id (ld_entries w) = map en_id (ld_entries v)"
  unfolding ledgers_agree_def by (auto simp: list_all2_conv_all_nth intro: nth_equalityI)

lemma agree_unique: "ledgers_agree v w \<Longrightarrow> x \<in> set (ld_entries w) \<Longrightarrow> y \<in> set (ld_entries w) \<Longrightarrow> en_id x = en_id y \<Longrightarrow> x = y"
proof -
  assume a: "ledgers_agree v w" "x \<in> set (ld_entries w)" "y \<in> set (ld_entries w)" "en_id x = en_id y"
  have "distinct (map en_id (ld_entries w))" unfolding agree_ids [OF a(1)] using a(1) by (simp add: ledgers_agree_def)
  with a(2-4) show "x = y" by (auto simp: distinct_map dest: inj_onD)
qed

lemma agree_counterpart:
  assumes "ledgers_agree v w" "x \<in> set (ld_entries v)"
  shows "\<exists>z \<in> set (ld_entries w). en_id x = en_id z \<and> mat_Profile (en_mat x) = mat_Profile (en_mat z) \<and>
    mat_Kind (en_mat x) = mat_Kind (en_mat z)"
proof -
  obtain i where i: "i < length (ld_entries v)" "x = ld_entries v ! i" using assms(2) by (auto simp: in_set_conv_nth)
  with assms(1) show ?thesis
    by (intro bexI [of _ "ld_entries w ! i"]) (auto simp: ledgers_agree_def list_all2_conv_all_nth)
qed

lemma agree_add:
  assumes "ledgers_agree v w"
  shows "ledgers_agree (snd (ledger_add e m v)) (snd (ledger_add e m w)) \<and> fst (ledger_add e m v) = fst (ledger_add e m w)"
  using assms by (auto simp: ledgers_agree_def ledger_add_def ledger_bump_def newest_def intro: list_all2_appendI)

definition shape_kept :: "(entry \<Rightarrow> entry) \<Rightarrow> int \<Rightarrow> ledger \<Rightarrow> bool" where
  "shape_kept g i v \<longleftrightarrow> (\<forall>x \<in> set (ld_entries v). en_id x = i \<longrightarrow>
     en_id (g x) = i \<and> mat_Profile (en_mat (g x)) = mat_Profile (en_mat x) \<and> mat_Kind (en_mat (g x)) = mat_Kind (en_mat x))"

lemma set_newest:
  assumes "shape_kept g i v"
  shows "newest (\<lambda>m. mat_Profile m = p) (snd (ledger_set e i g v)) =
    map_option (\<lambda>x. if en_id x = i then g x else x) (newest (\<lambda>m. mat_Profile m = p) v)"
proof -
  have "newest (\<lambda>m. mat_Profile m = p) (v\<lparr>ld_entries := map (\<lambda>x. if en_id x = i then g x else x) (ld_entries v)\<rparr>) =
      map_option (\<lambda>x. if en_id x = i then g x else x) (newest (\<lambda>m. mat_Profile m = p) v)"
    by (rule newest_map) (use assms in \<open>auto simp: shape_kept_def\<close>)
  then show ?thesis by (simp add: ledger_set_def)
qed

lemma set_entries [simp]:
  "ld_entries (snd (ledger_set e i g v)) = map (\<lambda>x. if en_id x = i then g x else x) (ld_entries v)"
  "ld_next (snd (ledger_set e i g v)) = ld_next v"
  by (simp_all add: ledger_set_def ledger_bump_def)

lemma set_ids: "shape_kept g i v \<Longrightarrow> map en_id (ld_entries (snd (ledger_set e i g v))) = map en_id (ld_entries v)"
  by (auto simp: shape_kept_def)

lemma agree_set_right:
  assumes "ledgers_agree v w" "shape_kept g i w" "\<And>p x. newest (\<lambda>m. mat_Profile m = p) w = Some x \<Longrightarrow> en_id x \<noteq> i"
  shows "ledgers_agree v (snd (ledger_set e i g w))"
proof -
  have "newest (\<lambda>m. mat_Profile m = p) (snd (ledger_set e i g w)) = newest (\<lambda>m. mat_Profile m = p) w" for p
    using assms(3) [of p] by (cases "newest (\<lambda>m. mat_Profile m = p) w") (simp_all add: set_newest [OF assms(2)])
  with assms(1,2) show ?thesis
    unfolding ledgers_agree_def set_entries by (auto simp: list_all2_conv_all_nth shape_kept_def)
qed

lemma agree_set_both:
  assumes "ledgers_agree v w" "shape_kept g i v" "shape_kept g i w"
  shows "ledgers_agree (snd (ledger_set e i g v)) (snd (ledger_set e i g w))"
proof -
  have "\<forall>x \<in> set (ld_entries (snd (ledger_set e i g v))). en_id x \<le> ld_next v"
    using assms(1,2) by (auto simp: ledgers_agree_def shape_kept_def)
  moreover have "distinct (map en_id (ld_entries (snd (ledger_set e i g v))))"
    using assms(1) unfolding set_ids [OF assms(2)] by (simp add: ledgers_agree_def)
  moreover have "list_all2 (\<lambda>x y. en_id x = en_id y \<and> mat_Profile (en_mat x) = mat_Profile (en_mat y) \<and> mat_Kind (en_mat x) = mat_Kind (en_mat y))
      (ld_entries (snd (ledger_set e i g v))) (ld_entries (snd (ledger_set e i g w)))"
    using assms unfolding ledgers_agree_def set_entries by (auto simp: list_all2_conv_all_nth shape_kept_def)
  ultimately show ?thesis
    using assms(1) unfolding ledgers_agree_def by (simp add: set_newest [OF assms(2)] set_newest [OF assms(3)])
qed

lemma newest_restrict:
  "newest P v = Some x \<Longrightarrow> Q (en_mat x) \<Longrightarrow> newest (\<lambda>m. P m \<and> Q m) v = Some x"
  "newest P v = None \<Longrightarrow> newest (\<lambda>m. P m \<and> Q m) v = None"
proof -
  have "find P xs = Some y \<Longrightarrow> Q y \<Longrightarrow> find (\<lambda>z. P z \<and> Q z) xs = Some y" for P Q y and xs :: "entry list"
    by (induction xs) (auto split: if_splits)
  then show "newest P v = Some x \<Longrightarrow> Q (en_mat x) \<Longrightarrow> newest (\<lambda>m. P m \<and> Q m) v = Some x"
    by (simp add: newest_def)
  show "newest P v = None \<Longrightarrow> newest (\<lambda>m. P m \<and> Q m) v = None" by (auto simp: newest_def find_None_iff)
qed

lemma stored_oauth_shape [simp]: "mat_Profile (stored_oauth p m) = p" "mat_Kind (stored_oauth p m) = KindOAuth"
  by (simp_all add: stored_oauth_def zero_Material_def)

lemma agree_kept:
  assumes "ledgers_agree v w" "y \<in> set (ld_entries w)" "mat_Profile (en_mat y) = p" "mat_Kind (en_mat y) = KindOAuth" "u = v \<or> u = w"
  shows "shape_kept (\<lambda>x. x\<lparr>en_mat := stored_oauth p m, en_cause := ''''\<rparr>) (en_id y) u"
proof -
  have "mat_Profile (en_mat x) = p \<and> mat_Kind (en_mat x) = KindOAuth" if x: "x \<in> set (ld_entries u)" "en_id x = en_id y" for x
  proof -
    obtain z where z: "z \<in> set (ld_entries w)" "en_id x = en_id z" "mat_Profile (en_mat x) = mat_Profile (en_mat z)"
      "mat_Kind (en_mat x) = mat_Kind (en_mat z)"
      using x(1) assms(5) agree_counterpart [OF assms(1)] by blast
    with x(2) have "z = y" using agree_unique [OF assms(1) z(1) assms(2)] by simp
    with z assms(3,4) show ?thesis by simp
  qed
  then show ?thesis by (auto simp: shape_kept_def)
qed

text \<open>An update of the database behind an API key leaves the newest entries as they are.\<close>

lemma agree_behind:
  assumes "ledgers_agree v w" "newest (\<lambda>m. mat_Profile m = p) w = Some x" "mat_Kind (en_mat x) \<noteq> KindOAuth"
    "newest (\<lambda>m. mat_Profile m = p \<and> mat_Kind m = KindOAuth) w = Some y"
  shows "ledgers_agree v (snd (ledger_set e (en_id y) (\<lambda>x. x\<lparr>en_mat := stored_oauth p m, en_cause := ''''\<rparr>) w))"
proof (rule agree_set_right [OF assms(1) agree_kept [OF assms(1)]])
  show "en_id z \<noteq> en_id y" if z: "newest (\<lambda>m. mat_Profile m = q) w = Some z" for q z
  proof
    assume "en_id z = en_id y"
    with newest_mem [OF z] newest_mem [OF assms(4)] agree_unique [OF assms(1)] have "z = y" by blast
    with newest_mem [OF z] newest_mem [OF assms(4)] z assms(2) have "y = x" by simp
    with newest_mem [OF assms(4)] assms(3) show False by simp
  qed
qed (use newest_mem [OF assms(4)] in auto)

lemma agree_update:
  assumes "ledgers_agree v w"
  shows "case memory_pick p v of
      Inr i \<Rightarrow> vault_pick p w = Inr i \<and>
        ledgers_agree (snd (ledger_set e i (\<lambda>x. x\<lparr>en_mat := stored_oauth p m, en_cause := ''''\<rparr>) v))
          (snd (ledger_set e i (\<lambda>x. x\<lparr>en_mat := stored_oauth p m, en_cause := ''''\<rparr>) w))
    | Inl err \<Rightarrow> (err = ErrNotOAuth p \<or> vault_pick p w = Inl err) \<and>
        (\<forall>i. vault_pick p w = Inr i \<longrightarrow>
          ledgers_agree v (snd (ledger_set e i (\<lambda>x. x\<lparr>en_mat := stored_oauth p m, en_cause := ''''\<rparr>) w)))"
proof -
  let ?P = "\<lambda>m. mat_Profile m = p"
  have same: "newest ?P v = newest ?P w" using assms by (simp add: ledgers_agree_def)
  show ?thesis
  proof (cases "newest ?P w")
    case None
    with same newest_restrict(2) [of ?P w "\<lambda>m. mat_Kind m = KindOAuth"] show ?thesis by (simp add: memory_pick_def vault_pick_def)
  next
    case (Some x)
    note x = newest_mem [OF Some]
    show ?thesis
    proof (cases "mat_Kind (en_mat x) = KindOAuth")
      case True
      then have "vault_pick p w = Inr (en_id x)" "memory_pick p v = Inr (en_id x)"
        using newest_restrict(1) [OF Some] same Some by (simp_all add: vault_pick_def memory_pick_def)
      with agree_set_both [OF assms agree_kept [OF assms] agree_kept [OF assms]] x True show ?thesis by simp
    next
      case False
      with Some same agree_behind [OF assms Some False] show ?thesis
        by (auto simp: memory_pick_def vault_pick_def split: option.splits)
    qed
  qed
qed

definition statements_ok :: "store_env \<Rightarrow> bool" where
  "statements_ok e \<longleftrightarrow> st_ok1 e \<and> st_ok2 e \<and> st_bump_ok e"

lemma no_database_ok: "statements_ok e \<Longrightarrow> no_database e = e"
  by (cases e) (simp add: no_database_def statements_ok_def)

lemma agree_step:
  assumes "ledgers_agree v w" "statements_ok e"
  shows "ledgers_agree (snd (ledger_step memory_pick e oper v)) (snd (ledger_step vault_pick e oper w)) \<and>
    (fst (ledger_step memory_pick e oper v) = fst (ledger_step vault_pick e oper w) \<or>
     (\<exists>p m. oper = UpdateOA p m \<and> fst (ledger_step memory_pick e oper v) = Inl (ErrNotOAuth p)))"
proof (cases oper)
  case (UpdateOA p m)
  with agree_update [OF assms(1), of p e m] assms show ?thesis
    by (auto simp: statements_ok_def ledger_set_def split: sum.splits)
next
  case (DisableID i cause)
  have "shape_kept (\<lambda>x. x\<lparr>en_cause := cause\<rparr>) i u" for u by (simp add: shape_kept_def)
  from agree_set_both [OF assms(1) this this]
  have set: "ledgers_agree (snd (ledger_set e i (\<lambda>x. x\<lparr>en_cause := cause\<rparr>) v)) (snd (ledger_set e i (\<lambda>x. x\<lparr>en_cause := cause\<rparr>) w))" .
  have "(\<forall>x \<in> set (ld_entries u). en_id x \<noteq> i) \<longleftrightarrow> i \<notin> set (map en_id (ld_entries u))" for u :: ledger by auto
  then have "(\<forall>x \<in> set (ld_entries w). en_id x \<noteq> i) \<longleftrightarrow> (\<forall>x \<in> set (ld_entries v). en_id x \<noteq> i)"
    by (simp only: agree_ids [OF assms(1)])
  with set assms DisableID show ?thesis by (simp add: statements_ok_def ledger_set_def)
qed (use agree_add [OF assms(1)] in simp_all)

lemma agree_run:
  assumes "ledgers_agree v w" "list_all (statements_ok \<circ> fst) ops"
    "run_store (\<lambda>e. ledger_step memory_pick (no_database e)) ops v = (qs, v')" "run_store (ledger_step vault_pick) ops w = (rs, w')"
  shows "ledgers_agree v' w' \<and> length qs = length ops \<and> length rs = length ops \<and>
    (\<forall>k < length ops. qs ! k = rs ! k \<or> (\<exists>p m. snd (ops ! k) = UpdateOA p m \<and> qs ! k = Inl (ErrNotOAuth p)))"
  using assms
proof (induction ops arbitrary: v w qs rs)
  case (Cons eo ops)
  obtain e oper where eo: "eo = (e, oper)" by (cases eo)
  have ok: "statements_ok e" "no_database e = e" using Cons.prems(2) no_database_ok by (simp_all add: eo)
  obtain q v1 where q: "ledger_step memory_pick e oper v = (q, v1)" by fastforce
  obtain r w1 where r: "ledger_step vault_pick e oper w = (r, w1)" by fastforce
  obtain qs1 v2 where qs: "run_store (\<lambda>e. ledger_step memory_pick (no_database e)) ops v1 = (qs1, v2)" by fastforce
  obtain rs1 w2 where rs: "run_store (ledger_step vault_pick) ops w1 = (rs1, w2)" by fastforce
  have eqs: "qs = q # qs1" "v2 = v'" "rs = r # rs1" "w2 = w'" using Cons.prems(3,4) by (simp_all add: eo ok(2) q r qs rs)
  from agree_step [OF Cons.prems(1) ok(1), of oper]
  have 1: "ledgers_agree v1 w1" "q = r \<or> (\<exists>p m. oper = UpdateOA p m \<and> q = Inl (ErrNotOAuth p))" by (simp_all add: q r)
  from Cons.IH [OF 1(1) _ qs [unfolded eqs] rs [unfolded eqs]] Cons.prems(2) 1(2) show ?case
    by (auto simp: eqs eo nth_Cons split: nat.splits)
qed simp

subsection \<open>New stores\<close>

lemma fresh_vault:
  assumes "gcm_inverse G" "length key = 32" "migrate_good mg" "OpenSQLite True mg (empty_db key) = Inr s"
  shows "SQLite_inv G s" "SQLite_ledger G s = empty_ledger"
proof -
  note i = empty_db_inv [OF assms(1,2,4,3)]
  show "SQLite_inv G s" by (rule i(1))
  from OpenSQLite_good [OF assms(3), of "empty_db key"] assms(4) have "sq_rows s = []" "sq_seq s = 0"
    by (auto simp: empty_db_def)
  with i(3) show "SQLite_ledger G s = empty_ledger" by (simp add: SQLite_ledger_def empty_ledger_def)
qed

lemma fresh_memory:
  assumes "gcm_inverse G" "length key = 32"
  shows "Memory_full G (NewMemory now key)" "Memory_ledger G (NewMemory now key) = empty_ledger"
  using assms by (simp_all add: Memory_full_def Memory_inv_def Memory_ledger_def NewMemory_def empty_ledger_def newest_def)

lemma empty_agree: "ledgers_agree empty_ledger empty_ledger"
  by (simp add: ledgers_agree_def empty_ledger_def)

text \<open>What the listing of the database shows of the ledger.\<close>

definition listed :: "CredentialSummary \<Rightarrow> int \<times> string \<times> Kind \<times> string option" where
  "listed c = (cs_ID c, cs_Profile c, cs_Kind c, cs_DisabledCause c)"

definition ledger_listing :: "ledger \<Rightarrow> (int \<times> string \<times> Kind \<times> string option) list" where
  "ledger_listing v =
     map (\<lambda>x. (en_id x, mat_Profile (en_mat x), mat_Kind (en_mat x), if en_cause x = '''' then None else Some (en_cause x)))
       (ld_entries v)"

lemma SQLite_ledger_listing:
  assumes "SQLite_inv G s"
  shows "\<exists>cs. SQLite_ListSummaries True s = Inr cs \<and> map listed (case cs of None \<Rightarrow> [] | Some xs \<Rightarrow> xs) = ledger_listing (SQLite_ledger G s)"
proof -
  have "sorted_wrt (<) (map cr_id (sq_rows s))" using assms by (simp add: SQLite_inv_def)
  then have "sorted (map cr_id (sq_rows s))" by (rule sorted_wrt_mono_rel [rotated]) simp
  then have "sort_key cr_id (sq_rows s) = sq_rows s" by (simp add: sort_key_id_if_sorted)
  moreover have "listed (scanSummary r) = (let x = entry_of_row G s r in
      (en_id x, mat_Profile (en_mat x), mat_Kind (en_mat x), if en_cause x = '''' then None else Some (en_cause x)))"
    if "r \<in> set (sq_rows s)" for r
    by (rule entry_of_row_mat [OF assms that]) (simp add: listed_def scanSummary_def entry_of_row_def)
  then have "map listed (map scanSummary (sq_rows s)) = ledger_listing (SQLite_ledger G s)"
    by (simp add: ledger_listing_def SQLite_ledger_def Let_def)
  ultimately show ?thesis
    by (cases "map scanSummary (sq_rows s)") (simp_all add: SQLite_ListSummaries_def)
qed

lemma SQLite_ledger_snapshot:
  "SQLite_inv G s \<Longrightarrow> st_ok1 e \<Longrightarrow> \<exists>sm. SQLite_SnapshotMeta e s = Inr sm \<and> sm_Generation sm = ld_gen (SQLite_ledger G s)"
  by (auto simp: SQLite_SnapshotMeta_def SQLite_inv_def SQLite_ledger_def SQLite_gen_def split: option.split)

subsection \<open>Updates behind an API key\<close>

lemma memory_update_refused:
  assumes "Memory_full G t" "ledgers_agree (Memory_ledger G t) (SQLite_ledger G s)" "SQLite_inv G s"
    "latest_row (\<lambda>r. cr_provider r = p) s = Some r0" "cr_type r0 = ''api_key''"
  shows "Memory_UpdateOAuth G e p m t = (Inl (ErrNotOAuth p), t)"
proof -
  have "newest (\<lambda>m. mat_Profile m = p) (SQLite_ledger G s) = Some (entry_of_row G s r0)"
    using newest_row [OF assms(3), of "\<lambda>m. mat_Profile m = p" "\<lambda>r. cr_provider r = p"] assms(4) by simp
  then have n: "newest (\<lambda>m. mat_Profile m = p) (Memory_ledger G t) = Some (entry_of_row G s r0)"
    using assms(2) by (simp add: ledgers_agree_def)
  have r0: "r0 \<in> set (sq_rows s)" using latest_row_Some [OF assms(4)] by simp
  have kind: "mat_Kind (en_mat (entry_of_row G s r0)) = ''api_key''"
    by (rule entry_of_row_mat [OF assms(3) r0]) (simp add: assms(5))
  note x = Memory_newest [OF assms(1) n, unfolded entry_of_row_id]
  then have b: "0 < cr_id r0" "cr_id r0 \<le> mem_nextID t" by simp_all
  obtain row m' where row: "gm_get (mem_rows t) (cr_id r0) = Some row"
    "Memory_entry G t (cr_id r0) = \<lparr>en_id = cr_id r0, en_mat = m', en_cause = row_disabledCause row\<rparr>" "mat_Kind m' = row_kind row"
    by (rule Memory_row [OF assms(1) b])
  have "entry_of_row G s r0 = Memory_entry G t (cr_id r0)" using x by blast
  then have "row_kind row = ''api_key''" using kind row(2,3) by simp
  moreover have "gm_get (mem_byProf t) p = Some (cr_id r0)" using assms(1) n by (simp add: Memory_full_def)
  ultimately show ?thesis using row(1) by (simp add: Memory_UpdateOAuth_def gm_getd_def KindOAuth_def)
qed

lemma vault_update_behind:
  assumes "SQLite_inv G s" "env_good e" "material_ok m"
    "latest_row (\<lambda>r. cr_provider r = p) s = Some r0" "cr_type r0 = ''api_key''"
    "latest_row (\<lambda>r. cr_provider r = p \<and> cr_type r = ''oauth'') s = Some r"
  shows "\<exists>s' r'. SQLite_UpdateOAuth G e p m s = (Inr (), s') \<and> cr_id r' = cr_id r \<and> cr_disabled_cause r' = None \<and>
    materialFromRow G s' p KindOAuth (cr_data r') = Inr (stored_oauth p m) \<and>
    sq_rows s' = map (\<lambda>x. if cr_id x = cr_id r then r' else x) (sq_rows s) \<and>
    (\<forall>q. SQLite_Get G True q s' = SQLite_Get G True q s)"
proof -
  have g: "gcm_inverse G" "length (sq_key s) = 32" using assms(1) by (auto simp: SQLite_inv_def)
  obtain enc where enc: "EncryptPayload G (st_nonce e) (sq_key s) (json_oauth (oauthMaterialPayload m)) = Inr enc"
    using EncryptPayload_good [OF g(2) assms(2)] by blast
  have r: "r \<in> set (sq_rows s)" "cr_provider r = p" "cr_type r = ''oauth''"
    using latest_row_Some [OF assms(6)] by auto
  let ?f = "\<lambda>r. r\<lparr>cr_data := enc, cr_identity_key := identity_of m, cr_updated_at := UnixMilli (st_now e), cr_disabled_cause := None\<rparr>"
  let ?s = "set_rows (cr_id r) ?f s"
  have enc': "materialFromRow G s p KindOAuth enc = Inr (stored_oauth p m)"
    using materialFromRow_Encrypt [OF g assms(2) enc, of p KindOAuth] MaterialFromDecrypted_oauth [OF assms(3), of p] by simp
  have mat: "materialFromRow G s (cr_provider r) (cr_type (?f r)) (cr_data (?f r)) = Inr (stored_oauth p m)"
    using enc' r by (simp add: KindOAuth_def)
  have u: "SQLite_UpdateOAuth G e p m s = SQLite_BumpGeneration e ?s"
    using SQLite_row_nonempty [OF r(1)] assms(2,6) by (simp add: SQLite_UpdateOAuth_def enc env_good_def)
  note upd = set_rows_ok [where f = "?f", OF assms(1) r(1) _ _ mat, simplified]
  let ?s' = "snd (SQLite_BumpGeneration e ?s)"
  have s': "SQLite_BumpGeneration e ?s = (Inr (), ?s')" "sq_rows ?s' = sq_rows ?s" "sq_key ?s' = sq_key s" "SQLite_inv G ?s'"
    "SQLite_cur G ?s' = SQLite_cur G ?s"
    using assms(2) SQLite_bump_ledger [OF upd(1), of e] bump_contract [OF upd(1) assms(2)]
    by (auto simp: SQLite_BumpGeneration_def env_good_def set_rows_def)
  have uniq: "x = r" if "x \<in> set (sq_rows s)" "cr_id x = cr_id r" for x
  proof -
    have "distinct (map cr_id (sq_rows s))" using assms(1) strict_sorted_iff unfolding SQLite_inv_def by blast
    with that r(1) show ?thesis by (auto simp: distinct_map dest: inj_onD)
  qed
  have "latest_row (\<lambda>x. cr_provider x = q) s \<noteq> Some r" for q
    using assms(4,5) r(2,3) latest_row_Some [of "\<lambda>x. cr_provider x = q" s r] by auto
  then have "SQLite_cur G ?s' = SQLite_cur G s" unfolding s'(5) upd(2) by (simp add: fun_eq_iff)
  then have "SQLite_Get G True q ?s' = SQLite_Get G True q s" for q
    using SQLite_get_cur [OF s'(4)] SQLite_get_cur [OF assms(1)] by simp
  moreover have "sq_rows ?s' = map (\<lambda>x. if cr_id x = cr_id r then ?f r else x) (sq_rows s)"
    unfolding s'(2) using uniq by (auto simp: set_rows_def)
  moreover have "materialFromRow G ?s' p KindOAuth enc = Inr (stored_oauth p m)"
    using enc' materialFromRow_key [OF s'(3), of G] by simp
  ultimately show ?thesis
    using u s'(1) by (intro exI [of _ ?s'] exI [of _ "?f r"]) simp
qed


section \<open>What the stores guarantee\<close>

text \<open>
  (C000) The broker database is a faithful ledger. Any history of \<^verbatim>\<open>PutAPIKey\<close>, \<^verbatim>\<open>PutOAuth\<close>, \<^verbatim>\<open>UpdateOAuth\<close> and \<^verbatim>\<open>Disable\<close> (of any
  profile and any id, with statements and random reads that may fail) on a fresh database answers every
  operation, errors included, as the ledger does, and ends in a database in which: \<^verbatim>\<open>Get\<close> of any profile returns the newest credential
  that was put under it, decrypted, as UTF-8 and with its metadata normalised, or the error that it is disabled, also when an older one
  is active, or that there is none; the listing shows each credential once, in the order of the ids, with its profile, kind and cause; and
  the snapshot carries the generation of the ledger, one more for each change whose bump succeeded. A disabling touches the one
  row of its id, an update the newest OAuth row of its profile. (The random source is assumed to give 12 bytes or to fail, the
  statements of the migration to succeed, the cipher to be inverted by its opening.)
\<close>

theorem vault_keeps_ledger:
  assumes "gcm_inverse G" "length key = 32" "migrate_good mg" "OpenSQLite True mg (empty_db key) = Inr s" "history_ok ops"
    "run_store (SQLite_exec G) ops s = (rs, s')"
  shows "\<exists>v. run_store (ledger_step vault_pick) ops empty_ledger = (rs, v) \<and>
    (\<forall>p. SQLite_Get G True p s' = ledger_get p v) \<and>
    (\<exists>cs. SQLite_ListSummaries True s' = Inr cs \<and> map listed (case cs of None \<Rightarrow> [] | Some xs \<Rightarrow> xs) = ledger_listing v) \<and>
    (\<forall>e. st_ok1 e \<longrightarrow> (\<exists>sm. SQLite_SnapshotMeta e s' = Inr sm \<and> sm_Generation sm = ld_gen v))"
proof -
  note fresh = fresh_vault [OF assms(1-4)]
  from vault_history.run_ok [OF fresh(1) assms(5,6)] have "SQLite_inv G s'"
    and run: "run_store (ledger_step vault_pick) ops empty_ledger = (rs, SQLite_ledger G s')" by (simp_all add: fresh(2))
  then show ?thesis
    using SQLite_ledger_get SQLite_ledger_listing SQLite_ledger_snapshot by blast
qed

text \<open>
  (C000) The memory store stands in for the database. After the same history of any length on a new memory store and on a fresh
  database, with the same random reads and with all database statements succeeding, \<^verbatim>\<open>Get\<close> gives the same answer in both
  for every profile: the same material, the same id and cause of a disabled credential, or the same missing profile. Along the way every
  operation answered the same, except that an \<^verbatim>\<open>UpdateOAuth\<close> which the memory store refused, because the newest credential of
  the profile is an API key, may have answered otherwise in the database.
\<close>

theorem memory_vault_equivalent:
  assumes "gcm_inverse G" "length key = 32" "migrate_good mg" "OpenSQLite True mg (empty_db key) = Inr s" "history_ok ops"
    "list_all (statements_ok \<circ> fst) ops"
    "run_store (SQLite_exec G) ops s = (rs, s')" "run_store (Memory_exec G) ops (NewMemory now key) = (qs, t')"
  shows "(\<forall>p. Memory_Get G p t' = SQLite_Get G True p s') \<and> length qs = length ops \<and> length rs = length ops \<and>
    (\<forall>k < length ops. qs ! k = rs ! k \<or> (\<exists>p m. snd (ops ! k) = UpdateOA p m \<and> qs ! k = Inl (ErrNotOAuth p)))"
proof -
  note fresh = fresh_vault [OF assms(1-4)] fresh_memory [OF assms(1,2), of now]
  from vault_history.run_ok [OF fresh(1) assms(5,7)] memory_history.run_ok [OF fresh(3) assms(5,8)]
  have inv: "SQLite_inv G s'" "Memory_full G t'"
    and runs: "run_store (\<lambda>e. ledger_step memory_pick (no_database e)) ops empty_ledger = (qs, Memory_ledger G t')"
      "run_store (ledger_step vault_pick) ops empty_ledger = (rs, SQLite_ledger G s')" by (simp_all add: fresh)
  note agree = agree_run [OF empty_agree assms(6) runs]
  then have "ledger_get p (Memory_ledger G t') = ledger_get p (SQLite_ledger G s')" for p
    by (simp add: ledgers_agree_def ledger_get_def)
  with agree show ?thesis by (simp add: SQLite_ledger_get [OF inv(1)] Memory_ledger_get [OF inv(2)])
qed

text \<open>
  (C000) Where the two stores differ: an OAuth update that reaches a credential no longer in use. After the same history, with a profile
  whose newest credential is an imported API key and an older one OAuth, the memory store refuses \<^verbatim>\<open>UpdateOAuth\<close> and stays as it
  is; the database reports success, puts the new tokens into the old row, clears its cause if it was disabled, and changes no
  other row. Readers of both keep getting what they got before.
\<close>

theorem update_behind_api_key:
  assumes "gcm_inverse G" "length key = 32" "migrate_good mg" "OpenSQLite True mg (empty_db key) = Inr s" "history_ok ops"
    "list_all (statements_ok \<circ> fst) ops"
    "run_store (SQLite_exec G) ops s = (rs, s')" "run_store (Memory_exec G) ops (NewMemory now key) = (qs, t')"
    "env_good e" "material_ok m"
    "latest_row (\<lambda>r. cr_provider r = p) s' = Some r0" "cr_type r0 = ''api_key''"
    "latest_row (\<lambda>r. cr_provider r = p \<and> cr_type r = ''oauth'') s' = Some r"
  shows "Memory_UpdateOAuth G e p m t' = (Inl (ErrNotOAuth p), t') \<and>
    (\<exists>s'' r'. SQLite_UpdateOAuth G e p m s' = (Inr (), s'') \<and> cr_id r' = cr_id r \<and> cr_disabled_cause r' = None \<and>
       materialFromRow G s'' p KindOAuth (cr_data r') = Inr (stored_oauth p m) \<and>
       sq_rows s'' = map (\<lambda>x. if cr_id x = cr_id r then r' else x) (sq_rows s') \<and>
       (\<forall>q. SQLite_Get G True q s'' = SQLite_Get G True q s' \<and> SQLite_Get G True q s'' = Memory_Get G q t'))"
proof -
  note fresh = fresh_vault [OF assms(1-4)] fresh_memory [OF assms(1,2), of now]
  from vault_history.run_ok [OF fresh(1) assms(5,7)] memory_history.run_ok [OF fresh(3) assms(5,8)]
  have inv: "SQLite_inv G s'" "Memory_full G t'"
    and runs: "run_store (\<lambda>e. ledger_step memory_pick (no_database e)) ops empty_ledger = (qs, Memory_ledger G t')"
      "run_store (ledger_step vault_pick) ops empty_ledger = (rs, SQLite_ledger G s')" by (simp_all add: fresh)
  note agree = conjunct1 [OF agree_run [OF empty_agree assms(6) runs]]
  have same: "Memory_Get G q t' = SQLite_Get G True q s'" for q
    using agree by (simp add: SQLite_ledger_get [OF inv(1)] Memory_ledger_get [OF inv(2)] ledgers_agree_def ledger_get_def)
  show ?thesis
    using memory_update_refused [OF inv(2) agree inv(1) assms(11,12)] vault_update_behind [OF inv(1) assms(9-13)] same by simp
qed

subsection \<open>An OAuth credential that is disabled and then hidden by an API key\<close>

definition demo_ops :: "(store_env \<times> store_op) list" where
  "demo_ops = map (Pair demo_store_env) [PutOA ''acct'' demo_oauth, DisableID 1 ''revoked'', PutAPI ''acct'' ''k'']"

definition demo_ledger :: ledger where
  "demo_ledger =
     \<lparr>ld_entries = [\<lparr>en_id = 1, en_mat = stored_oauth ''acct'' demo_oauth, en_cause = ''revoked''\<rparr>,
        \<lparr>en_id = 2, en_mat = stored_api ''acct'' ''k'', en_cause = ''''\<rparr>], ld_next = 2, ld_gen = 4\<rparr>"

lemma demo_ops_ok: "history_ok demo_ops" "list_all (statements_ok \<circ> fst) demo_ops"
  by (simp_all add: demo_ops_def history_ok_def nonce_ok_def statements_ok_def demo_store_env_def demo_oauth_ok)

lemma demo_ledger_run: "run_store (ledger_step vault_pick) demo_ops empty_ledger = ([Inr 1, Inr 0, Inr 2], demo_ledger)"
  by (simp add: demo_ops_def demo_store_env_def empty_ledger_def demo_ledger_def ledger_add_def ledger_set_def ledger_bump_def)

lemma demo_stored: "mat_Profile (stored_api p k) = p" "mat_Kind (stored_api p k) = ''api_key''"
  "mat_Profile (stored_oauth p m) = p" "mat_Kind (stored_oauth p m) = ''oauth''"
  by (simp_all add: stored_api_def stored_oauth_def zero_Material_def KindAPIKey_def KindOAuth_def)

theorem vault_keeps_ledger_witness:
  "\<exists>s'. run_store (SQLite_exec demo_gcm) demo_ops demo_vault = ([Inr 1, Inr 0, Inr 2], s') \<and>
     SQLite_Get demo_gcm True ''acct'' s' = Inr (stored_api ''acct'' ''k'') \<and>
     SQLite_Get demo_gcm True ''other'' s' = Inl (ErrProfileNotFound ''other'')"
proof -
  obtain rs s' where run: "run_store (SQLite_exec demo_gcm) demo_ops demo_vault = (rs, s')" by fastforce
  from vault_keeps_ledger [OF demo_gcm_inverse demo_good demo_open demo_ops_ok(1) run] have "rs = [Inr 1, Inr 0, Inr 2]"
    "\<forall>p. SQLite_Get demo_gcm True p s' = ledger_get p demo_ledger" by (auto simp: demo_ledger_run)
  with run show ?thesis by (simp add: ledger_get_def newest_def demo_ledger_def demo_stored)
qed

theorem memory_vault_equivalent_witness:
  "Memory_Get demo_gcm ''acct'' (snd (run_store (Memory_exec demo_gcm) demo_ops (NewMemory 0 demo_key))) =
     SQLite_Get demo_gcm True ''acct'' (snd (run_store (SQLite_exec demo_gcm) demo_ops demo_vault)) \<and>
   length (fst (run_store (Memory_exec demo_gcm) demo_ops (NewMemory 0 demo_key))) = 3"
proof -
  obtain rs s' qs t' where run: "run_store (SQLite_exec demo_gcm) demo_ops demo_vault = (rs, s')"
    "run_store (Memory_exec demo_gcm) demo_ops (NewMemory 0 demo_key) = (qs, t')" by fastforce
  have "length demo_ops = 3" by (simp add: demo_ops_def)
  with memory_vault_equivalent [OF demo_gcm_inverse demo_good demo_open demo_ops_ok run] run show ?thesis by simp
qed

theorem update_behind_api_key_witness:
  "\<exists>s' t' s''. snd (run_store (SQLite_exec demo_gcm) demo_ops demo_vault) = s' \<and>
     snd (run_store (Memory_exec demo_gcm) demo_ops (NewMemory 0 demo_key)) = t' \<and>
     fst (Memory_UpdateOAuth demo_gcm demo_store_env ''acct'' demo_oauth t') = Inl (ErrNotOAuth ''acct'') \<and>
     SQLite_UpdateOAuth demo_gcm demo_store_env ''acct'' demo_oauth s' = (Inr (), s'') \<and>
     (\<exists>r \<in> set (sq_rows s'). cr_disabled_cause r \<noteq> None \<and> (\<exists>r' \<in> set (sq_rows s''). cr_id r' = cr_id r \<and> cr_disabled_cause r' = None))"
proof -
  obtain rs s' qs t' where run: "run_store (SQLite_exec demo_gcm) demo_ops demo_vault = (rs, s')"
    "run_store (Memory_exec demo_gcm) demo_ops (NewMemory 0 demo_key) = (qs, t')" by fastforce
  note fresh = fresh_vault [OF demo_gcm_inverse demo_good demo_open]
  from vault_history.run_ok [OF fresh(1) demo_ops_ok(1) run(1)] have inv: "SQLite_inv demo_gcm s'"
    and ledger: "SQLite_ledger demo_gcm s' = demo_ledger" by (auto simp: fresh(2) demo_ledger_run)
  have "newest (\<lambda>m. mat_Profile m = ''acct'') demo_ledger = Some \<lparr>en_id = 2, en_mat = stored_api ''acct'' ''k'', en_cause = ''''\<rparr>"
    by (simp add: newest_def demo_ledger_def demo_stored)
  then have "map_option (entry_of_row demo_gcm s') (latest_row (\<lambda>r. cr_provider r = ''acct'') s') =
      Some \<lparr>en_id = 2, en_mat = stored_api ''acct'' ''k'', en_cause = ''''\<rparr>"
    using newest_row [OF inv, of "\<lambda>m. mat_Profile m = ''acct''" "\<lambda>r. cr_provider r = ''acct''"] by (simp add: ledger)
  then obtain r0 where r0: "latest_row (\<lambda>r. cr_provider r = ''acct'') s' = Some r0" "en_mat (entry_of_row demo_gcm s' r0) = stored_api ''acct'' ''k''"
    by auto
  have type: "cr_type r0 = ''api_key''"
    by (rule entry_of_row_mat [OF inv conjunct1 [OF latest_row_Some [OF r0(1)]]]) (metis r0(2) demo_stored(2))
  have "newest (\<lambda>m. mat_Profile m = ''acct'' \<and> mat_Kind m = ''oauth'') demo_ledger =
      Some \<lparr>en_id = 1, en_mat = stored_oauth ''acct'' demo_oauth, en_cause = ''revoked''\<rparr>"
    by (simp add: newest_def demo_ledger_def demo_stored KindOAuth_def)
  then have "map_option (entry_of_row demo_gcm s') (latest_row (\<lambda>r. cr_provider r = ''acct'' \<and> cr_type r = ''oauth'') s') =
      Some \<lparr>en_id = 1, en_mat = stored_oauth ''acct'' demo_oauth, en_cause = ''revoked''\<rparr>"
    using newest_row [OF inv, of "\<lambda>m. mat_Profile m = ''acct'' \<and> mat_Kind m = ''oauth''" "\<lambda>r. cr_provider r = ''acct'' \<and> cr_type r = ''oauth''"]
    by (simp add: ledger)
  then obtain r where r: "latest_row (\<lambda>r. cr_provider r = ''acct'' \<and> cr_type r = ''oauth'') s' = Some r"
    "en_cause (entry_of_row demo_gcm s' r) = ''revoked''" by auto
  have cause: "cr_disabled_cause r \<noteq> None" using r(2) by (auto simp: entry_of_row_def null_str_def split: option.splits)
  have mem: "r \<in> set (sq_rows s')" using latest_row_Some [OF r(1)] by simp
  from update_behind_api_key [OF demo_gcm_inverse demo_good demo_open demo_ops_ok run demo_env_good demo_oauth_ok r0(1) type r(1)]
  obtain s'' r' where u: "Memory_UpdateOAuth demo_gcm demo_store_env ''acct'' demo_oauth t' = (Inl (ErrNotOAuth ''acct''), t')"
    "SQLite_UpdateOAuth demo_gcm demo_store_env ''acct'' demo_oauth s' = (Inr (), s'')" "cr_id r' = cr_id r" "cr_disabled_cause r' = None"
    "sq_rows s'' = map (\<lambda>x. if cr_id x = cr_id r then r' else x) (sq_rows s')" by blast
  have "r' \<in> set (sq_rows s'')" using mem unfolding u(5) by force
  with run u mem cause show ?thesis by auto
qed

end
