(* ===== verification/OAuthRefresh.thy ===== *)
theory OAuthRefresh
  imports OAuth StoreHistory
begin

section \<open>What a refresh does to the stored credential\<close>

text \<open>
  \<^verbatim>\<open>RefreshProfile\<close> of \<^verbatim>\<open>credential/oauth/generic/oauth.go\<close> (theory \<^verbatim>\<open>OAuth\<close>) on a store that implements the ledger (theory
  \<^verbatim>\<open>StoreHistory\<close>). The lemmas for one attempt to write, and for the loop of attempts, are proved for any such store; the
  property is stated for the broker database, for every reply of the provider and every fate of the statements.
\<close>

subsection \<open>One attempt to write\<close>

text \<open>Whether an update gets as far as its row, whether it succeeds, and the error it ends with when it does not.\<close>

definition attempt_writes :: "store_env \<Rightarrow> bool" where
  "attempt_writes e \<longleftrightarrow> st_ok1 e \<and> st_nonce e \<noteq> None \<and> st_ok2 e"

definition attempt_ok :: "store_env \<Rightarrow> bool" where
  "attempt_ok e \<longleftrightarrow> attempt_writes e \<and> st_bump_ok e"

definition attempt_error :: "store_env \<Rightarrow> store_error" where
  "attempt_error e = (if st_ok1 e \<and> st_nonce e = None then ErrSeal ErrNonce else ErrStoreDatabase)"

definition distinct_ids :: "ledger \<Rightarrow> bool" where
  "distinct_ids v \<longleftrightarrow> distinct (map en_id (ld_entries v))"

lemma ledger_update:
  assumes x: "newest (\<lambda>m. mat_Profile m = p) v = Some x" and k: "mat_Kind (en_mat x) = KindOAuth" and d: "distinct_ids v"
    and pick: "pick p v = Inr (en_id x)" and step: "ledger_step pick e (UpdateOA p m) v = (r, v')"
  shows "r = (if attempt_ok e then Inr 0 else Inl (attempt_error e))" "distinct_ids v'"
    "newest (\<lambda>m. mat_Profile m = q) v' =
       (if attempt_writes e \<and> q = p then Some (x\<lparr>en_mat := stored_oauth p m, en_cause := ''''\<rparr>)
        else newest (\<lambda>m. mat_Profile m = q) v)"
proof -
  let ?g = "\<lambda>x. x\<lparr>en_mat := stored_oauth p m, en_cause := ''''\<rparr>"
  have mem: "x \<in> set (ld_entries v)" "mat_Profile (en_mat x) = p" using newest_mem [OF x] by auto
  have only: "y = x" if "y \<in> set (ld_entries v)" "en_id y = en_id x" for y
    using that mem(1) d by (auto simp: distinct_ids_def distinct_map dest: inj_onD)
  have "mat_Profile (en_mat y) = p \<and> mat_Kind (en_mat y) = KindOAuth" if "y \<in> set (ld_entries v)" "en_id y = en_id x" for y
    using only [OF that] mem(2) k by simp
  then have shape: "shape_kept ?g (en_id x) v" by (auto simp: shape_kept_def)
  have v': "r = (if attempt_ok e then Inr 0 else Inl (attempt_error e)) \<and>
    v' = (if attempt_writes e then snd (ledger_set e (en_id x) ?g v) else v)"
    using step pick by (auto simp: attempt_ok_def attempt_writes_def attempt_error_def ledger_set_def split: if_splits)
  then show "r = (if attempt_ok e then Inr 0 else Inl (attempt_error e))" by blast
  have "map en_id (ld_entries v') = map en_id (ld_entries v)"
    by (cases "attempt_writes e") (simp_all only: conjunct2 [OF v'] if_True if_False set_ids [OF shape])
  with d show "distinct_ids v'" by (simp add: distinct_ids_def)
  have same: "newest (\<lambda>m. mat_Profile m = q) (snd (ledger_set e (en_id x) ?g v)) =
      (if q = p then Some (?g x) else newest (\<lambda>m. mat_Profile m = q) v)"
  proof (cases "newest (\<lambda>m. mat_Profile m = q) v")
    case None
    with x show ?thesis by (auto simp: set_newest [OF shape])
  next
    case (Some y)
    have "en_id y = en_id x \<longleftrightarrow> q = p"
    proof
      assume "en_id y = en_id x"
      with newest_mem [OF Some] only have "y = x" by blast
      with newest_mem [OF Some] mem(2) show "q = p" by simp
    next
      assume "q = p"
      with Some x show "en_id y = en_id x" by simp
    qed
    with Some x show ?thesis by (auto simp: set_newest [OF shape])
  qed
  show "newest (\<lambda>m. mat_Profile m = q) v' =
       (if attempt_writes e \<and> q = p then Some (?g x) else newest (\<lambda>m. mat_Profile m = q) v)"
    unfolding conjunct2 [OF v'] by (simp only: same split: if_split) simp
qed

subsection \<open>The loop of attempts\<close>

text \<open>
  The n-th attempt is made when every earlier one failed and the context lived through the pause after it.
  \<open>loop_result\<close> and \<open>loop_writes\<close>: what the remaining attempts answer, and whether one of them reaches the row.
\<close>

definition attempted :: "(nat \<Rightarrow> store_env) \<Rightarrow> (nat \<Rightarrow> bool) \<Rightarrow> nat \<Rightarrow> bool" where
  "attempted envs cancelled n \<longleftrightarrow> (\<forall>k<n. \<not> attempt_ok (envs k) \<and> \<not> cancelled k)"

fun loop_result :: "(nat \<Rightarrow> store_env) \<Rightarrow> (nat \<Rightarrow> bool) \<Rightarrow> nat list \<Rightarrow> store_error option \<Rightarrow> (oauth_error, unit) res" where
  "loop_result envs cancelled [] lastErr = Inl (OWriteFailed lastErr)"
| "loop_result envs cancelled (n # ns) lastErr =
     (if attempt_ok (envs n) then Inr () else if cancelled n then Inl OCancelled
      else loop_result envs cancelled ns (Some (attempt_error (envs n))))"

fun loop_writes :: "(nat \<Rightarrow> store_env) \<Rightarrow> (nat \<Rightarrow> bool) \<Rightarrow> nat list \<Rightarrow> bool" where
  "loop_writes envs cancelled [] = False"
| "loop_writes envs cancelled (n # ns) =
     (attempt_writes (envs n) \<or> \<not> cancelled n \<and> loop_writes envs cancelled ns)"

lemma loop_three:
  "loop_result envs cancelled [0..<3] None =
     (if \<exists>n<3. attempted envs cancelled n \<and> attempt_ok (envs n) then Inr ()
      else if \<exists>n<3. attempted envs cancelled n \<and> cancelled n then Inl OCancelled
      else Inl (OWriteFailed (Some (attempt_error (envs 2)))))"
  "loop_writes envs cancelled [0..<3] \<longleftrightarrow> (\<exists>n<3. attempted envs cancelled n \<and> attempt_writes (envs n))"
proof -
  have ns: "[0..<3] = [0, 1, 2 :: nat]" by (simp add: upt_rec)
  have ex: "(\<exists>n<3. P n) \<longleftrightarrow> P 0 \<or> P (Suc 0) \<or> P (2 :: nat)" for P
    by (auto simp: numeral_eq_Suc less_Suc_eq)
  have a: "attempted envs cancelled 0" "attempted envs cancelled (Suc 0) \<longleftrightarrow> \<not> attempt_ok (envs 0) \<and> \<not> cancelled 0"
    "attempted envs cancelled 2 \<longleftrightarrow>
       (\<not> attempt_ok (envs 0) \<and> \<not> cancelled 0) \<and> \<not> attempt_ok (envs (Suc 0)) \<and> \<not> cancelled (Suc 0)"
    by (auto simp: attempted_def numeral_eq_Suc less_Suc_eq)
  have w: "attempt_ok x \<Longrightarrow> attempt_writes x" for x by (simp add: attempt_ok_def)
  show "loop_result envs cancelled [0..<3] None =
     (if \<exists>n<3. attempted envs cancelled n \<and> attempt_ok (envs n) then Inr ()
      else if \<exists>n<3. attempted envs cancelled n \<and> cancelled n then Inl OCancelled
      else Inl (OWriteFailed (Some (attempt_error (envs 2)))))"
    unfolding ns by (auto simp: ex a)
  show "loop_writes envs cancelled [0..<3] \<longleftrightarrow> (\<exists>n<3. attempted envs cancelled n \<and> attempt_writes (envs n))"
    using w unfolding ns by (auto simp: ex a)
qed

text \<open>\<^verbatim>\<open>UpdateOAuth\<close> of a store, as \<^verbatim>\<open>RefreshProfile\<close> calls it.\<close>

definition updates ::
  "(store_env \<Rightarrow> store_op \<Rightarrow> 's \<Rightarrow> (store_error, int) res \<times> 's) \<Rightarrow> store_env \<Rightarrow> string \<Rightarrow> Material \<Rightarrow> 's \<Rightarrow>
     (store_error, unit) res \<times> 's" where
  "updates exec e p m s = apfst (map_sum id (\<lambda>_. ())) (exec e (UpdateOA p m) s)"

text \<open>A ledger with an active OAuth credential as the newest one of the profile, which the update goes to.\<close>

definition holds_oauth :: "(string \<Rightarrow> ledger \<Rightarrow> (store_error, int) res) \<Rightarrow> string \<Rightarrow> ledger \<Rightarrow> bool" where
  "holds_oauth pick p v \<longleftrightarrow> distinct_ids v \<and> (\<exists>c. ledger_get p v = Inr c \<and> mat_Kind c = KindOAuth) \<and>
     (\<forall>v x. newest (\<lambda>m. mat_Profile m = p) v = Some x \<longrightarrow> mat_Kind (en_mat x) = KindOAuth \<longrightarrow> pick p v = Inr (en_id x))"

context store_history
begin

lemma attempt:
  assumes inv: "inv s" and s: "holds_oauth pick p (ledger_of s)" and e: "nonce_ok e" and m: "material_ok m"
    and run: "updates exec e p m s = (r, s')"
  shows "inv s'" "holds_oauth pick p (ledger_of s')" "r = (if attempt_ok (view e) then Inr () else Inl (attempt_error (view e)))"
    "get q s' = (if attempt_writes (view e) \<and> q = p then Inr (stored_oauth p m) else get q s)"
proof -
  obtain r0 where x: "exec e (UpdateOA p m) s = (r0, s')" and r: "r = map_sum id (\<lambda>_. ()) r0"
    using run by (cases "exec e (UpdateOA p m) s") (auto simp: updates_def)
  have d: "distinct_ids (ledger_of s)"
    and pick: "\<And>v x. newest (\<lambda>m. mat_Profile m = p) v = Some x \<Longrightarrow> mat_Kind (en_mat x) = KindOAuth \<Longrightarrow> pick p v = Inr (en_id x)"
    using s by (auto simp: holds_oauth_def)
  obtain y where y: "newest (\<lambda>m. mat_Profile m = p) (ledger_of s) = Some y" "mat_Kind (en_mat y) = KindOAuth"
    using s by (auto simp: holds_oauth_def ledger_get_def split: option.splits if_splits)
  have "op_ok (UpdateOA p m)" using m by simp
  from exec_ok [OF inv e this x] have inv': "inv s'"
    and step: "ledger_step pick (view e) (UpdateOA p m) (ledger_of s) = (r0, ledger_of s')" by auto
  note u = ledger_update [OF y d pick [OF y] step]
  show "inv s'" by (rule inv')
  show "r = (if attempt_ok (view e) then Inr () else Inl (attempt_error (view e)))" using u(1) r by simp
  have got: "ledger_get q (ledger_of s') = (if attempt_writes (view e) \<and> q = p then Inr (stored_oauth p m) else ledger_get q (ledger_of s))" for q
    unfolding ledger_get_def u(3) by simp
  then show "get q s' = (if attempt_writes (view e) \<and> q = p then Inr (stored_oauth p m) else get q s)"
    unfolding get_ok [OF inv] get_ok [OF inv'] by blast
  show "holds_oauth pick p (ledger_of s')" using s u(2) by (auto simp: holds_oauth_def got)
qed

lemma attempts:
  assumes "inv s" "holds_oauth pick p (ledger_of s)" "\<forall>n. nonce_ok (envs n)" "material_ok m"
    "write_attempts (\<lambda>n. updates exec (envs n) p m) cancelled ns lastErr s = (r, s')"
  shows "r = loop_result (view \<circ> envs) cancelled ns lastErr \<and>
    (\<forall>q. get q s' = (if loop_writes (view \<circ> envs) cancelled ns \<and> q = p then Inr (stored_oauth p m) else get q s))"
  using assms(1,2,5)
proof (induction ns arbitrary: lastErr s)
  case (Cons n ns)
  obtain r1 s1 where u: "updates exec (envs n) p m s = (r1, s1)" by fastforce
  note a = attempt [OF Cons.prems(1,2) assms(3) [rule_format] assms(4) u]
  show ?case
  proof (cases "attempt_ok (view (envs n)) \<or> cancelled n")
    case True
    with a(3,4) Cons.prems(3) u show ?thesis by (auto simp: attempt_ok_def split: if_splits)
  next
    case False
    with a(3) Cons.prems(3) u
    have "write_attempts (\<lambda>n. updates exec (envs n) p m) cancelled ns (Some (attempt_error (view (envs n)))) s1 = (r, s')" by simp
    from Cons.IH [OF a(1,2) this] a(4) False show ?thesis by auto
  qed
qed simp

end

subsection \<open>The refresh\<close>

text \<open>The answer of the provider to the request that \<^verbatim>\<open>Refresh\<close> sends: a grant of type \<^verbatim>\<open>refresh_token\<close> with the stored token.\<close>

definition refresh_reply :: "oauth_env \<Rightarrow> OAuthProfile \<Rightarrow> string \<Rightarrow> (int \<times> string) option" where
  "refresh_reply e prof token =
     oe_post e 0 (op_TokenURL prof)
       (Values_Encode (with_client prof [(''grant_type'', [''refresh_token'']), (''refresh_token'', [token])]))"

text \<open>The expiry that is stored for a lifetime in seconds: of the sum, to the millisecond; none for a lifetime that is not positive.\<close>

definition stored_expiry :: "instant \<Rightarrow> int \<Rightarrow> instant option" where
  "stored_expiry now n =
     (if n > 0 \<and> UnixMilli (now + seconds n) > 0 then Some (from_UnixMilli (UnixMilli (now + seconds n))) else None)"

text \<open>\<open>m\<close> is the credential \<open>c\<close> with the tokens of a reply.\<close>

definition refreshed_from :: "instant \<Rightarrow> tokenResponse \<Rightarrow> Material \<Rightarrow> Material \<Rightarrow> bool" where
  "refreshed_from now tok c m \<longleftrightarrow>
     mat_AccessToken m = tr_AccessToken tok \<and>
     mat_RefreshToken m = (if tr_RefreshToken tok = '''' then mat_RefreshToken c else tr_RefreshToken tok) \<and>
     mat_ExpiresAt m = stored_expiry now (tr_ExpiresIn tok) \<and>
     mat_Kind m = KindOAuth \<and> mat_Email m = mat_Email c \<and> (\<forall>k. Extra m k = Extra c k)"

lemma Refresh_oauth_reply:
  assumes "token \<noteq> ''''"
  shows "Refresh_oauth e prof token =
    (case refresh_reply e prof token of
       None \<Rightarrow> Inl ORequest
     | Some (status, body) \<Rightarrow>
         (if status \<ge> 400 then Inl (ORefresh status (TrimSpace body))
          else case token_of_json body of
            None \<Rightarrow> Inl ODecode
          | Some tok \<Rightarrow>
              Inr ((tokenToMaterial (oe_now e) '''' tok)
                \<lparr>mat_RefreshToken := (if tr_RefreshToken tok = '''' then token else tr_RefreshToken tok)\<rparr>)))"
  using assms
  by (simp add: Refresh_oauth_def refresh_reply_def post_form_def token_reply_def tokenToMaterial_def Let_def split: option.split prod.split)

text \<open>The material that is written after a reply with tokens, and what a reader gets of it.\<close>

definition written :: "oauth_env \<Rightarrow> string \<Rightarrow> tokenResponse \<Rightarrow> Material \<Rightarrow> Material" where
  "written e profile tok c =
     (tokenToMaterial (oe_now e) profile tok)
       \<lparr>mat_RefreshToken := (if tr_RefreshToken tok = '''' then mat_RefreshToken c else tr_RefreshToken tok),
        mat_Email := mat_Email c, mat_Extras := MergeExtras (mat_Extras c) []\<rparr>"

lemma written_stored:
  assumes "gm_wf (mat_Extras c)" "material_utf8 c" "token_of_json body = Some tok" "0 \<le> oe_now e" "oe_now e < 2 ^ 63"
  shows "material_ok (written e profile tok c)" "refreshed_from (oe_now e) tok c (stored_oauth profile (written e profile tok c))"
proof -
  show "material_ok (written e profile tok c)"
    using token_material_ok [OF assms(4,5), of profile tok] MergeExtras_nothing(1) [OF assms(1)]
    by (simp add: written_def material_ok_def)
  have tok: "utf8_ok (tr_AccessToken tok)" "utf8_ok (tr_RefreshToken tok)"
    using assms(3) by (auto simp: token_of_json_def token_of_members_def utf8_ok_field_str split: option.splits if_splits)
  then have utf8: "material_utf8 (written e profile tok c)"
    using assms(2) MergeExtras_nothing_utf8 by (simp add: written_def tokenToMaterial_def material_utf8_def)
  have "Extra (stored_oauth profile (written e profile tok c)) k = Extra c k" for k
    using stored_extras [OF _ utf8, of profile k] MergeExtras_nothing [OF assms(1)]
    by (simp add: written_def Extra_def gm_getd_def)
  moreover have "mat_ExpiresAt (stored_oauth profile (written e profile tok c)) = stored_expiry (oe_now e) (tr_ExpiresIn tok)"
    by (simp add: stored_oauth_def written_def tokenToMaterial_def stored_expiry_def)
  ultimately show "refreshed_from (oe_now e) tok c (stored_oauth profile (written e profile tok c))"
    unfolding refreshed_from_def
    by (simp add: stored_utf8 [OF utf8]) (simp add: written_def tokenToMaterial_def)
qed

context store_history
begin

lemma refresh_profile:
  assumes "inv s" "holds_oauth pick profile (ledger_of s)" "get profile s = Inr c" "TrimSpace (mat_RefreshToken c) \<noteq> ''''"
    "refresh_reply e prof (mat_RefreshToken c) = Some (status, body)" "status < 400" "token_of_json body = Some tok"
    "material_ok (written e profile tok c)" "\<forall>n. nonce_ok (envs n)"
    "RefreshProfile get (\<lambda>n. updates exec (envs n)) e profile prof s = (r, s')"
  shows "r = loop_result (view \<circ> envs) (oe_cancelled e) [0..<3] None"
    "get q s' = (if loop_writes (view \<circ> envs) (oe_cancelled e) [0..<3] \<and> q = profile
       then Inr (stored_oauth profile (written e profile tok c)) else get q s)"
proof -
  have "mat_Kind c = KindOAuth" using assms(2,3) get_ok [OF assms(1)] by (auto simp: holds_oauth_def)
  moreover have "mat_RefreshToken c \<noteq> ''''" using assms(4) by auto
  ultimately have "write_attempts (\<lambda>n. updates exec (envs n) profile (written e profile tok c)) (oe_cancelled e) [0..<3] None s = (r, s')"
    using assms(3-7,10)
    by (simp add: RefreshProfile_def Refresh_oauth_reply written_def tokenToMaterial_def)
  from attempts [OF assms(1,2,9,8) this]
  show "r = loop_result (view \<circ> envs) (oe_cancelled e) [0..<3] None"
    "get q s' = (if loop_writes (view \<circ> envs) (oe_cancelled e) [0..<3] \<and> q = profile
       then Inr (stored_oauth profile (written e profile tok c)) else get q s)"
    by blast+
qed

end

lemma vault_updates: "updates (SQLite_exec G) e = SQLite_UpdateOAuth G e"
proof (intro ext)
  fix p m s
  have "map_sum id (\<lambda>_. ()) (map_sum id (\<lambda>_. 0 :: int) x) = x" for x :: "(store_error, unit) res"
    by (cases x) simp_all
  then show "updates (SQLite_exec G) e p m s = SQLite_UpdateOAuth G e p m s"
    by (cases "SQLite_UpdateOAuth G e p m s") (simp add: updates_def SQLite_exec_def)
qed

lemma vault_holds:
  assumes "SQLite_inv G s" "SQLite_Get G True p s = Inr c" "mat_Kind c = KindOAuth"
  shows "holds_oauth vault_pick p (SQLite_ledger G s)" "gm_wf (mat_Extras c)" "material_utf8 c"
proof -
  have "distinct (map cr_id (sq_rows s))" using assms(1) by (simp add: SQLite_inv_def strict_sorted_iff)
  then have "distinct_ids (SQLite_ledger G s)" by (simp add: distinct_ids_def SQLite_ledger_def comp_def)
  moreover have "vault_pick p v = Inr (en_id x)"
    if "newest (\<lambda>m. mat_Profile m = p) v = Some x" "mat_Kind (en_mat x) = KindOAuth" for v x
    using newest_restrict(1) [OF that(1), of "\<lambda>m. mat_Kind m = KindOAuth"] that(2) by (simp add: vault_pick_def)
  ultimately show "holds_oauth vault_pick p (SQLite_ledger G s)" 
    using assms(2,3) SQLite_ledger_get [OF assms(1)] by (auto simp: holds_oauth_def)
  obtain r :: cred_row where "materialFromRow G s p (cr_type r) (cr_data r) = Inr c"
    using assms(2) by (auto simp: SQLite_Get_def split: option.splits if_splits)
  then show "gm_wf (mat_Extras c)" "material_utf8 c"
    by (auto simp: materialFromRow_def res_bind_Inr_iff dest: MaterialFromDecrypted_read)
qed

text \<open>
  (C37) A refresh replaces the tokens and nothing else. For an active OAuth credential of the broker database, whatever the token
  endpoint replies and however the statements end: a request that fails, a status from 400 on and a body that is no token response give
  their error and leave the store as it was. Any other reply is stored by at most three attempts, each made when every earlier
  one failed and the context was not cancelled in the pause after it. The refresh answers without an error exactly when an attempt
  succeeds. Once an attempt reached the row, even if it then failed to bump the generation, the store returns the access
  token of the reply (the empty one, when the reply has none), the new refresh token or the old one when
  none was sent, the expiry of the reply, and the email and the extras from before; when none did, the old credential. Every other profile reads as before.
\<close>

theorem refresh_replaces_tokens:
  assumes "SQLite_inv G s" "SQLite_Get G True profile s = Inr c" "mat_Kind c = KindOAuth" "TrimSpace (mat_RefreshToken c) \<noteq> ''''"
    "\<forall>n. nonce_ok (envs n)" "0 \<le> oe_now e" "oe_now e < 2 ^ 63"
    "RefreshProfile (SQLite_Get G True) (\<lambda>n. SQLite_UpdateOAuth G (envs n)) e profile prof s = (r, s')"
  shows "case refresh_reply e prof (mat_RefreshToken c) of
      None \<Rightarrow> r = Inl ORequest \<and> s' = s
    | Some (status, body) \<Rightarrow>
        if status \<ge> 400 then r = Inl (ORefresh status (TrimSpace body)) \<and> s' = s
        else case token_of_json body of
          None \<Rightarrow> r = Inl ODecode \<and> s' = s
        | Some tok \<Rightarrow>
            r = (if \<exists>n<3. attempted envs (oe_cancelled e) n \<and> attempt_ok (envs n) then Inr ()
                 else if \<exists>n<3. attempted envs (oe_cancelled e) n \<and> oe_cancelled e n then Inl OCancelled
                 else Inl (OWriteFailed (Some (attempt_error (envs 2))))) \<and>
            (\<exists>m. SQLite_Get G True profile s' = Inr m \<and>
               (if \<exists>n<3. attempted envs (oe_cancelled e) n \<and> attempt_writes (envs n)
                then refreshed_from (oe_now e) tok c m else m = c)) \<and>
            (\<forall>p. p \<noteq> profile \<longrightarrow> SQLite_Get G True p s' = SQLite_Get G True p s)"
proof -
  note held = vault_holds [OF assms(1-3)]
  have token: "mat_RefreshToken c \<noteq> ''''" using assms(4) by auto
  have refused: "r = Inl err \<and> s' = s" if "Refresh_oauth e prof (mat_RefreshToken c) = Inl err" for err
    using that assms(2-4,8) by (simp add: RefreshProfile_def)
  show ?thesis
  proof (cases "refresh_reply e prof (mat_RefreshToken c)")
    case None
    with refused show ?thesis by (simp add: Refresh_oauth_reply [OF token])
  next
    case (Some reply)
    obtain status body where reply: "reply = (status, body)" by fastforce
    show ?thesis
    proof (cases "status < 400 \<and> token_of_json body \<noteq> None")
      case False
      with refused Some reply show ?thesis by (auto simp: Refresh_oauth_reply [OF token])
    next
      case True
      then obtain tok where tok: "status < 400" "token_of_json body = Some tok" by blast
      note w = written_stored [OF held(2,3) tok(2) assms(6,7), of profile]
      note run = vault_history.refresh_profile [where G = G and envs = envs, unfolded vault_updates comp_def loop_three,
        OF assms(1) held(1) assms(2,4) Some [unfolded reply] tok w(1) assms(5,8)]
      from tok(1) run(1) run(2) [of profile] run(2) w(2) assms(2) show ?thesis
        unfolding Some reply option.case prod.case tok(2) by (simp add: not_le) blast
    qed
  qed
qed

subsection \<open>Witness\<close>

definition demo_tokens :: Material where
  "demo_tokens = \<lparr>mat_Profile = ''acct'', mat_Kind = KindOAuth, mat_APIKey = '''', mat_AccessToken = ''at'', mat_RefreshToken = ''rt'',
     mat_ExpiresAt = None, mat_Email = ''me'', mat_Extras = []\<rparr>"

text \<open>A first attempt that fails before the row, later ones that do not.\<close>

definition demo_fates :: "nat \<Rightarrow> store_env" where
  "demo_fates n = (if n = 0 then demo_store_env\<lparr>st_ok2 := False\<rparr> else demo_store_env)"

text \<open>
  A provider that answers 200 with an empty object, as some do for a refused refresh: the second attempt stores it, and the
  access token is lost.
\<close>

theorem refresh_replaces_tokens_witness:
  "\<exists>s s' m. SQLite_Get demo_gcm True ''acct'' s = Inr (stored_oauth ''acct'' demo_tokens) \<and>
     RefreshProfile (SQLite_Get demo_gcm True) (\<lambda>n. SQLite_UpdateOAuth demo_gcm (demo_fates n)) (demo_oauth_env ''{}'')
       ''acct'' demo_profile s = (Inr (), s') \<and>
     SQLite_Get demo_gcm True ''acct'' s' = Inr m \<and> mat_AccessToken m = '''' \<and> mat_RefreshToken m = ''rt'' \<and>
     mat_ExpiresAt m = None \<and> mat_Email m = ''me''"
proof -
  have v: "SQLite_inv demo_gcm demo_vault"
    by (rule empty_db_inv [OF demo_gcm_inverse demo_good(1) demo_open demo_good(2)])
  let ?c = "stored_oauth ''acct'' demo_tokens"
  obtain x s where put: "SQLite_exec demo_gcm demo_store_env (PutOA ''acct'' demo_tokens) demo_vault = (x, s)" by fastforce
  have nonce: "nonce_ok demo_store_env" "nonce_ok (demo_fates n)" for n by (simp_all add: nonce_ok_def demo_store_env_def demo_fates_def)
  have "op_ok (PutOA ''acct'' demo_tokens)" by (simp add: material_ok_def demo_tokens_def)
  from vault_history.exec_ok [OF v nonce(1) this put]
  have inv: "SQLite_inv demo_gcm s" and step: "ledger_add demo_store_env ?c (SQLite_ledger demo_gcm demo_vault) = (x, SQLite_ledger demo_gcm s)"
    by auto
  have "SQLite_ledger demo_gcm s = snd (ledger_add demo_store_env ?c (SQLite_ledger demo_gcm demo_vault))" by (simp add: step)
  then have "newest (\<lambda>m. mat_Profile m = ''acct'') (SQLite_ledger demo_gcm s) =
      Some \<lparr>en_id = ld_next (SQLite_ledger demo_gcm demo_vault) + 1, en_mat = ?c, en_cause = ''''\<rparr>"
    by (simp add: ledger_add_def ledger_bump_def demo_store_env_def newest_def)
  then have got: "SQLite_Get demo_gcm True ''acct'' s = Inr ?c"
    by (simp add: SQLite_ledger_get [OF inv] ledger_get_def)
  have c: "mat_Kind ?c = KindOAuth" "TrimSpace (mat_RefreshToken ?c) \<noteq> ''''" "mat_RefreshToken ?c = ''rt''" "mat_Email ?c = ''me''"
    by (simp_all add: stored_oauth_def zero_Material_def demo_tokens_def TrimSpace_graphic graphic_def)
  have "json_parse ''{}'' = Some (JObj [])" using json_parse_emit [of "JObj []"] by simp
  then have tok: "token_of_json ''{}'' = Some \<lparr>tr_AccessToken = '''', tr_RefreshToken = '''', tr_ExpiresIn = 0, tr_TokenType = '''', tr_Scope = ''''\<rparr>"
    by (simp add: token_of_json_def token_of_members_def struct_members_def field_vals_def field_str_def field_int_def)
  let ?run = "RefreshProfile (SQLite_Get demo_gcm True) (\<lambda>n. SQLite_UpdateOAuth demo_gcm (demo_fates n)) (demo_oauth_env ''{}'') ''acct'' demo_profile s"
  obtain r s' where run: "?run = (r, s')" by fastforce
  have now: "0 \<le> oe_now (demo_oauth_env ''{}'')" "oe_now (demo_oauth_env ''{}'') < 2 ^ 63" by (simp_all add: demo_oauth_env_def)
  have second: "attempted demo_fates (oe_cancelled (demo_oauth_env ''{}'')) 1" "attempt_ok (demo_fates 1)" "attempt_writes (demo_fates 1)"
    by (simp_all add: attempted_def attempt_ok_def attempt_writes_def demo_fates_def demo_store_env_def demo_oauth_env_def)
  then have ex: "\<exists>n<3. attempted demo_fates (oe_cancelled (demo_oauth_env ''{}'')) n \<and> attempt_ok (demo_fates n)"
    "\<exists>n<3. attempted demo_fates (oe_cancelled (demo_oauth_env ''{}'')) n \<and> attempt_writes (demo_fates n)"
    by (auto intro!: exI [of _ 1])
  have reply: "refresh_reply (demo_oauth_env ''{}'') demo_profile token = Some (200, ''{}'')" for token
    by (simp add: refresh_reply_def demo_oauth_env_def)
  from refresh_replaces_tokens [OF inv got c(1,2) allI [OF nonce(2)] now run]
  obtain m where "r = Inr ()" "SQLite_Get demo_gcm True ''acct'' s' = Inr m"
    "refreshed_from (oe_now (demo_oauth_env ''{}'')) \<lparr>tr_AccessToken = '''', tr_RefreshToken = '''', tr_ExpiresIn = 0, tr_TokenType = '''', tr_Scope = ''''\<rparr> ?c m"
    by (auto simp: reply tok ex)
  with got run c show ?thesis by (auto simp: refreshed_from_def stored_expiry_def)
qed

end
