(* ===== verification/Spec2Isabelle.thy ===== *)
theory Spec2Isabelle
  imports Planes CliPlanes Observability WirePaths WireCalls StoreHistory OAuthRefresh
begin

section \<open>daigate, a composable AI gateway\<close>

text \<open>
  \<^bold>\<open>The program.\<close> daigate stands between clients that speak the OpenAI or Anthropic wire formats and the providers that serve
  the models. Clients hold gateway keys (\<^verbatim>\<open>sk-dg-...\<close>); the provider credentials stay in an encrypted database and are put
  into a request when it is forwarded. A process has two planes. The data plane (\<^verbatim>\<open>wire/\<close>) authenticates a request with the key
  store (\<^verbatim>\<open>ingress/keyring/\<close>), reads its model, checks the scopes of the key, resolves the model in the catalog
  (\<^verbatim>\<open>catalog/\<close>) to a pool of targets, and tries the targets in order: it takes the credential of a target from the
  store (\<^verbatim>\<open>credential/store/\<close>), lets the handler of the registry (\<^verbatim>\<open>adaptersdk/\<close>, \<^verbatim>\<open>passthrough/\<close>, \<^verbatim>\<open>compose/\<close>) inject it
  (\<^verbatim>\<open>credential/inject/\<close>) and relays the answer (\<^verbatim>\<open>upstream/\<close>). The admin plane (\<^verbatim>\<open>credential/admin/\<close>) imports credentials,
  mints and revokes keys, and reports changes of the store; its tokens are in \<^verbatim>\<open>ingress/adminauth/\<close>. \<^verbatim>\<open>gateway/\<close>
  opens the stores and starts and drains both planes, \<^verbatim>\<open>cmd/daigate/\<close> is the command line, \<^verbatim>\<open>credential/oauth/\<close> logs in at
  providers and refreshes tokens, \<^verbatim>\<open>observability/\<close> logs and exports telemetry.

  \<^bold>\<open>How the model is written.\<close> A Go struct is a record, a map a list of pairs (\<open>gomap\<close>, with \<open>gm_get\<close>, \<open>gm_set\<close>), a string a list of
  bytes, a result \<open>(T, error)\<close> a sum with the error on the left, a nil pointer or slice \<open>None\<close>. Integers that can
  overflow wrap (\<open>wrap64\<close> for the nanoseconds of a duration and for ids in memory). State is passed explicitly: an operation
  takes a store and returns it updated. What a function does not determine itself is an argument of it or a field of an
  environment record: the clock, random bytes, argon2 (\<open>idkey\<close>), AES-GCM (\<open>gcm\<close>, of which the only law used is that it
  inverts itself), the outcome of each SQL statement, the decoded yaml, the answers of upstreams and token endpoints.
  A panic is a value of its own (\<open>WPanic\<close>, \<open>NilModulePanic\<close>, \<open>None\<close> where the text says so). Definitions keep the source's names;
  a suffix or prefix is added where HOL or another component has the name already.

  \<^bold>\<open>Theories.\<close>
  \<^item> \<^verbatim>\<open>Prelude\<close>: results, maps, the collections \<open>gomap_simps\<close>, \<open>gostring_simps\<close>, \<open>header_simps\<close>. \<^verbatim>\<open>GoStrings\<close>, \<^verbatim>\<open>GoHttp\<close>,
    \<^verbatim>\<open>GoUtf8\<close>, \<^verbatim>\<open>GoJson\<close>, \<^verbatim>\<open>GoRaw\<close>, \<^verbatim>\<open>GoBase64\<close>, \<^verbatim>\<open>GoTime\<close>, \<^verbatim>\<open>GoUrl\<close>, \<^verbatim>\<open>GoMux\<close>: the parts of Go's library the source uses, with the round trips
    (parse after emit, decode after encode, unescape after escape) that the components need. Strings are any bytes; what goes
    through JSON comes back as UTF-8 (\<open>to_utf8\<close>), and a value that is kept raw is written as the client wrote it.
  \<^item> \<^verbatim>\<open>Scopes\<close>, \<^verbatim>\<open>Keyring\<close>: scopes; sealing of secrets, the form of a key, the key table and the store in memory. Both stores
    interpret the locale \<open>key_store\<close>, whose lemmas follow any history of mints and revocations.
  \<^item> \<^verbatim>\<open>Config\<close>, \<^verbatim>\<open>AdminAuth\<close>, \<^verbatim>\<open>MintPolicy\<close>: the configuration file, admin tokens, and what a provision token may mint.
  \<^item> \<^verbatim>\<open>Seal\<close>, \<^verbatim>\<open>StorePayload\<close>, \<^verbatim>\<open>Store\<close>, \<^verbatim>\<open>StoreMemory\<close>, \<^verbatim>\<open>StoreSqlite\<close>: the encrypted envelope, the payloads, what the operations of a
    credential store meet (clock, nonce, fate of each statement), and its two implementations with the migration of the schema.
    \<^verbatim>\<open>StoreHistory\<close>: a ledger of all credentials as the reference model, and the locale \<open>store_history\<close>, which both stores interpret
    and which lifts the simulation of one operation to any history.
  \<^item> \<^verbatim>\<open>AdminServer\<close>: routes and handlers of the admin plane; the event stream is a fold over its ticks and polls.
  \<^item> \<^verbatim>\<open>Catalog\<close>: the document, resolution, strategies, the doctor, the model list.
  \<^item> \<^verbatim>\<open>Inject\<close>, \<^verbatim>\<open>Upstream\<close>, \<^verbatim>\<open>Adapters\<close>: headers of an outbound request; retry decision, URLs, copying of responses and streams; the
    registry, the stock handlers and the composition of enabled adapters. What a handler does is an interaction
    \<open>fwd\<close>: it sends a request and goes on with the answer.
  \<^item> \<^verbatim>\<open>Wire\<close>, \<^verbatim>\<open>WireLaws\<close>: the data plane. \<open>Wire_Handler\<close> is the whole handler of one request; its result is the reply, the log record
    with the trace of store reads and upstream calls, and the catalog with moved counters. \<^verbatim>\<open>WireCalls\<close>: which target each upstream call
    belongs to, with which URL, body and credential. Its locales \<open>adapter_contract\<close> and \<open>single_shot_contract\<close> state what the engine needs of a
    registry; the stock registry interprets them. \<^verbatim>\<open>WirePaths\<close>: the URL
    of a video poll, the one path a client completes. Both planes route by the escaped path, as \<^verbatim>\<open>http.ServeMux\<close> does.
  \<^item> \<^verbatim>\<open>Drain\<close>: \<^verbatim>\<open>track\<close> and \<^verbatim>\<open>Shutdown\<close> as a step relation of concurrent goroutines, one statement on shared state per step.
  \<^item> \<^verbatim>\<open>Gateway\<close>, \<^verbatim>\<open>Serving\<close>: opening the stores, \<^verbatim>\<open>openGateway\<close> on all its paths, the handlers of both planes, and a process from
    \<^verbatim>\<open>Serve\<close> or \<^verbatim>\<open>EmbedServe\<close> on. \<^verbatim>\<open>Planes\<close>: both planes over one database.
  \<^item> \<^verbatim>\<open>OAuth\<close>, \<^verbatim>\<open>Vendor\<close>: the three login flows, refresh, the registry of vendor modules. \<^verbatim>\<open>OAuthRefresh\<close>: a refresh on a store
    that keeps the ledger.
  \<^item> \<^verbatim>\<open>Cli\<close>, \<^verbatim>\<open>CliRun\<close>: flags and every command. \<^verbatim>\<open>CliPlanes\<close>: what the commands create, on a gateway that is started
    later. \<^verbatim>\<open>Observability\<close>: settings, the exporters as a state machine, log handlers as a codatatype, what is measured,
    the status writer, and the record of each request.

  \<^bold>\<open>What is shown.\<close>
  \<^item> Keys: the table accepts exactly what its history granted; a minted secret works until it expires, a revoked one never again, also
    across both planes; the two stores agree; a key or an admin token made on the command line works on the gateway. What a provision token mints acts on the data plane only within its policy.
  \<^item> Admin plane: only an accepted token changes anything; the tables stay well-typed whatever is asked; the stream reports each
    change once.
  \<^item> Vault: after any history, also with failing statements, the database answers as the ledger does; \<open>Get\<close> returns the newest credential of a
    profile, or says that it is disabled. The readers of memory and database agree, and so do their operations but for one update; what
    that update does in each is a theorem.
  \<^item> Catalog: what a resolved plan promises, independence of the order of maps (a lemma), fairness of round robin and where it fails, the exact
    model list, the verdict of the doctor.
  \<^item> Data plane: nothing happens without a key that allows it; each upstream call goes to one target of the plan, with its URL, its body and
    only its credential; failover goes in order, with at most one call per member; every request that reaches the handler leaves one record
    with exactly its status, wire, model and principal; bodies are rewritten exactly; end-to-end headers are relayed, hop-by-hop headers removed
    but for those only a later \<open>Connection\<close> value names; streams are relayed line by line, without a flush; the id of a video poll becomes
    part of the upstream URL as it is.
  \<^item> Process: which starts leave a store open (two errors do); draining is safe in every reachable state and ends; no exporter is leaked, and
    where metrics go is known.
  \<^item> OAuth: what a refresh answers and stores for every reply and every fate of its writes; the device flow ends.

  \<^bold>\<open>Loops and bounds.\<close> Loops are structural recursions, except: \<open>strip_front\<close>, \<open>ReplaceAll\<close> and \<open>dur_groups\<close>, which are total by a
  measure on the rest of the text; the JSON parser, whose fuel \<open>json_fuel\<close> is twice the length of the text plus two, and
  which gives the same result with any larger fuel (lemma \<open>pval_enough\<close>); and the polling loop of the device flow, which may run for ever and is
  an option: it is proved to return when the clock passes the deadline. \<^verbatim>\<open>Drain\<close> proves by a measure that every run of the drain is
  finite. The order of a Go map is the order of the list; theorems that speak of maps either hold for
  every order or say which part depends on it.

  \<^bold>\<open>Not modelled.\<close> The listeners, TLS and connection handling of \<^verbatim>\<open>net/http\<close>; the SQL driver (tables are lists of rows, each statement may fail);
  the yaml decoder; argon2, AES-GCM and SHA-256; OpenTelemetry (exporters, spans, propagators and their header carrier; its meters are
  taken to give every instrument they are asked for); \<^verbatim>\<open>NewClient\<close>, which sets up a transport; contexts, except where a loop looks at
  them; the texts of usage and error messages on standard error. Type aliases (\<^verbatim>\<open>gateway/config_export.go\<close>), package comments and the helper of the
  tests have no behaviour. The request target \<^verbatim>\<open>*\<close>, which \<^verbatim>\<open>net/http\<close> refuses before any route; letters outside ASCII in \<^verbatim>\<open>strings.ToLower\<close>;
  calls of \<^verbatim>\<open>Init\<close> and \<^verbatim>\<open>Shutdown\<close> of the telemetry that overlap. The routes of a \<^verbatim>\<open>DataMount\<close> are not under \<^verbatim>\<open>track\<close>, in the code and
  here. A handler of the data plane that panics (a damaged row of the vault makes \<^verbatim>\<open>Decrypt\<close> panic) ends
  its request without a reply or a record; the credential store of the engine is total, so the theorems about replies are for
  stores that return.
\<close>

end
